(* ===== verification/Prelude.thy ===== *)
theory Prelude
  imports Main "HOL-Library.Word" "HOL-Library.Monad_Syntax"
begin

text \<open>
  Shared vocabulary of the development: results of fallible Go functions, Go maps and the
  order in which a \<open>range\<close> loop visits them, and the generic lemmas the component
  theories rely on.

  A Go function that returns \<open>(T, error)\<close> is a HOL function into \<open>'e + 't\<close>: \<open>Inl e\<close> is a
  non-nil error, \<open>Inr v\<close> a nil error with the value \<open>v\<close>. A Go map is a partial function
  \<open>'k \<rightharpoonup> 'v\<close>. Go leaves the order of a \<open>range\<close> loop over a map to the runtime, so a function
  whose result depends on that order takes it as an argument: a list \<open>ks\<close> with
  \<open>iter_order ks m\<close>.
\<close>

unbundle bit_operations_syntax

named_theorems go_net \<open>facts about Go's net package\<close>
named_theorems ipam_simps \<open>unfolding rules of the IPAM operations\<close>
named_theorems inv_intros \<open>preservation lemmas of the component invariants\<close>

section \<open>Errors\<close>

text \<open>Error values are the text of the message, without its arguments, where the code builds
  them with \<open>fmt.Errorf\<close>.\<close>

type_synonym err = string

fun is_err :: "'e + 'a \<Rightarrow> bool" where
  "is_err (Inl _) = True"
| "is_err (Inr _) = False"

lemma is_err_iff: "is_err r \<longleftrightarrow> (\<exists>e. r = Inl e)"
  by (cases r) auto

lemma not_is_err_iff: "\<not> is_err r \<longleftrightarrow> (\<exists>v. r = Inr v)"
  by (cases r) auto

section \<open>Maps and iteration orders\<close>

definition iter_order :: "'k list \<Rightarrow> ('k \<rightharpoonup> 'v) \<Rightarrow> bool" where
  "iter_order ks m \<longleftrightarrow> distinct ks \<and> set ks = dom m"

lemma iter_orderD [dest]:
  assumes "iter_order ks m"
  shows "distinct ks" "set ks = dom m"
  using assms by (auto simp: iter_order_def)

lemma iter_order_length: "iter_order ks m \<Longrightarrow> length ks = card (dom m)"
  by (auto simp: iter_order_def distinct_card [symmetric])

lemma iter_order_empty: "iter_order ks Map.empty \<longleftrightarrow> ks = []"
  by (auto simp: iter_order_def)

text \<open>A set kept in a Go \<open>map[string]struct{}\<close> is a HOL set.\<close>

lemma map_delete_dom: "dom (m(k := None)) = dom m - {k}"
  by simp

lemma ran_delete_subset: "ran (m(k := None)) \<subseteq> ran m"
  by (auto simp: ran_def split: if_splits)

text \<open>The sum of a quantity over the entries of a map.\<close>

definition total :: "('v \<Rightarrow> int) \<Rightarrow> ('k \<rightharpoonup> 'v) \<Rightarrow> int" where
  "total f m = (\<Sum>k\<in>dom m. f (the (m k)))"

lemma total_empty [simp]: "total f Map.empty = 0"
  by (simp add: total_def)

lemma total_delete:
  assumes "finite (dom m)"
  shows "total f (m(k := None)) = total f m - (case m k of None \<Rightarrow> 0 | Some v \<Rightarrow> f v)"
proof -
  have "(\<Sum>x\<in>dom m - {k}. f (the ((m(k := None)) x))) = (\<Sum>x\<in>dom m - {k}. f (the (m x)))"
    by (rule sum.cong) auto
  then show ?thesis
    using assms by (auto simp: total_def sum_diff1 split: option.split)
qed

lemma total_update:
  assumes "finite (dom m)"
  shows "total f (m(k \<mapsto> v)) = total f m - (case m k of None \<Rightarrow> 0 | Some x \<Rightarrow> f x) + f v"
proof -
  have "total f (m(k \<mapsto> v)) = f v + total f (m(k := None))"
  proof -
    have "(\<Sum>x\<in>dom m - {k}. f (the ((m(k \<mapsto> v)) x))) = (\<Sum>x\<in>dom m - {k}. f (the ((m(k := None)) x)))"
      by (rule sum.cong) auto
    then show ?thesis using assms by (simp add: total_def sum.insert_remove)
  qed
  then show ?thesis using total_delete [OF assms, of f k] by simp
qed

lemma total_ge:
  assumes "finite (dom m)" "\<And>k v. m k = Some v \<Longrightarrow> 0 \<le> f v" "m k = Some v"
  shows "f v \<le> total f m"
proof -
  have "0 \<le> total f (m(k := None))"
    unfolding total_def by (rule sum_nonneg) (auto simp: assms(2) split: if_splits)
  then show ?thesis using total_delete [OF assms(1), of f k] assms(3) by simp
qed

lemma total_nonneg:
  "(\<And>k v. m k = Some v \<Longrightarrow> 0 \<le> f v) \<Longrightarrow> 0 \<le> total f m"
  unfolding total_def by (rule sum_nonneg) auto

section \<open>Lists\<close>

lemma find_Some_iff_prefix:
  "List.find P xs = Some x \<longleftrightarrow>
   (\<exists>ys zs. xs = ys @ x # zs \<and> P x \<and> (\<forall>y\<in>set ys. \<not> P y))"
proof (induction xs)
  case Nil
  then show ?case by simp
next
  case (Cons a xs)
  show ?case
  proof (cases "P a")
    case True
    then show ?thesis by (auto simp: Cons_eq_append_conv)
  next
    case False
    with Cons.IH show ?thesis
      by (auto simp: Cons_eq_append_conv) (metis append_Cons set_ConsD)
  qed
qed

lemma sum_list_update_eq:
  fixes f :: "'a \<Rightarrow> int"
  assumes "i < length xs"
  shows "sum_list (map f (xs[i := y])) = sum_list (map f xs) - f (xs ! i) + f y"
  using assms by (induction xs arbitrary: i) (auto split: nat.splits)

lemma sum_list_nonneg_map:
  fixes f :: "'a \<Rightarrow> int"
  assumes "\<And>x. x \<in> set xs \<Longrightarrow> 0 \<le> f x"
  shows "0 \<le> sum_list (map f xs)"
  using assms by (induction xs) auto

section \<open>Machine integers\<close>

text \<open>Go's \<open>int\<close> has 64 bits; \<open>go_int\<close> is the value an arithmetic operation leaves in it. It is
  written out where the operands come from a specification a user can set.\<close>

definition go_int :: "int \<Rightarrow> int" where
  "go_int x = (x + 2 ^ 63) mod 2 ^ 64 - 2 ^ 63"

lemma go_int_id: "- (2 ^ 63) \<le> x \<Longrightarrow> x < 2 ^ 63 \<Longrightarrow> go_int x = x"
  by (simp add: go_int_def)

lemma go_int_range: "- (2 ^ 63) \<le> go_int x" "go_int x < 2 ^ 63"
  by (simp_all add: go_int_def)

text \<open>The word of the operation: two's complement addition and subtraction.\<close>

lemma go_int_word: "go_int x = sint (word_of_int x :: 64 word)"
  by (simp add: go_int_def sint_sbintrunc' signed_take_bit_eq_take_bit_shift take_bit_eq_mod)

end
