(* ===== verification/GoNet.thy ===== *)
theory GoNet
  imports Prelude
begin

text \<open>
  The part of Go's standard packages \<open>net\<close> and \<open>bytes\<close> that the modelled code calls:
  addresses and masks as byte slices, \<open>To4\<close>, \<open>To16\<close>, \<open>Equal\<close>, \<open>Mask\<close>, \<open>CIDRMask\<close>,
  \<open>Mask.Size\<close>, \<open>IPNet.Contains\<close>, \<open>bytes.Compare\<close>, and the textual forms
  \<open>ParseIP\<close>, \<open>ParseCIDR\<close>, \<open>IP.String\<close> and \<open>IPNet.String\<close>. A nil slice is the empty list.
\<close>

type_synonym byte = "8 word"
type_synonym ip = "byte list"

record ipnet =
  IP :: ip
  Mask :: "byte list"

section \<open>Addresses\<close>

definition v4InV6Prefix :: ip where
  "v4InV6Prefix = replicate 10 0 @ [0xff, 0xff]"

definition to4 :: "ip \<Rightarrow> ip option" where
  "to4 a = (if length a = 4 then Some a
            else if length a = 16 \<and> take 12 a = v4InV6Prefix then Some (drop 12 a)
            else None)"

definition to16 :: "ip \<Rightarrow> ip option" where
  "to16 a = (if length a = 4 then Some (v4InV6Prefix @ a)
             else if length a = 16 then Some a
             else None)"

definition ip_equal :: "ip \<Rightarrow> ip \<Rightarrow> bool" where
  "ip_equal a b =
     (if length a = length b then a = b
      else if length a = 4 \<and> length b = 16 then take 12 b = v4InV6Prefix \<and> a = drop 12 b
      else if length a = 16 \<and> length b = 4 then take 12 a = v4InV6Prefix \<and> drop 12 a = b
      else False)"

text \<open>\<open>bytes.Compare\<close>: lexicographic, a proper prefix is smaller.\<close>

fun bytes_compare :: "byte list \<Rightarrow> byte list \<Rightarrow> int" where
  "bytes_compare [] [] = 0"
| "bytes_compare [] (_ # _) = -1"
| "bytes_compare (_ # _) [] = 1"
| "bytes_compare (a # as) (b # bs) =
     (if a < b then -1 else if b < a then 1 else bytes_compare as bs)"

section \<open>Masks\<close>

fun cidr_mask_bytes :: "nat \<Rightarrow> nat \<Rightarrow> byte list" where
  "cidr_mask_bytes 0 n = []"
| "cidr_mask_bytes (Suc l) n =
     (if n \<ge> 8 then 0xff # cidr_mask_bytes l (n - 8)
      else NOT (drop_bit n 0xff) # cidr_mask_bytes l 0)"

definition CIDRMask :: "int \<Rightarrow> int \<Rightarrow> byte list" where
  "CIDRMask ones bits =
     (if bits \<noteq> 32 \<and> bits \<noteq> 128 then []
      else if ones < 0 \<or> ones > bits then []
      else cidr_mask_bytes (nat (bits div 8)) (nat ones))"

fun leading_ones :: "nat \<Rightarrow> byte \<Rightarrow> nat \<times> byte" where
  "leading_ones 0 v = (0, v)"
| "leading_ones (Suc f) v =
     (if v AND 0x80 \<noteq> 0
      then (let (n, w) = leading_ones f (push_bit 1 v) in (Suc n, w))
      else (0, v))"

fun simpleMaskLength :: "byte list \<Rightarrow> nat option" where
  "simpleMaskLength [] = Some 0"
| "simpleMaskLength (v # vs) =
     (if v = 0xff then map_option (\<lambda>n. n + 8) (simpleMaskLength vs)
      else (let (n, w) = leading_ones 8 v in
            if w \<noteq> 0 \<or> (\<exists>b \<in> set vs. b \<noteq> 0) then None else Some n))"

definition mask_size :: "byte list \<Rightarrow> int \<times> int" where
  "mask_size m = (case simpleMaskLength m of None \<Rightarrow> (0, 0)
                  | Some n \<Rightarrow> (int n, int (length m) * 8))"

definition ip_mask :: "ip \<Rightarrow> byte list \<Rightarrow> ip" where
  "ip_mask a m =
     (let m' = (if length m = 16 \<and> length a = 4 \<and> take 12 m = replicate 12 0xff
                then drop 12 m else m);
          a' = (if length m' = 4 \<and> length a = 16 \<and> take 12 a = v4InV6Prefix
                then drop 12 a else a)
      in if length a' \<noteq> length m' then [] else map2 (AND) a' m')"

section \<open>Networks\<close>

definition networkNumberAndMask :: "ipnet \<Rightarrow> (ip \<times> byte list) option" where
  "networkNumberAndMask n =
     (let a = (case to4 (IP n) of Some x \<Rightarrow> x | None \<Rightarrow> IP n); m = Mask n in
      if length a \<noteq> 4 \<and> length a \<noteq> 16 then None
      else if length m = 4 then (if length a \<noteq> 4 then None else Some (a, m))
      else if length m = 16 then Some (a, if length a = 4 then drop 12 m else m)
      else None)"

definition net_contains :: "ipnet \<Rightarrow> ip \<Rightarrow> bool" where
  "net_contains n a =
     (case networkNumberAndMask n of
        None \<Rightarrow> (case to4 a of Some x \<Rightarrow> x | None \<Rightarrow> a) = []
      | Some (nn, m) \<Rightarrow>
          (let b = (case to4 a of Some x \<Rightarrow> x | None \<Rightarrow> a) in
           length b = length nn \<and> map2 (AND) nn m = map2 (AND) b m))"

section \<open>Text\<close>

definition digit_char :: "nat \<Rightarrow> char" where
  "digit_char d = ''0123456789abcdef'' ! d"

fun digits_in :: "nat \<Rightarrow> nat \<Rightarrow> string" where
  "digits_in base n =
     (if base < 2 \<or> n < base then [digit_char n]
      else digits_in base (n div base) @ [digit_char (n mod base)])"

declare digits_in.simps [simp del]

definition dec_string :: "nat \<Rightarrow> string" where
  "dec_string n = digits_in 10 n"

definition int_string :: "int \<Rightarrow> string" where
  "int_string i = (if i < 0 then ''-'' @ dec_string (nat (- i)) else dec_string (nat i))"

definition hex_string :: "nat \<Rightarrow> string" where
  "hex_string n = digits_in 16 n"

fun join :: "string \<Rightarrow> string list \<Rightarrow> string" where
  "join sep [] = []"
| "join sep [x] = x"
| "join sep (x # y # zs) = x @ sep @ join sep (y # zs)"

definition ipv4_string :: "ip \<Rightarrow> string" where
  "ipv4_string a = join ''.'' (map (\<lambda>b. dec_string (unat b)) a)"

fun groups16 :: "byte list \<Rightarrow> nat list" where
  "groups16 (x # y # zs) = (unat x * 256 + unat y) # groups16 zs"
| "groups16 _ = []"

definition zero_run :: "nat list \<Rightarrow> nat" where
  "zero_run gs = length (takeWhile (\<lambda>g. g = 0) gs)"

text \<open>The first longest run of at least two zero groups, as (start, end).\<close>

definition best_zero_run :: "nat list \<Rightarrow> (nat \<times> nat) option" where
  "best_zero_run gs =
     fold (\<lambda>i best. let l = zero_run (drop i gs);
                        old = (case best of None \<Rightarrow> 0 | Some (s, e) \<Rightarrow> e - s)
                    in if l \<ge> 2 \<and> l > old then Some (i, i + l) else best)
          [0..<length gs] None"

definition ipv6_string :: "ip \<Rightarrow> string" where
  "ipv6_string a =
     (let gs = groups16 a; hs = map hex_string gs in
      case best_zero_run gs of
        None \<Rightarrow> join '':'' hs
      | Some (s, e) \<Rightarrow> join '':'' (take s hs) @ ''::'' @ join '':'' (drop e hs))"

definition ip_string :: "ip \<Rightarrow> string" where
  "ip_string a =
     (if a = [] then ''<nil>''
      else case to4 a of
        Some b \<Rightarrow> ipv4_string b
      | None \<Rightarrow> if length a = 16 then ipv6_string a
               else ''?'' @ concat (map (\<lambda>b. hex_string (unat b div 16) @ hex_string (unat b mod 16)) a))"

definition ipnet_string :: "ipnet \<Rightarrow> string" where
  "ipnet_string n =
     (case networkNumberAndMask n of
        None \<Rightarrow> ''<nil>''
      | Some (nn, m) \<Rightarrow>
          (case simpleMaskLength m of
             None \<Rightarrow> ip_string nn @ ''/'' @
               concat (map (\<lambda>b. hex_string (unat b div 16) @ hex_string (unat b mod 16)) m)
           | Some l \<Rightarrow> ip_string nn @ ''/'' @ dec_string l))"

definition dec_digit :: "char \<Rightarrow> nat option" where
  "dec_digit c = (let k = of_char c in if 48 \<le> k \<and> k \<le> (57::nat) then Some (k - 48) else None)"

definition hex_digit :: "char \<Rightarrow> nat option" where
  "hex_digit c = (let k = of_char c in
     if 48 \<le> k \<and> k \<le> (57::nat) then Some (k - 48)
     else if 97 \<le> k \<and> k \<le> 102 then Some (k - 87)
     else if 65 \<le> k \<and> k \<le> 70 then Some (k - 55)
     else None)"

fun split_on :: "char \<Rightarrow> string \<Rightarrow> string list" where
  "split_on c [] = [[]]"
| "split_on c (x # xs) =
     (if x = c then [] # split_on c xs
      else case split_on c xs of [] \<Rightarrow> [[x]] | y # ys \<Rightarrow> (x # y) # ys)"

fun dec_value :: "nat \<Rightarrow> string \<Rightarrow> nat option" where
  "dec_value acc [] = Some acc"
| "dec_value acc (c # cs) =
     (case dec_digit c of None \<Rightarrow> None | Some d \<Rightarrow> dec_value (acc * 10 + d) cs)"

text \<open>A field of a dotted address: digits only, no leading zero, at most 255.\<close>

definition parse_octet :: "string \<Rightarrow> byte option" where
  "parse_octet s =
     (if s = [] \<or> (length s > 1 \<and> hd s = CHR ''0'') then None
      else case dec_value 0 s of
        None \<Rightarrow> None
      | Some v \<Rightarrow> if v > 255 then None else Some (of_nat v))"

definition parse_ipv4 :: "string \<Rightarrow> ip option" where
  "parse_ipv4 s =
     (let fs = split_on (CHR ''.'') s in
      if length fs \<noteq> 4 then None
      else if list_all (\<lambda>f. parse_octet f \<noteq> None) fs
           then Some (map (\<lambda>f. the (parse_octet f)) fs) else None)"

definition hex_run :: "string \<Rightarrow> string" where
  "hex_run s = takeWhile (\<lambda>c. hex_digit c \<noteq> None) s"

definition hex_rest :: "string \<Rightarrow> string" where
  "hex_rest s = dropWhile (\<lambda>c. hex_digit c \<noteq> None) s"

fun hex_value :: "nat \<Rightarrow> string \<Rightarrow> nat" where
  "hex_value acc [] = acc"
| "hex_value acc (c # cs) = hex_value (acc * 16 + the (hex_digit c)) cs"

definition chunk16 :: "nat \<Rightarrow> byte list" where
  "chunk16 acc = [of_nat (acc div 256), of_nat (acc mod 256)]"

text \<open>The loop of \<open>netip.parseIPv6\<close>: the bytes read so far, the position of the ellipsis, the
  text left. At most eight groups are read, so the fuel 8 is enough.\<close>

fun parse_v6_groups :: "nat \<Rightarrow> byte list \<Rightarrow> nat option \<Rightarrow> string
    \<Rightarrow> (byte list \<times> nat option \<times> string) option" where
  "parse_v6_groups 0 bs ell s = Some (bs, ell, s)"
| "parse_v6_groups (Suc f) bs ell s =
     (if length bs \<ge> 16 then Some (bs, ell, s)
      else if hex_run s = [] \<or> length (hex_run s) > 4 then None
      else if hex_rest s \<noteq> [] \<and> hd (hex_rest s) = CHR ''.'' then
        (if (ell = None \<and> length bs \<noteq> 12) \<or> length bs + 4 > 16 then None
         else if parse_ipv4 s = None then None
         else Some (bs @ the (parse_ipv4 s), ell, []))
      else if hex_rest s = [] then Some (bs @ chunk16 (hex_value 0 (hex_run s)), ell, [])
      else if hd (hex_rest s) \<noteq> CHR '':'' \<or> tl (hex_rest s) = [] then None
      else if hd (tl (hex_rest s)) = CHR '':'' then
        (if ell \<noteq> None then None
         else if tl (tl (hex_rest s)) = []
         then Some (bs @ chunk16 (hex_value 0 (hex_run s)), Some (length bs + 2), [])
         else parse_v6_groups f (bs @ chunk16 (hex_value 0 (hex_run s))) (Some (length bs + 2))
                (tl (tl (hex_rest s))))
      else parse_v6_groups f (bs @ chunk16 (hex_value 0 (hex_run s))) ell (tl (hex_rest s)))"

declare parse_v6_groups.simps [simp del]

definition parse_ipv6 :: "string \<Rightarrow> ip option" where
  "parse_ipv6 s =
     (let lead = (take 2 s = ''::''); s' = (if lead then drop 2 s else s) in
      if lead \<and> s' = [] then Some (replicate 16 0)
      else case parse_v6_groups 8 [] (if lead then Some 0 else None) s' of
        None \<Rightarrow> None
      | Some (bs, ell, rest) \<Rightarrow>
          if rest \<noteq> [] then None
          else if length bs < 16 then
            (case ell of None \<Rightarrow> None
             | Some e \<Rightarrow> Some (take e bs @ replicate (16 - length bs) 0 @ drop e bs))
          else if ell \<noteq> None then None
          else Some bs)"

text \<open>\<open>net.ParseIP\<close>: the first dot or colon decides the family; the result has 16 bytes.\<close>

definition ParseIP :: "string \<Rightarrow> ip option" where
  "ParseIP s =
     (case List.find (\<lambda>c. c = CHR ''.'' \<or> c = CHR '':'') s of
        None \<Rightarrow> None
      | Some c \<Rightarrow> if c = CHR ''.'' then map_option (\<lambda>q. v4InV6Prefix @ q) (parse_ipv4 s)
                 else parse_ipv6 s)"

text \<open>\<open>net.ParseCIDR\<close>: the address as written and the network it belongs to.\<close>

definition ParseCIDR :: "string \<Rightarrow> (ip \<times> ipnet) option" where
  "ParseCIDR s =
     (let a = takeWhile (\<lambda>c. c \<noteq> CHR ''/'') s; r = dropWhile (\<lambda>c. c \<noteq> CHR ''/'') s in
      if r = [] \<or> tl r = [] then None
      else case (ParseIP a, dec_value 0 (tl r)) of
        (Some ip16, Some n) \<Rightarrow>
          (let bits = (if CHR '':'' \<in> set a then 128 else 32) in
           if n > bits then None
           else let m = CIDRMask (int n) (int bits)
                in Some (ip16, \<lparr>IP = ip_mask ip16 m, Mask = m\<rparr>))
      | _ \<Rightarrow> None)"

section \<open>Evaluation on concrete values\<close>

text \<open>Unfolding rules with numerals in place of successors, so that \<open>simp\<close> evaluates the
  functions above on concrete addresses (\<open>simp add: go_eval\<close>).\<close>

named_theorems go_eval \<open>evaluation of the net package on concrete values\<close>

lemma replicate_numeral_eval [go_eval]:
  "replicate (numeral k) x = x # replicate (pred_numeral k) x"
  by (simp add: numeral_eq_Suc)

lemma cidr_mask_bytes_numeral [go_eval]:
  "cidr_mask_bytes (numeral k) n =
     (if n \<ge> 8 then 0xff # cidr_mask_bytes (pred_numeral k) (n - 8)
      else NOT (drop_bit n 0xff) # cidr_mask_bytes (pred_numeral k) 0)"
  by (simp add: numeral_eq_Suc)

lemma leading_ones_numeral [go_eval]:
  "leading_ones (numeral k) v =
     (if v AND 0x80 \<noteq> 0
      then (let (n, w) = leading_ones (pred_numeral k) (push_bit 1 v) in (Suc n, w))
      else (0, v))"
  by (simp add: numeral_eq_Suc)

lemmas parse_v6_groups_numeral [go_eval] =
  parse_v6_groups.simps(2) [of "pred_numeral k" for k, folded numeral_eq_Suc]

lemmas parse_v6_groups_eval [go_eval] = parse_v6_groups.simps hex_run_def hex_rest_def

lemmas go_text_defs [go_eval] =
  digits_in.simps digit_char_def dec_string_def hex_string_def int_string_def
  ipv4_string_def ipv6_string_def ip_string_def ipnet_string_def best_zero_run_def zero_run_def
  dec_digit_def hex_digit_def chunk16_def parse_octet_def parse_ipv4_def parse_ipv6_def ParseIP_def
  ParseCIDR_def

lemmas go_addr_defs [go_eval] =
  v4InV6Prefix_def to4_def to16_def ip_equal_def CIDRMask_def mask_size_def ip_mask_def
  networkNumberAndMask_def net_contains_def

section \<open>The text of an address shows its family\<close>

definition v4_chars :: "char set" where
  "v4_chars = set ''0123456789.''"

lemma digits_in_10_chars: "set (digits_in 10 n) \<subseteq> v4_chars"
proof (induction n rule: less_induct)
  case (less n)
  have d: "digit_char k \<in> v4_chars" if "k < 10" for k
  proof -
    have "k \<in> {0, 1, 2, 3, 4, 5, 6, 7, 8, 9}" using that by auto
    then show ?thesis by (auto simp: digit_char_def v4_chars_def)
  qed
  show ?case
    using less [of "n div 10"] d by (subst digits_in.simps) auto
qed

lemma join_chars: "set (join sep xs) \<subseteq> set sep \<union> (\<Union>x\<in>set xs. set x)"
  by (induction sep xs rule: join.induct) auto

lemma join_sep: "2 \<le> length xs \<Longrightarrow> set sep \<subseteq> set (join sep xs)"
  by (induction sep xs rule: join.induct) auto

lemma ipv4_string_chars: "set (ipv4_string a) \<subseteq> v4_chars"
proof -
  have "(\<Union>x\<in>set (map (\<lambda>b. dec_string (unat b)) a). set x) \<subseteq> v4_chars"
    using digits_in_10_chars by (auto simp: dec_string_def)
  moreover have "set ''.'' \<subseteq> v4_chars" by (simp add: v4_chars_def)
  ultimately show ?thesis using join_chars [of "''.''" "map (\<lambda>b. dec_string (unat b)) a"]
    unfolding ipv4_string_def by blast
qed

lemma groups16_length: "length (groups16 a) = length a div 2"
  by (induction a rule: groups16.induct) auto

lemma ip_string_family:
  "to4 a \<noteq> None \<longleftrightarrow> set (ip_string a) \<subseteq> v4_chars"
proof (cases "to4 a")
  case None
  have nil: "CHR ''<'' \<notin> v4_chars" "CHR '':'' \<notin> v4_chars" "CHR ''?'' \<notin> v4_chars"
    by (auto simp: v4_chars_def)
  consider "a = []" | "a \<noteq> []" "length a = 16" | "a \<noteq> []" "length a \<noteq> 16" by blast
  then have "\<exists>c\<in>set (ip_string a). c \<notin> v4_chars"
  proof cases
    assume "a = []"
    then show ?thesis using nil by (simp add: ip_string_def)
  next
    assume a: "a \<noteq> []" "length a = 16"
    then have "length (map hex_string (groups16 a)) = 8" by (simp add: groups16_length)
    then have "set '':'' \<subseteq> set (join '':'' (map hex_string (groups16 a)))"
      by (intro join_sep) simp
    then have "CHR '':'' \<in> set (ipv6_string a)"
      by (auto simp: ipv6_string_def Let_def split: option.splits prod.splits)
    then show ?thesis using a nil None by (auto simp: ip_string_def)
  next
    assume "a \<noteq> []" "length a \<noteq> 16"
    then show ?thesis using nil None by (simp add: ip_string_def)
  qed
  then show ?thesis using None by auto
next
  case (Some b)
  then have "a \<noteq> []" by (auto simp: to4_def)
  then show ?thesis using Some ipv4_string_chars by (simp add: ip_string_def)
qed

lemma ip_string_eq_family: "ip_string a = ip_string b \<Longrightarrow> (to4 a = None) = (to4 b = None)"
  using ip_string_family [of a] ip_string_family [of b] by auto

text \<open>Two networks without a common address; addresses are compared by their text, which is the
  same for the two forms of an IPv4 address.\<close>

definition nets_disjoint :: "ipnet \<Rightarrow> ipnet \<Rightarrow> bool" where
  "nets_disjoint m n \<longleftrightarrow>
     (\<forall>a b. net_contains m a \<and> net_contains n b \<longrightarrow> ip_string a \<noteq> ip_string b)"

definition net_ips :: "ipnet \<Rightarrow> string set" where
  "net_ips n = {ip_string a |a. net_contains n a}"

lemma nets_disjoint_ips: "nets_disjoint m n \<longleftrightarrow> net_ips m \<inter> net_ips n = {}"
  by (auto simp: nets_disjoint_def net_ips_def)

end
