(* ===== verification/IPRange.thy ===== *)
theory IPRange
  imports GoNet
begin

text \<open>
  \<open>pkg/ip/ip.go\<close>, lines 950 to 1169: \<open>IPRangeToCIDRs\<close>, which splits an address range into
  CIDR blocks for the VPC's IP reservation, with its IPv4 loop over \<open>uint32\<close> and its IPv6
  loop over 16 bytes. The loops may not end (the counter wraps past the last address), so
  they are \<^theory_text>\<open>partial_function (option)\<close>: \<open>None\<close> is a call that does not return.
\<close>

datatype range_error = NilIP | FamilyMismatch | StartGreater | InvalidIPv6

section \<open>Definitions\<close>

subsection \<open>IPv4\<close>

definition ipToUint32 :: "ip \<Rightarrow> 32 word" where
  "ipToUint32 a =
     (case to4 a of None \<Rightarrow> 0
      | Some b \<Rightarrow> push_bit 24 (ucast (b ! 0)) OR push_bit 16 (ucast (b ! 1)) OR
                push_bit 8 (ucast (b ! 2)) OR ucast (b ! 3))"

definition uint32ToIP :: "32 word \<Rightarrow> ip" where
  "uint32ToIP n =
     v4InV6Prefix @ [ucast (drop_bit 24 n), ucast (drop_bit 16 n), ucast (drop_bit 8 n), ucast n]"

definition blockSize4 :: "nat \<Rightarrow> 32 word" where
  "blockSize4 sz = push_bit (32 - sz) 1"

text \<open>The inner loop of \<open>ipv4RangeToCIDRs\<close> over the prefix lengths still to try.\<close>

fun findSize4 :: "32 word \<Rightarrow> 32 word \<Rightarrow> nat list \<Rightarrow> nat" where
  "findSize4 startInt endInt [] = 32"
| "findSize4 startInt endInt (sz # szs) =
     (if startInt mod blockSize4 sz \<noteq> 0 then findSize4 startInt endInt szs
      else if startInt + blockSize4 sz - 1 > endInt then findSize4 startInt endInt szs
      else sz)"

definition maxSize4 :: "32 word \<Rightarrow> 32 word \<Rightarrow> nat" where
  "maxSize4 startInt endInt = findSize4 startInt endInt [1..<33]"

definition cidr4_string :: "32 word \<Rightarrow> nat \<Rightarrow> string" where
  "cidr4_string a sz = ip_string (uint32ToIP a) @ ''/'' @ dec_string sz"

partial_function (option) ipv4Loop ::
    "32 word \<Rightarrow> 32 word \<Rightarrow> string list \<Rightarrow> string list option" where
  "ipv4Loop startInt endInt cidrs =
     (if startInt \<le> endInt
      then ipv4Loop (startInt + blockSize4 (maxSize4 startInt endInt)) endInt
             (cidrs @ [cidr4_string startInt (maxSize4 startInt endInt)])
      else Some cidrs)"

definition ipv4RangeToCIDRs :: "ip \<Rightarrow> ip \<Rightarrow> (range_error + string list) option" where
  "ipv4RangeToCIDRs start end' =
     (if ipToUint32 start > ipToUint32 end' then Some (Inl StartGreater)
      else map_option Inr (ipv4Loop (ipToUint32 start) (ipToUint32 end') []))"

subsection \<open>IPv6\<close>

fun bytesCompare :: "byte list \<Rightarrow> byte list \<Rightarrow> int" where
  "bytesCompare (a # as) (b # bs) =
     (if a < b then -1 else if a > b then 1 else bytesCompare as bs)"
| "bytesCompare _ _ = 0"

definition isAligned :: "byte list \<Rightarrow> nat \<Rightarrow> bool" where
  "isAligned ip prefixLen =
     (if prefixLen = 0 then True
      else let bytesToCheck = (128 - prefixLen) div 8; bitsToCheck = (128 - prefixLen) mod 8 in
        (\<forall>i \<in> set [16 - bytesToCheck..<16]. ip ! i = 0) \<and>
        (bitsToCheck > 0 \<longrightarrow>
          (ip ! (16 - bytesToCheck - 1)) AND (push_bit bitsToCheck 1 - 1) = 0))"

text \<open>The loop of \<open>getBlockEnd\<close>, from the last byte backwards: the bytes in reverse order and
  the number of bits still to set.\<close>

fun setTrailing :: "byte list \<Rightarrow> nat \<Rightarrow> byte list" where
  "setTrailing [] bitsToSet = []"
| "setTrailing (b # bs) bitsToSet =
     (if bitsToSet = 0 then b # bs
      else if bitsToSet \<ge> 8 then 0xFF # setTrailing bs (bitsToSet - 8)
      else (b OR (push_bit bitsToSet 1 - 1)) # bs)"

definition getBlockEnd :: "byte list \<Rightarrow> nat \<Rightarrow> byte list" where
  "getBlockEnd ip prefixLen = rev (setTrailing (rev ip) (128 - prefixLen))"

text \<open>\<open>incrementIP\<close> over the reversed bytes: the new bytes and whether no overflow happened.\<close>

fun incRev :: "byte list \<Rightarrow> byte list \<times> bool" where
  "incRev [] = ([], False)"
| "incRev (b # bs) =
     (if b + 1 \<noteq> 0 then ((b + 1) # bs, True)
      else ((b + 1) # fst (incRev bs), snd (incRev bs)))"

definition incrementIP :: "byte list \<Rightarrow> byte list \<times> bool" where
  "incrementIP ip = (rev (fst (incRev (rev ip))), snd (incRev (rev ip)))"

text \<open>The carry loop of \<open>addToIP\<close>, over the bytes from \<open>byteIdx\<close> down to 0.\<close>

fun addCarryRev :: "byte list \<Rightarrow> byte \<Rightarrow> byte list" where
  "addCarryRev [] carry = []"
| "addCarryRev (b # bs) carry =
     (let sum = ucast b + ucast carry :: 16 word; c' = ucast (drop_bit 8 sum) :: byte in
      if c' = 0 then ucast sum # bs else ucast sum # addCarryRev bs c')"

definition addToIP :: "byte list \<Rightarrow> nat \<Rightarrow> byte list" where
  "addToIP ip bits =
     (if bits = 0 \<or> bits > 128 then ip
      else let byteIdx = 15 - int (bits div 8) in
        if byteIdx < 0 then ip
        else rev (addCarryRev (rev (take (Suc (nat byteIdx)) ip)) (push_bit (bits mod 8) 1))
             @ drop (Suc (nat byteIdx)) ip)"

fun findPrefix6 :: "byte list \<Rightarrow> byte list \<Rightarrow> nat list \<Rightarrow> nat" where
  "findPrefix6 current endBytes [] = 128"
| "findPrefix6 current endBytes (p # ps) =
     (if \<not> isAligned current p then findPrefix6 current endBytes ps
      else if bytesCompare (getBlockEnd current p) endBytes > 0
      then findPrefix6 current endBytes ps
      else p)"

definition IPv6MinPrefixForIPReserve :: nat where
  "IPv6MinPrefixForIPReserve = 96"

definition maxPrefix6 :: "byte list \<Rightarrow> byte list \<Rightarrow> nat" where
  "maxPrefix6 current endBytes =
     findPrefix6 current endBytes [IPv6MinPrefixForIPReserve..<129]"

definition cidr6_string :: "byte list \<Rightarrow> nat \<Rightarrow> string" where
  "cidr6_string a p = ip_string a @ ''/'' @ dec_string p"

partial_function (option) ipv6Loop ::
    "byte list \<Rightarrow> byte list \<Rightarrow> string list \<Rightarrow> string list option" where
  "ipv6Loop current endBytes cidrs =
     (if bytesCompare current endBytes \<le> 0
      then (if maxPrefix6 current endBytes = 128
            then (if snd (incrementIP current)
                  then ipv6Loop (fst (incrementIP current)) endBytes
                         (cidrs @ [cidr6_string current 128])
                  else Some (cidrs @ [cidr6_string current 128]))
            else ipv6Loop (addToIP current (128 - maxPrefix6 current endBytes)) endBytes
                   (cidrs @ [cidr6_string current (maxPrefix6 current endBytes)]))
      else Some cidrs)"

definition ipv6RangeToCIDRs :: "ip \<Rightarrow> ip \<Rightarrow> (range_error + string list) option" where
  "ipv6RangeToCIDRs start end' =
     (case (to16 start, to16 end') of
        (Some s, Some e) \<Rightarrow>
          (if bytesCompare s e > 0 then Some (Inl StartGreater)
           else map_option Inr (ipv6Loop s e []))
      | _ \<Rightarrow> Some (Inl InvalidIPv6))"

subsection \<open>The entry point\<close>

definition IPRangeToCIDRs :: "ip \<Rightarrow> ip \<Rightarrow> (range_error + string list) option" where
  "IPRangeToCIDRs start end' =
     (if start = [] \<or> end' = [] then Some (Inl NilIP)
      else if (to4 start \<noteq> None) \<noteq> (to4 end' \<noteq> None) then Some (Inl FamilyMismatch)
      else if to4 start \<noteq> None then ipv4RangeToCIDRs start end'
      else ipv6RangeToCIDRs start end')"

section \<open>What a list of blocks must be\<close>

text \<open>Addresses as numbers; a block is its first address and its prefix length.
  \<open>tiles w n lo hi bs\<close>: the blocks \<open>bs\<close> of a \<open>w\<close>-bit address space, whose prefixes are at least
  \<open>n\<close>, follow each other from \<open>lo\<close> to just before \<open>hi\<close>, every block starts at a multiple of its
  size, and no shorter prefix (from \<open>n\<close> on) would be aligned and still fit.\<close>

fun tiles :: "nat \<Rightarrow> nat \<Rightarrow> nat \<Rightarrow> nat \<Rightarrow> (nat \<times> nat) list \<Rightarrow> bool" where
  "tiles w n lo hi [] \<longleftrightarrow> lo = hi"
| "tiles w n lo hi ((a, p) # bs) \<longleftrightarrow>
     a = lo \<and> n \<le> p \<and> p \<le> w \<and> 2 ^ (w - p) dvd a \<and> a + 2 ^ (w - p) \<le> hi \<and>
     (\<forall>q. n \<le> q \<and> q < p \<longrightarrow> \<not> (2 ^ (w - q) dvd a \<and> a + 2 ^ (w - q) \<le> hi)) \<and>
     tiles w n (a + 2 ^ (w - p)) hi bs"

lemma tiles_le: "tiles w n lo hi bs \<Longrightarrow> lo \<le> hi"
  by (induction w n lo hi bs rule: tiles.induct) auto

text \<open>A tiling covers exactly the addresses of the range, each one once.\<close>

definition block_addrs :: "nat \<Rightarrow> nat \<times> nat \<Rightarrow> nat set" where
  "block_addrs w b = {fst b ..< fst b + 2 ^ (w - snd b)}"

lemma tiles_cover: "tiles w n lo hi bs \<Longrightarrow> (\<Union>b\<in>set bs. block_addrs w b) = {lo..<hi}"
proof (induction w n lo hi bs rule: tiles.induct)
  case (1 w n lo hi)
  then show ?case by simp
next
  case (2 w n lo hi a p bs)
  then have "(\<Union>b\<in>set bs. block_addrs w b) = {a + 2 ^ (w - p)..<hi}" "a = lo"
      "a + 2 ^ (w - p) \<le> hi"
    by auto
  then show ?case by (auto simp: block_addrs_def)
qed

section \<open>The IPv4 loop\<close>

lemma blockSize4_unat:
  assumes "1 \<le> p" "p \<le> 32"
  shows "unat (blockSize4 p) = 2 ^ (32 - p)"
proof -
  have "unat (of_nat (2 ^ (32 - p)) :: 32 word) = 2 ^ (32 - p)"
    using assms power_strict_increasing [of "32 - p" 32 "2 :: nat"]
    by (simp only: unat_of_nat) simp
  then show ?thesis by (simp add: blockSize4_def push_bit_eq_mult)
qed

lemma block_fits4:
  assumes p: "1 \<le> p" "p \<le> 32" and al: "2 ^ (32 - p) dvd unat s"
  shows "unat (s + blockSize4 p - 1) = unat s + 2 ^ (32 - p) - 1"
proof -
  obtain k where k: "unat s = 2 ^ (32 - p) * k" using al by (elim dvdE)
  have bnd: "unat s < 2 ^ 32" using unsigned_less [of s] by simp
  have "2 ^ (32 - p) * k < 2 ^ (32 - p) * (2 ^ p :: nat)"
    using bnd k p by (simp flip: power_add)
  then have "k + 1 \<le> 2 ^ p" by simp
  then have "2 ^ (32 - p) * (k + 1) \<le> (2 ^ 32 :: nat)"
    using p mult_le_mono2 [of "k + 1" "2 ^ p" "2 ^ (32 - p)"] by (simp flip: power_add)
  then have le: "unat s + 2 ^ (32 - p) \<le> 2 ^ 32" using k by simp
  have "unat (blockSize4 p - 1) = 2 ^ (32 - p) - 1"
    using blockSize4_unat [OF p] by (simp add: unat_sub_if_size)
  moreover have "unat s + unat (blockSize4 p - 1) < 2 ^ LENGTH(32)"
    using le calculation by (simp add: Suc_le_eq less_diff_conv)
  ultimately show ?thesis by (simp add: unat_add_lem [THEN iffD1] flip: add_diff_eq)
qed

lemma findSize4_tests:
  assumes "1 \<le> p" "p \<le> 32"
  shows "(s mod blockSize4 p \<noteq> 0) = (\<not> 2 ^ (32 - p) dvd unat s)"
    and "2 ^ (32 - p) dvd unat s \<Longrightarrow>
         (s + blockSize4 p - 1 > e) = (unat s + 2 ^ (32 - p) > Suc (unat e))"
proof -
  show "(s mod blockSize4 p \<noteq> 0) = (\<not> 2 ^ (32 - p) dvd unat s)"
    using blockSize4_unat [OF assms] by (simp add: word_neq_0_conv unat_mod dvd_eq_mod_eq_0
        flip: unat_eq_0)
  show "2 ^ (32 - p) dvd unat s \<Longrightarrow>
         (s + blockSize4 p - 1 > e) = (unat s + 2 ^ (32 - p) > Suc (unat e))"
    using block_fits4 [OF assms] by (simp add: word_less_nat_alt less_diff_conv)
qed

text \<open>The first size that passes both tests, or 32.\<close>

lemma findSize4_spec:
  assumes "\<forall>p\<in>set szs. 1 \<le> p \<and> p \<le> 32" "s \<le> e"
    and "last szs = 32" "szs \<noteq> []" "sorted szs" "distinct szs"
  shows "findSize4 s e szs \<in> set szs \<and>
         2 ^ (32 - findSize4 s e szs) dvd unat s \<and>
         unat s + 2 ^ (32 - findSize4 s e szs) \<le> Suc (unat e) \<and>
         (\<forall>q\<in>set szs. q < findSize4 s e szs \<longrightarrow>
            \<not> (2 ^ (32 - q) dvd unat s \<and> unat s + 2 ^ (32 - q) \<le> Suc (unat e)))"
  using assms
proof (induction szs)
  case Nil
  then show ?case by simp
next
  case (Cons p szs)
  have p: "1 \<le> p" "p \<le> 32" using Cons.prems by auto
  note t = findSize4_tests(1) [OF p, of s] findSize4_tests(2) [OF p, of s e]
  show ?case
  proof (cases "2 ^ (32 - p) dvd unat s \<and> unat s + 2 ^ (32 - p) \<le> Suc (unat e)")
    case True
    then have "findSize4 s e (p # szs) = p" using t by simp
    moreover have "\<forall>q\<in>set (p # szs). p \<le> q" using Cons.prems by auto
    ultimately show ?thesis using True by auto
  next
    case False
    then have step: "findSize4 s e (p # szs) = findSize4 s e szs" using t by auto
    have "szs \<noteq> []"
    proof
      assume "szs = []"
      then have "p = 32" using Cons.prems by simp
      then show False using False Cons.prems(2) by (simp add: word_le_nat_alt)
    qed
    then show ?thesis using Cons.IH Cons.prems False step by auto
  qed
qed

lemma maxSize4_spec:
  assumes "s \<le> e"
  shows "1 \<le> maxSize4 s e" "maxSize4 s e \<le> 32"
    "2 ^ (32 - maxSize4 s e) dvd unat s"
    "unat s + 2 ^ (32 - maxSize4 s e) \<le> Suc (unat e)"
    "1 \<le> q \<Longrightarrow> q < maxSize4 s e \<Longrightarrow>
       \<not> (2 ^ (32 - q) dvd unat s \<and> unat s + 2 ^ (32 - q) \<le> Suc (unat e))"
proof -
  note spec = findSize4_spec [of "[1..<33]" s e, OF _ assms, folded maxSize4_def]
  show "1 \<le> maxSize4 s e" "maxSize4 s e \<le> 32" "2 ^ (32 - maxSize4 s e) dvd unat s"
    "unat s + 2 ^ (32 - maxSize4 s e) \<le> Suc (unat e)"
    using spec by auto
  assume q: "1 \<le> q" "q < maxSize4 s e"
  then have "q < 33" using spec by auto
  then show "\<not> (2 ^ (32 - q) dvd unat s \<and> unat s + 2 ^ (32 - q) \<le> Suc (unat e))"
    using spec q by auto
qed

definition blocks4_text :: "(nat \<times> nat) list \<Rightarrow> string list" where
  "blocks4_text bs = map (\<lambda>(a, p). cidr4_string (of_nat a) p) bs"

lemma ipv4Loop_tiles:
  assumes "unat s \<le> Suc (unat e)" "unat e < 2 ^ 32 - 1"
  shows "\<exists>bs. ipv4Loop s e cs = Some (cs @ blocks4_text bs) \<and>
              tiles 32 1 (unat s) (Suc (unat e)) bs"
  using assms
proof (induction "Suc (unat e) - unat s" arbitrary: s cs rule: less_induct)
  case less
  show ?case
  proof (cases "s \<le> e")
    case False
    then have "unat s = Suc (unat e)" using less.prems by (simp add: word_le_nat_alt)
    then show ?thesis using False
      by (intro exI [of _ "[]"]) (simp add: ipv4Loop.simps [of s] blocks4_text_def)
  next
    case True
    define p where "p = maxSize4 s e"
    define s' where "s' = s + blockSize4 p"
    note sp = maxSize4_spec [OF True, folded p_def]
    have pos: "(0::nat) < 2 ^ (32 - p)" by simp
    have "unat s + unat (blockSize4 p) < 2 ^ LENGTH(32)"
      using sp blockSize4_unat [OF sp(1,2)] less.prems(2) by simp
    then have s': "unat s' = unat s + 2 ^ (32 - p)"
      using blockSize4_unat [OF sp(1,2)] unfolding s'_def
      by (simp add: unat_add_lem [THEN iffD1])
    obtain bs where bs: "ipv4Loop s' e (cs @ [cidr4_string s p]) =
          Some ((cs @ [cidr4_string s p]) @ blocks4_text bs)"
        "tiles 32 1 (unat s') (Suc (unat e)) bs"
      using less.hyps [of s' "cs @ [cidr4_string s p]"] s' sp(4) less.prems(2) pos
      by (metis (no_types, lifting) add_le_cancel_left diff_less_mono2 le_add1 less_le_trans
          less_add_same_cancel1)
    have "ipv4Loop s e cs = Some (cs @ blocks4_text ((unat s, p) # bs))"
      using True bs(1) by (simp add: ipv4Loop.simps [of s] p_def s'_def blocks4_text_def)
    moreover have "tiles 32 1 (unat s) (Suc (unat e)) ((unat s, p) # bs)"
      using sp bs(2) s' by auto
    ultimately show ?thesis by blast
  qed
qed

text \<open>With the last address of the space as the end of the range, the counter wraps to 0
  before it passes the end: the loop has no result.\<close>

lemma ipv4Loop_diverges:
  "ipv4Loop s 0xFFFFFFFF cs = None"
proof -
  have all: "s \<le> 0xFFFFFFFF" for s :: "32 word"
  proof -
    have "unat s < 2 ^ LENGTH(32)" by (rule unsigned_less)
    then show ?thesis by (simp add: word_le_nat_alt)
  qed
  have "e \<noteq> 0xFFFFFFFF" if "ipv4Loop s e cs = Some r" for s e cs r
    by (rule ipv4Loop.raw_induct [of "\<lambda>s e cs r. e \<noteq> 0xFFFFFFFF", OF _ that])
       (use all in \<open>auto split: if_splits\<close>)
  then show ?thesis by (cases "ipv4Loop s 0xFFFFFFFF cs") auto
qed

section \<open>Byte strings as numbers\<close>

text \<open>Little end first on the reversed bytes; \<open>ip_val\<close> reads the bytes in network order.\<close>

fun rval :: "byte list \<Rightarrow> nat" where
  "rval [] = 0"
| "rval (b # bs) = unat b + 256 * rval bs"

definition ip_val :: "byte list \<Rightarrow> nat" where
  "ip_val a = rval (rev a)"

lemma byte_less [simp]: "unat (b :: byte) < 256"
  using unsigned_less [of b, where ?'a = nat] by simp

lemma byte_le [simp]: "unat (b :: byte) \<le> 255"
  using byte_less [of b] by linarith

lemma unat_byte_max: "unat (- 1 :: byte) = 255"
  by (simp add: unsigned_minus_1_eq_mask mask_eq_exp_minus_1)

lemma unat_ucast16: "unat (ucast (b :: byte) :: 16 word) = unat b"
  using byte_less [of b, THEN less_trans, of 65536]
  by (simp add: unsigned_ucast_eq take_bit_nat_eq_self)

lemma rval_append: "rval (as @ bs) = rval as + 256 ^ length as * rval bs"
  by (induction as) (auto simp: algebra_simps)

lemma rval_less: "rval bs < 256 ^ length bs"
proof (induction bs)
  case Nil
  then show ?case by simp
next
  case (Cons b bs)
  then have "rval bs + 1 \<le> 256 ^ length bs" by simp
  then have "256 * rval bs + 256 \<le> 256 ^ length (b # bs)" by simp
  then show ?case using byte_less [of b] by (simp only: rval.simps)
qed

lemma ip_val_Cons: "ip_val (b # bs) = unat b * 256 ^ length bs + ip_val bs"
  by (simp add: ip_val_def rval_append algebra_simps)

lemma ip_val_less: "ip_val bs < 256 ^ length bs"
  using rval_less [of "rev bs"] by (simp add: ip_val_def)

lemma bytesCompare_val:
  assumes "length as = length bs"
  shows "bytesCompare as bs =
           (if ip_val as < ip_val bs then -1 else if ip_val bs < ip_val as then 1 else 0)"
  using assms
proof (induction as bs rule: bytesCompare.induct)
  case (1 a as b bs)
  have lt: "ip_val as < 256 ^ length bs" "ip_val bs < 256 ^ length bs"
    using ip_val_less [of as] ip_val_less [of bs] 1(2) by auto
  have step: "unat x * 256 ^ n + k < unat y * 256 ^ n + l"
    if "unat x < unat y" "k < 256 ^ n" for x y :: byte and k l n :: nat
  proof -
    have "(unat x + 1) * 256 ^ n \<le> unat y * (256 :: nat) ^ n"
      using that(1) by (intro mult_right_mono) auto
    then show ?thesis using that(2) by simp
  qed
  consider "unat a < unat b" | "unat b < unat a" | "a = b"
    by (metis linorder_neqE_nat word_unat_eq_iff)
  then show ?case
  proof cases
    assume ab: "unat a < unat b"
    show ?thesis using 1 lt ab step [OF ab lt(1), of "ip_val bs"]
      by (simp add: ip_val_Cons word_less_nat_alt)
  next
    assume ba: "unat b < unat a"
    show ?thesis using 1 lt ba step [OF ba lt(2), of "ip_val as"]
      by (simp add: ip_val_Cons word_less_nat_alt)
  next
    assume "a = b"
    then show ?thesis using 1 by (simp add: ip_val_Cons)
  qed
qed (auto simp: ip_val_def)

text \<open>Incrementing and adding a power of two, with the carry through the bytes.\<close>

lemma incRev_val:
  assumes "snd (incRev bs)"
  shows "rval (fst (incRev bs)) = rval bs + 1"
  using assms
proof (induction bs)
  case Nil
  then show ?case by simp
next
  case (Cons b bs)
  show ?case
  proof (cases "b + 1 = 0")
    case True
    then have "b = - 1" by (simp add: eq_neg_iff_add_eq_0)
    then have "unat b = 255" by (simp add: unat_byte_max)
    then show ?thesis using Cons True by simp
  next
    case False
    then have "unat (b + 1) = unat b + 1" by (simp add: unatSuc add.commute)
    then show ?thesis using False by simp
  qed
qed

lemma incRev_overflow: "\<not> snd (incRev bs) \<Longrightarrow> rval bs = 256 ^ length bs - 1"
proof (induction bs)
  case Nil
  then show ?case by simp
next
  case (Cons b bs)
  show ?case
  proof (cases "b + 1 = 0")
    case True
    then have "b = - 1" by (simp add: eq_neg_iff_add_eq_0)
    then have "unat b = 255" by (simp add: unat_byte_max)
    moreover have "(1::nat) \<le> 256 ^ length bs" by simp
    ultimately show ?thesis using Cons True by (simp add: algebra_simps)
  next
    case False
    then show ?thesis using Cons by simp
  qed
qed

lemma incRev_length [simp]: "length (fst (incRev bs)) = length bs"
  by (induction bs) auto

lemma incrementIP_val:
  assumes "ip_val a + 1 < 256 ^ length a"
  shows "snd (incrementIP a)" "ip_val (fst (incrementIP a)) = ip_val a + 1"
proof -
  show "snd (incrementIP a)"
    using assms incRev_overflow [of "rev a"]
    by (cases "snd (incRev (rev a))") (simp_all add: incrementIP_def ip_val_def)
  then show "ip_val (fst (incrementIP a)) = ip_val a + 1"
    by (simp add: incrementIP_def ip_val_def incRev_val)
qed

lemma addCarryRev_length [simp]: "length (addCarryRev bs c) = length bs"
  by (induction bs c rule: addCarryRev.induct) (auto simp: Let_def)

lemma addCarryRev_val:
  assumes "rval bs + unat c < 256 ^ length bs"
  shows "rval (addCarryRev bs c) = rval bs + unat c"
  using assms
proof (induction bs c rule: addCarryRev.induct)
  case (1 c)
  then show ?case by simp
next
  case (2 b bs c)
  define sum where "sum = (ucast b + ucast c :: 16 word)"
  define c' where "c' = (ucast (drop_bit 8 sum) :: byte)"
  have "unat (ucast b :: 16 word) + unat (ucast c :: 16 word) < 2 ^ LENGTH(16)"
    by (simp add: unat_ucast16) (use byte_less [of b] byte_less [of c] in linarith)
  then have us: "unat sum = unat b + unat c"
    unfolding sum_def by (simp only: unat_add_lem [THEN iffD1]) (simp add: unat_ucast16)
  have lo: "unat (ucast sum :: byte) = (unat b + unat c) mod 256"
    by (simp add: unsigned_ucast_eq us take_bit_eq_mod)
  have "unat b + unat c < 512" using byte_less [of b] byte_less [of c] by linarith
  then have hi: "unat c' = (unat b + unat c) div 256"
    by (simp add: c'_def unsigned_ucast_eq drop_bit_eq_div unat_div us take_bit_nat_eq_self
        less_mult_imp_div_less)
  have dm: "(unat b + unat c) mod 256 + 256 * ((unat b + unat c) div 256) = unat b + unat c"
    by simp
  show ?case
  proof (cases "c' = 0")
    case True
    then have "(unat b + unat c) div 256 = 0" using hi by simp
    then show ?thesis using True lo dm by (simp add: sum_def [symmetric] c'_def [symmetric])
  next
    case False
    have "rval bs + unat c' < 256 ^ length bs" using 2(2) hi dm by simp
    then have "rval (addCarryRev bs c') = rval bs + unat c'"
      using 2(1) [OF sum_def c'_def] False by simp
    then show ?thesis using False lo hi dm
      by (simp add: sum_def [symmetric] c'_def [symmetric])
  qed
qed

lemma addToIP_val:
  assumes len: "length a = 16" and bits: "0 < bits" "bits < 128"
    and fits: "ip_val a + 2 ^ bits < 256 ^ 16"
  shows "ip_val (addToIP a bits) = ip_val a + 2 ^ bits" "length (addToIP a bits) = 16"
proof -
  define n where "n = bits div 8"
  define m where "m = bits mod 8"
  have bits': "bits = 8 * n + m" "m < 8" "n < 16" using bits by (auto simp: n_def m_def)
  have pow: "(2::nat) ^ bits = 256 ^ n * 2 ^ m"
    by (simp add: bits'(1) power_add power_mult)
  define r where "r = rev a"
  have lr: "length r = 16" using len by (simp add: r_def)
  have idx: "Suc (nat (15 - int n)) = 16 - n" using bits' by simp
  have add: "rev (addToIP a bits) = take n r @ addCarryRev (drop n r) (push_bit m 1)"
    using bits bits' len
    by (auto simp: addToIP_def Let_def n_def [symmetric] m_def [symmetric] idx r_def
        take_rev drop_rev)
  have um: "unat (push_bit m 1 :: byte) = 2 ^ m"
  proof -
    have "unat (of_nat (2 ^ m) :: byte) = 2 ^ m"
      using bits' power_strict_increasing [of m 8 "2 :: nat"] by (simp only: unat_of_nat) simp
    then show ?thesis by (simp add: push_bit_eq_mult)
  qed
  have split: "rval r = rval (take n r) + 256 ^ n * rval (drop n r)"
    using rval_append [of "take n r" "drop n r"] lr bits' by simp
  have "256 ^ n * (rval (drop n r) + 2 ^ m) \<le> rval r + 2 ^ bits"
    by (simp add: split pow algebra_simps)
  also have "\<dots> < 256 ^ 16" using fits by (simp add: ip_val_def r_def)
  also have "(256::nat) ^ 16 = 256 ^ n * 256 ^ (16 - n)"
    using bits' by (simp flip: power_add)
  finally have "rval (drop n r) + 2 ^ m < 256 ^ (16 - n)" by simp
  then have "rval (addCarryRev (drop n r) (push_bit m 1)) = rval (drop n r) + 2 ^ m"
    using addCarryRev_val [of "drop n r" "push_bit m 1", unfolded um] lr
    by (simp only: length_drop)
  then have "ip_val (addToIP a bits) =
      rval (take n r) + 256 ^ length (take n r) * (rval (drop n r) + 2 ^ m)"
    unfolding ip_val_def add rval_append by (simp only:)
  then show "ip_val (addToIP a bits) = ip_val a + 2 ^ bits"
    using lr bits'(3) split by (simp add: ip_val_def r_def [symmetric] pow algebra_simps)
  have "length (rev (addToIP a bits)) = 16" unfolding add using lr bits' by simp
  then show "length (addToIP a bits) = 16" by simp
qed

text \<open>Alignment and the end of a block.\<close>

lemma byte_low_bits:
  assumes "m < 8"
  shows "(b :: byte) AND (push_bit m 1 - 1) = 0 \<longleftrightarrow> 2 ^ m dvd unat b"
proof -
  have "b AND (push_bit m 1 - 1) = take_bit m b"
    by (simp add: take_bit_eq_mask mask_eq_exp_minus_1 push_bit_eq_mult)
  moreover have "unat (take_bit m b) = unat b mod 2 ^ m"
    by (simp only: unsigned_take_bit_eq) (simp only: take_bit_eq_mod)
  ultimately show ?thesis by (metis dvd_eq_mod_eq_0 unat_eq_0)
qed

lemma rval_dvd:
  assumes "8 * n + m \<le> 8 * length bs" "m < 8"
  shows "2 ^ (8 * n + m) dvd rval bs \<longleftrightarrow>
           (\<forall>i<n. bs ! i = 0) \<and> (0 < m \<longrightarrow> 2 ^ m dvd unat (bs ! n))"
  using assms
proof (induction n arbitrary: bs)
  case 0
  show ?case
  proof (cases bs)
    case Nil
    then show ?thesis using 0 by simp
  next
    case (Cons b r)
    have "(2::nat) ^ m dvd 2 ^ 8" using 0 by (intro le_imp_power_dvd) simp
    then have "(2::nat) ^ m dvd 256 * rval r" by (simp add: dvd_mult2)
    then show ?thesis using Cons by (cases "m = 0") (simp_all add: dvd_add_left_iff)
  qed
next
  case (Suc n)
  then obtain b r where bs: "bs = b # r" by (cases bs) auto
  have e: "(2::nat) ^ (8 * Suc n + m) = 256 * 2 ^ (8 * n + m)" by (simp add: power_add)
  have "256 * 2 ^ (8 * n + m) dvd unat b + 256 * rval r \<longleftrightarrow>
        b = 0 \<and> 2 ^ (8 * n + m) dvd rval r"
  proof
    assume d: "256 * 2 ^ (8 * n + m) dvd unat b + 256 * rval r"
    then have "256 dvd unat b + 256 * rval r" by (rule dvd_mult_left)
    then have "256 dvd unat b" by (simp add: dvd_add_left_iff)
    then have "unat b = 0" using byte_less [of b] dvd_imp_le [of 256 "unat b"] by fastforce
    then show "b = 0 \<and> 2 ^ (8 * n + m) dvd rval r" using d by (simp add: unat_eq_0)
  qed auto
  moreover have "2 ^ (8 * n + m) dvd rval r \<longleftrightarrow>
        (\<forall>i<n. r ! i = 0) \<and> (0 < m \<longrightarrow> 2 ^ m dvd unat (r ! n))"
    using Suc.IH [of r] Suc.prems bs by simp
  moreover have "(\<forall>i<Suc n. bs ! i = 0) \<longleftrightarrow> b = 0 \<and> (\<forall>i<n. r ! i = 0)"
    using bs by (auto simp: less_Suc_eq_0_disj)
  ultimately show ?case using bs e by auto
qed

lemma isAligned_dvd:
  assumes "length a = 16" "0 < p" "p \<le> 128"
  shows "isAligned a p \<longleftrightarrow> 2 ^ (128 - p) dvd ip_val a"
proof -
  define n where "n = (128 - p) div 8"
  define m where "m = (128 - p) mod 8"
  have nm: "128 - p = 8 * n + m" "m < 8" by (auto simp: n_def m_def)
  have n16: "8 * n + m < 128" using nm assms by linarith
  have at: "a ! i = rev a ! (15 - i)" if "i < 16" for i
    using that assms(1) by (simp add: rev_nth)
  have "(\<forall>i\<in>set [16 - n..<16]. a ! i = 0) \<longleftrightarrow> (\<forall>i<n. rev a ! i = 0)"
  proof safe
    fix i assume *: "\<forall>i\<in>set [16 - n..<16]. a ! i = 0" "i < n"
    have "a ! (15 - i) = 0" using * n16 by (intro *(1) [rule_format]) auto
    then show "rev a ! i = 0" using at [of "15 - i"] * n16 by simp
  next
    fix i assume *: "\<forall>i<n. rev a ! i = 0" "i \<in> set [16 - n..<16]"
    then show "a ! i = 0" using at [of i] n16 by auto
  qed
  moreover have "a ! (16 - n - 1) = rev a ! n" if "0 < m"
    using at [of "16 - n - 1"] n16 by simp
  ultimately have "isAligned a p \<longleftrightarrow>
      (\<forall>i<n. rev a ! i = 0) \<and> (0 < m \<longrightarrow> 2 ^ m dvd unat (rev a ! n))"
    using assms(2) byte_low_bits [OF nm(2)]
    by (simp add: isAligned_def Let_def n_def [symmetric] m_def [symmetric])
  also have "\<dots> \<longleftrightarrow> 2 ^ (8 * n + m) dvd rval (rev a)"
    using rval_dvd [of n m "rev a"] n16 nm(2) assms(1) by simp
  finally show ?thesis by (simp add: nm(1) ip_val_def)
qed

lemma or_low_bits:
  assumes "2 ^ m dvd unat b" "m < 8"
  shows "unat ((b :: byte) OR (push_bit m 1 - 1)) = unat b + 2 ^ m - 1"
proof -
  have "b AND (push_bit m 1 - 1) = 0" using assms byte_low_bits by simp
  then have or_add: "b OR (push_bit m 1 - 1) = b + (push_bit m 1 - 1)"
    by (simp add: disjunctive_add_eq_or)
  have p: "unat (push_bit m 1 - 1 :: byte) = 2 ^ m - 1"
  proof -
    have "unat (of_nat (2 ^ m - 1) :: byte) = 2 ^ m - 1"
      using assms(2) power_strict_increasing [of m 8 "2 :: nat"] by (simp only: unat_of_nat) simp
    then show ?thesis by (simp add: push_bit_eq_mult of_nat_diff)
  qed
  obtain k where k: "unat b = 2 ^ m * k" using assms(1) by (elim dvdE)
  have "2 ^ m * k < 2 ^ m * 2 ^ (8 - m)"
    using k byte_less [of b] assms(2) by (simp only: flip: power_add) simp
  then have "2 ^ m * (k + 1) \<le> 2 ^ m * 2 ^ (8 - m)" by (intro mult_le_mono2) simp
  then have "unat b + 2 ^ m \<le> 256" using k assms(2) by (simp flip: power_add)
  then have lt: "unat b + unat (push_bit m 1 - 1 :: byte) < 2 ^ LENGTH(8)"
    unfolding p using zero_less_power [of "2 :: nat" m] by simp
  show ?thesis unfolding or_add unat_add_lem [THEN iffD1, OF lt] p
    using one_le_power [of "2 :: nat" m] by linarith
qed

lemma setTrailing_val:
  assumes "k \<le> 8 * length bs" "2 ^ k dvd rval bs"
  shows "rval (setTrailing bs k) = rval bs + 2 ^ k - 1"
  using assms
proof (induction bs k rule: setTrailing.induct)
  case (1 k)
  then show ?case by simp
next
  case (2 b bs k)
  consider "k = 0" | "0 < k" "k < 8" | "8 \<le> k" by linarith
  then show ?case
  proof cases
    assume "k = 0"
    then show ?thesis by simp
  next
    assume k: "0 < k" "k < 8"
    have "2 ^ k dvd unat b" using rval_dvd [of 0 k "b # bs"] 2(3) k by simp
    then show ?thesis using k or_low_bits [of k b]
      by simp (use one_le_power [of "2 :: nat" k] in linarith)
  next
    assume k: "8 \<le> k"
    obtain j where j: "k = 8 + j" using k by (metis le_iff_add)
    have d: "256 * 2 ^ j dvd unat b + 256 * rval bs" using 2(3) by (simp add: j power_add)
    then have "256 dvd unat b + 256 * rval bs" by (rule dvd_mult_left)
    then have "256 dvd unat b" by (simp add: dvd_add_left_iff)
    then have b0: "unat b = 0" using byte_less [of b] dvd_imp_le [of 256 "unat b"] by fastforce
    then have "2 ^ j dvd rval bs" using d by simp
    then have "rval (setTrailing bs (k - 8)) = rval bs + 2 ^ j - 1"
      using 2(1) 2(2) k j by simp
    then have "rval (setTrailing (b # bs) k) = 255 + 256 * (rval bs + 2 ^ j - 1)"
      using k by simp
    then show ?thesis unfolding j rval.simps b0 power_add
      by simp (use one_le_power [of "2 :: nat" j] in linarith)
  qed
qed

lemma setTrailing_length [simp]: "length (setTrailing bs k) = length bs"
  by (induction bs k rule: setTrailing.induct) auto

lemma getBlockEnd_val:
  assumes "length a = 16" "2 ^ (128 - p) dvd ip_val a"
  shows "ip_val (getBlockEnd a p) = ip_val a + 2 ^ (128 - p) - 1"
    "length (getBlockEnd a p) = 16"
  using assms setTrailing_val [of "128 - p" "rev a"] by (auto simp: getBlockEnd_def ip_val_def)

section \<open>The IPv6 loop\<close>

lemma findPrefix6_tests:
  assumes "length a = 16" "length e = 16" "0 < p" "p \<le> 128"
  shows "findPrefix6 a e (p # ps) =
           (if 2 ^ (128 - p) dvd ip_val a \<and> ip_val a + 2 ^ (128 - p) \<le> Suc (ip_val e) then p
            else findPrefix6 a e ps)"
proof (cases "2 ^ (128 - p) dvd ip_val a")
  case True
  have "(1::nat) \<le> 2 ^ (128 - p)" by simp
  then have "bytesCompare (getBlockEnd a p) e > 0 \<longleftrightarrow>
      \<not> ip_val a + 2 ^ (128 - p) \<le> Suc (ip_val e)"
    using getBlockEnd_val [OF assms(1) True] assms(2) by (auto simp: bytesCompare_val)
  then show ?thesis using isAligned_dvd [OF assms(1,3,4)] True by simp
next
  case False
  then show ?thesis using isAligned_dvd [OF assms(1,3,4)] by simp
qed

lemma findPrefix6_spec:
  assumes "\<forall>p\<in>set ps. 0 < p \<and> p \<le> 128" "ip_val a \<le> ip_val e"
    and "last ps = 128" "ps \<noteq> []" "sorted ps" "length a = 16" "length e = 16"
  shows "findPrefix6 a e ps \<in> set ps \<and>
         2 ^ (128 - findPrefix6 a e ps) dvd ip_val a \<and>
         ip_val a + 2 ^ (128 - findPrefix6 a e ps) \<le> Suc (ip_val e) \<and>
         (\<forall>q\<in>set ps. q < findPrefix6 a e ps \<longrightarrow>
            \<not> (2 ^ (128 - q) dvd ip_val a \<and> ip_val a + 2 ^ (128 - q) \<le> Suc (ip_val e)))"
  using assms
proof (induction ps)
  case Nil
  then show ?case by simp
next
  case (Cons p ps)
  have p: "0 < p" "p \<le> 128" using Cons.prems by auto
  note t = findPrefix6_tests [OF Cons.prems(6,7) p, of ps]
  show ?case
  proof (cases "2 ^ (128 - p) dvd ip_val a \<and> ip_val a + 2 ^ (128 - p) \<le> Suc (ip_val e)")
    case True
    then have "findPrefix6 a e (p # ps) = p" using t by simp
    moreover have "\<forall>q\<in>set (p # ps). p \<le> q" using Cons.prems by auto
    ultimately show ?thesis using True by auto
  next
    case False
    have step: "findPrefix6 a e (p # ps) = findPrefix6 a e ps"
      using t unfolding if_not_P [OF False] .
    have "ps \<noteq> []"
    proof
      assume "ps = []"
      then have "p = 128" using Cons.prems by simp
      then show False using False Cons.prems(2) by simp
    qed
    then have "last ps = 128" "sorted ps" "\<forall>p\<in>set ps. 0 < p \<and> p \<le> 128"
      using Cons.prems by auto
    then show ?thesis
      using Cons.IH Cons.prems(2,6,7) \<open>ps \<noteq> []\<close> False unfolding step by auto
  qed
qed

definition ip_of_val :: "nat \<Rightarrow> byte list" where
  "ip_of_val n = map (\<lambda>i. of_nat (n div 256 ^ (15 - i))) [0..<16]"

definition blocks6_text :: "(byte list \<times> nat) list \<Rightarrow> string list" where
  "blocks6_text bs = map (\<lambda>(a, p). cidr6_string a p) bs"

definition blocks6_val :: "(byte list \<times> nat) list \<Rightarrow> (nat \<times> nat) list" where
  "blocks6_val bs = map (\<lambda>(a, p). (ip_val a, p)) bs"

lemma maxPrefix6_spec:
  assumes "ip_val a \<le> ip_val e" "length a = 16" "length e = 16"
  shows "96 \<le> maxPrefix6 a e" "maxPrefix6 a e \<le> 128"
    "2 ^ (128 - maxPrefix6 a e) dvd ip_val a"
    "ip_val a + 2 ^ (128 - maxPrefix6 a e) \<le> Suc (ip_val e)"
    "96 \<le> q \<Longrightarrow> q < maxPrefix6 a e \<Longrightarrow>
       \<not> (2 ^ (128 - q) dvd ip_val a \<and> ip_val a + 2 ^ (128 - q) \<le> Suc (ip_val e))"
proof -
  define ps :: "nat list" where "ps = [96..<129]"
  have m: "maxPrefix6 a e = findPrefix6 a e ps"
    by (simp add: maxPrefix6_def IPv6MinPrefixForIPReserve_def ps_def)
  have ps: "x \<in> set ps \<longleftrightarrow> 96 \<le> x \<and> x \<le> 128" for x
    by (simp only: ps_def set_upt atLeastLessThan_iff) auto
  have "last ps = 128" unfolding ps_def by (subst last_upt) auto
  moreover have "ps \<noteq> []" "sorted ps" unfolding ps_def by (simp_all del: upt_rec_numeral)
  ultimately have spec: "maxPrefix6 a e \<in> set ps"
      "2 ^ (128 - maxPrefix6 a e) dvd ip_val a"
      "ip_val a + 2 ^ (128 - maxPrefix6 a e) \<le> Suc (ip_val e)"
      "\<forall>q\<in>set ps. q < maxPrefix6 a e \<longrightarrow>
         \<not> (2 ^ (128 - q) dvd ip_val a \<and> ip_val a + 2 ^ (128 - q) \<le> Suc (ip_val e))"
    using findPrefix6_spec [of ps a e, OF _ assms(1) _ _ _ assms(2,3)] ps unfolding m by auto
  show "96 \<le> maxPrefix6 a e" "maxPrefix6 a e \<le> 128" using spec(1) ps by auto
  show "2 ^ (128 - maxPrefix6 a e) dvd ip_val a"
    "ip_val a + 2 ^ (128 - maxPrefix6 a e) \<le> Suc (ip_val e)" by fact+
  assume q: "96 \<le> q" "q < maxPrefix6 a e"
  then have "q \<in> set ps" using spec(1) ps by auto
  then show "\<not> (2 ^ (128 - q) dvd ip_val a \<and> ip_val a + 2 ^ (128 - q) \<le> Suc (ip_val e))"
    using spec(4) q(2) by blast
qed

lemma ipv6Loop_tiles:
  assumes "ip_val a \<le> Suc (ip_val e)" "ip_val e < 256 ^ 16 - 1" "length a = 16" "length e = 16"
  shows "\<exists>bs. ipv6Loop a e cs = Some (cs @ blocks6_text bs) \<and>
              tiles 128 96 (ip_val a) (Suc (ip_val e)) (blocks6_val bs)"
  using assms
proof (induction "Suc (ip_val e) - ip_val a" arbitrary: a cs rule: less_induct)
  case less
  show ?case
  proof (cases "ip_val a \<le> ip_val e")
    case False
    then show ?thesis using less.prems
      by (intro exI [of _ "[]"])
         (simp add: ipv6Loop.simps [of a] bytesCompare_val blocks6_text_def blocks6_val_def)
  next
    case True
    define p where "p = maxPrefix6 a e"
    define a' where "a' = (if p = 128 then fst (incrementIP a) else addToIP a (128 - p))"
    note sp = maxPrefix6_spec [OF True less.prems(3,4), folded p_def]
    have fits: "ip_val a + 2 ^ (128 - p) < 256 ^ 16" using sp(4) less.prems(2) by linarith
    have a': "ip_val a' = ip_val a + 2 ^ (128 - p)" "length a' = 16"
    proof -
      show "ip_val a' = ip_val a + 2 ^ (128 - p)"
        using incrementIP_val [of a] addToIP_val [of a "128 - p"] fits sp(1,2) less.prems(3)
        by (auto simp: a'_def)
      show "length a' = 16"
        using addToIP_val [of a "128 - p"] fits sp(1,2) less.prems(3)
        by (auto simp: a'_def incrementIP_def)
    qed
    have "Suc (ip_val e) - ip_val a' < Suc (ip_val e) - ip_val a"
      using a'(1) sp(4) one_le_power [of "2 :: nat" "128 - p"] by linarith
    then obtain bs where bs: "ipv6Loop a' e (cs @ [cidr6_string a p]) =
          Some ((cs @ [cidr6_string a p]) @ blocks6_text bs)"
        "tiles 128 96 (ip_val a') (Suc (ip_val e)) (blocks6_val bs)"
      using less.hyps [of a' "cs @ [cidr6_string a p]"] a' sp(4) less.prems(2,4) by auto
    have "bytesCompare a e \<le> 0" using True less.prems by (simp add: bytesCompare_val)
    moreover have "p = 128 \<Longrightarrow> snd (incrementIP a)"
      using incrementIP_val [of a] fits less.prems(3) by simp
    ultimately have "ipv6Loop a e cs = Some (cs @ blocks6_text ((a, p) # bs))"
      using bs(1) by (simp add: ipv6Loop.simps [of a] p_def [symmetric] a'_def blocks6_text_def
          split: if_splits)
    moreover have "tiles 128 96 (ip_val a) (Suc (ip_val e)) (blocks6_val ((a, p) # bs))"
      using sp bs(2) a' by (auto simp: blocks6_val_def)
    ultimately show ?thesis by blast
  qed
qed

section \<open>The properties of the entry point\<close>

lemma IPRangeToCIDRs_tiles:
  assumes "to4 start = Some s" "to4 end' = Some e"
    and "ipToUint32 start \<le> ipToUint32 end'" "ipToUint32 end' \<noteq> 0xFFFFFFFF"
  shows "\<exists>bs. IPRangeToCIDRs start end' = Some (Inr (blocks4_text bs)) \<and>
              tiles 32 1 (unat (ipToUint32 start)) (Suc (unat (ipToUint32 end'))) bs"
proof -
  have ne: "start \<noteq> []" "end' \<noteq> []" using assms by (auto simp: to4_def)
  have "unat (ipToUint32 end') \<noteq> 2 ^ 32 - 1"
    using assms(4) by (auto simp: word_unat_eq_iff)
  moreover have "unat (ipToUint32 end') < 2 ^ LENGTH(32)" by (rule unsigned_less)
  ultimately have "unat (ipToUint32 end') < 2 ^ 32 - 1" by simp
  then obtain bs where "ipv4Loop (ipToUint32 start) (ipToUint32 end') [] = Some (blocks4_text bs)"
      "tiles 32 1 (unat (ipToUint32 start)) (Suc (unat (ipToUint32 end'))) bs"
    using ipv4Loop_tiles [of "ipToUint32 start" "ipToUint32 end'" "[]"] assms(3)
    by (auto simp: word_le_nat_alt)
  then show ?thesis
    using assms(1-3) ne by (auto simp: IPRangeToCIDRs_def ipv4RangeToCIDRs_def not_less)
qed

text \<open>
  C3: An IPv4 range whose end is not 255.255.255.255 is split into blocks that tile it: they
  are aligned, follow each other from the first to the last address without gap or overlap,
  none can be replaced by a larger aligned block inside the range, and the call returns.
\<close>

theorem IPRangeToCIDRs_v4:
  assumes "to4 start = Some s" "to4 end' = Some e"
    and "ipToUint32 start \<le> ipToUint32 end'" "ipToUint32 end' \<noteq> 0xFFFFFFFF"
  shows "\<exists>bs. IPRangeToCIDRs start end' = Some (Inr (blocks4_text bs)) \<and>
              tiles 32 1 (unat (ipToUint32 start)) (Suc (unat (ipToUint32 end'))) bs"
  using assms by (rule IPRangeToCIDRs_tiles)

theorem IPRangeToCIDRs_v4_witness:
  "\<exists>bs. IPRangeToCIDRs [10, 0, 0, 1] [10, 0, 0, 6] = Some (Inr (blocks4_text bs)) \<and>
        tiles 32 1 167772161 167772167 bs"
  using IPRangeToCIDRs_v4 [of "[10, 0, 0, 1]" "[10, 0, 0, 1]" "[10, 0, 0, 6]" "[10, 0, 0, 6]"]
  by (simp add: to4_def ipToUint32_def push_bit_eq_mult)

text \<open>
  C13: An IPv4 range that ends at 255.255.255.255 makes the call loop forever: the 32-bit
  counter wraps to 0 after the last block and never passes the end.
\<close>

theorem IPRangeToCIDRs_v4_diverges:
  assumes "to4 start = Some s"
  shows "IPRangeToCIDRs start (v4InV6Prefix @ [255, 255, 255, 255]) = None"
proof -
  have e: "ipToUint32 (v4InV6Prefix @ [255, 255, 255, 255]) = 0xFFFFFFFF"
    by (simp add: ipToUint32_def to4_def v4InV6Prefix_def push_bit_eq_mult)
  have "unat (ipToUint32 start) < 2 ^ LENGTH(32)" by (rule unsigned_less)
  then have "ipToUint32 start \<le> 0xFFFFFFFF" by (simp add: word_le_nat_alt)
  moreover have "start \<noteq> []" using assms by (auto simp: to4_def)
  ultimately show ?thesis
    using assms by (auto simp: IPRangeToCIDRs_def ipv4RangeToCIDRs_def e not_less
        ipv4Loop_diverges) (auto simp: to4_def v4InV6Prefix_def)
qed

theorem IPRangeToCIDRs_v4_diverges_witness:
  "IPRangeToCIDRs [10, 0, 0, 1] (v4InV6Prefix @ [255, 255, 255, 255]) = None"
  by (rule IPRangeToCIDRs_v4_diverges [of _ "[10, 0, 0, 1]"]) (simp add: to4_def)

text \<open>
  An IPv6 range whose end is not the last address of the space is split into aligned
  blocks with prefixes from 96 to 128 that tile it, each the largest such block that fits.
\<close>

theorem IPRangeToCIDRs_v6:
  assumes "to4 start = None" "to4 end' = None" "length start = 16" "length end' = 16"
    and "ip_val start \<le> ip_val end'" "ip_val end' < 2 ^ 128 - 1"
  shows "\<exists>bs. IPRangeToCIDRs start end' = Some (Inr (blocks6_text bs)) \<and>
              tiles 128 96 (ip_val start) (Suc (ip_val end')) (blocks6_val bs)"
proof -
  have ne: "start \<noteq> []" "end' \<noteq> []" using assms by auto
  obtain bs where "ipv6Loop start end' [] = Some (blocks6_text bs)"
      "tiles 128 96 (ip_val start) (Suc (ip_val end')) (blocks6_val bs)"
    using ipv6Loop_tiles [of start end' "[]"] assms by auto
  then show ?thesis
    using assms ne
    by (auto simp: IPRangeToCIDRs_def ipv6RangeToCIDRs_def to16_def bytesCompare_val)
qed

theorem IPRangeToCIDRs_v6_witness:
  "\<exists>bs. IPRangeToCIDRs (replicate 15 0 @ [2]) (replicate 15 0 @ [9]) =
          Some (Inr (blocks6_text bs)) \<and> tiles 128 96 2 10 (blocks6_val bs)"
  using IPRangeToCIDRs_v6 [of "replicate 15 0 @ [2]" "replicate 15 0 @ [9]"]
  by (simp add: to4_def v4InV6Prefix_def ip_val_def replicate_numeral_eval)

text \<open>
  The call fails exactly when an address is nil, the families differ, an IPv6 address
  has a length other than 16, or the start is above the end; a failure reports which.
\<close>

theorem IPRangeToCIDRs_error_iff:
  "IPRangeToCIDRs start end' = Some (Inl err) \<longleftrightarrow>
     (if start = [] \<or> end' = [] then err = NilIP
      else if (to4 start = None) \<noteq> (to4 end' = None) then err = FamilyMismatch
      else if to4 start \<noteq> None then err = StartGreater \<and> ipToUint32 end' < ipToUint32 start
      else if length start \<noteq> 16 \<or> length end' \<noteq> 16 then err = InvalidIPv6
      else err = StartGreater \<and> ip_val end' < ip_val start)"
proof -
  have "length start \<noteq> 4" if "to4 start = None" using that by (auto simp: to4_def)
  moreover have "length end' \<noteq> 4" if "to4 end' = None" using that by (auto simp: to4_def)
  ultimately show ?thesis
    by (auto simp: IPRangeToCIDRs_def ipv4RangeToCIDRs_def ipv6RangeToCIDRs_def to16_def
        bytesCompare_val split: if_splits)
qed

theorem IPRangeToCIDRs_error_iff_witness:
  "IPRangeToCIDRs [10, 0, 0, 9] [10, 0, 0, 1] = Some (Inl StartGreater)"
  using IPRangeToCIDRs_error_iff [of "[10, 0, 0, 9]" "[10, 0, 0, 1]" StartGreater]
  by (simp add: to4_def ipToUint32_def)

end
