(* ===== verification/IPText.thy ===== *)
theory IPText
  imports IPRange
begin

text \<open>
  The text of an IPv4 address and of a block, and what \<open>net\<close> reads from it: printing and parsing are
  inverse, and a block that \<open>IPRangeToCIDRs\<close> (\<open>pkg/ip/ip.go\<close>) is given as a range of addresses comes
  back as the block.
\<close>

section \<open>Decimal numbers\<close>

lemma dec_digit_char: "d < 10 \<Longrightarrow> dec_digit (digit_char d) = Some d"
proof -
  assume "d < 10"
  then have "d \<in> {0, 1, 2, 3, 4, 5, 6, 7, 8, 9}" by auto
  then show ?thesis by (auto simp: dec_digit_def digit_char_def)
qed

lemma dec_value_append:
  "dec_value acc (xs @ ys) = (case dec_value acc xs of None \<Rightarrow> None | Some v \<Rightarrow> dec_value v ys)"
  by (induction xs arbitrary: acc) (auto split: option.split)

lemma dec_value_digits: "dec_value 0 (digits_in 10 n) = Some n"
proof (induction n rule: less_induct)
  case (less n)
  then show ?case
    by (cases "n < 10")
      (simp_all add: digits_in.simps [of 10 n] dec_digit_char dec_value_append)
qed

lemma dec_value_string [simp]: "dec_value 0 (dec_string n) = Some n"
  by (simp add: dec_string_def dec_value_digits)

lemma digits_nonempty: "digits_in 10 n \<noteq> []"
  by (simp add: digits_in.simps [of 10 n])

lemma digit_char_zero: "d < 10 \<Longrightarrow> digit_char d = CHR ''0'' \<Longrightarrow> d = 0"
  using dec_digit_char [of d] dec_digit_char [of 0] by (simp add: digit_char_def)

lemma digits_no_leading_zero:
  "length (digits_in 10 n) > 1 \<Longrightarrow> hd (digits_in 10 n) \<noteq> CHR ''0''"
proof (induction n rule: less_induct)
  case (less n)
  show ?case
  proof (cases "n < 10")
    case True
    with less.prems show ?thesis by (simp add: digits_in.simps [of 10 n])
  next
    case False
    define k where "k = n div 10"
    have k: "k < n" "k \<noteq> 0" using False by (auto simp: k_def)
    have hd: "hd (digits_in 10 n) = hd (digits_in 10 k)"
      using False digits_nonempty [of k] by (simp add: digits_in.simps [of 10 n] k_def)
    show ?thesis
    proof (cases "length (digits_in 10 k) > 1")
      case True
      with less.IH [OF k(1)] hd show ?thesis by simp
    next
      case short: False
      then have "k < 10" using digits_nonempty by (auto simp: digits_in.simps [of 10 k] split: if_splits)
      with hd k(2) digit_char_zero show ?thesis by (auto simp: digits_in.simps [of 10 k])
    qed
  qed
qed

lemma parse_octet_string [simp]: "parse_octet (dec_string (unat b)) = Some (b :: byte)"
proof -
  have "\<not> 255 < unat b" by (simp add: not_less)
  then show ?thesis
    using digits_nonempty [of "unat b"] digits_no_leading_zero [of "unat b"]
    by (auto simp: parse_octet_def dec_string_def dec_value_digits simp del: byte_le)
qed

section \<open>Dotted addresses\<close>

lemma split_on_absent: "c \<notin> set x \<Longrightarrow> split_on c x = [x]"
  by (induction x) auto

lemma split_on_join1: "c \<notin> set x \<Longrightarrow> split_on c (x @ c # r) = x # split_on c r"
  by (induction x) auto

lemma split_on_join:
  "xs \<noteq> [] \<Longrightarrow> \<forall>x\<in>set xs. c \<notin> set x \<Longrightarrow> split_on c (join [c] xs) = xs"
  by (induction "[c]" xs rule: join.induct) (auto simp: split_on_absent split_on_join1)

lemma dec_string_chars: "set (dec_string n) \<subseteq> v4_chars - {CHR ''.''}"
proof (induction n rule: less_induct)
  case (less n)
  have d: "digit_char k \<in> v4_chars - {CHR ''.''}" if "k < 10" for k
  proof -
    have "k \<in> {0, 1, 2, 3, 4, 5, 6, 7, 8, 9}" using that by auto
    then show ?thesis by (auto simp: digit_char_def v4_chars_def)
  qed
  show ?case
    using less [of "n div 10"] d unfolding dec_string_def by (subst digits_in.simps) auto
qed

lemma parse_ipv4_string:
  assumes "length bs = 4"
  shows "parse_ipv4 (ipv4_string bs) = Some bs"
proof -
  have "split_on (CHR ''.'') (ipv4_string bs) = map (\<lambda>b. dec_string (unat b)) bs"
    unfolding ipv4_string_def
    using assms dec_string_chars by (intro split_on_join) (auto simp: subset_iff)
  with assms show ?thesis by (simp add: parse_ipv4_def list_all_iff map_idI)
qed

lemma ParseIP_ipv4_string:
  assumes "length bs = 4"
  shows "ParseIP (ipv4_string bs) = Some (v4InV6Prefix @ bs)"
proof -
  have "CHR ''.'' \<in> set (ipv4_string bs)"
    using join_sep [of "map (\<lambda>b. dec_string (unat b)) bs" "''.''"] assms by (simp add: ipv4_string_def)
  then obtain c where find: "List.find (\<lambda>c. c = CHR ''.'' \<or> c = CHR '':'') (ipv4_string bs) = Some c"
    by (metis (mono_tags, lifting) find_None_iff option.exhaust)
  then have "c \<in> set (ipv4_string bs)" "c = CHR ''.'' \<or> c = CHR '':''"
    unfolding find_Some_iff by (metis nth_mem)+
  moreover have "CHR '':'' \<notin> set (ipv4_string bs)"
    using ipv4_string_chars [of bs] by (auto simp: v4_chars_def)
  ultimately have "c = CHR ''.''" by auto
  with find assms show ?thesis by (simp add: ParseIP_def parse_ipv4_string)
qed

section \<open>Blocks\<close>

lemma to4_uint32ToIP: "to4 (uint32ToIP a) = Some (drop 12 (uint32ToIP a))"
  by (simp add: to4_def uint32ToIP_def v4InV6Prefix_def)

lemma ip_string_uint32ToIP: "ip_string (uint32ToIP a) = ipv4_string (drop 12 (uint32ToIP a))"
  using to4_uint32ToIP [of a] by (simp add: ip_string_def) (simp add: uint32ToIP_def v4InV6Prefix_def)

lemma ParseCIDR_cidr4_string:
  assumes "p \<le> 32"
  shows "ParseCIDR (cidr4_string a p) =
    Some (uint32ToIP a, \<lparr>IP = ip_mask (uint32ToIP a) (CIDRMask (int p) 32), Mask = CIDRMask (int p) 32\<rparr>)"
proof -
  define t where "t = ip_string (uint32ToIP a)"
  have t: "t = ipv4_string (drop 12 (uint32ToIP a))" by (simp add: t_def ip_string_uint32ToIP)
  have len: "length (drop 12 (uint32ToIP a)) = 4" by (simp add: uint32ToIP_def v4InV6Prefix_def)
  have chars: "set t \<subseteq> v4_chars" by (simp add: t ipv4_string_chars)
  then have no: "CHR ''/'' \<notin> set t" "CHR '':'' \<notin> set t" by (auto simp: v4_chars_def)
  have tx: "cidr4_string a p = t @ CHR ''/'' # dec_string p" by (simp add: cidr4_string_def t_def)
  have "takeWhile (\<lambda>c. c \<noteq> CHR ''/'') (cidr4_string a p) = t"
    "dropWhile (\<lambda>c. c \<noteq> CHR ''/'') (cidr4_string a p) = CHR ''/'' # dec_string p"
    using no by (auto simp: tx takeWhile_append dropWhile_append)
  moreover have "ParseIP t = Some (uint32ToIP a)"
    by (simp add: t ParseIP_ipv4_string [OF len]) (simp add: uint32ToIP_def v4InV6Prefix_def)
  moreover have "dec_string p \<noteq> []" using digits_nonempty by (simp add: dec_string_def)
  ultimately show ?thesis using assms no by (simp add: ParseCIDR_def Let_def)
qed

lemma ipToUint32_uint32ToIP: "ipToUint32 (uint32ToIP a) = a"
proof -
  have drop: "drop 12 (uint32ToIP a) = [ucast (drop_bit 24 a), ucast (drop_bit 16 a), ucast (drop_bit 8 a), ucast a]"
    by (simp add: uint32ToIP_def v4InV6Prefix_def)
  have "push_bit 24 (ucast (ucast (drop_bit 24 a) :: byte)) OR push_bit 16 (ucast (ucast (drop_bit 16 a) :: byte)) OR
        push_bit 8 (ucast (ucast (drop_bit 8 a) :: byte)) OR ucast (ucast a :: byte) = a"
  proof (rule bit_word_eqI)
    fix n assume n: "n < LENGTH(32)"
    then consider "n < 8" | "8 \<le> n" "n < 16" | "16 \<le> n" "n < 24" | "24 \<le> n" "n < 32" by fastforce
    then show "bit (push_bit 24 (ucast (ucast (drop_bit 24 a) :: byte)) OR push_bit 16 (ucast (ucast (drop_bit 16 a) :: byte)) OR
        push_bit 8 (ucast (ucast (drop_bit 8 a) :: byte)) OR ucast (ucast a :: byte) :: 32 word) n \<longleftrightarrow> bit a n"
      by cases (auto simp: bit_or_iff bit_push_bit_iff bit_ucast_iff bit_drop_bit_eq)
  qed
  then show ?thesis unfolding ipToUint32_def to4_uint32ToIP option.case drop by simp
qed

text \<open>The greedy tiling of one aligned block is the block.\<close>

lemma tiles_block:
  assumes "tiles 32 1 lo (lo + 2 ^ (32 - p)) bs" "1 \<le> p" "p \<le> 32" "2 ^ (32 - p) dvd lo"
  shows "bs = [(lo, p)]"
proof (cases bs)
  case Nil
  with assms(1) show ?thesis by simp
next
  case (Cons b rest)
  obtain a q where b: "b = (a, q)" by fastforce
  from assms(1) Cons b have t: "a = lo" "1 \<le> q" "q \<le> 32" "a + 2 ^ (32 - q) \<le> lo + 2 ^ (32 - p)"
    "\<forall>r. 1 \<le> r \<and> r < q \<longrightarrow> \<not> (2 ^ (32 - r) dvd a \<and> a + 2 ^ (32 - r) \<le> lo + 2 ^ (32 - p))"
    "tiles 32 1 (a + 2 ^ (32 - q)) (lo + 2 ^ (32 - p)) rest" by auto
  have "\<not> p < q" using t(1,5) assms(2,4) by auto
  moreover have "\<not> q < p"
  proof
    assume "q < p"
    then have "(2::nat) ^ (32 - p) < 2 ^ (32 - q)" using assms(3) by (intro power_strict_increasing) auto
    with t(1,4) show False by simp
  qed
  ultimately have "q = p" by simp
  with t(1,6) have "tiles 32 1 (lo + 2 ^ (32 - p)) (lo + 2 ^ (32 - p)) rest" by simp
  then have "rest = []"
  proof (cases rest)
    case (Cons c cs)
    obtain a' q' where "c = (a', q')" by fastforce
    with \<open>tiles 32 1 (lo + 2 ^ (32 - p)) (lo + 2 ^ (32 - p)) rest\<close> Cons show ?thesis
      by auto
  qed
  with \<open>q = p\<close> t(1) b Cons show ?thesis by simp
qed

text \<open>
  C27: A block, its range and its text are inverse. The first and the last address of an aligned IPv4 block
  that does not end at 255.255.255.255 are split into exactly one CIDR, the text of the block, and
  parsing the text gives the first address and the mask of the block back.
\<close>

theorem IPRangeToCIDRs_roundtrip:
  assumes "1 \<le> p" "p \<le> 32" "2 ^ (32 - p) dvd unat a" "unat a + 2 ^ (32 - p) < 2 ^ 32"
  shows "IPRangeToCIDRs (uint32ToIP a) (uint32ToIP (a + blockSize4 p - 1)) = Some (Inr [cidr4_string a p]) \<and>
    ParseCIDR (cidr4_string a p) =
      Some (uint32ToIP a, \<lparr>IP = ip_mask (uint32ToIP a) (CIDRMask (int p) 32), Mask = CIDRMask (int p) 32\<rparr>)"
proof -
  define e where "e = a + blockSize4 p - 1"
  note size = blockSize4_unat [OF assms(1,2)]
  have "unat a + unat (blockSize4 p) < 2 ^ LENGTH(32)" using assms(4) size by simp
  then have sum: "unat (a + blockSize4 p) = unat a + 2 ^ (32 - p)"
    using size by (simp add: unat_add_lem [THEN iffD1])
  have "a + blockSize4 p \<noteq> 0"
  proof
    assume "a + blockSize4 p = 0"
    with sum show False by simp
  qed
  then have e: "Suc (unat e) = unat a + 2 ^ (32 - p)"
    unfolding e_def using sum unat_minus_one [of "a + blockSize4 p"] by simp
  have "(1::nat) \<le> 2 ^ (32 - p)" by simp
  with e have "unat a \<le> unat e" by linarith
  then have le: "a \<le> e" by (simp add: word_le_nat_alt)
  have ne: "e \<noteq> 0xFFFFFFFF"
  proof
    assume "e = 0xFFFFFFFF"
    then have "unat e = 2 ^ 32 - 1" by simp
    with e assms(4) show False by simp
  qed
  obtain bs where bs: "IPRangeToCIDRs (uint32ToIP a) (uint32ToIP e) = Some (Inr (blocks4_text bs))"
    "tiles 32 1 (unat a) (Suc (unat e)) bs"
    using IPRangeToCIDRs_tiles [OF to4_uint32ToIP to4_uint32ToIP, of a e] le ne
    by (auto simp: ipToUint32_uint32ToIP)
  have "bs = [(unat a, p)]"
    using tiles_block [OF _ assms(1-3)] bs(2) e by simp
  with bs(1) show ?thesis
    using ParseCIDR_cidr4_string [OF assms(2)] by (simp add: e_def blocks4_text_def)
qed

theorem IPRangeToCIDRs_roundtrip_witness:
  "IPRangeToCIDRs (uint32ToIP 0x0A000000) (uint32ToIP (0x0A000000 + blockSize4 24 - 1)) =
     Some (Inr [cidr4_string 0x0A000000 24]) \<and>
   ParseCIDR (cidr4_string 0x0A000000 24) =
     Some (uint32ToIP 0x0A000000, \<lparr>IP = ip_mask (uint32ToIP 0x0A000000) (CIDRMask (int 24) 32),
                                  Mask = CIDRMask (int 24) 32\<rparr>)"
  by (rule IPRangeToCIDRs_roundtrip) simp_all

end
