(* ===== verification/CIDRMath.thy ===== *)
theory CIDRMath
  imports IPRange
begin

text \<open>
  \<open>pkg/ip/ip.go\<close> and \<open>pkg/ip/cidr.go\<close>: the address range of a CIDR, counting, the next and the
  previous address, the removal of CIDRs from CIDRs, overlap and containment, and the helpers
  on lists of addresses. A Go function that can panic (an index out of range, a negative
  capacity) has an \<open>option\<close> result, \<open>None\<close> being the panic. \<open>big.Int\<close> values are \<open>int\<close>.
\<close>

section \<open>Big-endian numbers\<close>

text \<open>\<open>big.Int.Bytes\<close>: the shortest big-endian form of the absolute value.\<close>

fun nat_bytes :: "nat \<Rightarrow> byte list" where
  "nat_bytes n = (if n = 0 then [] else nat_bytes (n div 256) @ [of_nat (n mod 256)])"

declare nat_bytes.simps [simp del]

definition big_bytes :: "int \<Rightarrow> byte list" where
  "big_bytes i = nat_bytes (nat \<bar>i\<bar>)"

section \<open>Ranges and counts\<close>

definition CountIPsInCIDR :: "ipnet \<Rightarrow> int" where
  "CountIPsInCIDR n =
     (if fst (mask_size (Mask n)) = snd (mask_size (Mask n)) then 0
      else 2 ^ nat (snd (mask_size (Mask n)) - fst (mask_size (Mask n))) - 2)"

text \<open>The first and the last address; the last bytes of the mask are applied to the bytes that
  end at position 15.\<close>

definition ipNetToRange :: "ipnet \<Rightarrow> (ip \<times> ip) option" where
  "ipNetToRange n =
     (let masked = ip_mask (IP n) (Mask n);
          first = (if to4 masked \<noteq> None then v4InV6Prefix @ masked else masked);
          k = length (Mask n)
      in if k \<noteq> 0 \<and> (k > 16 \<or> length first < 16) then None
         else Some (first, take (16 - k) first @
                map2 (\<lambda>b m. b OR NOT m) (take k (drop (16 - k) first)) (Mask n) @ drop 16 first))"

text \<open>Go's integer division truncates; the code calls it with \<open>multiple > 0\<close>, and a zero
  divisor panics.\<close>

definition PrefixCeil :: "int \<Rightarrow> int \<Rightarrow> int option" where
  "PrefixCeil numIPs multiple =
     (if numIPs = 0 then Some 0
      else if multiple = 0 then None
      else let q = sgn numIPs * sgn multiple * (\<bar>numIPs\<bar> div \<bar>multiple\<bar>); r = numIPs - q * multiple
        in Some (if r > 0 then q + 1 else q))"

definition GetIPAtIndex :: "ipnet \<Rightarrow> int \<Rightarrow> ip option" where
  "GetIPAtIndex n index =
     (case ipNetToRange n of
        None \<Rightarrow> None
      | Some (first, last') \<Rightarrow>
          (let ip = (if index \<ge> 0 then first else last');
               i = (if index \<ge> 0 then index else index + 1);
               v = (case to4 ip of Some q \<Rightarrow> int (ip_val q) | None \<Rightarrow> int (ip_val ip));
               b = big_bytes (v + i)
           in Some (if net_contains n b then b else [])))"

section \<open>Neighbouring addresses\<close>

text \<open>The loop of \<open>getPreviousIP\<close> from the last byte down to \<open>lowerByteBound\<close>, on the reversed bytes
  above the bound: borrow while the old byte is 0.\<close>

fun decRev :: "byte list \<Rightarrow> byte list" where
  "decRev [] = []"
| "decRev (b # bs) = (if b = 0 then (b - 1) # decRev bs else (b - 1) # bs)"

definition getPreviousIP :: "ip \<Rightarrow> ip" where
  "getPreviousIP a =
     (if ip_equal a (v4InV6Prefix @ [0, 0, 0, 0]) \<or> ip_equal a (replicate 16 0) then a
      else if to4 a \<noteq> None \<and> length a = 4 \<and> a = [0, 0, 0, 0] then a
      else let lower = (if to4 a \<noteq> None \<and> length a = 16 then 12 else 0)
        in take lower a @ rev (decRev (rev (drop lower a))))"

definition GetNextIP :: "ip \<Rightarrow> ip" where
  "GetNextIP a =
     (if ip_equal a (v4InV6Prefix @ [255, 255, 255, 255]) \<or> ip_equal a (replicate 16 255) then a
      else if length a = 4 then fst (incrementIP a)
      else if length a = 16 then
        (let lo = incrementIP (drop 8 a) in
         if snd lo then take 8 a @ fst lo
         else fst (incrementIP (take 8 a)) @ fst lo)
      else a)"

text \<open>\<open>PrefixToIps\<close>: the loop from the first address to the last, which is appended after it;
  the loop may run forever.\<close>

partial_function (option) ipsFrom :: "ip \<Rightarrow> ip \<Rightarrow> string list \<Rightarrow> string list option" where
  "ipsFrom a last' acc =
     (if ip_equal a last' then Some (acc @ [ip_string last'])
      else ipsFrom (GetNextIP a) last' (acc @ [ip_string a]))"

definition PrefixToIps :: "string \<Rightarrow> (string + string list) option" where
  "PrefixToIps prefixCidr =
     (case ParseCIDR prefixCidr of
        None \<Rightarrow> Some (Inl ''invalid CIDR address'')
      | Some (a, n) \<Rightarrow>
          (case ipNetToRange n of
             None \<Rightarrow> None
           | Some (first, last') \<Rightarrow> map_option Inr (ipsFrom first last' [])))"

section \<open>Removing CIDRs\<close>

definition NetsByMask_less :: "ipnet \<Rightarrow> ipnet \<Rightarrow> bool" where
  "NetsByMask_less a b =
     (let i = fst (mask_size (Mask a)); j = fst (mask_size (Mask b)) in
      if i = j then bytes_compare (IP a) (IP b) < 0 else i < j)"

text \<open>\<open>sort.Sort\<close> with this order, as an insertion sort: it leaves equal elements in any order,
  and two CIDRs that are equal in the order have the same mask length and address.\<close>

fun insert_net :: "ipnet \<Rightarrow> ipnet list \<Rightarrow> ipnet list" where
  "insert_net x [] = [x]"
| "insert_net x (y # ys) = (if NetsByMask_less y x then y # insert_net x ys else x # y # ys)"

definition sort_nets :: "ipnet list \<Rightarrow> ipnet list" where
  "sort_nets xs = foldr insert_net xs []"

text \<open>The inner loop marks the indices of the CIDRs whose address lies in \<open>c\<close>, the outer one
  visits the CIDRs that are not marked yet. \<open>red\<close> is the map \<open>redundant\<close>.\<close>

definition markRedundant :: "ipnet list \<Rightarrow> nat \<Rightarrow> nat set \<Rightarrow> nat set" where
  "markRedundant cs j red =
     (if j \<in> red then red
      else red \<union> {i. i < length cs \<and> i \<noteq> j \<and> i \<notin> red \<and> net_contains (cs ! j) (IP (cs ! i))})"

definition redundantIndices :: "ipnet list \<Rightarrow> nat set" where
  "redundantIndices cs = fold (markRedundant cs) [0..<length cs] {}"

definition removeRedundantCIDRs :: "ipnet list \<Rightarrow> ipnet list" where
  "removeRedundantCIDRs cs =
     map ((!) cs) (filter (\<lambda>i. i \<notin> redundantIndices cs) [0..<length cs])"

definition flipNthHighestBit :: "ip \<Rightarrow> nat \<Rightarrow> ip" where
  "flipNthHighestBit a n = a[n div 8 := (a ! (n div 8)) XOR drop_bit (n mod 8) 0x80]"

text \<open>\<open>make\<close> with a negative capacity panics.\<close>

definition excludeContainedCIDR :: "ipnet \<Rightarrow> ipnet \<Rightarrow> ipnet list option" where
  "excludeContainedCIDR allow remove =
     (let allowSize = fst (mask_size (Mask allow)); addrSize = snd (mask_size (Mask allow));
          removeSize = fst (mask_size (Mask remove))
      in if allowSize = removeSize \<and> ip_equal (IP allow) (IP remove) then Some []
         else if removeSize - allowSize < 0 then None
         else Some (map (\<lambda>bit. let newMask = CIDRMask (int bit + 1) addrSize in
                          \<lparr>IP = flipNthHighestBit (ip_mask (ip_mask (IP remove) (Mask remove)) newMask) bit,
                           Mask = newMask\<rparr>)
                     [nat allowSize..<nat removeSize]))"

text \<open>The inner loop of \<open>RemoveCIDRs\<close>: \<open>kept\<close> are the CIDRs before index \<open>i\<close>, the second list the
  ones from \<open>i\<close> on, to which the parts of a split CIDR are appended. The parts do not contain
  the removed CIDR and are not contained in it, so the loop ends; the fuel bounds it.\<close>

fun removeOne :: "nat \<Rightarrow> ipnet \<Rightarrow> ipnet list \<Rightarrow> ipnet list \<Rightarrow> ipnet list option" where
  "removeOne f remove kept [] = Some kept"
| "removeOne 0 remove kept (c # cs) = None"
| "removeOne (Suc f) remove kept (c # cs) =
     (if net_contains c (ip_mask (IP remove) (Mask remove)) then
        (case excludeContainedCIDR c remove of
           None \<Rightarrow> None
         | Some nets \<Rightarrow> removeOne f remove kept (cs @ nets))
      else if net_contains remove (ip_mask (IP c) (Mask c)) then removeOne f remove kept cs
      else removeOne f remove (kept @ [c]) cs)"

text \<open>A CIDR is split at most once, into at most 128 parts.\<close>

definition removeFuel :: "ipnet list \<Rightarrow> nat" where
  "removeFuel cs = 130 * Suc (length cs)"

fun removeAllCIDRs :: "ipnet list \<Rightarrow> ipnet list \<Rightarrow> ipnet list option" where
  "removeAllCIDRs allow [] = Some allow"
| "removeAllCIDRs allow (r # rs) =
     (case removeOne (removeFuel allow) r [] allow of
        None \<Rightarrow> None | Some allow' \<Rightarrow> removeAllCIDRs allow' rs)"

definition RemoveCIDRs :: "ipnet list \<Rightarrow> ipnet list \<Rightarrow> ipnet list option" where
  "RemoveCIDRs allow remove =
     removeAllCIDRs (removeRedundantCIDRs allow) (removeRedundantCIDRs (sort_nets remove))"

section \<open>Overlap, containment, parsing\<close>

definition cidrToRangeInt :: "ipnet \<Rightarrow> (nat \<times> nat) option" where
  "cidrToRangeInt c =
     (case ipNetToRange c of
        None \<Rightarrow> None
      | Some (first, last') \<Rightarrow>
          (case to4 first of
             Some q \<Rightarrow> Some (ip_val q, ip_val (case to4 last' of Some l \<Rightarrow> l | None \<Rightarrow> []))
           | None \<Rightarrow> Some (ip_val first, ip_val last')))"

definition IsOverlapCIDRs :: "ipnet \<Rightarrow> ipnet \<Rightarrow> bool option" where
  "IsOverlapCIDRs c1 c2 =
     (case (cidrToRangeInt c1, cidrToRangeInt c2) of
        (Some (lo1, hi1), Some (lo2, hi2)) \<Rightarrow> Some (lo1 \<le> hi2 \<and> hi1 \<ge> lo2)
      | _ \<Rightarrow> None)"

definition IsContainsCIDRs :: "ipnet \<Rightarrow> ipnet \<Rightarrow> bool option" where
  "IsContainsCIDRs c1 c2 =
     (case (cidrToRangeInt c1, cidrToRangeInt c2) of
        (Some (lo1, hi1), Some (lo2, hi2)) \<Rightarrow> Some (lo1 \<le> lo2 \<and> hi1 \<ge> hi2)
      | _ \<Rightarrow> None)"

definition IPToPrefix :: "ip \<Rightarrow> ipnet" where
  "IPToPrefix a =
     (case to4 a of
        Some q \<Rightarrow> \<lparr>IP = q, Mask = CIDRMask 32 32\<rparr>
      | None \<Rightarrow> \<lparr>IP = a, Mask = CIDRMask 128 128\<rparr>)"

fun ParseCIDRs :: "string list \<Rightarrow> ipnet list \<times> string list" where
  "ParseCIDRs [] = ([], [])"
| "ParseCIDRs (c # cs) =
     (case ParseCIDR c of
        Some (a, prefix) \<Rightarrow> (prefix # fst (ParseCIDRs cs), snd (ParseCIDRs cs))
      | None \<Rightarrow>
          (case ParseIP c of
             None \<Rightarrow> (fst (ParseCIDRs cs), c # snd (ParseCIDRs cs))
           | Some a \<Rightarrow> (IPToPrefix a # fst (ParseCIDRs cs), snd (ParseCIDRs cs))))"

definition ConvertIPPairToIPNet :: "string \<Rightarrow> ipnet" where
  "ConvertIPPairToIPNet s =
     (let a = (case ParseIP s of None \<Rightarrow> [] | Some a \<Rightarrow> a) in
      \<lparr>IP = a, Mask = (if to4 a = None then CIDRMask 128 128 else CIDRMask 32 32)\<rparr>)"

section \<open>Lists of addresses\<close>

text \<open>\<open>sort.Slice\<close> by \<open>bytes.Compare\<close>.\<close>

fun insert_ip :: "ip \<Rightarrow> ip list \<Rightarrow> ip list" where
  "insert_ip x [] = [x]"
| "insert_ip x (y # ys) = (if bytes_compare y x < 0 then y # insert_ip x ys else x # y # ys)"

definition SortIPList :: "ip list \<Rightarrow> ip list" where
  "SortIPList xs = foldr insert_ip xs []"

text \<open>The loop of \<open>KeepUniqueIPs\<close> over the sorted slice; \<open>acc\<close> is \<open>returnIPs\<close>.\<close>

fun uniqLoop :: "ip list \<Rightarrow> ip list \<Rightarrow> ip list" where
  "uniqLoop acc [] = acc"
| "uniqLoop acc (x # xs) =
     (if acc = [] \<or> \<not> ip_equal (last acc) x then uniqLoop (acc @ [x]) xs else uniqLoop acc xs)"

definition KeepUniqueIPs :: "ip list \<Rightarrow> ip list" where
  "KeepUniqueIPs ips = uniqLoop [] (SortIPList ips)"

definition IsExcluded :: "ip list \<Rightarrow> ip \<Rightarrow> bool" where
  "IsExcluded excludeList a = list_ex (\<lambda>e. ip_equal e a) excludeList"

definition privateCIDRs :: "string list" where
  "privateCIDRs =
     [''0.0.0.0/8'', ''10.0.0.0/8'', ''100.64.0.0/10'', ''127.0.0.0/8'', ''169.254.0.0/16'',
      ''172.16.0.0/12'', ''192.0.0.0/24'', ''192.0.2.0/24'', ''192.168.0.0/16'', ''198.18.0.0/15'',
      ''198.51.100.0/24'', ''203.0.113.0/24'', ''224.0.0.0/4'', ''::/128'', ''::1/128'',
      ''100::/64'', ''2001:2::/48'', ''2001:db8::/48'', ''fc00::/7'', ''fe80::/10'', ''ff00::/8'']"

definition privateIPBlocks :: "ipnet list" where
  "privateIPBlocks = map (\<lambda>s. snd (the (ParseCIDR s))) privateCIDRs"

definition IsPublicAddr :: "ip \<Rightarrow> bool" where
  "IsPublicAddr a = (\<not> list_ex (\<lambda>b. net_contains b a) privateIPBlocks)"

definition GetCIDRPrefixesFromIPs :: "ip list \<Rightarrow> ipnet list" where
  "GetCIDRPrefixesFromIPs ips = map IPToPrefix ips"

definition IsIPv4 :: "ip \<Rightarrow> bool" where
  "IsIPv4 a = (to4 a \<noteq> None)"

definition IsIPv6 :: "ip \<Rightarrow> bool" where
  "IsIPv6 a = (a \<noteq> [] \<and> to4 a = None)"

definition SortedIPListsAreEqual :: "ip list \<Rightarrow> ip list \<Rightarrow> bool" where
  "SortedIPListsAreEqual a b = (length a = length b \<and> list_all2 ip_equal a b)"

definition UnsortedIPListsAreEqual :: "ip list \<Rightarrow> ip list \<Rightarrow> bool" where
  "UnsortedIPListsAreEqual a b =
     (length a = length b \<and> SortedIPListsAreEqual (SortIPList a) (SortIPList b))"

fun GetIPFromListByFamily :: "ip list \<Rightarrow> bool \<Rightarrow> ip" where
  "GetIPFromListByFamily [] v4Family = []"
| "GetIPFromListByFamily (a # as) v4Family =
     (if v4Family = IsIPv4 a \<or> (\<not> v4Family \<and> IsIPv6 a) then a
      else GetIPFromListByFamily as v4Family)"

section \<open>Parsed CIDRs have a range\<close>

lemma parse_v6_groups_length:
  assumes "parse_v6_groups f bs ell s = Some (bs', ell', rest)" "even (length bs)" "length bs \<le> 16"
  shows "even (length bs') \<and> length bs' \<le> 16"
  using assms
proof (induction f arbitrary: bs ell s)
  case 0
  then show ?case by (simp add: parse_v6_groups.simps)
next
  case (Suc f)
  have v4: "length q = 4" if "parse_ipv4 t = Some q" for t q
    using that by (auto simp: parse_ipv4_def Let_def split: if_splits)
  have ch: "length (chunk16 k) = 2" for k by (simp add: chunk16_def)
  have lt: "length bs + 2 \<le> 16" if "\<not> 16 \<le> length bs"
    using that Suc.prems(2) by presburger
  have rec: "even (length bs') \<and> length bs' \<le> 16"
    if "parse_v6_groups f (bs @ chunk16 k) e t = Some (bs', ell', rest)" "\<not> 16 \<le> length bs" for k e t
    using Suc.IH [OF that(1)] Suc.prems(2) lt [OF that(2)] by (simp add: ch)
  show ?case
    using Suc.prems(1)
    by (subst (asm) parse_v6_groups.simps)
       (use Suc.prems(2,3) lt in \<open>auto split: if_splits simp: ch v4 dest: rec\<close>)
qed

lemma ParseIP_length:
  assumes "ParseIP s = Some a"
  shows "length a = 16"
proof -
  have v4: "length q = 4" if "parse_ipv4 t = Some q" for t q
    using that by (auto simp: parse_ipv4_def Let_def split: if_splits)
  have le: "length q \<le> 16" if "parse_v6_groups 8 [] e t = Some (q, e', r)" for e t q e' r
    using parse_v6_groups_length [OF that] by simp
  have v6: "length q = 16" if "parse_ipv6 t = Some q" for t q
    using that
    by (auto simp: parse_ipv6_def Let_def not_less intro!: le_antisym dest: le
        split: if_splits option.splits prod.splits)
  show ?thesis
    using assms v4 v6
    by (auto simp: ParseIP_def v4InV6Prefix_def split: option.splits if_splits)
qed

lemma cidr_mask_bytes_length [simp]: "length (cidr_mask_bytes l n) = l"
  by (induction l n rule: cidr_mask_bytes.induct) auto

lemma ParseIP_colon:
  assumes "ParseIP s = Some a" "CHR '':'' \<notin> set s"
  shows "\<exists>q. length q = 4 \<and> a = v4InV6Prefix @ q"
proof -
  have v4: "length q = 4" if "parse_ipv4 t = Some q" for t q
    using that by (auto simp: parse_ipv4_def Let_def split: if_splits)
  from assms(1) obtain c where c: "List.find (\<lambda>c. c = CHR ''.'' \<or> c = CHR '':'') s = Some c"
    by (auto simp: ParseIP_def split: option.splits)
  then obtain ys zs where "s = ys @ c # zs" "c = CHR ''.'' \<or> c = CHR '':''"
    unfolding find_Some_iff_prefix by blast
  then have "c = CHR ''.''" using assms(2) by auto
  then obtain q where "parse_ipv4 s = Some q" "a = v4InV6Prefix @ q"
    using assms(1) c by (auto simp: ParseIP_def)
  then show ?thesis using v4 by blast
qed

lemma ParseCIDR_range:
  assumes "ParseCIDR s = Some (a, n)"
  shows "ipNetToRange n \<noteq> None"
proof -
  define t where "t = takeWhile (\<lambda>c. c \<noteq> CHR ''/'') s"
  from assms obtain k where p: "ParseIP t = Some a"
      and n: "n = \<lparr>IP = ip_mask a (CIDRMask (int k) (if CHR '':'' \<in> set t then 128 else 32)),
                   Mask = CIDRMask (int k) (if CHR '':'' \<in> set t then 128 else 32)\<rparr>"
      and k: "k \<le> (if CHR '':'' \<in> set t then 128 else 32)"
    by (auto simp: ParseCIDR_def Let_def t_def split: if_splits option.splits)
  have len: "length a = 16" by (rule ParseIP_length [OF p])
  show ?thesis
  proof (cases "CHR '':'' \<in> set t")
    case True
    then show ?thesis using n k len
      by (auto simp: ipNetToRange_def Let_def ip_mask_def CIDRMask_def)
  next
    case False
    then obtain q where "length q = 4" "a = v4InV6Prefix @ q" using ParseIP_colon [OF p] by blast
    then show ?thesis using False n k
      by (auto simp: ipNetToRange_def Let_def ip_mask_def CIDRMask_def v4InV6Prefix_def to4_def)
  qed
qed

end
