(* ===== verification/IPAMTypes.thy ===== *)
theory IPAMTypes
  imports GoNet
begin

text \<open>
  The data of the IPAM subsystem: \<open>pkg/ipam/types/types.go\<close> (the specification and status
  kept in the NetResourceSet, the instance map of the operator), the constants of
  \<open>pkg/ipam/option/option.go\<close>, the errors of \<open>pkg/k8s/apis/cce.baidubce.com/v2/errors.go\<close>
  and the part of the NetResourceSet object the IPAM code reads, with
  \<open>SpeculationNoMoreIPReson\<close> of \<open>nrs_utils.go\<close>.
\<close>

section \<open>Families, modes and release states\<close>

type_synonym Family = string

definition IPv6 :: Family where "IPv6 = ''ipv6''"
definition IPv4 :: Family where "IPv4 = ''ipv4''"

lemma family_distinct [simp]: "IPv4 \<noteq> IPv6" "IPv6 \<noteq> IPv4" "IPv4 \<noteq> []" "IPv6 \<noteq> []"
  by (simp_all add: IPv4_def IPv6_def)

definition DeriveFamily :: "ip \<Rightarrow> Family" where
  "DeriveFamily a = (if to4 a = None then IPv6 else IPv4)"

datatype ipam_mode = IPAMKubernetes | IPAMCRD | IPAMVpcEni | IPAMVpcRoute | IPAMRdma
  | IPAMClusterPool | IPAMClusterPoolV2 | IPAMPrivateCloudBase | IPAMDelegatedPlugin
  | IPAMOther string

definition IPAMMarkForRelease :: string where "IPAMMarkForRelease = ''marked-for-release''"
definition IPAMReadyForRelease :: string where "IPAMReadyForRelease = ''ready-for-release''"
definition IPAMDoNotRelease :: string where "IPAMDoNotRelease = ''do-not-release''"
definition IPAMReleased :: string where "IPAMReleased = ''released''"

lemma release_status_distinct [simp]:
  "IPAMMarkForRelease \<noteq> IPAMReadyForRelease" "IPAMReadyForRelease \<noteq> IPAMMarkForRelease"
  "IPAMMarkForRelease \<noteq> IPAMDoNotRelease" "IPAMDoNotRelease \<noteq> IPAMMarkForRelease"
  "IPAMMarkForRelease \<noteq> IPAMReleased" "IPAMReleased \<noteq> IPAMMarkForRelease"
  "IPAMReadyForRelease \<noteq> IPAMDoNotRelease" "IPAMDoNotRelease \<noteq> IPAMReadyForRelease"
  "IPAMReadyForRelease \<noteq> IPAMReleased" "IPAMReleased \<noteq> IPAMReadyForRelease"
  "IPAMDoNotRelease \<noteq> IPAMReleased" "IPAMReleased \<noteq> IPAMDoNotRelease"
  by (simp_all add: IPAMMarkForRelease_def IPAMReadyForRelease_def IPAMDoNotRelease_def
      IPAMReleased_def)

section \<open>Errors\<close>

text \<open>The dynamic type of an error matters to the code: \<open>CodeError\<close> is recognised by a type
  assertion, \<open>Aggregate\<close> is what \<open>ToAggregate\<close> returns.\<close>

datatype go_error = PlainError string | CodeError string string
  | IPNotAvailable ip | Aggregate "(string \<times> string) list"

definition is_code_error :: "go_error \<Rightarrow> bool" where
  "is_code_error e = (case e of CodeError _ _ \<Rightarrow> True | _ \<Rightarrow> False)"

text \<open>\<open>ToAggregate\<close>: repeated messages are dropped, an empty list is the nil error.\<close>

fun code_error_string :: "string \<times> string \<Rightarrow> string" where
  "code_error_string (c, m) = ''code: '' @ c @ '', msg: '' @ m"

fun dedup_errs :: "string list \<Rightarrow> (string \<times> string) list \<Rightarrow> (string \<times> string) list" where
  "dedup_errs seen [] = []"
| "dedup_errs seen (e # es) =
     (if code_error_string e \<in> set seen then dedup_errs seen es
      else e # dedup_errs (code_error_string e # seen) es)"

definition ToAggregate :: "(string \<times> string) list \<Rightarrow> go_error option" where
  "ToAggregate es = (if es = [] then None else Some (Aggregate (dedup_errs [] es)))"

section \<open>Specification and status\<close>

record AllocationIP =
  Owner :: string
  SubnetID :: string
  IsPrimary :: bool
  Resource :: string

type_synonym AllocationMap = "string \<rightharpoonup> AllocationIP"

record IPAMSpec =
  Pool :: "AllocationMap option"
  PodCIDRs :: "string list"
  MinAllocate :: int
  MaxAllocate :: int
  PreAllocate :: int
  MaxAboveWatermark :: int
  PodCIDRAllocationThreshold :: int
  PodCIDRReleaseThreshold :: int

datatype PodCIDRStatus = PodCIDRReleased | PodCIDRDepleted | PodCIDRInUse

type_synonym PodCIDRMap = "string \<rightharpoonup> PodCIDRStatus"

record IPAMStatus =
  Used :: AllocationMap
  PodCIDRsStatus :: PodCIDRMap
  VPCRouteCIDRs :: "string \<rightharpoonup> string"
  OperatorError :: string
  ReleaseIPs :: "string \<rightharpoonup> string"
  AvailableSubnetIDs :: "string list"

record StatusChange =
  scCode :: string
  scMessage :: string
  scTime :: int

record ENIStatus =
  ENIID :: string
  AvailableIPNum :: int
  IsMoreAvailableIPInSubnet :: bool
  ENISubnetID :: string
  LastAllocatedIPError :: "StatusChange option"

record ENISpec =
  MaxIPsPerENI :: int
  MaxAllocateENI :: int
  ENISubnetIDs :: "string list"
  AvailabilityZone :: string
  BurstableMehrfachENI :: int

record PrivateCloudSubnet =
  Gateway :: string
  PCCIDR :: string

record NetResourceSet =
  nrsName :: string
  ResourceVersion :: string
  OwnerReferences :: "string list"
  Annotations :: "string \<rightharpoonup> string"
  SpecIPAM :: IPAMSpec
  SpecENI :: "ENISpec option"
  StatusIPAM :: IPAMStatus
  StatusENIs :: "ENIStatus list"
  PrivateCloud :: "PrivateCloudSubnet option"

text \<open>The pool as the code reads it: a nil map has no entries.\<close>

definition pool_map :: "NetResourceSet \<Rightarrow> AllocationMap" where
  "pool_map n = (case Pool (SpecIPAM n) of None \<Rightarrow> Map.empty | Some m \<Rightarrow> m)"

definition set_ReleaseIPs :: "(string \<rightharpoonup> string) \<Rightarrow> NetResourceSet \<Rightarrow> NetResourceSet" where
  "set_ReleaseIPs r n = n\<lparr>StatusIPAM := (StatusIPAM n)\<lparr>ReleaseIPs := r\<rparr>\<rparr>"

abbreviation release_ips :: "NetResourceSet \<Rightarrow> (string \<rightharpoonup> string)" where
  "release_ips n \<equiv> ReleaseIPs (StatusIPAM n)"

lemma set_ReleaseIPs_simps [simp]:
  "release_ips (set_ReleaseIPs r n) = r" "pool_map (set_ReleaseIPs r n) = pool_map n"
  "SpecIPAM (set_ReleaseIPs r n) = SpecIPAM n" "SpecENI (set_ReleaseIPs r n) = SpecENI n"
  "Used (StatusIPAM (set_ReleaseIPs r n)) = Used (StatusIPAM n)"
  by (simp_all add: set_ReleaseIPs_def pool_map_def)

section \<open>Why no address is left\<close>

text \<open>\<open>SpeculationNoMoreIPReson\<close>: the loop over the ENIs collects the errors; \<open>last\<close> is the
  code's local \<open>LastAllocatedIPError\<close>, \<open>now\<close> the time in nanoseconds.\<close>

definition effectiveENIErrorDuration :: int where
  "effectiveENIErrorDuration = 120 * 10 ^ 9"

record speculation =
  spLast :: "StatusChange option"
  spErrs :: "(string \<times> string) list"
  spFull :: bool

definition speculate_eni :: "int \<Rightarrow> bool \<Rightarrow> int \<Rightarrow> ENIStatus \<Rightarrow> speculation \<Rightarrow> speculation" where
  "speculate_eni now crossSubnet eniIPCapacity e s =
     (let s1 = (if AvailableIPNum e > 0
                then (let s' = s\<lparr>spFull := False\<rparr> in
                      if \<not> crossSubnet \<and> \<not> IsMoreAvailableIPInSubnet e
                      then s'\<lparr>spErrs := spErrs s' @ [(''SubnetNoMoreIP'', ''ENI '' @ ENIID e @
                                 '' with subnet '' @ ENISubnetID e @ '' has no more available IP'')]\<rparr>
                      else s')
                else s\<lparr>spErrs := spErrs s @ [(''ENIIPCapacityExceed'', ''ENI '' @ ENIID e @
                       '' has no more capacity to allocate new IP, capacity is '' @ int_string eniIPCapacity)]\<rparr>)
      in case LastAllocatedIPError e of
           None \<Rightarrow> s1
         | Some err \<Rightarrow>
             (case spLast s1 of
                Some l \<Rightarrow> if scTime l < scTime err then s1\<lparr>spLast := Some err\<rparr> else s1
              | None \<Rightarrow>
                  if now - scTime err > effectiveENIErrorDuration
                  then s1\<lparr>spErrs := spErrs s1 @ [(scCode err,
                         ''eni '' @ ENIID e @ '' allocate ip error: '' @ scMessage err)]\<rparr>
                  else s1))"

definition SpeculationNoMoreIPReson :: "int \<Rightarrow> bool \<Rightarrow> NetResourceSet \<Rightarrow> go_error option" where
  "SpeculationNoMoreIPReson now crossSubnet n =
     (case SpecENI n of
        None \<Rightarrow> None
      | Some eni \<Rightarrow>
          (let s = fold (speculate_eni now crossSubnet (MaxIPsPerENI eni)) (StatusENIs n)
                     \<lparr>spLast = None, spErrs = [], spFull = True\<rparr>;
               errs1 = (if AvailableSubnetIDs (StatusIPAM n) = [] \<and>
                           MaxAllocateENI eni > int (length (StatusENIs n))
                        then spErrs s @ [(''NoAvailableSubnet'', ''subnets ['' @ join '','' (ENISubnetIDs eni) @
                          ''] are not available for this node. please add another subnet and create new eni later'')]
                        else spErrs s);
               errs2 = (if spFull s
                        then (if int (length (StatusENIs n)) < MaxAllocateENI eni
                              then [(''WaitCreateMoreENI'',
                                    ''all ENI's IP addresses are currently full. will try to apply for a new ENI again later'')]
                              else [(''ENICapacityExceed'',
                                    ''all ENIs and it's IPs have reached capacity, cannot allocate any more'')])
                        else errs1);
               errs3 = (if errs2 = [] then [(''IPPoolExhausted'',
                                         ''ip pool have been exhausted will refill  later. please try again'')] else errs2)
           in ToAggregate errs3))"

lemma SpeculationNoMoreIPReson_None:
  "SpeculationNoMoreIPReson now cs n = None \<longleftrightarrow> SpecENI n = None"
  by (auto simp: SpeculationNoMoreIPReson_def Let_def ToAggregate_def split: option.splits)

text \<open>The local that should hold the most recent error is never set.\<close>

lemma speculate_last_None:
  "spLast (fold (speculate_eni now cs cap) es s) = None" if "spLast s = None"
  using that
  by (induction es arbitrary: s) (auto simp: speculate_eni_def Let_def split: option.splits)

section \<open>The instance map\<close>

text \<open>An interface is known by its identifier and the calls \<open>ForeachAddress\<close> makes of its
  iterator: a list of (interface id, ip, pool id) for the instance. A revision without a
  resource (a nil interface) is \<open>None\<close>.\<close>

record Interface' =
  InterfaceID :: string
  Addresses :: "(string \<times> string \<times> string) list"

record InterfaceRevision =
  RevResource :: "Interface' option"
  Fingerprint :: string

type_synonym Instance = "string \<rightharpoonup> InterfaceRevision"

type_synonym InstanceMap = "string \<rightharpoonup> Instance"

definition updateLocked :: "string \<Rightarrow> InterfaceRevision \<Rightarrow> InstanceMap \<Rightarrow> InstanceMap" where
  "updateLocked instanceID iface m =
     (case RevResource iface of
        None \<Rightarrow> m
      | Some r \<Rightarrow>
          m(instanceID \<mapsto> (case m instanceID of None \<Rightarrow> Map.empty | Some i \<Rightarrow> i)(InterfaceID r \<mapsto> iface)))"

definition GetInterface :: "string \<Rightarrow> string \<Rightarrow> InstanceMap \<Rightarrow> InterfaceRevision option" where
  "GetInterface instanceID interfaceID m =
     (case m instanceID of None \<Rightarrow> None | Some i \<Rightarrow> i interfaceID)"

text \<open>The iterations, for an iterator that updates a state and may stop with an error. \<open>ks\<close> and
  \<open>iks\<close> are the orders in which the maps are visited.\<close>

fun iterate :: "('x \<Rightarrow> 's \<Rightarrow> (go_error option \<times> 's)) \<Rightarrow> 'x list \<Rightarrow> 's \<Rightarrow> (go_error option \<times> 's)" where
  "iterate fn [] s = (None, s)"
| "iterate fn (x # xs) s =
     (case fn x s of (Some e, s') \<Rightarrow> (Some e, s') | (None, s') \<Rightarrow> iterate fn xs s')"

definition foreachInterface ::
    "(Instance \<Rightarrow> string list) \<Rightarrow> string \<Rightarrow> Instance
     \<Rightarrow> (string \<Rightarrow> string \<Rightarrow> InterfaceRevision \<Rightarrow> 's \<Rightarrow> (go_error option \<times> 's)) \<Rightarrow> 's \<Rightarrow> (go_error option \<times> 's)" where
  "foreachInterface iks instanceID i fn =
     iterate (\<lambda>k. fn instanceID (case RevResource (the (i k)) of None \<Rightarrow> [] | Some r \<Rightarrow> InterfaceID r)
                 (the (i k)))
       (iks i)"

definition foreachAddress ::
    "(Instance \<Rightarrow> string list) \<Rightarrow> string \<Rightarrow> Instance
     \<Rightarrow> (string \<Rightarrow> string \<times> string \<times> string \<Rightarrow> 's \<Rightarrow> (go_error option \<times> 's)) \<Rightarrow> 's \<Rightarrow> (go_error option \<times> 's)" where
  "foreachAddress iks instanceID i fn =
     iterate (\<lambda>k. iterate (fn instanceID)
                    (case RevResource (the (i k)) of None \<Rightarrow> [] | Some r \<Rightarrow> Addresses r))
       (iks i)"

definition ForeachInterface ::
    "(InstanceMap \<Rightarrow> string list) \<Rightarrow> (Instance \<Rightarrow> string list) \<Rightarrow> InstanceMap \<Rightarrow> string
     \<Rightarrow> (string \<Rightarrow> string \<Rightarrow> InterfaceRevision \<Rightarrow> 's \<Rightarrow> (go_error option \<times> 's)) \<Rightarrow> 's \<Rightarrow> (go_error option \<times> 's)" where
  "ForeachInterface ks iks m instanceID fn s =
     (if instanceID \<noteq> [] then
        (case m instanceID of
           Some i \<Rightarrow> foreachInterface iks instanceID i fn s
         | None \<Rightarrow> (Some (PlainError ''instance does not exist''), s))
      else iterate (\<lambda>k. foreachInterface iks k (the (m k)) fn) (ks m) s)"

definition ForeachAddress ::
    "(InstanceMap \<Rightarrow> string list) \<Rightarrow> (Instance \<Rightarrow> string list) \<Rightarrow> InstanceMap \<Rightarrow> string
     \<Rightarrow> (string \<Rightarrow> string \<times> string \<times> string \<Rightarrow> 's \<Rightarrow> (go_error option \<times> 's)) \<Rightarrow> 's \<Rightarrow> (go_error option \<times> 's)" where
  "ForeachAddress ks iks m instanceID fn s =
     (if instanceID \<noteq> [] then
        (case m instanceID of
           Some i \<Rightarrow> foreachAddress iks instanceID i fn s
         | None \<Rightarrow> (Some (PlainError ''instance does not exist''), s))
      else iterate (\<lambda>k. foreachAddress iks k (the (m k)) fn) (ks m) s)"

definition NumInstances :: "InstanceMap \<Rightarrow> nat" where
  "NumInstances m = card (dom m)"

definition InstanceMap_DeepCopy ::
    "(InstanceMap \<Rightarrow> string list) \<Rightarrow> (Instance \<Rightarrow> string list) \<Rightarrow> InstanceMap \<Rightarrow> InstanceMap" where
  "InstanceMap_DeepCopy ks iks m =
     snd (ForeachInterface ks iks m [] (\<lambda>instanceID interfaceID rev c. (None, updateLocked instanceID rev c))
            Map.empty)"

section \<open>Tags and subnets\<close>

definition Tags_Match :: "(string \<rightharpoonup> string) \<Rightarrow> (string \<times> string) list \<Rightarrow> bool" where
  "Tags_Match t required = list_all (\<lambda>(k, needed). t k = Some needed) required"

text \<open>Only \<open>AvailableAddresses\<close> of a subnet matters; \<open>ks\<close> is the order of the map.\<close>

definition FirstSubnetWithAvailableAddresses ::
    "string list \<Rightarrow> (string \<rightharpoonup> int) \<Rightarrow> string list \<Rightarrow> string \<times> int" where
  "FirstSubnetWithAvailableAddresses ks m preferred =
     (case List.find (\<lambda>p. case m p of None \<Rightarrow> False | Some n \<Rightarrow> n > 0) preferred of
        Some p \<Rightarrow> (p, the (m p))
      | None \<Rightarrow>
          (case List.find (\<lambda>p. the (m p) > 0) ks of Some p \<Rightarrow> (p, the (m p)) | None \<Rightarrow> ([], 0)))"

end
