(* ===== verification/PodCIDRPool.thy ===== *)
theory PodCIDRPool
  imports IPAMTypes
begin

text \<open>
  \<open>pkg/ipam/clusterpool.go\<close>: the pool of pod CIDRs an agent allocates from, its status report
  to the operator, and its update from the NetResourceSet. The allocator of one CIDR is
  \<open>ipallocator.Range\<close> of \<open>github.com/cilium/ipam\<close>, which is not part of the repository: its
  operations are the argument \<open>R\<close> of the definitions, and what its documentation promises is
  the predicate \<open>range_laws\<close>.
\<close>

section \<open>The range allocator the pool is built on\<close>

record 'r range_ops =
  rNew :: "ipnet \<Rightarrow> string + 'r"
  rCIDR :: "'r \<Rightarrow> ipnet"
  rAllocate :: "ip \<Rightarrow> 'r \<Rightarrow> string + 'r"
  rAllocateNext :: "'r \<Rightarrow> string + (ip \<times> 'r)"
  rRelease :: "ip \<Rightarrow> 'r \<Rightarrow> string + 'r"
  rFree :: "'r \<Rightarrow> int"
  rUsed :: "'r \<Rightarrow> int"
  rIPs :: "'r \<Rightarrow> string set"
  rSnapshot :: "'r \<Rightarrow> string + byte list"

text \<open>\<open>rIPs\<close> is what \<open>ForEach\<close> enumerates, as text. The laws: the CIDR of a range never changes;
  an allocation takes an address that was not allocated and lies in the CIDR; \<open>AllocateNext\<close>
  succeeds while \<open>Free\<close> is positive and takes one of the free addresses; a release never fails
  and frees the address; \<open>Used\<close> counts the allocated
  addresses; a new range is unused.\<close>

definition range_laws :: "'r range_ops \<Rightarrow> bool" where
  "range_laws R \<longleftrightarrow>
     (\<forall>n r. rNew R n = Inr r \<longrightarrow> rCIDR R r = n \<and> rIPs R r = {}) \<and>
     (\<forall>a r r'. rAllocate R a r = Inr r' \<longrightarrow>
        rCIDR R r' = rCIDR R r \<and> net_contains (rCIDR R r) a \<and> ip_string a \<notin> rIPs R r \<and>
        rIPs R r' = insert (ip_string a) (rIPs R r)) \<and>
     (\<forall>a r r'. rAllocateNext R r = Inr (a, r') \<longrightarrow>
        rCIDR R r' = rCIDR R r \<and> net_contains (rCIDR R r) a \<and> ip_string a \<notin> rIPs R r \<and>
        rIPs R r' = insert (ip_string a) (rIPs R r)) \<and>
     (\<forall>a r r'. rAllocateNext R r = Inr (a, r') \<longrightarrow> rFree R r' < rFree R r) \<and>
     (\<forall>a r. \<exists>r'. rRelease R a r = Inr r') \<and>
     (\<forall>r. 0 < rFree R r \<longrightarrow> (\<exists>a r'. rAllocateNext R r = Inr (a, r'))) \<and>
     (\<forall>a r r'. rRelease R a r = Inr r' \<longrightarrow>
        rCIDR R r' = rCIDR R r \<and> rIPs R r' = rIPs R r - {ip_string a}) \<and>
     (\<forall>r. 0 \<le> rFree R r \<and> 0 \<le> rUsed R r \<and> (rUsed R r = 0 \<longleftrightarrow> rIPs R r = {}))"

lemma range_lawsD:
  assumes "range_laws R"
  shows "rNew R n = Inr r \<Longrightarrow> rCIDR R r = n \<and> rIPs R r = {}"
    and "rAllocate R a r = Inr r' \<Longrightarrow>
        rCIDR R r' = rCIDR R r \<and> net_contains (rCIDR R r) a \<and> ip_string a \<notin> rIPs R r \<and>
        rIPs R r' = insert (ip_string a) (rIPs R r)"
    and "rAllocateNext R r = Inr (a, r') \<Longrightarrow>
        rCIDR R r' = rCIDR R r \<and> net_contains (rCIDR R r) a \<and> ip_string a \<notin> rIPs R r \<and>
        rIPs R r' = insert (ip_string a) (rIPs R r)"
    and "0 < rFree R r \<Longrightarrow> \<exists>a r'. rAllocateNext R r = Inr (a, r')"
    and "rRelease R a r = Inr r' \<Longrightarrow>
        rCIDR R r' = rCIDR R r \<and> rIPs R r' = rIPs R r - {ip_string a}"
    and "0 \<le> rFree R r" "0 \<le> rUsed R r" "rUsed R r = 0 \<longleftrightarrow> rIPs R r = {}"
    and "rAllocateNext R r = Inr (a, r') \<Longrightarrow> rFree R r' < rFree R r"
    and "\<exists>r'. rRelease R a r = Inr r'"
  using assms by (auto simp: range_laws_def)

section \<open>The pool\<close>

definition IPAMPodCIDRAllocationThreshold :: int where "IPAMPodCIDRAllocationThreshold = 8"
definition IPAMPodCIDRReleaseThreshold :: int where "IPAMPodCIDRReleaseThreshold = 16"

record 'r podCIDRPool =
  ipAllocators :: "'r list"
  released :: "string set"
  removed :: "string set"
  allocationThreshold :: int
  releaseThreshold :: int

definition cidrStr :: "'r range_ops \<Rightarrow> 'r \<Rightarrow> string" where
  "cidrStr R r = ipnet_string (rCIDR R r)"

definition newPodCIDRPool :: "int \<Rightarrow> int \<Rightarrow> string list \<Rightarrow> 'r podCIDRPool" where
  "newPodCIDRPool aThreshold rThreshold previouslyReleasedCIDRs =
     \<lparr>ipAllocators = [], released = set previouslyReleasedCIDRs, removed = {},
      allocationThreshold = (if aThreshold \<le> 0 then IPAMPodCIDRAllocationThreshold else aThreshold),
      releaseThreshold = (if rThreshold \<le> 0 then IPAMPodCIDRReleaseThreshold else rThreshold)\<rparr>"

subsection \<open>Allocation and release\<close>

text \<open>The loops over \<open>p.ipAllocators\<close>: the allocators visited so far are kept in \<open>done\<close>.\<close>

fun allocateIn :: "'r range_ops \<Rightarrow> ip \<Rightarrow> 'r list \<Rightarrow> string + 'r list" where
  "allocateIn R a [] = Inl ''IP not in range of any pod CIDR''"
| "allocateIn R a (r # rs) =
     (if net_contains (rCIDR R r) a
      then (case rAllocate R a r of Inl e \<Rightarrow> Inl e | Inr r' \<Rightarrow> Inr (r' # rs))
      else (case allocateIn R a rs of Inl e \<Rightarrow> Inl e | Inr rs' \<Rightarrow> Inr (r # rs')))"

definition pool_allocate :: "'r range_ops \<Rightarrow> ip \<Rightarrow> 'r podCIDRPool \<Rightarrow> string + 'r podCIDRPool" where
  "pool_allocate R a p =
     (case allocateIn R a (ipAllocators p) of
        Inl e \<Rightarrow> Inl e | Inr rs \<Rightarrow> Inr (p\<lparr>ipAllocators := rs\<rparr>))"

fun allocateNextIn :: "'r range_ops \<Rightarrow> string set \<Rightarrow> 'r list \<Rightarrow> string + (ip \<times> 'r list)" where
  "allocateNextIn R rem [] = Inl ''all pod CIDR ranges are exhausted''"
| "allocateNextIn R rem (r # rs) =
     (if cidrStr R r \<in> rem \<or> rFree R r = 0
      then (case allocateNextIn R rem rs of Inl e \<Rightarrow> Inl e | Inr (a, rs') \<Rightarrow> Inr (a, r # rs'))
      else (case rAllocateNext R r of Inl e \<Rightarrow> Inl e | Inr (a, r') \<Rightarrow> Inr (a, r' # rs)))"

definition pool_allocateNext :: "'r range_ops \<Rightarrow> 'r podCIDRPool \<Rightarrow> string + (ip \<times> 'r podCIDRPool)" where
  "pool_allocateNext R p =
     (case allocateNextIn R (removed p) (ipAllocators p) of
        Inl e \<Rightarrow> Inl e | Inr (a, rs) \<Rightarrow> Inr (a, p\<lparr>ipAllocators := rs\<rparr>))"

fun releaseIn :: "'r range_ops \<Rightarrow> ip \<Rightarrow> 'r list \<Rightarrow> string + 'r list" where
  "releaseIn R a [] = Inr []"
| "releaseIn R a (r # rs) =
     (if net_contains (rCIDR R r) a
      then (case rRelease R a r of Inl e \<Rightarrow> Inl e | Inr r' \<Rightarrow> Inr (r' # rs))
      else (case releaseIn R a rs of Inl e \<Rightarrow> Inl e | Inr rs' \<Rightarrow> Inr (r # rs')))"

definition pool_release :: "'r range_ops \<Rightarrow> ip \<Rightarrow> 'r podCIDRPool \<Rightarrow> string + 'r podCIDRPool" where
  "pool_release R a p =
     (case releaseIn R a (ipAllocators p) of
        Inl e \<Rightarrow> Inl e | Inr rs \<Rightarrow> Inr (p\<lparr>ipAllocators := rs\<rparr>))"

definition hasAvailableIPs :: "'r range_ops \<Rightarrow> 'r podCIDRPool \<Rightarrow> bool" where
  "hasAvailableIPs R p =
     list_ex (\<lambda>r. cidrStr R r \<notin> removed p \<and> rFree R r > 0) (ipAllocators p)"

definition inUsePodCIDRsLocked :: "'r range_ops \<Rightarrow> 'r podCIDRPool \<Rightarrow> string list" where
  "inUsePodCIDRsLocked R p = map (cidrStr R) (ipAllocators p)"

record pool_dump =
  ipToOwner :: "string \<rightharpoonup> string"
  usedIPs :: int
  freeIPs :: int
  numPodCIDRs :: nat

definition pool_dump :: "'r range_ops \<Rightarrow> 'r podCIDRPool \<Rightarrow> pool_dump" where
  "pool_dump R p =
     \<lparr>ipToOwner = (\<lambda>s. if \<exists>r\<in>set (ipAllocators p). s \<in> rIPs R r then Some [] else None),
      usedIPs = sum_list (map (rUsed R) (ipAllocators p)),
      freeIPs = sum_list (map (\<lambda>r. if cidrStr R r \<in> removed p then 0 else rFree R r) (ipAllocators p)),
      numPodCIDRs = length (ipAllocators p)\<rparr>"

subsection \<open>The status report\<close>

definition totalFree :: "'r range_ops \<Rightarrow> 'r podCIDRPool \<Rightarrow> int" where
  "totalFree R p =
     sum_list (map (\<lambda>r. if cidrStr R r \<in> released p \<or> cidrStr R r \<in> removed p then 0 else rFree R r)
                (ipAllocators p))"

fun statusLoop :: "'r range_ops \<Rightarrow> 'r list \<Rightarrow> int \<Rightarrow> 'r podCIDRPool \<Rightarrow> PodCIDRMap
    \<Rightarrow> PodCIDRMap \<times> 'r podCIDRPool" where
  "statusLoop R [] free p result = (result, p)"
| "statusLoop R (r # rs) free p result =
     (if cidrStr R r \<in> released p then statusLoop R rs free p result
      else if rUsed R r > 0
      then statusLoop R rs free p
             (result(cidrStr R r \<mapsto> (if rFree R r = 0 then PodCIDRDepleted else PodCIDRInUse)))
      else if cidrStr R r \<in> removed p
      then statusLoop R rs free
             (p\<lparr>released := insert (cidrStr R r) (released p), removed := removed p - {cidrStr R r}\<rparr>)
             (result(cidrStr R r \<mapsto> PodCIDRReleased))
      else if free - rFree R r \<ge> releaseThreshold p
      then statusLoop R rs (free - rFree R r)
             (p\<lparr>released := insert (cidrStr R r) (released p)\<rparr>)
             (result(cidrStr R r \<mapsto> PodCIDRReleased))
      else statusLoop R rs free p (result(cidrStr R r \<mapsto> PodCIDRInUse)))"

definition markDepleted :: "'r range_ops \<Rightarrow> 'r podCIDRPool \<Rightarrow> PodCIDRMap \<Rightarrow> PodCIDRMap" where
  "markDepleted R p result =
     fold (\<lambda>r m. if cidrStr R r \<in> released p then m else m(cidrStr R r \<mapsto> PodCIDRDepleted))
       (ipAllocators p) result"

definition pool_status :: "'r range_ops \<Rightarrow> 'r podCIDRPool \<Rightarrow> PodCIDRMap \<times> 'r podCIDRPool" where
  "pool_status R p =
     (let result = (\<lambda>c. if c \<in> released p then Some PodCIDRReleased else None) in
      if totalFree R p < allocationThreshold p then (markDepleted R p result, p)
      else statusLoop R (rev (ipAllocators p)) (totalFree R p) p result)"

subsection \<open>The update from the custom resource\<close>

text \<open>Parsing, with invalid and repeated CIDRs ignored.\<close>

fun parsePodCIDRs :: "string set \<Rightarrow> string list \<Rightarrow> ipnet list" where
  "parsePodCIDRs seen [] = []"
| "parsePodCIDRs seen (s # ss) =
     (case ParseCIDR s of
        None \<Rightarrow> parsePodCIDRs seen ss
      | Some (a, n) \<Rightarrow>
          if ipnet_string n \<in> seen then parsePodCIDRs seen ss
          else n # parsePodCIDRs (insert (ipnet_string n) seen) ss)"

fun keepAllocators :: "'r range_ops \<Rightarrow> string set \<Rightarrow> 'r list \<Rightarrow> string set \<Rightarrow> 'r list \<times> string set" where
  "keepAllocators R spec [] rem = ([], rem)"
| "keepAllocators R spec (r # rs) rem =
     (if cidrStr R r \<notin> spec \<and> rUsed R r = 0 then keepAllocators R spec rs rem
      else (case keepAllocators R spec rs
                   (if cidrStr R r \<notin> spec then insert (cidrStr R r) rem else rem) of
              (rs', rem') \<Rightarrow> (r # rs', rem')))"

fun addAllocators :: "'r range_ops \<Rightarrow> ipnet list \<Rightarrow> string set \<Rightarrow> string set \<Rightarrow> 'r list \<times> string set" where
  "addAllocators R [] added rel = ([], rel)"
| "addAllocators R (n # ns) added rel =
     (if ipnet_string n \<in> added then addAllocators R ns added rel
      else case rNew R n of
        Inl e \<Rightarrow> addAllocators R ns added rel
      | Inr r \<Rightarrow>
          if rFree R r = 0 then addAllocators R ns added (insert (ipnet_string n) rel)
          else (case addAllocators R ns (insert (ipnet_string n) added) rel of
                  (rs, rel') \<Rightarrow> (r # rs, rel')))"

definition updatePool :: "'r range_ops \<Rightarrow> string list \<Rightarrow> 'r podCIDRPool \<Rightarrow> 'r podCIDRPool" where
  "updatePool R podCIDRs p =
     (let cidrNets = parsePodCIDRs {} podCIDRs;
          spec = ipnet_string ` set cidrNets;
          kept = keepAllocators R spec (ipAllocators p) (removed p);
          new = addAllocators R cidrNets (cidrStr R ` set (fst kept)) (released p \<inter> spec)
      in p\<lparr>ipAllocators := fst kept @ fst new, released := snd new, removed := snd kept\<rparr>)"

definition pool_Check :: "'r range_ops \<Rightarrow> 'r podCIDRPool \<Rightarrow> (string + unit) \<times> 'r podCIDRPool" where
  "pool_Check R p =
     (if dom (fst (pool_status R p)) = {} then (Inl ''pod CIDR pool is empty'', snd (pool_status R p))
      else (Inr (), snd (pool_status R p)))"

definition containsCIDR :: "ipnet \<Rightarrow> ipnet \<Rightarrow> bool" where
  "containsCIDR outer inner \<longleftrightarrow>
     fst (mask_size (Mask outer)) \<le> fst (mask_size (Mask inner)) \<and> net_contains outer (IP inner)"

definition podCIDRFamily :: "string \<Rightarrow> Family" where
  "podCIDRFamily podCIDR = (if CHR '':'' \<in> set podCIDR then IPv6 else IPv4)"

section \<open>The watcher of the custom resource and the cluster-pool allocator\<close>

text \<open>\<open>cwLocalAlloc\<close> is the last argument of the owner's \<open>LocalAllocCIDRsUpdated\<close>; the condition
  variables and the plugin registry are not modelled.\<close>

record 'r crdWatcher =
  cwIPv4Enabled :: bool
  cwIPv6Enabled :: bool
  ipv4Pool :: "'r podCIDRPool option"
  ipv6Pool :: "'r podCIDRPool option"
  cwNode :: "NetResourceSet option"
  cwLocalAlloc :: "ipnet list \<times> ipnet list"
  finishedRestore :: bool

definition initPool :: "Family \<Rightarrow> string list \<Rightarrow> NetResourceSet \<Rightarrow> 'r podCIDRPool" where
  "initPool fam ks n =
     newPodCIDRPool (PodCIDRAllocationThreshold (SpecIPAM n)) (PodCIDRReleaseThreshold (SpecIPAM n))
       (filter (\<lambda>c. PodCIDRsStatus (StatusIPAM n) c = Some PodCIDRReleased \<and> podCIDRFamily c = fam) ks)"

definition allocCIDRs :: "string list \<Rightarrow> ipnet list" where
  "allocCIDRs ss = List.map_filter (\<lambda>s. map_option snd (ParseCIDR s)) ss"

text \<open>\<open>ks\<close> is the order in which the status map of the first resource is visited.\<close>

definition localNetResourceUpdated ::
    "'r range_ops \<Rightarrow> string list \<Rightarrow> NetResourceSet \<Rightarrow> 'r crdWatcher \<Rightarrow> 'r crdWatcher" where
  "localNetResourceUpdated R ks n c =
     (let c1 = (if cwNode c = None
                then c\<lparr>ipv4Pool := (if cwIPv4Enabled c then Some (initPool IPv4 ks n) else ipv4Pool c),
                       ipv6Pool := (if cwIPv6Enabled c then Some (initPool IPv6 ks n) else ipv6Pool c)\<rparr>
                else c);
          v4 = filter (\<lambda>s. podCIDRFamily s = IPv4) (PodCIDRs (SpecIPAM n));
          v6 = filter (\<lambda>s. podCIDRFamily s = IPv6) (PodCIDRs (SpecIPAM n))
      in c1\<lparr>ipv4Pool := (if cwIPv4Enabled c then map_option (updatePool R v4) (ipv4Pool c1) else ipv4Pool c1),
            ipv6Pool := (if cwIPv6Enabled c then map_option (updatePool R v6) (ipv6Pool c1) else ipv6Pool c1),
            cwLocalAlloc := (if cwIPv4Enabled c then allocCIDRs v4 else [],
                             if cwIPv6Enabled c then allocCIDRs v6 else []),
            cwNode := Some n\<rparr>)"

text \<open>The status controller: the resource to send with \<open>UpdateStatus\<close>, if any, and the pools after
  their status was taken.\<close>

definition updateNetResourceSetStatus ::
    "'r range_ops \<Rightarrow> 'r crdWatcher \<Rightarrow> NetResourceSet option \<times> 'r crdWatcher" where
  "updateNetResourceSetStatus R c =
     (case cwNode c of
        None \<Rightarrow> (None, c)
      | Some n \<Rightarrow>
          (let s4 = (case ipv4Pool c of None \<Rightarrow> (Map.empty, None)
                     | Some p \<Rightarrow> (fst (pool_status R p), Some (snd (pool_status R p))));
               s6 = (case ipv6Pool c of None \<Rightarrow> (Map.empty, None)
                     | Some p \<Rightarrow> (fst (pool_status R p), Some (snd (pool_status R p))));
               m = fst s4 ++ fst s6;
               c' = c\<lparr>ipv4Pool := snd s4, ipv6Pool := snd s6\<rparr>
           in if PodCIDRsStatus (StatusIPAM n) = m then (None, c')
              else (Some (n\<lparr>StatusIPAM := (StatusIPAM n)\<lparr>PodCIDRsStatus := m\<rparr>\<rparr>), c')))"

definition crdWatcher_restoreFinished :: "'r crdWatcher \<Rightarrow> 'r crdWatcher" where
  "crdWatcher_restoreFinished c = (if finishedRestore c then c else c\<lparr>finishedRestore := True\<rparr>)"

text \<open>The condition \<open>waitForPool\<close> waits for, and the pool it hands out.\<close>

definition poolReady :: "'r range_ops \<Rightarrow> Family \<Rightarrow> 'r crdWatcher \<Rightarrow> 'r podCIDRPool option" where
  "poolReady R fam c =
     (let p = (if fam = IPv4 \<and> cwIPv4Enabled c then ipv4Pool c
               else if fam = IPv6 \<and> cwIPv6Enabled c then ipv6Pool c else None)
      in case p of None \<Rightarrow> None | Some q \<Rightarrow> if hasAvailableIPs R q then Some q else None)"

definition crdWatcher_Check :: "ipam_mode \<Rightarrow> 'r crdWatcher \<Rightarrow> string + unit" where
  "crdWatcher_Check mode c =
     (case cwNode c of
        None \<Rightarrow> Inl ''no netResource has been received yet''
      | Some n \<Rightarrow>
          if mode \<noteq> IPAMVpcRoute then Inr ()
          else if dom (VPCRouteCIDRs (StatusIPAM n)) = {}
          then Inl ''no VPCRouteCIDRs have been received yet''
          else if list_ex (\<lambda>s. VPCRouteCIDRs (StatusIPAM n) s = None) (PodCIDRs (SpecIPAM n))
          then Inl ''pod CIDR is not in VPCRouteCIDRs''
          else Inr ())"

section \<open>The addresses of a pool\<close>

definition pool_ips :: "'r range_ops \<Rightarrow> 'r podCIDRPool \<Rightarrow> string set" where
  "pool_ips R p = (\<Union>r\<in>set (ipAllocators p). rIPs R r)"

definition ranges_disjoint :: "'r range_ops \<Rightarrow> 'r list \<Rightarrow> bool" where
  "ranges_disjoint R rs \<longleftrightarrow>
     (\<forall>i<length rs. \<forall>j<length rs. i \<noteq> j \<longrightarrow> nets_disjoint (rCIDR R (rs ! i)) (rCIDR R (rs ! j)))"

text \<open>The invariant: the CIDRs of a pool have different texts and no common address, and every
  allocator hands out addresses of its own CIDR only.\<close>

definition range_ok :: "'r range_ops \<Rightarrow> 'r \<Rightarrow> bool" where
  "range_ok R r \<longleftrightarrow> (\<forall>s\<in>rIPs R r. \<exists>a. s = ip_string a \<and> net_contains (rCIDR R r) a)"

definition pool_inv :: "'r range_ops \<Rightarrow> 'r podCIDRPool \<Rightarrow> bool" where
  "pool_inv R p \<longleftrightarrow>
     distinct (inUsePodCIDRsLocked R p) \<and> ranges_disjoint R (ipAllocators p) \<and>
     (\<forall>r\<in>set (ipAllocators p). range_ok R r)"

text \<open>What the three loops do: one allocator changes, the others stay.\<close>

lemma allocateIn_split:
  "allocateIn R a rs = Inr rs' \<Longrightarrow>
   \<exists>ys r r' zs. rs = ys @ r # zs \<and> rs' = ys @ r' # zs \<and> rAllocate R a r = Inr r' \<and>
     net_contains (rCIDR R r) a"
proof (induction rs arbitrary: rs')
  case Nil
  then show ?case by simp
next
  case (Cons r rs)
  show ?case
  proof (cases "net_contains (rCIDR R r) a")
    case True
    then show ?thesis using Cons.prems
      by (intro exI [of _ "[]"]) (auto split: sum.splits)
  next
    case False
    then obtain rs0 where "allocateIn R a rs = Inr rs0" "rs' = r # rs0"
      using Cons.prems by (auto split: sum.splits)
    with Cons.IH show ?thesis by (metis append_Cons)
  qed
qed

lemma allocateNextIn_split:
  "allocateNextIn R rem rs = Inr (a, rs') \<Longrightarrow>
   \<exists>ys r r' zs. rs = ys @ r # zs \<and> rs' = ys @ r' # zs \<and> rAllocateNext R r = Inr (a, r') \<and>
     cidrStr R r \<notin> rem \<and> rFree R r \<noteq> 0"
proof (induction rs arbitrary: rs')
  case Nil
  then show ?case by simp
next
  case (Cons r rs)
  show ?case
  proof (cases "cidrStr R r \<in> rem \<or> rFree R r = 0")
    case True
    then obtain rs0 where "allocateNextIn R rem rs = Inr (a, rs0)" "rs' = r # rs0"
      using Cons.prems by (auto split: sum.splits)
    with Cons.IH show ?thesis by (metis append_Cons)
  next
    case False
    then show ?thesis using Cons.prems
      by (intro exI [of _ "[]"]) (auto split: sum.splits)
  qed
qed

lemma releaseIn_split:
  "releaseIn R a rs = Inr rs' \<Longrightarrow>
   (rs' = rs \<and> (\<forall>r\<in>set rs. \<not> net_contains (rCIDR R r) a)) \<or>
   (\<exists>ys r r' zs. rs = ys @ r # zs \<and> rs' = ys @ r' # zs \<and> rRelease R a r = Inr r' \<and>
     net_contains (rCIDR R r) a)"
proof (induction rs arbitrary: rs')
  case Nil
  then show ?case by simp
next
  case (Cons r rs)
  show ?case
  proof (cases "net_contains (rCIDR R r) a")
    case True
    then show ?thesis using Cons.prems
      by (intro disjI2 exI [of _ "[]"]) (auto split: sum.splits)
  next
    case False
    then obtain rs0 where rs0: "releaseIn R a rs = Inr rs0" "rs' = r # rs0"
      using Cons.prems by (auto split: sum.splits)
    from Cons.IH [OF rs0(1)] show ?thesis
    proof
      assume "rs0 = rs \<and> (\<forall>r\<in>set rs. \<not> net_contains (rCIDR R r) a)"
      then show ?thesis using rs0 False by simp
    next
      assume "\<exists>ys r r' zs. rs = ys @ r # zs \<and> rs0 = ys @ r' # zs \<and> rRelease R a r = Inr r' \<and>
        net_contains (rCIDR R r) a"
      then show ?thesis using rs0(2) by (metis append_Cons)
    qed
  qed
qed

lemma ranges_disjoint_replace:
  assumes "ranges_disjoint R (ys @ r # zs)" "rCIDR R r' = rCIDR R r"
  shows "ranges_disjoint R (ys @ r' # zs)"
proof -
  have "map (rCIDR R) (ys @ r' # zs) = map (rCIDR R) (ys @ r # zs)" using assms(2) by simp
  moreover have "ranges_disjoint R rs \<longleftrightarrow>
      (\<forall>i<length (map (rCIDR R) rs). \<forall>j<length (map (rCIDR R) rs). i \<noteq> j \<longrightarrow>
         nets_disjoint (map (rCIDR R) rs ! i) (map (rCIDR R) rs ! j))" for rs
    by (auto simp: ranges_disjoint_def)
  ultimately show ?thesis using assms(1) by presburger
qed

lemma ranges_disjoint_other:
  assumes "ranges_disjoint R (ys @ r # zs)" "q \<in> set ys \<union> set zs"
  shows "nets_disjoint (rCIDR R r) (rCIDR R q)"
proof -
  let ?l = "ys @ r # zs"
  have r: "?l ! length ys = r" "length ys < length ?l" by (simp_all add: nth_append)
  obtain j where j: "j < length ?l" "?l ! j = q" "j \<noteq> length ys"
  proof (cases "q \<in> set ys")
    case True
    then obtain j where "j < length ys" "ys ! j = q" by (auto simp: in_set_conv_nth)
    then show ?thesis using that [of j] by (simp add: nth_append)
  next
    case False
    then obtain j where "j < length zs" "zs ! j = q" using assms(2) by (auto simp: in_set_conv_nth)
    then show ?thesis using that [of "length ys + 1 + j"] by (simp add: nth_append)
  qed
  then show ?thesis using assms(1) r unfolding ranges_disjoint_def by metis
qed

text \<open>An address of one CIDR is in no other allocator.\<close>

lemma disjoint_not_elsewhere:
  assumes "ranges_disjoint R (ys @ r # zs)" "\<forall>q\<in>set (ys @ r # zs). range_ok R q"
    and "net_contains (rCIDR R r) a" "q \<in> set ys \<union> set zs"
  shows "ip_string a \<notin> rIPs R q"
proof
  assume "ip_string a \<in> rIPs R q"
  moreover have "range_ok R q" using assms(2,4) by auto
  ultimately obtain b where "ip_string a = ip_string b" "net_contains (rCIDR R q) b"
    by (auto simp: range_ok_def)
  then show False using ranges_disjoint_other [OF assms(1,4)] assms(3)
    by (auto simp: nets_disjoint_def)
qed

lemma pool_inv_replace:
  assumes "pool_inv R p" "ipAllocators p = ys @ r # zs" "rCIDR R r' = rCIDR R r" "range_ok R r'"
  shows "pool_inv R (p\<lparr>ipAllocators := ys @ r' # zs\<rparr>)"
  using assms ranges_disjoint_replace [of R ys r zs r']
  by (auto simp: pool_inv_def inUsePodCIDRsLocked_def cidrStr_def)

lemma pool_allocate_effect:
  assumes "range_laws R" "pool_inv R p" "pool_allocate R a p = Inr p'"
  shows "ip_string a \<notin> pool_ips R p" "pool_ips R p' = insert (ip_string a) (pool_ips R p)"
    "pool_inv R p'" "removed p' = removed p" "released p' = released p"
proof -
  from assms(3) obtain rs' where rs': "allocateIn R a (ipAllocators p) = Inr rs'"
      "p' = p\<lparr>ipAllocators := rs'\<rparr>"
    by (auto simp: pool_allocate_def split: sum.splits)
  then obtain ys r r' zs where sp: "ipAllocators p = ys @ r # zs" "rs' = ys @ r' # zs"
      "rAllocate R a r = Inr r'" "net_contains (rCIDR R r) a"
    using allocateIn_split [OF rs'(1)] by blast
  note law = range_lawsD(2) [OF assms(1) sp(3)]
  have d: "ranges_disjoint R (ys @ r # zs)" "\<forall>q\<in>set (ys @ r # zs). range_ok R q"
    using assms(2) sp(1) by (auto simp: pool_inv_def)
  note other = disjoint_not_elsewhere [OF d sp(4)]
  show "ip_string a \<notin> pool_ips R p" using other law sp(1) by (auto simp: pool_ips_def)
  show "pool_ips R p' = insert (ip_string a) (pool_ips R p)"
    using law sp rs'(2) by (auto simp: pool_ips_def)
  have "range_ok R r'" using d(2) law sp(4) by (auto simp: range_ok_def)
  then show "pool_inv R p'" using pool_inv_replace [OF assms(2) sp(1)] law rs'(2) sp(2) by simp
  show "removed p' = removed p" "released p' = released p" using rs'(2) by simp_all
qed

lemma pool_allocateNext_effect:
  assumes "range_laws R" "pool_inv R p" "pool_allocateNext R p = Inr (a, p')"
  shows "ip_string a \<notin> pool_ips R p" "pool_ips R p' = insert (ip_string a) (pool_ips R p)"
    "pool_inv R p'" "\<exists>r\<in>set (ipAllocators p). net_contains (rCIDR R r) a \<and> cidrStr R r \<notin> removed p"
    "removed p' = removed p" "released p' = released p"
proof -
  from assms(3) obtain rs' where rs': "allocateNextIn R (removed p) (ipAllocators p) = Inr (a, rs')"
      "p' = p\<lparr>ipAllocators := rs'\<rparr>"
    by (auto simp: pool_allocateNext_def split: sum.splits)
  then obtain ys r r' zs where sp: "ipAllocators p = ys @ r # zs" "rs' = ys @ r' # zs"
      "rAllocateNext R r = Inr (a, r')" "cidrStr R r \<notin> removed p"
    using allocateNextIn_split [OF rs'(1)] by blast
  note law = range_lawsD(3) [OF assms(1) sp(3)]
  have d: "ranges_disjoint R (ys @ r # zs)" "\<forall>q\<in>set (ys @ r # zs). range_ok R q"
    using assms(2) sp(1) by (auto simp: pool_inv_def)
  have cont: "net_contains (rCIDR R r) a" using law by simp
  note other = disjoint_not_elsewhere [OF d cont]
  show "ip_string a \<notin> pool_ips R p" using other law sp(1) by (auto simp: pool_ips_def)
  show "pool_ips R p' = insert (ip_string a) (pool_ips R p)"
    using law sp rs'(2) by (auto simp: pool_ips_def)
  have "range_ok R r'" using d(2) law cont by (auto simp: range_ok_def)
  then show "pool_inv R p'" using pool_inv_replace [OF assms(2) sp(1)] law rs'(2) sp(2) by simp
  show "\<exists>r\<in>set (ipAllocators p). net_contains (rCIDR R r) a \<and> cidrStr R r \<notin> removed p"
    using sp cont by auto
  show "removed p' = removed p" "released p' = released p" using rs'(2) by simp_all
qed

lemma pool_release_effect:
  assumes "range_laws R" "pool_inv R p" "pool_release R a p = Inr p'"
  shows "if \<exists>r\<in>set (ipAllocators p). net_contains (rCIDR R r) a
         then pool_ips R p' = pool_ips R p - {ip_string a} else p' = p"
    and "pool_inv R p'" "removed p' = removed p" "released p' = released p"
proof -
  from assms(3) obtain rs' where rs': "releaseIn R a (ipAllocators p) = Inr rs'"
      "p' = p\<lparr>ipAllocators := rs'\<rparr>"
    by (auto simp: pool_release_def split: sum.splits)
  consider "rs' = ipAllocators p" "\<forall>r\<in>set (ipAllocators p). \<not> net_contains (rCIDR R r) a"
    | ys r r' zs where "ipAllocators p = ys @ r # zs" "rs' = ys @ r' # zs"
        "rRelease R a r = Inr r'" "net_contains (rCIDR R r) a"
    using releaseIn_split [OF rs'(1)] by blast
  then have "(if \<exists>r\<in>set (ipAllocators p). net_contains (rCIDR R r) a
         then pool_ips R p' = pool_ips R p - {ip_string a} else p' = p) \<and> pool_inv R p'"
  proof cases
    case 1
    then show ?thesis using rs'(2) assms(2) by auto
  next
    case sp: 2
    note law = range_lawsD(5) [OF assms(1) sp(3)]
    have d: "ranges_disjoint R (ys @ r # zs)" "\<forall>q\<in>set (ys @ r # zs). range_ok R q"
      using assms(2) sp(1) by (auto simp: pool_inv_def)
    note other = disjoint_not_elsewhere [OF d sp(4)]
    have "range_ok R r'" using d(2) law by (auto simp: range_ok_def)
    then have "pool_inv R p'"
      using pool_inv_replace [OF assms(2) sp(1)] law rs'(2) sp(2) by simp
    moreover have "pool_ips R p' = pool_ips R p - {ip_string a}"
      using law sp rs'(2) other by (auto simp: pool_ips_def)
    ultimately show ?thesis using sp(1,4) by auto
  qed
  then show "if \<exists>r\<in>set (ipAllocators p). net_contains (rCIDR R r) a
         then pool_ips R p' = pool_ips R p - {ip_string a} else p' = p" "pool_inv R p'" by auto
  show "removed p' = removed p" "released p' = released p" using rs'(2) by simp_all
qed

text \<open>\<open>allocateNext\<close> finds an address as soon as one CIDR that was not removed has one.\<close>

lemma allocateNextIn_Inr_iff:
  assumes "range_laws R"
  shows "(\<exists>x. allocateNextIn R rem rs = Inr x) \<longleftrightarrow>
         list_ex (\<lambda>r. cidrStr R r \<notin> rem \<and> rFree R r > 0) rs"
proof (induction rs)
  case Nil
  then show ?case by simp
next
  case (Cons r rs)
  have nn: "0 \<le> rFree R r" using range_lawsD(6) [OF assms] by simp
  show ?case
  proof (cases "cidrStr R r \<in> rem \<or> rFree R r = 0")
    case True
    then show ?thesis using Cons by (auto split: sum.splits)
  next
    case False
    then have "\<exists>a r'. rAllocateNext R r = Inr (a, r')"
      using nn range_lawsD(4) [OF assms, of r] by simp
    then show ?thesis using False nn by auto
  qed
qed

subsection \<open>Update\<close>

lemma keepAllocators_ips:
  assumes "range_laws R" "keepAllocators R spec rs rem = (rs', rem')"
  shows "(\<Union>r\<in>set rs'. rIPs R r) = (\<Union>r\<in>set rs. rIPs R r)"
    "set rs' = {r \<in> set rs. cidrStr R r \<in> spec \<or> rUsed R r \<noteq> 0}"
    "rem' = rem \<union> {cidrStr R r | r. r \<in> set rs \<and> cidrStr R r \<notin> spec \<and> rUsed R r \<noteq> 0}"
    "distinct (map (cidrStr R) rs) \<Longrightarrow> distinct (map (cidrStr R) rs')"
proof -
  have "set rs' = {r \<in> set rs. cidrStr R r \<in> spec \<or> rUsed R r \<noteq> 0} \<and>
    rem' = rem \<union> {cidrStr R r | r. r \<in> set rs \<and> cidrStr R r \<notin> spec \<and> rUsed R r \<noteq> 0} \<and>
    (distinct (map (cidrStr R) rs) \<longrightarrow> distinct (map (cidrStr R) rs'))"
    using assms(2)
  proof (induction rs arbitrary: rs' rem)
    case Nil
    then show ?case by simp
  next
    case (Cons r rs)
    then show ?case
      by (auto split: if_splits prod.splits)
  qed
  then show S: "set rs' = {r \<in> set rs. cidrStr R r \<in> spec \<or> rUsed R r \<noteq> 0}"
    and "rem' = rem \<union> {cidrStr R r | r. r \<in> set rs \<and> cidrStr R r \<notin> spec \<and> rUsed R r \<noteq> 0}"
    and "distinct (map (cidrStr R) rs) \<Longrightarrow> distinct (map (cidrStr R) rs')" by auto
  show "(\<Union>r\<in>set rs'. rIPs R r) = (\<Union>r\<in>set rs. rIPs R r)"
    using range_lawsD(8) [OF assms(1)] by (auto simp: S)
qed

lemma addAllocators_new:
  assumes "range_laws R" "addAllocators R ns added rel = (rs, rel')"
  shows "(\<forall>r\<in>set rs. rIPs R r = {} \<and> rCIDR R r \<in> set ns \<and> cidrStr R r \<notin> added) \<and>
         distinct (map (cidrStr R) rs) \<and> rel' \<subseteq> rel \<union> ipnet_string ` set ns \<and> rel \<subseteq> rel'"
  using assms(2)
proof (induction ns arbitrary: added rel rs)
  case Nil
  then show ?case by simp
next
  case (Cons n ns)
  show ?case
  proof (cases "ipnet_string n \<in> added \<or> is_err (rNew R n)")
    case True
    then have "addAllocators R ns added rel = (rs, rel')"
      using Cons.prems by (auto split: sum.splits if_splits)
    from Cons.IH [OF this] show ?thesis by auto
  next
    case False
    then obtain r where r: "rNew R n = Inr r" "ipnet_string n \<notin> added"
      by (auto simp: not_is_err_iff)
    note law = range_lawsD(1) [OF assms(1) r(1)]
    have cs: "cidrStr R r = ipnet_string n" using law by (simp add: cidrStr_def)
    show ?thesis
    proof (cases "rFree R r = 0")
      case True
      then have "addAllocators R ns added (insert (ipnet_string n) rel) = (rs, rel')"
        using Cons.prems r by simp
      from Cons.IH [OF this] show ?thesis by auto
    next
      case False
      then obtain rs0 where "addAllocators R ns (insert (ipnet_string n) added) rel = (rs0, rel')"
          "rs = r # rs0"
        using Cons.prems r by (auto split: prod.splits)
      with Cons.IH [OF this(1)] show ?thesis using law cs r(2) by auto
    qed
  qed
qed

text \<open>The texts of the CIDRs a specification names.\<close>

definition specCIDRs :: "string list \<Rightarrow> ipnet set" where
  "specCIDRs ss = {n. \<exists>s\<in>set ss. \<exists>a. ParseCIDR s = Some (a, n)}"

lemma parsePodCIDRs_set:
  "set (parsePodCIDRs seen ss) \<subseteq> specCIDRs ss \<and>
   ipnet_string ` set (parsePodCIDRs seen ss) = ipnet_string ` specCIDRs ss - seen"
proof (induction ss arbitrary: seen)
  case Nil
  then show ?case by (simp add: specCIDRs_def)
next
  case (Cons s ss)
  have spec: "specCIDRs (s # ss) =
      (case ParseCIDR s of None \<Rightarrow> specCIDRs ss | Some (a, n) \<Rightarrow> insert n (specCIDRs ss))"
    by (auto simp: specCIDRs_def split: option.splits)
  show ?case
  proof (cases "ParseCIDR s")
    case None
    then show ?thesis using Cons.IH [of seen] by (simp add: spec)
  next
    case (Some an)
    obtain a n where an: "an = (a, n)" by (cases an)
    show ?thesis
    proof (cases "ipnet_string n \<in> seen")
      case True
      then show ?thesis using Cons.IH [of seen] Some an by (auto simp: spec)
    next
      case False
      then show ?thesis using Cons.IH [of "insert (ipnet_string n) seen"] Some an
        by (auto simp: spec)
    qed
  qed
qed

lemma ranges_disjointI:
  assumes "distinct (map (cidrStr R) rs)"
    and "\<And>m n. m \<in> rCIDR R ` set rs \<Longrightarrow> n \<in> rCIDR R ` set rs \<Longrightarrow>
           ipnet_string m \<noteq> ipnet_string n \<Longrightarrow> nets_disjoint m n"
  shows "ranges_disjoint R rs"
  unfolding ranges_disjoint_def
proof (intro allI impI)
  fix i j assume ij: "i < length rs" "j < length rs" "i \<noteq> j"
  then have "cidrStr R (rs ! i) \<noteq> cidrStr R (rs ! j)"
    using assms(1) by (metis distinct_conv_nth length_map nth_map)
  then show "nets_disjoint (rCIDR R (rs ! i)) (rCIDR R (rs ! j))"
    using ij by (intro assms(2)) (auto simp: cidrStr_def)
qed

lemma updatePool_effect:
  assumes law: "range_laws R" and d: "distinct (inUsePodCIDRsLocked R p)"
    and p'_def: "p' = updatePool R ss p"
  shows "pool_ips R p' = pool_ips R p"
    and "distinct (inUsePodCIDRsLocked R p')"
    and "\<forall>r\<in>set (ipAllocators p). rIPs R r \<noteq> {} \<longrightarrow> r \<in> set (ipAllocators p')"
    and "\<forall>r\<in>set (ipAllocators p'). cidrStr R r \<in> ipnet_string ` specCIDRs ss \<or> cidrStr R r \<in> removed p'"
    and "released p' \<subseteq> ipnet_string ` specCIDRs ss"
    and "\<forall>r\<in>set (ipAllocators p'). r \<in> set (ipAllocators p) \<or> (rCIDR R r \<in> specCIDRs ss \<and> rIPs R r = {})"
proof -
  define nets where "nets = parsePodCIDRs {} ss"
  define spec where "spec = ipnet_string ` set nets"
  obtain ks rem where k: "keepAllocators R spec (ipAllocators p) (removed p) = (ks, rem)"
    by (cases "keepAllocators R spec (ipAllocators p) (removed p)")
  obtain ns rel where n: "addAllocators R nets (cidrStr R ` set ks) (released p \<inter> spec) = (ns, rel)"
    by (cases "addAllocators R nets (cidrStr R ` set ks) (released p \<inter> spec)")
  have p': "p' = p\<lparr>ipAllocators := ks @ ns, released := rel, removed := rem\<rparr>"
    using k n by (simp add: p'_def updatePool_def Let_def nets_def [symmetric] spec_def [symmetric])
  have spec: "set nets \<subseteq> specCIDRs ss" "spec = ipnet_string ` specCIDRs ss"
    using parsePodCIDRs_set [of "{}" ss] by (simp_all add: nets_def spec_def)
  note K = keepAllocators_ips [OF law k]
  have N: "\<forall>r\<in>set ns. rIPs R r = {} \<and> rCIDR R r \<in> set nets \<and> cidrStr R r \<notin> cidrStr R ` set ks"
    "distinct (map (cidrStr R) ns)" "rel \<subseteq> (released p \<inter> spec) \<union> spec"
    using addAllocators_new [OF law n] by (auto simp: spec_def)
  show "pool_ips R p' = pool_ips R p" using K(1) N(1) by (auto simp: pool_ips_def p')
  show "distinct (inUsePodCIDRsLocked R p')"
  proof -
    have "cidrStr R ` set ks \<inter> cidrStr R ` set ns = {}"
      unfolding disjoint_iff using N(1) by (metis imageE)
    then show ?thesis using K(4) d N(2) by (simp add: inUsePodCIDRsLocked_def p')
  qed
  show "\<forall>r\<in>set (ipAllocators p). rIPs R r \<noteq> {} \<longrightarrow> r \<in> set (ipAllocators p')"
    using K(2) range_lawsD(8) [OF law] by (auto simp: p')
  show "\<forall>r\<in>set (ipAllocators p'). cidrStr R r \<in> ipnet_string ` specCIDRs ss \<or> cidrStr R r \<in> removed p'"
    using K(2,3) N(1) spec by (fastforce simp: p' cidrStr_def)
  show "released p' \<subseteq> ipnet_string ` specCIDRs ss" using N(3) spec by (auto simp: p')
  show "\<forall>r\<in>set (ipAllocators p'). r \<in> set (ipAllocators p) \<or> (rCIDR R r \<in> specCIDRs ss \<and> rIPs R r = {})"
    using K(2) N(1) spec by (auto simp: p')
qed

lemma updatePool_inv:
  assumes law: "range_laws R" and inv: "pool_inv R p"
    and disj: "\<And>m n. m \<in> rCIDR R ` set (ipAllocators p) \<union> specCIDRs ss \<Longrightarrow>
        n \<in> rCIDR R ` set (ipAllocators p) \<union> specCIDRs ss \<Longrightarrow>
        ipnet_string m \<noteq> ipnet_string n \<Longrightarrow> nets_disjoint m n"
  shows "pool_inv R (updatePool R ss p)"
proof -
  have d: "distinct (inUsePodCIDRsLocked R p)" using inv by (simp add: pool_inv_def)
  note U = updatePool_effect [OF law d refl, of ss]
  have "ranges_disjoint R (ipAllocators (updatePool R ss p))"
    using U(2) U(6) by (intro ranges_disjointI disj) (auto simp: inUsePodCIDRsLocked_def)
  moreover have "\<forall>r\<in>set (ipAllocators (updatePool R ss p)). range_ok R r"
    using U(6) inv by (auto simp: pool_inv_def range_ok_def)
  ultimately show ?thesis using U(2) by (simp add: pool_inv_def)
qed

subsection \<open>Status\<close>

definition free_of :: "'r range_ops \<Rightarrow> 'r podCIDRPool \<Rightarrow> 'r list \<Rightarrow> int" where
  "free_of R p rs =
     sum_list (map (\<lambda>r. if cidrStr R r \<in> released p \<or> cidrStr R r \<in> removed p then 0 else rFree R r) rs)"

lemma free_of_cong:
  assumes "\<And>r. r \<in> set rs \<Longrightarrow>
    (cidrStr R r \<in> released p \<or> cidrStr R r \<in> removed p) =
    (cidrStr R r \<in> released q \<or> cidrStr R r \<in> removed q)"
  shows "free_of R p rs = free_of R q rs"
  unfolding free_of_def using assms by (intro arg_cong [of _ _ sum_list] map_cong refl) simp

text \<open>The five branches of one step of the loop.\<close>

lemma statusLoop_cases [consumes 1, case_names released used removed threshold keep]:
  assumes "statusLoop R (r # rs) free p m = x"
  obtains "cidrStr R r \<in> released p" "statusLoop R rs free p m = x"
  | st where "cidrStr R r \<notin> released p" "rUsed R r > 0" "st \<noteq> PodCIDRReleased"
      "statusLoop R rs free p (m(cidrStr R r \<mapsto> st)) = x"
  | "cidrStr R r \<notin> released p" "\<not> rUsed R r > 0" "cidrStr R r \<in> removed p"
      "statusLoop R rs free
         (p\<lparr>released := insert (cidrStr R r) (released p), removed := removed p - {cidrStr R r}\<rparr>)
         (m(cidrStr R r \<mapsto> PodCIDRReleased)) = x"
  | "cidrStr R r \<notin> released p" "\<not> rUsed R r > 0" "cidrStr R r \<notin> removed p"
      "free - rFree R r \<ge> releaseThreshold p"
      "statusLoop R rs (free - rFree R r) (p\<lparr>released := insert (cidrStr R r) (released p)\<rparr>)
         (m(cidrStr R r \<mapsto> PodCIDRReleased)) = x"
  | "cidrStr R r \<notin> released p" "\<not> rUsed R r > 0" "cidrStr R r \<notin> removed p"
      "statusLoop R rs free p (m(cidrStr R r \<mapsto> PodCIDRInUse)) = x"
proof (cases "cidrStr R r \<in> released p")
  case True
  then show ?thesis using assms that(1) by simp
next
  case False
  then show ?thesis
    using assms that(2) [of "if rFree R r = 0 then PodCIDRDepleted else PodCIDRInUse"] that(3-5)
    by (cases "rUsed R r > 0"; cases "cidrStr R r \<in> removed p") (simp_all split: if_splits)
qed

declare statusLoop.simps(2) [simp del]

lemma statusLoop_frame:
  assumes "statusLoop R rs free p m = (m', p')"
  shows
  "ipAllocators p' = ipAllocators p \<and> releaseThreshold p' = releaseThreshold p \<and>
    allocationThreshold p' = allocationThreshold p \<and> released p \<subseteq> released p' \<and>
    removed p' \<subseteq> removed p \<and>
    (\<forall>c. c \<notin> cidrStr R ` set rs \<longrightarrow>
       (c \<in> released p' \<longleftrightarrow> c \<in> released p) \<and> (c \<in> removed p' \<longleftrightarrow> c \<in> removed p)) \<and>
    (\<forall>c. m c \<noteq> None \<longrightarrow> m' c \<noteq> None) \<and>
    (\<forall>c\<in>cidrStr R ` set rs. m' c \<noteq> None \<or> c \<in> released p) \<and>
    (\<forall>c. m' c = Some PodCIDRReleased \<longrightarrow> m c = Some PodCIDRReleased \<or>
       (\<exists>r\<in>set rs. cidrStr R r = c \<and> \<not> rUsed R r > 0)) \<and>
    (\<forall>c\<in>released p'. c \<in> released p \<or> (\<exists>r\<in>set rs. cidrStr R r = c \<and> \<not> rUsed R r > 0))"
  using assms
proof (induction rs arbitrary: free p m)
  case Nil
  then show ?case by simp
next
  case (Cons r rs)
  from Cons.prems show ?case
  proof (cases rule: statusLoop_cases)
    case released
    from Cons.IH [OF released(2)] released(1) show ?thesis by auto
  next
    case (used st)
    from Cons.IH [OF used(4)] used(1-3) show ?thesis by (auto split: if_splits)
  next
    case removed
    from Cons.IH [OF removed(4)] removed(1-3) show ?thesis by (auto split: if_splits)
  next
    case threshold
    from Cons.IH [OF threshold(5)] threshold(1-4) show ?thesis by (auto split: if_splits)
  next
    case keep
    from Cons.IH [OF keep(4)] keep(1-3) show ?thesis by (auto split: if_splits)
  qed
qed

lemmas statusLoop_untouched = statusLoop_frame [THEN conjunct2, THEN conjunct2, THEN conjunct2,
  THEN conjunct2, THEN conjunct2, THEN conjunct1]


text \<open>The CIDRs released by the threshold rule leave at least the release threshold of free
  addresses.\<close>

lemma free_of_Cons:
  "free_of R p (r # rs) =
     (if cidrStr R r \<in> released p \<or> cidrStr R r \<in> removed p then 0 else rFree R r) + free_of R p rs"
  by (simp add: free_of_def)

lemma statusLoop_free:
  assumes "statusLoop R rs free p m = (m', p')" "distinct (map (cidrStr R) rs)"
  shows "free_of R p' rs = free_of R p rs \<or>
         releaseThreshold p \<le> free - (free_of R p rs - free_of R p' rs)"
  using assms
proof (induction rs arbitrary: free p m)
  case Nil
  then show ?case by (simp add: free_of_def)
next
  case (Cons r rs)
  have nin: "cidrStr R r \<notin> cidrStr R ` set rs" and d: "distinct (map (cidrStr R) rs)"
    using Cons.prems(2) by auto
  have cong: "free_of R q rs = free_of R p rs"
    if "\<And>c. c \<noteq> cidrStr R r \<Longrightarrow>
          (c \<in> released q \<or> c \<in> removed q) = (c \<in> released p \<or> c \<in> removed p)" for q
    by (rule free_of_cong, rule that) (metis imageI nin)
  from Cons.prems(1) show ?case
  proof (cases rule: statusLoop_cases)
    case released
    from Cons.IH [OF released(2) d] statusLoop_untouched [OF released(2)] nin released(1)
    show ?thesis by (auto simp: free_of_Cons)
  next
    case (used st)
    from Cons.IH [OF used(4) d] statusLoop_untouched [OF used(4)] nin used(1)
    show ?thesis by (auto simp: free_of_Cons)
  next
    case removed
    note IH = Cons.IH [OF removed(4) d]
    have "cidrStr R r \<in> released p'"
      using statusLoop_untouched [OF removed(4)] nin by simp
    moreover have "free_of R (p\<lparr>released := insert (cidrStr R r) (released p),
        removed := removed p - {cidrStr R r}\<rparr>) rs = free_of R p rs"
      by (rule cong) simp
    ultimately show ?thesis using IH removed(3) by (simp add: free_of_Cons)
  next
    case threshold
    note IH = Cons.IH [OF threshold(5) d]
    have "cidrStr R r \<in> released p'"
      using statusLoop_untouched [OF threshold(5)] nin by simp
    moreover have "free_of R (p\<lparr>released := insert (cidrStr R r) (released p)\<rparr>) rs = free_of R p rs"
      by (rule cong) simp
    ultimately show ?thesis using IH threshold(1,3,4) by (simp add: free_of_Cons) linarith
  next
    case keep
    from Cons.IH [OF keep(4) d] statusLoop_untouched [OF keep(4)] nin keep(1,3)
    show ?thesis by (auto simp: free_of_Cons)
  qed
qed

lemma totalFree_eq: "totalFree R p = free_of R p (rev (ipAllocators p))"
  by (simp add: totalFree_def free_of_def flip: rev_map)

lemma markDepleted_dom:
  "(markDepleted R p m c = Some PodCIDRReleased \<longrightarrow> m c = Some PodCIDRReleased) \<and>
   (m c \<noteq> None \<longrightarrow> markDepleted R p m c \<noteq> None) \<and>
   (c \<in> cidrStr R ` set (ipAllocators p) \<longrightarrow> markDepleted R p m c \<noteq> None \<or> c \<in> released p)"
proof -
  define f where "f r m = (if cidrStr R r \<in> released p then m else m(cidrStr R r \<mapsto> PodCIDRDepleted))"
    for r m
  have f: "f r m c = Some PodCIDRReleased \<Longrightarrow> m c = Some PodCIDRReleased"
    "m c \<noteq> None \<Longrightarrow> f r m c \<noteq> None" "cidrStr R r = c \<Longrightarrow> f r m c \<noteq> None \<or> c \<in> released p"
    for r m by (simp_all add: f_def split: if_splits)
  have "(fold f rs m c = Some PodCIDRReleased \<longrightarrow> m c = Some PodCIDRReleased) \<and>
        (m c \<noteq> None \<longrightarrow> fold f rs m c \<noteq> None) \<and>
        (c \<in> cidrStr R ` set rs \<longrightarrow> fold f rs m c \<noteq> None \<or> c \<in> released p)" for rs
  proof (induction rs arbitrary: m)
    case Nil
    then show ?case by simp
  next
    case (Cons r rs)
    show ?case using Cons.IH [of "f r m"] f [where r = r and m = m] by (simp only: fold_simps list.set image_insert) blast
  qed
  moreover have "markDepleted R p m = fold f (ipAllocators p) m"
    unfolding markDepleted_def by (intro fun_cong [of "fold _ _"] arg_cong2 [of _ _ _ _ fold])
      (auto simp: f_def fun_eq_iff)
  ultimately show ?thesis by presburger
qed

lemma pool_status_effect:
  assumes law: "range_laws R" and run: "pool_status R p = (m, p')"
  shows "ipAllocators p' = ipAllocators p \<and> released p \<subseteq> released p' \<and> removed p' \<subseteq> removed p"
    and "\<forall>c. m c = Some PodCIDRReleased \<longrightarrow>
           c \<in> released p \<or> (\<exists>r\<in>set (ipAllocators p). cidrStr R r = c \<and> rIPs R r = {})"
    and "\<forall>c\<in>released p'. c \<in> released p \<or> (\<exists>r\<in>set (ipAllocators p). cidrStr R r = c \<and> rIPs R r = {})"
    and "\<forall>c\<in>released p \<union> cidrStr R ` set (ipAllocators p). m c \<noteq> None"
proof -
  define m0 where "m0 = (\<lambda>c. if c \<in> released p then Some PodCIDRReleased else None)"
  have unused: "\<not> 0 < rUsed R r \<longleftrightarrow> rIPs R r = {}" for r
    using range_lawsD(7,8) [OF law, of r] by linarith
  have m0: "m0 c \<noteq> None" if "c \<in> released p" for c using that by (simp add: m0_def)
  have main: "(ipAllocators p' = ipAllocators p \<and> released p \<subseteq> released p' \<and> removed p' \<subseteq> removed p) \<and>
    (\<forall>c. m c = Some PodCIDRReleased \<longrightarrow>
           c \<in> released p \<or> (\<exists>r\<in>set (ipAllocators p). cidrStr R r = c \<and> rIPs R r = {})) \<and>
    (\<forall>c\<in>released p'. c \<in> released p \<or> (\<exists>r\<in>set (ipAllocators p). cidrStr R r = c \<and> rIPs R r = {})) \<and>
    (\<forall>c\<in>released p \<union> cidrStr R ` set (ipAllocators p). m c \<noteq> None)"
  proof (cases "totalFree R p < allocationThreshold p")
    case True
    then have "m = markDepleted R p m0" "p' = p"
      using run by (auto simp: pool_status_def m0_def)
    moreover have "m0 c = Some PodCIDRReleased \<longleftrightarrow> c \<in> released p" for c by (simp add: m0_def)
    moreover note markDepleted_dom [of R p m0]
    ultimately show ?thesis using m0 by blast
  next
    case False
    then have "statusLoop R (rev (ipAllocators p)) (totalFree R p) p m0 = (m, p')"
      using run by (simp add: pool_status_def m0_def)
    note fr = statusLoop_frame [OF this]
    have m0r: "m0 c = Some PodCIDRReleased \<longleftrightarrow> c \<in> released p" for c by (simp add: m0_def)
    show ?thesis
      using fr m0 unfolding unused m0r by auto
  qed
  show "ipAllocators p' = ipAllocators p \<and> released p \<subseteq> released p' \<and> removed p' \<subseteq> removed p"
    using main by (elim conjE) (intro conjI)
  show "\<forall>c. m c = Some PodCIDRReleased \<longrightarrow>
           c \<in> released p \<or> (\<exists>r\<in>set (ipAllocators p). cidrStr R r = c \<and> rIPs R r = {})"
    using main by (elim conjE)
  show "\<forall>c\<in>released p'. c \<in> released p \<or> (\<exists>r\<in>set (ipAllocators p). cidrStr R r = c \<and> rIPs R r = {})"
    using main by (elim conjE)
  show "\<forall>c\<in>released p \<union> cidrStr R ` set (ipAllocators p). m c \<noteq> None"
    using main by (elim conjE)
qed

lemma pool_status_free:
  assumes "pool_status R p = (m, p')" "distinct (inUsePodCIDRsLocked R p)"
  shows "totalFree R p' = totalFree R p \<or> releaseThreshold p \<le> totalFree R p'"
proof (cases "totalFree R p < allocationThreshold p")
  case True
  then show ?thesis using assms by (simp add: pool_status_def)
next
  case False
  then have run: "statusLoop R (rev (ipAllocators p)) (totalFree R p) p
      (\<lambda>c. if c \<in> released p then Some PodCIDRReleased else None) = (m, p')"
    using assms(1) by (simp add: pool_status_def)
  have "distinct (map (cidrStr R) (rev (ipAllocators p)))"
    using assms(2) by (simp add: inUsePodCIDRsLocked_def flip: rev_map)
  from statusLoop_free [OF run this] show ?thesis
    using statusLoop_frame [OF run] by (auto simp: totalFree_eq)
qed

section \<open>A concrete range\<close>

text \<open>A range over an explicit list of addresses, which satisfies \<open>range_laws\<close>.\<close>

record listRange =
  lrNet :: ipnet
  lrCandidates :: "ip list"
  lrUsed :: "string list"

definition lr_free :: "listRange \<Rightarrow> ip list" where
  "lr_free r = filter (\<lambda>a. ip_string a \<notin> set (lrUsed r) \<and> net_contains (lrNet r) a) (lrCandidates r)"

definition list_range_ops :: "ip list \<Rightarrow> listRange range_ops" where
  "list_range_ops candidates =
     \<lparr>rNew = (\<lambda>n. Inr \<lparr>lrNet = n, lrCandidates = candidates, lrUsed = []\<rparr>),
      rCIDR = lrNet,
      rAllocate = (\<lambda>a r. if \<not> net_contains (lrNet r) a \<or> ip_string a \<in> set (lrUsed r)
                         then Inl ''provided IP is not in the valid range or allocated''
                         else Inr (r\<lparr>lrUsed := ip_string a # lrUsed r\<rparr>)),
      rAllocateNext = (\<lambda>r. case lr_free r of [] \<Rightarrow> Inl ''range is full''
                         | a # _ \<Rightarrow> Inr (a, r\<lparr>lrUsed := ip_string a # lrUsed r\<rparr>)),
      rRelease = (\<lambda>a r. Inr (r\<lparr>lrUsed := removeAll (ip_string a) (lrUsed r)\<rparr>)),
      rFree = (\<lambda>r. int (length (lr_free r))),
      rUsed = (\<lambda>r. int (length (lrUsed r))),
      rIPs = (\<lambda>r. set (lrUsed r)),
      rSnapshot = (\<lambda>r. Inl ''no snapshot'')\<rparr>"

lemma lr_free_Cons: "lr_free r = a # as \<Longrightarrow> ip_string a \<notin> set (lrUsed r) \<and> net_contains (lrNet r) a"
  unfolding lr_free_def by (drule filter_eq_ConsD) auto

lemma lr_free_less:
  assumes "lr_free r = a # as"
  shows "length (lr_free (r\<lparr>lrUsed := ip_string a # lrUsed r\<rparr>)) < Suc (length as)"
proof -
  have "lr_free (r\<lparr>lrUsed := ip_string a # lrUsed r\<rparr>) =
      filter (\<lambda>b. ip_string b \<noteq> ip_string a) (lr_free r)"
    by (auto simp: lr_free_def intro: filter_cong)
  also have "length \<dots> \<le> length as" using assms by simp
  finally show ?thesis using assms by simp
qed

lemma list_range_laws: "range_laws (list_range_ops candidates)"
  unfolding range_laws_def list_range_ops_def
  by (auto split: list.splits if_splits dest: lr_free_Cons lr_free_less)

definition demo_net :: ipnet where
  "demo_net = \<lparr>IP = [10, 0, 0, 0], Mask = CIDRMask 24 32\<rparr>"

definition demo_pool :: "string set \<Rightarrow> listRange podCIDRPool" where
  "demo_pool rel =
     \<lparr>ipAllocators = [\<lparr>lrNet = demo_net, lrCandidates = [[10, 0, 0, 1], [10, 0, 0, 2]], lrUsed = []\<rparr>],
      released = rel, removed = {}, allocationThreshold = 1, releaseThreshold = 1\<rparr>"

lemma demo_net_string: "ipnet_string demo_net = ''10.0.0.0/24''"
  by (simp add: demo_net_def go_eval)

lemma demo_allocateNext:
  "pool_allocateNext (list_range_ops cs) (demo_pool rel) =
     Inr ([10, 0, 0, 1], demo_pool rel
       \<lparr>ipAllocators := [\<lparr>lrNet = demo_net, lrCandidates = [[10, 0, 0, 1], [10, 0, 0, 2]],
                         lrUsed = [''10.0.0.1'']\<rparr>]\<rparr>)"
  by (simp add: pool_allocateNext_def demo_pool_def list_range_ops_def lr_free_def demo_net_def go_eval)

lemma demo_pool_inv: "pool_inv (list_range_ops cs) (demo_pool rel)"
  by (simp add: pool_inv_def demo_pool_def inUsePodCIDRsLocked_def ranges_disjoint_def range_ok_def
      list_range_ops_def)

section \<open>Properties\<close>

text \<open>
  C9: An address handed out by the pool's \<open>allocateNext\<close> was not allocated in any CIDR of the
  pool, lies in a CIDR the specification has not removed, becomes allocated, and changes no
  other address; the pool invariant is kept.
\<close>

theorem allocateNext_fresh:
  assumes "range_laws R" "pool_inv R p" "pool_allocateNext R p = Inr (a, p')"
  shows "ip_string a \<notin> pool_ips R p \<and> pool_ips R p' = insert (ip_string a) (pool_ips R p) \<and>
    pool_inv R p' \<and>
    (\<exists>r\<in>set (ipAllocators p). net_contains (rCIDR R r) a \<and> cidrStr R r \<notin> removed p)"
  using pool_allocateNext_effect [OF assms] by blast

theorem allocateNext_fresh_witness:
  "\<exists>a p'. pool_allocateNext (list_range_ops []) (demo_pool {}) = Inr (a, p') \<and>
     ip_string a \<notin> pool_ips (list_range_ops []) (demo_pool {}) \<and> pool_inv (list_range_ops []) p'"
  using allocateNext_fresh [OF list_range_laws demo_pool_inv demo_allocateNext] demo_allocateNext
  by blast

text \<open>
  C10: \<open>allocateNext\<close> succeeds exactly when \<open>hasAvailableIPs\<close> says so: an address is found
  whenever some CIDR that was not removed has a free one.
\<close>

theorem allocateNext_available:
  assumes "range_laws R"
  shows "is_err (pool_allocateNext R p) \<longleftrightarrow> \<not> hasAvailableIPs R p"
proof -
  have "is_err (pool_allocateNext R p) \<longleftrightarrow> \<not> (\<exists>x. allocateNextIn R (removed p) (ipAllocators p) = Inr x)"
    by (auto simp: pool_allocateNext_def is_err_iff split: sum.splits)
  then show ?thesis
    using allocateNextIn_Inr_iff [OF assms, of "removed p" "ipAllocators p"]
    by (simp only: hasAvailableIPs_def)
qed

theorem allocateNext_available_witness:
  "is_err (pool_allocateNext (list_range_ops []) (demo_pool {})) \<longleftrightarrow>
   \<not> hasAvailableIPs (list_range_ops []) (demo_pool {})"
  by (rule allocateNext_available [OF list_range_laws])

text \<open>
  C6: Whatever list of pod CIDRs the custom resource names, \<open>updatePool\<close> loses no allocated
  address: the allocated addresses are the same, an allocator in use stays, a CIDR that is no
  longer named is recorded as removed, every new allocator is for a named CIDR and unused,
  the CIDRs stay pairwise different, and only named CIDRs stay released.
\<close>

theorem updatePool_keeps_used:
  assumes "range_laws R" "distinct (inUsePodCIDRsLocked R p)" "p' = updatePool R ss p"
  shows "pool_ips R p' = pool_ips R p \<and> distinct (inUsePodCIDRsLocked R p') \<and>
    (\<forall>r\<in>set (ipAllocators p). rIPs R r \<noteq> {} \<longrightarrow> r \<in> set (ipAllocators p')) \<and>
    (\<forall>r\<in>set (ipAllocators p'). cidrStr R r \<in> ipnet_string ` specCIDRs ss \<or> cidrStr R r \<in> removed p') \<and>
    (\<forall>r\<in>set (ipAllocators p'). r \<in> set (ipAllocators p) \<or>
       (rCIDR R r \<in> specCIDRs ss \<and> rIPs R r = {})) \<and>
    released p' \<subseteq> ipnet_string ` specCIDRs ss"
  using updatePool_effect [OF assms] by (intro conjI)

theorem updatePool_keeps_used_witness:
  "pool_ips (list_range_ops []) (updatePool (list_range_ops []) [] (demo_pool {})) =
   pool_ips (list_range_ops []) (demo_pool {})"
  using updatePool_keeps_used [OF list_range_laws _ refl, of "[]" "demo_pool {}" "[]"]
  by (simp add: demo_pool_def inUsePodCIDRsLocked_def)



text \<open>
  A CIDR the pool has reported released is not skipped by \<open>allocateNext\<close>: there is a pool
  that satisfies the invariant and hands out an address of a released CIDR.
\<close>

theorem allocateNext_uses_released:
  "\<exists>R (p :: listRange podCIDRPool) a p' r. range_laws R \<and> pool_inv R p \<and> r \<in> set (ipAllocators p) \<and>
     cidrStr R r \<in> released p \<and> pool_allocateNext R p = Inr (a, p') \<and> net_contains (rCIDR R r) a"
proof -
  let ?R = "list_range_ops []"
  let ?p = "demo_pool {''10.0.0.0/24''}"
  let ?r = "\<lparr>lrNet = demo_net, lrCandidates = [[10, 0, 0, 1], [10, 0, 0, 2]], lrUsed = []\<rparr>"
  have "?r \<in> set (ipAllocators ?p)" by (simp add: demo_pool_def)
  moreover have "cidrStr ?R ?r \<in> released ?p"
    by (simp add: cidrStr_def list_range_ops_def demo_net_string demo_pool_def)
  moreover have "net_contains (rCIDR ?R ?r) [10, 0, 0, 1]"
    by (simp add: list_range_ops_def demo_net_def go_eval)
  ultimately show ?thesis using list_range_laws demo_pool_inv demo_allocateNext by blast
qed

end
