(* ===== verification/CRDAllocator.thy ===== *)
theory CRDAllocator
  imports IPAMTypes CIDRMath
begin

text \<open>
  \<open>pkg/ipam/crd.go\<close>: the agent's store of its own NetResourceSet and the allocators that take
  addresses from its pool, with the agent's side of the release handshake. The store holds the
  allocators; a \<open>*crdAllocator\<close> is the index of the allocator in the store. Locks are not
  modelled: an operation that holds a lock throughout is one function; the handler that drops
  its lock between addresses is composed from the functions it runs under the lock.
\<close>

section \<open>State\<close>

record crdAllocator =
  allocated :: AllocationMap
  family :: Family

record nodeStore =
  ownNode :: "NetResourceSet option"
  allocators :: "crdAllocator list"
  allocationPoolSize :: "Family \<Rightarrow> int"
  hasRestoreFinished :: bool
  ipPoolReady :: bool
  lastReleaseIPs :: "string set"
  triggers :: "string list"

text \<open>What the store reads of its environment: the IPAM mode, the subnet lister of the Kubernetes
  client (the IPv4 and the IPv6 CIDR of a subnet), the clock, the addresses of the node, and the
  order in which the runtime visits the pool.\<close>

record crd_env =
  cfgMode :: ipam_mode
  subnetLister :: "string \<Rightarrow> string + (string \<times> string)"
  clock :: int
  nodeIP :: "Family \<Rightarrow> string"
  nodeAllocRange :: "Family \<Rightarrow> string"
  poolOrder :: "AllocationMap \<Rightarrow> AllocationMap \<Rightarrow> string list"

record AllocationResult =
  ResultIP :: ip
  CIDRs :: "string list"
  PrimaryMAC :: string
  GatewayIP :: string
  ExpirationUUID :: string
  InterfaceNumber :: string

definition new_result :: "ip \<Rightarrow> AllocationResult" where
  "new_result a = \<lparr>ResultIP = a, CIDRs = [], PrimaryMAC = [], GatewayIP = [],
                   ExpirationUUID = [], InterfaceNumber = []\<rparr>"

definition trigger :: "string \<Rightarrow> nodeStore \<Rightarrow> nodeStore" where
  "trigger reason st = st\<lparr>triggers := triggers st @ [reason]\<rparr>"

definition addAllocator :: "Family \<Rightarrow> nodeStore \<Rightarrow> nodeStore" where
  "addAllocator fam st =
     st\<lparr>allocators := allocators st @ [\<lparr>allocated = Map.empty, family = fam\<rparr>]\<rparr>"

definition newNodeStore :: nodeStore where
  "newNodeStore = \<lparr>ownNode = None, allocators = [], allocationPoolSize = (\<lambda>_. 0),
     hasRestoreFinished = False, ipPoolReady = False, lastReleaseIPs = {}, triggers = []\<rparr>"

section \<open>The store\<close>

definition handshake_status :: "string option \<Rightarrow> bool" where
  "handshake_status s \<longleftrightarrow>
     s = Some IPAMMarkForRelease \<or> s = Some IPAMReadyForRelease \<or> s = Some IPAMReleased"

definition isIPInReleaseHandshake :: "NetResourceSet \<Rightarrow> string \<Rightarrow> bool" where
  "isIPInReleaseHandshake n ip = handshake_status (release_ips n ip)"

definition requiredIPs :: "NetResourceSet \<Rightarrow> int" where
  "requiredIPs n =
     (if MinAllocate (SpecIPAM n) \<noteq> 0 then MinAllocate (SpecIPAM n)
      else if PreAllocate (SpecIPAM n) \<noteq> 0 then PreAllocate (SpecIPAM n)
      else 1)"

text \<open>(minimum reached, required, available)\<close>

definition hasMinimumIPsInPool :: "nodeStore \<Rightarrow> bool \<times> int \<times> int" where
  "hasMinimumIPsInPool st =
     (case ownNode st of
        None \<Rightarrow> (False, 0, 0)
      | Some n \<Rightarrow>
          (case Pool (SpecIPAM n) of
             None \<Rightarrow> (False, requiredIPs n, 0)
           | Some m \<Rightarrow>
               (int (card (dom m)) \<ge> requiredIPs n, requiredIPs n,
                int (card {ip \<in> dom m. \<not> isIPInReleaseHandshake n ip}))))"

definition notifyIPPoolReadyIfNeeded :: "nodeStore \<Rightarrow> nodeStore" where
  "notifyIPPoolReadyIfNeeded st =
     (if fst (hasMinimumIPsInPool st) then st\<lparr>ipPoolReady := True\<rparr> else st)"

definition deleteLocalNodeResource :: "nodeStore \<Rightarrow> nodeStore" where
  "deleteLocalNodeResource st = st\<lparr>ownNode := None\<rparr>"

definition setOwnNodeWithoutPoolUpdate :: "NetResourceSet \<Rightarrow> nodeStore \<Rightarrow> nodeStore" where
  "setOwnNodeWithoutPoolUpdate n st = st\<lparr>ownNode := Some n\<rparr>"

definition ResetMarkedForReleaseIPs :: "nodeStore \<Rightarrow> int \<times> nodeStore" where
  "ResetMarkedForReleaseIPs st =
     (case ownNode st of
        None \<Rightarrow> (0, st)
      | Some n \<Rightarrow>
          (let marked = {ip \<in> dom (release_ips n). release_ips n ip = Some IPAMMarkForRelease};
               r = (\<lambda>ip. if ip \<in> marked then Some IPAMDoNotRelease else release_ips n ip);
               st' = st\<lparr>ownNode := Some (set_ReleaseIPs r n)\<rparr>
           in (int (card marked),
               if card marked > 0 then trigger ''restore release reset'' st' else st')))"

subsection \<open>A new version of the custom resource\<close>

definition poolSizes :: "NetResourceSet \<Rightarrow> Family \<Rightarrow> int" where
  "poolSizes n fam =
     int (card {s \<in> dom (pool_map n). case ParseIP s of None \<Rightarrow> False | Some a \<Rightarrow> DeriveFamily a = fam})"

text \<open>The first loop: an address that is marked but not in the pool is refused at once; the
  others are kept for the second loop, with the last allocator of their family. The entries are
  independent of each other, so the loop is a map of the statuses.\<close>

definition needsNack :: "NetResourceSet \<Rightarrow> string \<Rightarrow> bool" where
  "needsNack n ip \<longleftrightarrow>
     Pool (SpecIPAM n) \<noteq> None \<and> release_ips n ip = Some IPAMMarkForRelease \<and> pool_map n ip = None"

fun lastAllocator :: "Family \<Rightarrow> crdAllocator list \<Rightarrow> nat \<Rightarrow> nat option \<Rightarrow> nat option" where
  "lastAllocator fam [] i found = found"
| "lastAllocator fam (a # as) i found =
     lastAllocator fam as (Suc i) (if family a = fam then Some i else found)"

definition markedToRelease :: "nodeStore \<Rightarrow> NetResourceSet \<Rightarrow> string \<Rightarrow> nat option" where
  "markedToRelease st n ip =
     (if Pool (SpecIPAM n) = None \<or> release_ips n ip \<noteq> Some IPAMMarkForRelease \<or> pool_map n ip = None
      then None
      else case ParseIP ip of
        None \<Rightarrow> None
      | Some a \<Rightarrow> lastAllocator (DeriveFamily a) (allocators st) 0 None)"

text \<open>The part under the first lock: the pool sizes, the refusals, whether the resource must be
  written back.\<close>

definition evaluateHandshake :: "NetResourceSet \<Rightarrow> nodeStore \<Rightarrow> nodeStore" where
  "evaluateHandshake n st =
     st\<lparr>allocationPoolSize := (allocationPoolSize st)(IPv4 := poolSizes n IPv4, IPv6 := poolSizes n IPv6),
        ownNode := Some (set_ReleaseIPs
          (\<lambda>ip. if needsNack n ip then Some IPAMDoNotRelease else release_ips n ip) n)\<rparr>"

definition syncNeeded :: "nodeStore \<Rightarrow> NetResourceSet \<Rightarrow> bool" where
  "syncNeeded st n \<longleftrightarrow>
     (\<exists>ip\<in>dom (release_ips n). needsNack n ip \<or> markedToRelease st n ip \<noteq> None)"

text \<open>One round of the second loop, under both locks. A store without a resource would be a nil
  dereference.\<close>

definition ackOne :: "string \<Rightarrow> nat \<Rightarrow> nodeStore \<Rightarrow> nodeStore option" where
  "ackOne ip i st =
     (case ownNode st of
        None \<Rightarrow> None
      | Some n \<Rightarrow>
          Some (st\<lparr>ownNode := Some (set_ReleaseIPs ((release_ips n)(ip \<mapsto>
                  (if allocated (allocators st ! i) ip \<noteq> None then IPAMDoNotRelease
                   else IPAMReadyForRelease))) n)\<rparr>))"

fun ackAll :: "(string \<times> nat) list \<Rightarrow> nodeStore \<Rightarrow> nodeStore option" where
  "ackAll [] st = Some st"
| "ackAll ((ip, i) # ms) st = (case ackOne ip i st of None \<Rightarrow> None | Some st' \<Rightarrow> ackAll ms st')"

text \<open>The part before the first lock of the evaluation: the new resource is stored, and nothing
  else happens while the agent has not restored its endpoints.\<close>

definition storeResource :: "NetResourceSet \<Rightarrow> nodeStore \<Rightarrow> nodeStore" where
  "storeResource n st =
     notifyIPPoolReadyIfNeeded (st\<lparr>ownNode := Some n, lastReleaseIPs :=
       (if release_ips n = Map.empty then lastReleaseIPs st else dom (release_ips n))\<rparr>)"

text \<open>\<open>ks\<close> is the order in which the map of marked addresses is visited.\<close>

definition updateLocalNodeResource :: "string list \<Rightarrow> NetResourceSet \<Rightarrow> nodeStore \<Rightarrow> nodeStore option" where
  "updateLocalNodeResource ks n st =
     (let st1 = storeResource n st in
      if \<not> hasRestoreFinished st1 then Some st1
      else map_option (\<lambda>st2. if syncNeeded st1 n then trigger ''excess IP release'' st2 else st2)
             (ackAll (List.map_filter (\<lambda>ip. map_option (Pair ip) (markedToRelease st1 n ip)) ks)
                (evaluateHandshake n st1)))"

text \<open>\<open>refreshNode\<close>: the resource written with \<open>UpdateStatus\<close>.\<close>

definition refreshNode :: "nodeStore \<Rightarrow> NetResourceSet option" where
  "refreshNode st =
     map_option (\<lambda>n. n\<lparr>StatusIPAM := (StatusIPAM n)
         \<lparr>Used := foldl (\<lambda>m a. m ++ allocated a) Map.empty (allocators st)\<rparr>\<rparr>)
       (ownNode st)"

subsection \<open>Looking for an address\<close>

definition store_allocate :: "ip \<Rightarrow> nodeStore \<Rightarrow> go_error + AllocationIP" where
  "store_allocate a st =
     (case ownNode st of
        None \<Rightarrow> Inl (PlainError ''NetResourceSet for own node is not available'')
      | Some n \<Rightarrow>
          (case Pool (SpecIPAM n) of
             None \<Rightarrow> Inl (PlainError ''No IPs available'')
           | Some m \<Rightarrow>
               if isIPInReleaseHandshake n (ip_string a)
               then Inl (PlainError ''IP not available, marked or ready for release'')
               else case m (ip_string a) of
                 None \<Rightarrow> Inl (IPNotAvailable a)
               | Some info \<Rightarrow> Inr info))"

definition candidate :: "NetResourceSet \<Rightarrow> AllocationMap \<Rightarrow> Family \<Rightarrow> string \<Rightarrow> bool" where
  "candidate n alloc fam ip \<longleftrightarrow>
     alloc ip = None \<and> \<not> isIPInReleaseHandshake n ip \<and>
     (case ParseIP ip of None \<Rightarrow> False | Some a \<Rightarrow> DeriveFamily a = fam)"

definition store_allocateNext ::
    "crd_env \<Rightarrow> AllocationMap \<Rightarrow> Family \<Rightarrow> nodeStore \<Rightarrow> go_error + (ip \<times> AllocationIP)" where
  "store_allocateNext env alloc fam st =
     (case ownNode st of
        None \<Rightarrow> Inl (PlainError ''NetResourceSet for own node is not available'')
      | Some n \<Rightarrow>
          (case List.find (candidate n alloc fam) (poolOrder env (pool_map n) alloc) of
             None \<Rightarrow> Inl (CodeError ''NoMoreIP'' ''No more IPs available'')
           | Some ip \<Rightarrow> Inr (the (ParseIP ip), the (pool_map n ip))))"

section \<open>The allocator\<close>

definition deriveGatewayIP :: "string \<Rightarrow> int \<Rightarrow> string option" where
  "deriveGatewayIP cidr index =
     (case ParseCIDR cidr of
        None \<Rightarrow> Some []
      | Some (a, n) \<Rightarrow> map_option (\<lambda>gw. if gw = [] then [] else ip_string gw) (GetIPAtIndex n index))"

text \<open>\<open>handlerAllocateNextError\<close>: \<open>None\<close> is the nil error.\<close>

definition handlerAllocateNextError :: "crd_env \<Rightarrow> nodeStore \<Rightarrow> go_error option \<Rightarrow> go_error option" where
  "handlerAllocateNextError env st err =
     (case err of
        None \<Rightarrow> None
      | Some e \<Rightarrow>
          if is_code_error e \<and> cfgMode env = IPAMVpcEni \<and> ownNode st \<noteq> None
          then SpeculationNoMoreIPReson (clock env) False (the (ownNode st))
          else Some e)"

definition buildAllocationResult ::
    "crd_env \<Rightarrow> Family \<Rightarrow> nodeStore \<Rightarrow> ip \<Rightarrow> AllocationIP \<Rightarrow> (go_error + AllocationResult) option" where
  "buildAllocationResult env fam st a info =
     (case cfgMode env of
        IPAMVpcEni \<Rightarrow>
          (if SubnetID info = [] then Some (Inl (PlainError ''subnet ID is empty''))
           else case subnetLister env (SubnetID info) of
             Inl e \<Rightarrow> Some (Inl (PlainError ''failed to get subnet''))
           | Inr (v4, v6) \<Rightarrow>
               let cidr = (if to4 a = None then v6 else v4) in
               map_option (\<lambda>gw. Inr ((new_result a)\<lparr>GatewayIP := gw, CIDRs := [cidr],
                                       InterfaceNumber := Resource info\<rparr>))
                 (deriveGatewayIP cidr 1))
      | IPAMRdma \<Rightarrow> Some (Inr ((new_result a)\<lparr>InterfaceNumber := Resource info\<rparr>))
      | IPAMPrivateCloudBase \<Rightarrow>
          (case ownNode st of
             None \<Rightarrow> Some (Inr (new_result a))
           | Some n \<Rightarrow>
               (case PrivateCloud n of
                  Some sbn \<Rightarrow> Some (Inr ((new_result a)\<lparr>GatewayIP := Gateway sbn, CIDRs := [PCCIDR sbn]\<rparr>))
                | None \<Rightarrow>
                    let f = (if fam = IPv6 then IPv6 else IPv4) in
                    Some (Inr ((new_result a)\<lparr>GatewayIP := nodeIP env f, CIDRs := [nodeAllocRange env f]\<rparr>))))
      | _ \<Rightarrow> Some (Inr (new_result a)))"

definition markAllocated :: "nat \<Rightarrow> ip \<Rightarrow> string \<Rightarrow> AllocationIP \<Rightarrow> nodeStore \<Rightarrow> nodeStore" where
  "markAllocated i a own info st =
     st\<lparr>allocators := (allocators st)[i := (allocators st ! i)
        \<lparr>allocated := (allocated (allocators st ! i))(ip_string a \<mapsto> info\<lparr>Owner := own\<rparr>)\<rparr>]\<rparr>"

text \<open>The end of all four allocations: the result is built, the address recorded. The outer
  \<open>None\<close> is a panic.\<close>

definition finishAllocation ::
    "crd_env \<Rightarrow> nat \<Rightarrow> ip \<Rightarrow> string \<Rightarrow> AllocationIP \<Rightarrow> nodeStore
     \<Rightarrow> ((go_error + AllocationResult) \<times> nodeStore) option" where
  "finishAllocation env i a own info st =
     (case buildAllocationResult env (family (allocators st ! i)) st a info of
        None \<Rightarrow> None
      | Some (Inl e) \<Rightarrow> Some (Inl (PlainError ''failed to associate IP inside NetResourceSet''), st)
      | Some (Inr res) \<Rightarrow> Some (Inr res, markAllocated i a own info st))"

definition crd_AllocateWithoutSyncUpstream ::
    "crd_env \<Rightarrow> nat \<Rightarrow> ip \<Rightarrow> string \<Rightarrow> nodeStore \<Rightarrow> ((go_error + AllocationResult) \<times> nodeStore) option" where
  "crd_AllocateWithoutSyncUpstream env i a own st =
     (if allocated (allocators st ! i) (ip_string a) \<noteq> None
      then Some (Inl (PlainError ''IP already in use''), st)
      else case store_allocate a st of
        Inl e \<Rightarrow> Some (Inl e, st)
      | Inr info \<Rightarrow> finishAllocation env i a own info st)"

definition onSuccess ::
    "(nodeStore \<Rightarrow> nodeStore) \<Rightarrow> ((go_error + 'a) \<times> nodeStore) option
     \<Rightarrow> ((go_error + 'a) \<times> nodeStore) option" where
  "onSuccess f r = map_option (\<lambda>(res, st). if is_err res then (res, st) else (res, f st)) r"

definition crd_Allocate ::
    "crd_env \<Rightarrow> nat \<Rightarrow> ip \<Rightarrow> string \<Rightarrow> nodeStore \<Rightarrow> ((go_error + AllocationResult) \<times> nodeStore) option" where
  "crd_Allocate env i a own st =
     onSuccess (trigger ''allocation of IP'') (crd_AllocateWithoutSyncUpstream env i a own st)"

text \<open>A nil error after \<open>handlerAllocateNextError\<close> with no address found lets the code go on with
  a nil address and dereference a nil \<open>ipInfo\<close> in mode VPC-ENI.\<close>

definition crd_AllocateNext ::
    "crd_env \<Rightarrow> nat \<Rightarrow> string \<Rightarrow> nodeStore \<Rightarrow> ((go_error + AllocationResult) \<times> nodeStore) option" where
  "crd_AllocateNext env i own st =
     (case store_allocateNext env (allocated (allocators st ! i)) (family (allocators st ! i)) st of
        Inl e \<Rightarrow>
          (case handlerAllocateNextError env st (Some e) of
             Some e' \<Rightarrow> Some (Inl e', st)
           | None \<Rightarrow> None)
      | Inr (a, info) \<Rightarrow>
          onSuccess (trigger ''allocation of IP'') (finishAllocation env i a own info st))"

definition crd_AllocateNextWithoutSyncUpstream ::
    "crd_env \<Rightarrow> nat \<Rightarrow> string \<Rightarrow> nodeStore \<Rightarrow> ((go_error + AllocationResult) \<times> nodeStore) option" where
  "crd_AllocateNextWithoutSyncUpstream env i own st =
     (case store_allocateNext env (allocated (allocators st ! i)) (family (allocators st ! i)) st of
        Inl e \<Rightarrow> Some (Inl e, st)
      | Inr (a, info) \<Rightarrow> finishAllocation env i a own info st)"

definition crd_Release :: "nat \<Rightarrow> ip \<Rightarrow> nodeStore \<Rightarrow> (go_error + unit) \<times> nodeStore" where
  "crd_Release i a st =
     (if allocated (allocators st ! i) (ip_string a) = None
      then (Inl (PlainError ''IP is not allocated''), st)
      else (Inr (), trigger ''release of IP''
              (st\<lparr>allocators := (allocators st)[i := (allocators st ! i)
                 \<lparr>allocated := (allocated (allocators st ! i))(ip_string a := None)\<rparr>]\<rparr>)))"

definition totalPoolSize :: "nat \<Rightarrow> nodeStore \<Rightarrow> int" where
  "totalPoolSize i st = allocationPoolSize st (family (allocators st ! i))"

definition crd_Dump :: "nat \<Rightarrow> nodeStore \<Rightarrow> (string \<rightharpoonup> string) \<times> string" where
  "crd_Dump i st =
     (let m = (\<lambda>ip. if allocated (allocators st ! i) ip \<noteq> None then Some [] else None) in
      (m, dec_string (card (dom m)) @ ''/'' @ int_string (totalPoolSize i st) @ '' allocated''))"

definition crd_RestoreFinished :: "nodeStore \<Rightarrow> nodeStore" where
  "crd_RestoreFinished st = st\<lparr>hasRestoreFinished := True\<rparr>"

section \<open>Well-formed stores\<close>

text \<open>The keys of a pool are addresses as \<open>IP.String\<close> prints them, a pool is finite, the
  environment visits exactly its keys, and in mode VPC-ENI the resource has an ENI
  specification.\<close>

definition canonical_pool :: "AllocationMap \<Rightarrow> bool" where
  "canonical_pool m \<longleftrightarrow> finite (dom m) \<and> (\<forall>s\<in>dom m. \<forall>a. ParseIP s = Some a \<longrightarrow> ip_string a = s)"

definition env_ok :: "crd_env \<Rightarrow> bool" where
  "env_ok env \<longleftrightarrow> (\<forall>m alloc. finite (dom m) \<longrightarrow> iter_order (poolOrder env m alloc) m)"

definition node_ok :: "crd_env \<Rightarrow> NetResourceSet \<Rightarrow> bool" where
  "node_ok env n \<longleftrightarrow>
     canonical_pool (pool_map n) \<and> (cfgMode env = IPAMVpcEni \<longrightarrow> SpecENI n \<noteq> None)"

definition store_ok :: "crd_env \<Rightarrow> nodeStore \<Rightarrow> bool" where
  "store_ok env st \<longleftrightarrow> env_ok env \<and> (\<forall>n. ownNode st = Some n \<longrightarrow> node_ok env n)"

text \<open>An allocator whose allocated addresses are of its family.\<close>

definition allocator_ok :: "Family \<Rightarrow> nat \<Rightarrow> nodeStore \<Rightarrow> bool" where
  "allocator_ok fam i st \<longleftrightarrow>
     i < length (allocators st) \<and> family (allocators st ! i) = fam \<and>
     (\<forall>s\<in>dom (allocated (allocators st ! i)). \<exists>x. s = ip_string x \<and> DeriveFamily x = fam)"

abbreviation crd_allocd :: "nat \<Rightarrow> nodeStore \<Rightarrow> string set" where
  "crd_allocd i st \<equiv> dom (allocated (allocators st ! i))"

definition crd_room :: "nat \<Rightarrow> nodeStore \<Rightarrow> nat" where
  "crd_room i st =
     (case ownNode st of None \<Rightarrow> 0 | Some n \<Rightarrow> card (dom (pool_map n) - crd_allocd i st))"

section \<open>Effects of the operations\<close>

lemma trigger_simps [simp]:
  "ownNode (trigger r st) = ownNode st" "allocators (trigger r st) = allocators st"
  "hasRestoreFinished (trigger r st) = hasRestoreFinished st"
  by (simp_all add: trigger_def)

lemma deriveGatewayIP_total: "deriveGatewayIP cidr i \<noteq> None"
  using ParseCIDR_range
  by (fastforce simp: deriveGatewayIP_def GetIPAtIndex_def Let_def split: option.splits prod.splits)

lemma buildAllocationResult_total: "buildAllocationResult env fam st a info \<noteq> None"
  using deriveGatewayIP_total
  by (auto simp: buildAllocationResult_def Let_def split: ipam_mode.splits sum.splits prod.splits
      option.splits)

lemma buildAllocationResult_IP:
  "buildAllocationResult env fam st a info = Some (Inr r) \<Longrightarrow> ResultIP r = a"
  by (auto simp: buildAllocationResult_def Let_def new_result_def split: ipam_mode.splits sum.splits
      prod.splits option.splits if_splits)

text \<open>How a store looks after an address was recorded.\<close>

definition recorded :: "nat \<Rightarrow> ip \<Rightarrow> nodeStore \<Rightarrow> nodeStore \<Rightarrow> bool" where
  "recorded i a st st' \<longleftrightarrow>
     ownNode st' = ownNode st \<and> length (allocators st') = length (allocators st) \<and>
     (\<forall>j. family (allocators st' ! j) = family (allocators st ! j)) \<and>
     (\<forall>j. j \<noteq> i \<longrightarrow> allocators st' ! j = allocators st ! j) \<and>
     crd_allocd i st' = insert (ip_string a) (crd_allocd i st) \<and>
     hasRestoreFinished st' = hasRestoreFinished st"

lemma markAllocated_recorded:
  assumes "i < length (allocators st)"
  shows "recorded i a st (markAllocated i a own info st)"
  using assms by (auto simp: recorded_def markAllocated_def nth_list_update)

lemma recorded_trigger: "recorded i a st st' \<Longrightarrow> recorded i a st (trigger r st')"
  by (simp add: recorded_def)

lemma finishAllocation_cases:
  assumes "i < length (allocators st)"
  shows "(\<exists>e. finishAllocation env i a own info st = Some (Inl e, st)) \<or>
     (\<exists>r st'. finishAllocation env i a own info st = Some (Inr r, st') \<and> ResultIP r = a \<and>
        recorded i a st st')"
  using buildAllocationResult_total [of env "family (allocators st ! i)" st a info]
    buildAllocationResult_IP [of env "family (allocators st ! i)" st a info]
    markAllocated_recorded [OF assms, of a own info]
  by (auto simp: finishAllocation_def split: option.splits sum.splits)

lemma onSuccess_simps [simp]:
  "onSuccess f None = None" "onSuccess f (Some (Inl e, st)) = Some (Inl e, st)"
  "onSuccess f (Some (Inr r, st)) = Some (Inr r, f st)"
  by (simp_all add: onSuccess_def)

lemma crd_AllocateWithoutSyncUpstream_cases:
  assumes "i < length (allocators st)"
  shows "(\<exists>e. crd_AllocateWithoutSyncUpstream env i a own st = Some (Inl e, st)) \<or>
     (\<exists>r st'. crd_AllocateWithoutSyncUpstream env i a own st = Some (Inr r, st') \<and> ResultIP r = a \<and>
        recorded i a st st') \<and> ip_string a \<notin> crd_allocd i st \<and>
     (\<exists>n. ownNode st = Some n \<and> \<not> isIPInReleaseHandshake n (ip_string a))"
  using finishAllocation_cases [OF assms, of env a own]
  by (auto simp: crd_AllocateWithoutSyncUpstream_def store_allocate_def
      split: sum.splits option.splits if_splits)

lemma crd_Allocate_cases:
  assumes "i < length (allocators st)"
  shows "(\<exists>e. crd_Allocate env i a own st = Some (Inl e, st)) \<or>
     (\<exists>r st'. crd_Allocate env i a own st = Some (Inr r, st') \<and> ResultIP r = a \<and>
        recorded i a st st') \<and> ip_string a \<notin> crd_allocd i st \<and>
     (\<exists>n. ownNode st = Some n \<and> \<not> isIPInReleaseHandshake n (ip_string a))"
  using crd_AllocateWithoutSyncUpstream_cases [OF assms, of env a own] recorded_trigger
  by (auto simp: crd_Allocate_def)

text \<open>What \<open>allocateNext\<close> of the store finds.\<close>

lemma store_allocateNext_Inr:
  assumes "store_allocateNext env alloc fam st = Inr (a, info)" "store_ok env st"
  shows "\<exists>n. ownNode st = Some n \<and> ip_string a \<in> dom (pool_map n) \<and> alloc (ip_string a) = None \<and>
    DeriveFamily a = fam \<and> \<not> isIPInReleaseHandshake n (ip_string a)"
proof -
  from assms(1) obtain n s where n: "ownNode st = Some n"
      and f: "List.find (candidate n alloc fam) (poolOrder env (pool_map n) alloc) = Some s"
      and a: "a = the (ParseIP s)"
    by (auto simp: store_allocateNext_def split: option.splits)
  have ok: "canonical_pool (pool_map n)" "env_ok env"
    using assms(2) n by (auto simp: store_ok_def node_ok_def)
  have "s \<in> set (poolOrder env (pool_map n) alloc)" "candidate n alloc fam s"
    using f unfolding find_Some_iff_prefix by auto
  moreover have "set (poolOrder env (pool_map n) alloc) = dom (pool_map n)"
    using ok by (auto simp: env_ok_def canonical_pool_def iter_order_def)
  ultimately have s: "s \<in> dom (pool_map n)" "candidate n alloc fam s" by auto
  then obtain x where "ParseIP s = Some x" "DeriveFamily x = fam"
    by (auto simp: candidate_def split: option.splits)
  moreover from this have "ip_string x = s" using s(1) ok(1) by (auto simp: canonical_pool_def)
  ultimately show ?thesis using n s a by (auto simp: candidate_def)
qed

text \<open>No address is found exactly when every address of the family is taken or being released.\<close>

lemma store_allocateNext_NoMoreIP:
  assumes "ownNode st = Some n" "store_ok env st"
  shows "is_err (store_allocateNext env alloc fam st) \<longleftrightarrow>
    (\<forall>s\<in>dom (pool_map n). \<not> candidate n alloc fam s)"
proof -
  have "set (poolOrder env (pool_map n) alloc) = dom (pool_map n)"
    using assms by (auto simp: env_ok_def canonical_pool_def iter_order_def store_ok_def node_ok_def)
  then show ?thesis
    using assms(1) find_None_iff [of "candidate n alloc fam" "poolOrder env (pool_map n) alloc"]
    by (auto simp: store_allocateNext_def split: option.splits)
qed

lemma crd_AllocateNextWithoutSyncUpstream_cases:
  assumes "store_ok env st" "i < length (allocators st)"
  shows "(\<exists>e. crd_AllocateNextWithoutSyncUpstream env i own st = Some (Inl e, st)) \<or>
     (\<exists>r st' n. crd_AllocateNextWithoutSyncUpstream env i own st = Some (Inr r, st') \<and>
        recorded i (ResultIP r) st st' \<and> ownNode st = Some n \<and>
        ip_string (ResultIP r) \<in> dom (pool_map n) - crd_allocd i st \<and>
        DeriveFamily (ResultIP r) = family (allocators st ! i) \<and>
        \<not> isIPInReleaseHandshake n (ip_string (ResultIP r)))"
proof (cases "store_allocateNext env (allocated (allocators st ! i)) (family (allocators st ! i)) st")
  case (Inl e)
  then show ?thesis by (simp add: crd_AllocateNextWithoutSyncUpstream_def)
next
  case (Inr p)
  obtain a info where p: "p = (a, info)" by (cases p)
  from store_allocateNext_Inr [OF Inr [unfolded p] assms(1)]
    finishAllocation_cases [OF assms(2), of env a own info]
  show ?thesis using Inr p by (auto simp: crd_AllocateNextWithoutSyncUpstream_def)
qed

lemma crd_AllocateNext_cases:
  assumes "store_ok env st" "i < length (allocators st)"
  shows "(\<exists>e. crd_AllocateNext env i own st = Some (Inl e, st)) \<or>
     (\<exists>r st' n. crd_AllocateNext env i own st = Some (Inr r, st') \<and>
        recorded i (ResultIP r) st st' \<and> ownNode st = Some n \<and>
        ip_string (ResultIP r) \<in> dom (pool_map n) - crd_allocd i st \<and>
        DeriveFamily (ResultIP r) = family (allocators st ! i) \<and>
        \<not> isIPInReleaseHandshake n (ip_string (ResultIP r)))"
proof (cases "store_allocateNext env (allocated (allocators st ! i)) (family (allocators st ! i)) st")
  case (Inl e)
  have "handlerAllocateNextError env st (Some e) \<noteq> None"
    using assms(1)
    by (auto simp: handlerAllocateNextError_def SpeculationNoMoreIPReson_None store_ok_def node_ok_def
        simp del: not_None_eq)
  then show ?thesis using Inl by (auto simp: crd_AllocateNext_def)
next
  case (Inr p)
  obtain a info where p: "p = (a, info)" by (cases p)
  have "crd_AllocateNext env i own st =
      onSuccess (trigger ''allocation of IP'') (crd_AllocateNextWithoutSyncUpstream env i own st)"
    using Inr p by (simp add: crd_AllocateNext_def crd_AllocateNextWithoutSyncUpstream_def)
  with crd_AllocateNextWithoutSyncUpstream_cases [OF assms, of own] recorded_trigger
  show ?thesis by fastforce
qed

lemma recorded_room:
  assumes "recorded i a st st'" "store_ok env st" "ownNode st = Some n"
    "ip_string a \<in> dom (pool_map n) - crd_allocd i st"
  shows "crd_room i st' < crd_room i st"
proof -
  have "finite (dom (pool_map n))" using assms(2,3) by (auto simp: store_ok_def node_ok_def canonical_pool_def)
  moreover have "dom (pool_map n) - crd_allocd i st' \<subset> dom (pool_map n) - crd_allocd i st"
    using assms(1,4) by (auto simp: recorded_def)
  ultimately show ?thesis using assms(1,3)
    by (simp add: crd_room_def recorded_def psubset_card_mono)
qed

lemma recorded_ok:
  assumes "recorded i a st st'" "DeriveFamily a = family (allocators st ! i)"
  shows "store_ok env st \<Longrightarrow> store_ok env st'"
    and "allocator_ok fam j st \<Longrightarrow> allocator_ok fam j st'"
proof -
  show "store_ok env st \<Longrightarrow> store_ok env st'" using assms(1) by (simp add: store_ok_def recorded_def)
  assume ok: "allocator_ok fam j st"
  show "allocator_ok fam j st'"
  proof (cases "j = i")
    case True
    then show ?thesis using ok assms by (auto simp: allocator_ok_def recorded_def)
  next
    case False
    then show ?thesis using ok assms(1) by (simp add: allocator_ok_def recorded_def)
  qed
qed

end
