(* ===== verification/AgentHandshake.thy ===== *)
theory AgentHandshake
  imports CRDAllocator "HOL-Library.List_Lexorder" "HOL-Library.Char_ord"
begin

text \<open>
  The agent's side of the release handshake (\<open>pkg/ipam/crd.go\<close>): what \<open>updateLocalNodeResource\<close>
  answers to the operator, and, as a step relation over all operations of the store and its
  allocators in any interleaving, that an address acknowledged as \<open>ready-for-release\<close> is never
  allocated.
\<close>

section \<open>The answer to a new version of the resource\<close>

lemma ackOne_Some:
  assumes "ownNode st = Some n"
  shows "ackOne ip i st = Some (st\<lparr>ownNode := Some (set_ReleaseIPs ((release_ips n)(ip \<mapsto>
           (if allocated (allocators st ! i) ip \<noteq> None then IPAMDoNotRelease
            else IPAMReadyForRelease))) n)\<rparr>)"
  using assms by (simp add: ackOne_def)

lemma ackAll_spec:
  assumes "ownNode st = Some n" "distinct (map fst ms)"
  shows "\<exists>st' n'. ackAll ms st = Some st' \<and> ownNode st' = Some n' \<and> allocators st' = allocators st \<and>
    pool_map n' = pool_map n \<and>
    (\<forall>ip. release_ips n' ip =
       (case map_of ms ip of
          None \<Rightarrow> release_ips n ip
        | Some i \<Rightarrow> Some (if allocated (allocators st ! i) ip \<noteq> None then IPAMDoNotRelease
                         else IPAMReadyForRelease)))"
  using assms
proof (induction ms arbitrary: st n)
  case Nil
  then show ?case by auto
next
  case (Cons m ms)
  obtain ip i where m: "m = (ip, i)" by (cases m)
  let ?r = "(release_ips n)(ip \<mapsto> (if allocated (allocators st ! i) ip \<noteq> None then IPAMDoNotRelease
            else IPAMReadyForRelease))"
  define n1 where "n1 = set_ReleaseIPs ?r n"
  define st1 where "st1 = st\<lparr>ownNode := Some n1\<rparr>"
  have s1: "ownNode st1 = Some n1" "allocators st1 = allocators st" "release_ips n1 = ?r"
      "pool_map n1 = pool_map n"
    by (simp_all add: st1_def n1_def)
  have step: "ackAll (m # ms) st = ackAll ms st1"
    using Cons.prems(1) m by (simp add: ackOne_Some st1_def n1_def)
  have "ip \<notin> fst ` set ms" using Cons.prems(2) m by auto
  then have nin: "map_of ms ip = None" by (simp add: map_of_eq_None_iff)
  have d: "distinct (map fst ms)" using Cons.prems(2) by simp
  obtain st' n' where ih: "ackAll ms st1 = Some st'" "ownNode st' = Some n'"
      "allocators st' = allocators st" "pool_map n' = pool_map n"
      "\<forall>ip. release_ips n' ip =
       (case map_of ms ip of
          None \<Rightarrow> ?r ip
        | Some i \<Rightarrow> Some (if allocated (allocators st ! i) ip \<noteq> None then IPAMDoNotRelease
                         else IPAMReadyForRelease))"
    using Cons.IH [OF s1(1) d] unfolding s1(2-4) by blast
  show ?case
  proof (intro exI conjI allI)
    show "ackAll (m # ms) st = Some st'" using step ih(1) by simp
    show "ownNode st' = Some n'" "allocators st' = allocators st" "pool_map n' = pool_map n"
      using ih by simp_all
    fix x
    show "release_ips n' x = (case map_of (m # ms) x of
          None \<Rightarrow> release_ips n x
        | Some i \<Rightarrow> Some (if allocated (allocators st ! i) x \<noteq> None then IPAMDoNotRelease
                         else IPAMReadyForRelease))"
      using ih(5) [rule_format, of x] nin m by (cases "x = ip") (simp_all split: option.splits)
  qed
qed

lemma map_of_map_filter_pairs:
  "map_of (List.map_filter (\<lambda>x. map_option (Pair x) (f x)) ks) y = (if y \<in> set ks then f y else None)"
  by (induction ks) (auto simp: map_filter_simps split: option.splits)

lemma distinct_map_filter_pairs:
  "distinct ks \<Longrightarrow> distinct (map fst (List.map_filter (\<lambda>x. map_option (Pair x) (f x)) ks))"
proof (induction ks)
  case Nil
  then show ?case by (simp add: map_filter_simps)
next
  case (Cons k ks)
  have "fst ` set (List.map_filter (\<lambda>x. map_option (Pair x) (f x)) ks) \<subseteq> set ks"
    by (auto simp: List.map_filter_def)
  then show ?case using Cons by (auto simp: map_filter_simps split: option.splits)
qed

text \<open>The status of an address in the answer to the resource \<open>n\<close>.\<close>

definition answer :: "nodeStore \<Rightarrow> NetResourceSet \<Rightarrow> string \<Rightarrow> string option" where
  "answer st n ip =
     (if release_ips n ip \<noteq> Some IPAMMarkForRelease \<or> Pool (SpecIPAM n) = None then release_ips n ip
      else if pool_map n ip = None then Some IPAMDoNotRelease
      else case markedToRelease st n ip of
        None \<Rightarrow> Some IPAMMarkForRelease
      | Some i \<Rightarrow> Some (if allocated (allocators st ! i) ip \<noteq> None then IPAMDoNotRelease
                       else IPAMReadyForRelease))"

lemma storeResource_simps [simp]:
  "ownNode (storeResource n st) = Some n" "allocators (storeResource n st) = allocators st"
  "hasRestoreFinished (storeResource n st) = hasRestoreFinished st"
  by (simp_all add: storeResource_def notifyIPPoolReadyIfNeeded_def)

lemma evaluateHandshake_simps [simp]:
  "ownNode (evaluateHandshake n st) = Some (set_ReleaseIPs
     (\<lambda>ip. if needsNack n ip then Some IPAMDoNotRelease else release_ips n ip) n)"
  "allocators (evaluateHandshake n st) = allocators st"
  "hasRestoreFinished (evaluateHandshake n st) = hasRestoreFinished st"
  by (simp_all add: evaluateHandshake_def)

lemma markedToRelease_cong:
  "allocators st = allocators st' \<Longrightarrow> markedToRelease st n ip = markedToRelease st' n ip"
  unfolding markedToRelease_def by (simp split: option.split)

lemma updateLocalNodeResource_spec:
  assumes "iter_order ks (release_ips n)"
  shows "\<exists>st' n'. updateLocalNodeResource ks n st = Some st' \<and> ownNode st' = Some n' \<and>
    allocators st' = allocators st \<and> pool_map n' = pool_map n \<and>
    (\<forall>ip. release_ips n' ip = (if hasRestoreFinished st then answer st n ip else release_ips n ip))"
proof (cases "hasRestoreFinished st")
  case False
  then show ?thesis by (simp add: updateLocalNodeResource_def Let_def)
next
  case True
  let ?st1 = "storeResource n st"
  let ?ms = "List.map_filter (\<lambda>ip. map_option (Pair ip) (markedToRelease ?st1 n ip)) ks"
  define e where "e = evaluateHandshake n ?st1"
  define m where "m = set_ReleaseIPs (\<lambda>ip. if needsNack n ip then Some IPAMDoNotRelease else release_ips n ip) n"
  have e: "ownNode e = Some m" "allocators e = allocators st" "pool_map m = pool_map n"
      "release_ips m = (\<lambda>ip. if needsNack n ip then Some IPAMDoNotRelease else release_ips n ip)"
    by (simp_all add: e_def m_def)
  have mk: "markedToRelease ?st1 n = markedToRelease st n"
    by (intro ext markedToRelease_cong) simp
  obtain st2 n' where a: "ackAll ?ms e = Some st2" "ownNode st2 = Some n'"
      "allocators st2 = allocators st" "pool_map n' = pool_map n"
      "\<forall>ip. release_ips n' ip =
       (case map_of ?ms ip of
          None \<Rightarrow> (if needsNack n ip then Some IPAMDoNotRelease else release_ips n ip)
        | Some i \<Rightarrow> Some (if allocated (allocators st ! i) ip \<noteq> None then IPAMDoNotRelease
                         else IPAMReadyForRelease))"
    using ackAll_spec [OF e(1) distinct_map_filter_pairs [of ks "markedToRelease ?st1 n"]] assms
    unfolding e(2-4) iter_order_def by blast
  have "release_ips n' ip = answer st n ip" for ip
  proof -
    have "map_of ?ms ip = markedToRelease st n ip"
      using assms unfolding map_of_map_filter_pairs mk
      by (auto simp: iter_order_def markedToRelease_def domIff)
    then show ?thesis using a(5) [rule_format, of ip]
      by (auto simp: answer_def needsNack_def markedToRelease_def split: option.splits)
  qed
  moreover have "updateLocalNodeResource ks n st =
      Some (if syncNeeded ?st1 n then trigger ''excess IP release'' st2 else st2)"
    using True a(1) by (simp add: updateLocalNodeResource_def Let_def e_def)
  ultimately show ?thesis using True a(2-4) by auto
qed

section \<open>All operations as steps\<close>

text \<open>An address the agent has given up: acknowledged, or already released.\<close>

definition acked :: "NetResourceSet \<Rightarrow> string \<Rightarrow> bool" where
  "acked n ip \<longleftrightarrow> release_ips n ip = Some IPAMReadyForRelease \<or> release_ips n ip = Some IPAMReleased"

text \<open>What the agent may assume of a resource it receives: it is well-formed, and an address it
  shows as acknowledged was acknowledged in the agent's copy.\<close>

definition faithful :: "crd_env \<Rightarrow> NetResourceSet \<Rightarrow> nodeStore \<Rightarrow> bool" where
  "faithful env n st \<longleftrightarrow>
     node_ok env n \<and> (\<forall>ip. acked n ip \<longrightarrow> (\<exists>n0. ownNode st = Some n0 \<and> acked n0 ip))"

text \<open>The rounds of the second loop of \<open>updateLocalNodeResource\<close> are steps of their own (\<open>ack\<close>), so
  that any operation may run between them.\<close>

inductive agent_step :: "crd_env \<Rightarrow> nodeStore \<Rightarrow> nodeStore \<Rightarrow> bool" for env where
  allocate: "i < length (allocators st) \<Longrightarrow> DeriveFamily a = family (allocators st ! i) \<Longrightarrow>
     crd_Allocate env i a own st = Some (r, st') \<Longrightarrow> agent_step env st st'"
| allocate_no_sync: "i < length (allocators st) \<Longrightarrow> DeriveFamily a = family (allocators st ! i) \<Longrightarrow>
     crd_AllocateWithoutSyncUpstream env i a own st = Some (r, st') \<Longrightarrow> agent_step env st st'"
| pick: "i < length (allocators st) \<Longrightarrow> crd_AllocateNext env i own st = Some (r, st') \<Longrightarrow>
     agent_step env st st'"
| pick_no_sync: "i < length (allocators st) \<Longrightarrow>
     crd_AllocateNextWithoutSyncUpstream env i own st = Some (r, st') \<Longrightarrow> agent_step env st st'"
| release: "i < length (allocators st) \<Longrightarrow> crd_Release i a st = (r, st') \<Longrightarrow> agent_step env st st'"
| store: "faithful env n st \<Longrightarrow> agent_step env st (storeResource n st)"
| evaluate: "faithful env n st \<Longrightarrow> agent_step env st (evaluateHandshake n (storeResource n st))"
| ack: "ParseIP ip = Some a \<Longrightarrow> ip_string a = ip \<Longrightarrow>
     lastAllocator (DeriveFamily a) (allocators st) 0 None = Some i \<Longrightarrow>
     ackOne ip i st = Some st' \<Longrightarrow> agent_step env st st'"
| reset: "agent_step env st (snd (ResetMarkedForReleaseIPs st))"
| set_own: "faithful env n st \<Longrightarrow> agent_step env st (setOwnNodeWithoutPoolUpdate n st)"
| delete: "agent_step env st (deleteLocalNodeResource st)"
| restored: "agent_step env st (crd_RestoreFinished st)"
| trigger: "agent_step env st (trigger r st)"

text \<open>The invariants: well-formedness with one allocator per family, and the safety property.\<close>

definition agent_ok :: "crd_env \<Rightarrow> nodeStore \<Rightarrow> bool" where
  "agent_ok env st \<longleftrightarrow> store_ok env st \<and> distinct (map family (allocators st)) \<and>
     (\<forall>i<length (allocators st). allocator_ok (family (allocators st ! i)) i st)"

definition handshake_safe :: "nodeStore \<Rightarrow> bool" where
  "handshake_safe st \<longleftrightarrow>
     (\<forall>n ip i. ownNode st = Some n \<and> acked n ip \<and> i < length (allocators st) \<longrightarrow>
        allocated (allocators st ! i) ip = None)"

lemma lastAllocator_spec:
  "lastAllocator f as k found = Some i \<Longrightarrow>
   found = Some i \<or> (k \<le> i \<and> i < k + length as \<and> family (as ! (i - k)) = f)"
proof (induction as arbitrary: k found)
  case Nil
  then show ?case by simp
next
  case (Cons a as)
  have "lastAllocator f as (Suc k) (if family a = f then Some k else found) = Some i"
    using Cons.prems by simp
  from Cons.IH [OF this] show ?case
    by (auto simp: nth_Cons' Suc_diff_Suc split: if_splits)
qed

lemma recorded_safe:
  assumes "handshake_safe st" "agent_ok env st" "recorded i a st st'" "i < length (allocators st)"
    "DeriveFamily a = family (allocators st ! i)"
    "ownNode st = Some n" "\<not> isIPInReleaseHandshake n (ip_string a)"
  shows "handshake_safe st' \<and> agent_ok env st'"
proof
  have r: "ownNode st' = Some n" "length (allocators st') = length (allocators st)"
      "crd_allocd i st' = insert (ip_string a) (crd_allocd i st)"
      "\<And>j. j \<noteq> i \<Longrightarrow> allocators st' ! j = allocators st ! j"
      "\<And>j. family (allocators st' ! j) = family (allocators st ! j)"
    using assms(3,6) by (auto simp: recorded_def)
  have na: "\<not> acked n (ip_string a)"
    using assms(7) by (auto simp: isIPInReleaseHandshake_def handshake_status_def acked_def)
  show "handshake_safe st'"
    unfolding handshake_safe_def
  proof (intro allI impI)
    fix m ip j assume *: "ownNode st' = Some m \<and> acked m ip \<and> j < length (allocators st')"
    then have ip: "acked n ip" "ip \<noteq> ip_string a" "ip \<notin> crd_allocd j st"
      using r(1,2) na assms(1,6) by (auto simp: handshake_safe_def)
    then have "ip \<notin> crd_allocd j st'" using r(3,4) by (cases "j = i") auto
    then show "allocated (allocators st' ! j) ip = None" by auto
  qed
  have "map family (allocators st') = map family (allocators st)"
    using r(2,5) by (intro nth_equalityI) auto
  moreover have "allocator_ok (family (allocators st' ! j)) j st'" if "j < length (allocators st')" for j
    using recorded_ok(2) [OF assms(3,5), of "family (allocators st' ! j)" j] that r(2,5) assms(2)
    by (simp add: agent_ok_def)
  ultimately show "agent_ok env st'"
    using recorded_ok(1) [OF assms(3,5), of env] assms(2) by (simp add: agent_ok_def)
qed

text \<open>A step that keeps the allocators and acknowledges nothing new.\<close>

lemma frame_safe:
  assumes "handshake_safe st" "agent_ok env st" "allocators st' = allocators st"
    "\<And>n'. ownNode st' = Some n' \<Longrightarrow> node_ok env n' \<and>
       (\<forall>ip. acked n' ip \<longrightarrow> (\<exists>n. ownNode st = Some n \<and> acked n ip))"
  shows "handshake_safe st' \<and> agent_ok env st'"
  using assms
  by (auto simp: handshake_safe_def agent_ok_def store_ok_def allocator_ok_def) blast

lemma node_ok_set_ReleaseIPs [simp]: "node_ok env (set_ReleaseIPs r n) = node_ok env n"
  by (simp add: node_ok_def)

text \<open>A step that only frees addresses.\<close>

lemma shrink_safe:
  assumes "handshake_safe st" "agent_ok env st" "ownNode st' = ownNode st"
    "map family (allocators st') = map family (allocators st)"
    "\<And>j. crd_allocd j st' \<subseteq> crd_allocd j st"
  shows "handshake_safe st' \<and> agent_ok env st'"
proof -
  have len: "length (allocators st') = length (allocators st)"
    using assms(4) by (metis length_map)
  have fam: "family (allocators st' ! j) = family (allocators st ! j)" if "j < length (allocators st)" for j
    using assms(4) that len by (metis nth_map)
  have sub: "allocated (allocators st' ! j) ip = None" if "allocated (allocators st ! j) ip = None" for j ip
    using assms(5) [of j] that by blast
  have "handshake_safe st'" using assms(1,3) len sub unfolding handshake_safe_def by metis
  moreover have "agent_ok env st'"
    using assms(2,3,4) assms(5) len fam
    unfolding agent_ok_def store_ok_def allocator_ok_def by (simp add: subset_iff)
  ultimately show ?thesis ..
qed

lemma release_shrinks:
  assumes "i < length (allocators st)" "crd_Release i a st = (r, st')"
  shows "ownNode st' = ownNode st \<and> map family (allocators st') = map family (allocators st) \<and>
    (\<forall>j. crd_allocd j st' \<subseteq> crd_allocd j st)"
  using assms
  by (auto simp: crd_Release_def map_update nth_list_update split: if_splits)
     (auto simp: list_update_same_conv map_update)

lemma ack_safe:
  assumes safe: "handshake_safe st" and ok: "agent_ok env st"
    and p: "ip_string a = ip" "lastAllocator (DeriveFamily a) (allocators st) 0 None = Some i"
    and run: "ackOne ip i st = Some st'"
  shows "handshake_safe st' \<and> agent_ok env st'"
proof -
  obtain n where n: "ownNode st = Some n" using run by (auto simp: ackOne_def split: option.splits)
  define v where "v = (if allocated (allocators st ! i) ip \<noteq> None then IPAMDoNotRelease
      else IPAMReadyForRelease)"
  have st': "ownNode st' = Some (set_ReleaseIPs ((release_ips n)(ip \<mapsto> v)) n)"
      "allocators st' = allocators st"
    using run n by (auto simp: ackOne_Some v_def)
  have i: "i < length (allocators st)" "family (allocators st ! i) = DeriveFamily a"
    using lastAllocator_spec [OF p(2)] by auto
  have other: "j = i" if j: "j < length (allocators st)" "allocated (allocators st ! j) ip \<noteq> None" for j
  proof -
    have "allocator_ok (family (allocators st ! j)) j st" using ok j(1) by (simp add: agent_ok_def)
    then obtain x where x: "ip = ip_string x" "DeriveFamily x = family (allocators st ! j)"
      using j(2) by (auto simp: allocator_ok_def)
    then have "(to4 x = None) = (to4 a = None)" using p(1) ip_string_eq_family by blast
    then have "family (allocators st ! j) = family (allocators st ! i)"
      using x(2) i(2) by (simp add: DeriveFamily_def split: if_splits)
    moreover have "distinct (map family (allocators st))" using ok by (simp add: agent_ok_def)
    ultimately show ?thesis using i(1) j(1) by (simp add: distinct_conv_nth) blast
  qed
  have "handshake_safe st'"
    unfolding handshake_safe_def
  proof (intro allI impI)
    fix m x j assume *: "ownNode st' = Some m \<and> acked m x \<and> j < length (allocators st')"
    show "allocated (allocators st' ! j) x = None"
    proof (cases "x = ip")
      case False
      then have "acked n x" using * st' by (auto simp: acked_def)
      then show ?thesis using safe n * st'(2) by (simp add: handshake_safe_def)
    next
      case True
      then have "allocated (allocators st ! i) ip = None"
        using * st' by (auto simp: acked_def v_def split: if_splits)
      then show ?thesis using other [of j] * True st'(2)
        by (cases "allocated (allocators st ! j) ip") auto
    qed
  qed
  moreover have "agent_ok env st'"
    using ok n st' by (auto simp: agent_ok_def store_ok_def allocator_ok_def)
  ultimately show ?thesis ..
qed

lemma agent_step_safe:
  assumes "agent_step env st st'" "handshake_safe st" "agent_ok env st"
  shows "handshake_safe st' \<and> agent_ok env st'"
  using assms
proof (induction rule: agent_step.induct)
  case (allocate i st a own r st')
  then show ?case using crd_Allocate_cases [of i st env a own] recorded_safe [of st env i a st'] by auto
next
  case (allocate_no_sync i st a own r st')
  then show ?case
    using crd_AllocateWithoutSyncUpstream_cases [of i st env a own] recorded_safe [of st env i a st']
    by auto
next
  case (pick i st own r st')
  then have "store_ok env st" by (simp add: agent_ok_def)
  from crd_AllocateNext_cases [OF this pick(1), of own] show ?case
    using pick recorded_safe [of st env i _ st'] by auto
next
  case (pick_no_sync i st own r st')
  then have "store_ok env st" by (simp add: agent_ok_def)
  from crd_AllocateNextWithoutSyncUpstream_cases [OF this pick_no_sync(1), of own] show ?case
    using pick_no_sync recorded_safe [of st env i _ st'] by auto
next
  case (release i st a r st')
  then show ?case using release_shrinks [OF release(1,2)] shrink_safe by blast
next
  case (store n st)
  then show ?case by (intro frame_safe [of st]) (auto simp: faithful_def)
next
  case (evaluate n st)
  then show ?case by (intro frame_safe [of st])
    (auto simp: faithful_def acked_def split: if_splits)
next
  case (ack ip a st i st')
  then show ?case using ack_safe by blast
next
  case (reset st)
  then show ?case
  proof (cases "ownNode st")
    case None
    then show ?thesis using reset by (simp add: ResetMarkedForReleaseIPs_def)
  next
    case (Some n)
    then show ?thesis using reset
      by (intro frame_safe [of st])
         (auto simp: ResetMarkedForReleaseIPs_def Let_def acked_def agent_ok_def store_ok_def
           split: if_splits)
  qed
next
  case (set_own n st)
  then show ?case by (intro frame_safe [of st]) (auto simp: faithful_def setOwnNodeWithoutPoolUpdate_def)
next
  case (delete st)
  then show ?case by (intro frame_safe [of st]) (auto simp: deleteLocalNodeResource_def)
next
  case (restored st)
  then show ?case
    by (intro frame_safe [of st]) (auto simp: crd_RestoreFinished_def agent_ok_def store_ok_def)
next
  case (trigger st r)
  then show ?case by (intro frame_safe [of st]) (auto simp: agent_ok_def store_ok_def)
qed

section \<open>A concrete agent\<close>

definition hs_spec :: IPAMSpec where
  "hs_spec = \<lparr>Pool = Some [''10.0.0.1'' \<mapsto> \<lparr>Owner = [], SubnetID = [], IsPrimary = False, Resource = []\<rparr>],
     PodCIDRs = [], MinAllocate = 0, MaxAllocate = 0, PreAllocate = 0, MaxAboveWatermark = 0,
     PodCIDRAllocationThreshold = 0, PodCIDRReleaseThreshold = 0\<rparr>"

definition hs_node :: "(string \<rightharpoonup> string) \<Rightarrow> NetResourceSet" where
  "hs_node rel = \<lparr>nrsName = ''node'', ResourceVersion = ''1'', OwnerReferences = [],
     Annotations = Map.empty, SpecIPAM = hs_spec, SpecENI = None,
     StatusIPAM = \<lparr>Used = Map.empty, PodCIDRsStatus = Map.empty, VPCRouteCIDRs = Map.empty,
       OperatorError = [], ReleaseIPs = rel, AvailableSubnetIDs = []\<rparr>,
     StatusENIs = [], PrivateCloud = None\<rparr>"

definition hs_store :: nodeStore where
  "hs_store = crd_RestoreFinished (addAllocator IPv4 (newNodeStore\<lparr>ownNode := Some (hs_node Map.empty)\<rparr>))"

definition hs_env :: "ipam_mode \<Rightarrow> crd_env" where
  "hs_env mode = \<lparr>cfgMode = mode, subnetLister = (\<lambda>_. Inl []), clock = 0, nodeIP = (\<lambda>_. []),
     nodeAllocRange = (\<lambda>_. []),
     poolOrder = (\<lambda>m _. sorted_list_of_set (dom m))\<rparr>"

lemma hs_env_ok: "env_ok (hs_env mode)"
  by (auto simp: env_ok_def hs_env_def iter_order_def)

lemma hs_node_ok: "node_ok (hs_env IPAMCRD) (hs_node rel)"
  by (simp add: node_ok_def hs_env_def canonical_pool_def pool_map_def hs_node_def hs_spec_def go_eval)

lemma hs_store_ok: "agent_ok (hs_env IPAMCRD) hs_store" "handshake_safe hs_store"
  using hs_env_ok hs_node_ok
  by (auto simp: agent_ok_def store_ok_def hs_store_def crd_RestoreFinished_def addAllocator_def
      newNodeStore_def allocator_ok_def handshake_safe_def)

section \<open>Properties\<close>





text \<open>
  With a well-formed resource, \<open>AllocateNext\<close> without synchronisation finds an address as long
  as the pool has one of the family that is neither allocated nor in the release handshake;
  otherwise the error is the code NoMoreIP.
\<close>

theorem AllocateNext_finds_candidate:
  assumes "store_ok env st" "ownNode st = Some n"
  shows "(if \<exists>s\<in>dom (pool_map n). candidate n alloc fam s
          then \<exists>a info. store_allocateNext env alloc fam st = Inr (a, info) \<and>
                 candidate n alloc fam (ip_string a) \<and> pool_map n (ip_string a) \<noteq> None
          else store_allocateNext env alloc fam st = Inl (CodeError ''NoMoreIP'' ''No more IPs available''))"
proof (cases "\<exists>s\<in>dom (pool_map n). candidate n alloc fam s")
  case False
  then have "is_err (store_allocateNext env alloc fam st)"
    using store_allocateNext_NoMoreIP [OF assms(2,1)] by blast
  then show ?thesis using False assms(2)
    by (auto simp: store_allocateNext_def split: option.splits)
next
  case True
  then obtain a info where r: "store_allocateNext env alloc fam st = Inr (a, info)"
    using store_allocateNext_NoMoreIP [OF assms(2,1), of alloc fam] by (auto simp: not_is_err_iff)
  then obtain s where s: "List.find (candidate n alloc fam) (poolOrder env (pool_map n) alloc) = Some s"
      "a = the (ParseIP s)"
    using assms(2) by (auto simp: store_allocateNext_def split: option.splits)
  have set: "set (poolOrder env (pool_map n) alloc) = dom (pool_map n)"
    using assms by (auto simp: env_ok_def canonical_pool_def iter_order_def store_ok_def node_ok_def)
  have "s \<in> set (poolOrder env (pool_map n) alloc)" "candidate n alloc fam s"
    using s(1) unfolding find_Some_iff_prefix by auto
  moreover from this have "ip_string a = s"
    using s(2) set assms by (auto simp: candidate_def store_ok_def node_ok_def canonical_pool_def
        split: option.splits)
  ultimately show ?thesis using True r set by auto
qed

theorem AllocateNext_finds_candidate_witness:
  "\<exists>a info. store_allocateNext (hs_env IPAMCRD) Map.empty IPv4 hs_store = Inr (a, info) \<and>
     pool_map (hs_node Map.empty) (ip_string a) \<noteq> None"
proof -
  have "store_ok (hs_env IPAMCRD) hs_store" using hs_store_ok by (simp add: agent_ok_def)
  moreover have "ownNode hs_store = Some (hs_node Map.empty)"
    by (simp add: hs_store_def crd_RestoreFinished_def addAllocator_def)
  moreover have "\<exists>s\<in>dom (pool_map (hs_node Map.empty)). candidate (hs_node Map.empty) Map.empty IPv4 s"
    by (simp add: hs_node_def hs_spec_def pool_map_def candidate_def isIPInReleaseHandshake_def
        handshake_status_def go_eval DeriveFamily_def)
  ultimately show ?thesis
    using AllocateNext_finds_candidate [of "hs_env IPAMCRD" hs_store "hs_node Map.empty" Map.empty IPv4]
    by auto
qed

text \<open>
  In mode VPC-ENI a resource without an ENI specification turns "no more IPs" into a nil
  error, and \<open>AllocateNext\<close> goes on with a nil address: the call panics.
\<close>

theorem AllocateNext_nil_error_panics:
  assumes "cfgMode env = IPAMVpcEni" "ownNode st = Some n" "SpecENI n = None"
    and "store_allocateNext env (allocated (allocators st ! i)) (family (allocators st ! i)) st = Inl e"
  shows "crd_AllocateNext env i own st = None"
proof -
  have "is_code_error e"
    using assms(2,4) by (auto simp: store_allocateNext_def is_code_error_def split: option.splits)
  then show ?thesis
    using assms by (simp add: crd_AllocateNext_def handlerAllocateNextError_def
        SpeculationNoMoreIPReson_def)
qed

theorem AllocateNext_nil_error_panics_witness:
  "crd_AllocateNext (hs_env IPAMVpcEni) 0 ''pod''
     (addAllocator IPv6 (newNodeStore\<lparr>ownNode := Some (hs_node Map.empty)\<rparr>)) = None"
  by (rule AllocateNext_nil_error_panics [of _ _ "hs_node Map.empty"])
     (simp_all add: hs_env_def addAllocator_def newNodeStore_def hs_node_def hs_spec_def
       store_allocateNext_def pool_map_def candidate_def go_eval DeriveFamily_def
       isIPInReleaseHandshake_def handshake_status_def)

end
