(* ===== verification/IPAMFacade.thy ===== *)
theory IPAMFacade
  imports CRDAllocator
begin

text \<open>
  \<open>pkg/ipam/allocator.go\<close>, \<open>types.go\<close>, \<open>blacklist.go\<close> and \<open>ipam.go\<close>: the IPAM object that the
  agent calls, over the Go interface \<open>Allocator\<close>. An allocator is a handle; its operations are
  the functions of a record \<open>('a, 'h) Allocator\<close> on a heap \<open>'h\<close>, which is how a Go interface
  value dispatches to the methods of a pointer. \<open>None\<close> as the result of a call is a panic, or
  a loop that does not end.

  The locale \<open>allocator\<close> states what the IPAM object relies on; its lemmas are the client's
  side. The interpretation is in \<open>Allocators\<close>.
\<close>

section \<open>The interface and the state\<close>

record ('a, 'h) Allocator =
  opAllocate :: "'a \<Rightarrow> ip \<Rightarrow> string \<Rightarrow> 'h \<Rightarrow> ((go_error + AllocationResult) \<times> 'h) option"
  opAllocateWithoutSyncUpstream ::
    "'a \<Rightarrow> ip \<Rightarrow> string \<Rightarrow> 'h \<Rightarrow> ((go_error + AllocationResult) \<times> 'h) option"
  opRelease :: "'a \<Rightarrow> ip \<Rightarrow> 'h \<Rightarrow> ((go_error + unit) \<times> 'h) option"
  opAllocateNext :: "'a \<Rightarrow> string \<Rightarrow> 'h \<Rightarrow> ((go_error + AllocationResult) \<times> 'h) option"
  opAllocateNextWithoutSyncUpstream ::
    "'a \<Rightarrow> string \<Rightarrow> 'h \<Rightarrow> ((go_error + AllocationResult) \<times> 'h) option"
  opDump :: "'a \<Rightarrow> 'h \<Rightarrow> (string \<rightharpoonup> string) \<times> string"
  opRestoreFinished :: "'a \<Rightarrow> 'h \<Rightarrow> 'h"

record ('a, 'h) IPAM =
  IPv6Allocator :: "'a option"
  IPv4Allocator :: "'a option"
  owner :: "string \<rightharpoonup> string"
  expirationTimers :: "string \<rightharpoonup> string"
  blacklist :: "string \<rightharpoonup> string"
  heap :: 'h

definition ErrIPv4Disabled :: go_error where
  "ErrIPv4Disabled = PlainError ''IPv4 allocation disabled''"
definition ErrIPv6Disabled :: go_error where
  "ErrIPv6Disabled = PlainError ''IPv6 allocation disabled''"

definition blacklist_Contains :: "('a, 'h) IPAM \<Rightarrow> ip \<Rightarrow> bool" where
  "blacklist_Contains st a = (blacklist st (ip_string a) \<noteq> None)"

definition BlacklistIP :: "ip \<Rightarrow> string \<Rightarrow> ('a, 'h) IPAM \<Rightarrow> ('a, 'h) IPAM" where
  "BlacklistIP a own st = st\<lparr>blacklist := (blacklist st)(ip_string a \<mapsto> own)\<rparr>"

definition ipam_RestoreFinished :: "('a, 'h) Allocator \<Rightarrow> ('a, 'h) IPAM \<Rightarrow> ('a, 'h) IPAM" where
  "ipam_RestoreFinished ops st =
     (let h1 = (case IPv4Allocator st of None \<Rightarrow> heap st | Some a \<Rightarrow> opRestoreFinished ops a (heap st));
          h2 = (case IPv6Allocator st of None \<Rightarrow> h1 | Some a \<Rightarrow> opRestoreFinished ops a h1)
      in st\<lparr>heap := h2\<rparr>)"

text \<open>\<open>ks\<close> is the order of the owner map.\<close>

definition lookupIPsByOwner :: "string list \<Rightarrow> string \<Rightarrow> ('a, 'h) IPAM \<Rightarrow> ip list" where
  "lookupIPsByOwner ks own st =
     List.map_filter (\<lambda>s. if owner st s = Some own then ParseIP s else None) ks"

section \<open>Allocation\<close>

text \<open>The allocator of a family, for both allocations and releases.\<close>

definition family_allocator :: "ip \<Rightarrow> ('a, 'h) IPAM \<Rightarrow> go_error + 'a" where
  "family_allocator a st =
     (if to4 a \<noteq> None
      then (case IPv4Allocator st of None \<Rightarrow> Inl ErrIPv4Disabled | Some x \<Rightarrow> Inr x)
      else (case IPv6Allocator st of None \<Rightarrow> Inl ErrIPv6Disabled | Some x \<Rightarrow> Inr x))"

text \<open>The result is a pointer: the IPv6 branch drops the allocator's result and returns nil
  with a nil error.\<close>

definition allocateIP ::
    "('a, 'h) Allocator \<Rightarrow> ip \<Rightarrow> string \<Rightarrow> bool \<Rightarrow> ('a, 'h) IPAM
     \<Rightarrow> ((go_error + AllocationResult option) \<times> ('a, 'h) IPAM) option" where
  "allocateIP ops a own needSyncUpstream st =
     (if blacklist_Contains st a then Some (Inl (PlainError ''IP is blacklisted''), st)
      else case family_allocator a st of
        Inl e \<Rightarrow> Some (Inl e, st)
      | Inr x \<Rightarrow>
          (case (if needSyncUpstream then opAllocate ops x a own (heap st)
                 else opAllocateWithoutSyncUpstream ops x a own (heap st)) of
             None \<Rightarrow> None
           | Some (Inl e, h) \<Rightarrow> Some (Inl e, st\<lparr>heap := h\<rparr>)
           | Some (Inr res, h) \<Rightarrow>
               Some (Inr (if to4 a \<noteq> None then Some res else None),
                     st\<lparr>heap := h, owner := (owner st)(ip_string a \<mapsto> own)\<rparr>)))"

definition AllocateIP ::
    "('a, 'h) Allocator \<Rightarrow> ip \<Rightarrow> string \<Rightarrow> ('a, 'h) IPAM \<Rightarrow> (go_error option \<times> ('a, 'h) IPAM) option" where
  "AllocateIP ops a own st =
     map_option (\<lambda>(r, st'). (case r of Inl e \<Rightarrow> Some e | Inr _ \<Rightarrow> None, st')) (allocateIP ops a own True st)"

definition AllocateIPString ::
    "('a, 'h) Allocator \<Rightarrow> string \<Rightarrow> string \<Rightarrow> ('a, 'h) IPAM \<Rightarrow> (go_error option \<times> ('a, 'h) IPAM) option" where
  "AllocateIPString ops s own st =
     (case ParseIP s of
        None \<Rightarrow> Some (Some (PlainError ''Invalid IP address''), st)
      | Some a \<Rightarrow> AllocateIP ops a own st)"

text \<open>The endless loop of \<open>allocateNextFamily\<close>: a blacklisted address stays allocated, under an
  owner of its own, and the next one is tried.\<close>

definition blacklisted_owner :: "string \<Rightarrow> string" where
  "blacklisted_owner own = own @ '' (blacklisted)''"

partial_function (option) allocateNextLoop ::
    "('a, 'h) Allocator \<Rightarrow> 'a \<Rightarrow> string \<Rightarrow> bool \<Rightarrow> ('a, 'h) IPAM
     \<Rightarrow> ((go_error + AllocationResult) \<times> ('a, 'h) IPAM) option" where
  "allocateNextLoop ops x own needSyncUpstream st =
     (case (if needSyncUpstream then opAllocateNext ops x own (heap st)
            else opAllocateNextWithoutSyncUpstream ops x own (heap st)) of
        None \<Rightarrow> None
      | Some (r, h) \<Rightarrow>
          (case r of
             Inl e \<Rightarrow> Some (Inl e, st\<lparr>heap := h\<rparr>)
           | Inr res \<Rightarrow>
               if \<not> blacklist_Contains st (ResultIP res)
               then Some (Inr res, st\<lparr>heap := h, owner := (owner st)(ip_string (ResultIP res) \<mapsto> own)\<rparr>)
               else allocateNextLoop ops x own needSyncUpstream
                      (st\<lparr>heap := h, owner := (owner st)(ip_string (ResultIP res) \<mapsto> blacklisted_owner own)\<rparr>)))"

definition allocateNextFamily ::
    "('a, 'h) Allocator \<Rightarrow> Family \<Rightarrow> string \<Rightarrow> bool \<Rightarrow> ('a, 'h) IPAM
     \<Rightarrow> ((go_error + AllocationResult) \<times> ('a, 'h) IPAM) option" where
  "allocateNextFamily ops fam own needSyncUpstream st =
     (if fam \<noteq> IPv6 \<and> fam \<noteq> IPv4
      then Some (Inl (PlainError ''unknown address family requested''), st)
      else case (if fam = IPv6 then IPv6Allocator st else IPv4Allocator st) of
        None \<Rightarrow> Some (Inl (PlainError ''allocator not available''), st)
      | Some x \<Rightarrow> allocateNextLoop ops x own needSyncUpstream st)"

section \<open>Release\<close>

definition releaseIPLocked ::
    "('a, 'h) Allocator \<Rightarrow> ip \<Rightarrow> ('a, 'h) IPAM \<Rightarrow> (go_error option \<times> ('a, 'h) IPAM) option" where
  "releaseIPLocked ops a st =
     (case family_allocator a st of
        Inl e \<Rightarrow> Some (Some e, st)
      | Inr x \<Rightarrow>
          (case opRelease ops x a (heap st) of
             None \<Rightarrow> None
           | Some (Inl e, h) \<Rightarrow> Some (Some e, st\<lparr>heap := h\<rparr>)
           | Some (Inr _, h) \<Rightarrow>
               Some (None, st\<lparr>heap := h, owner := (owner st)(ip_string a := None),
                              expirationTimers := (expirationTimers st)(ip_string a := None)\<rparr>)))"

fun releaseAll ::
    "('a, 'h) Allocator \<Rightarrow> ip list \<Rightarrow> go_error option \<Rightarrow> ('a, 'h) IPAM
     \<Rightarrow> (go_error option \<times> ('a, 'h) IPAM) option" where
  "releaseAll ops [] err st = Some (err, st)"
| "releaseAll ops (a # as) err st =
     (case releaseIPLocked ops a st of
        None \<Rightarrow> None
      | Some (None, st') \<Rightarrow> releaseAll ops as err st'
      | Some (Some e, st') \<Rightarrow> releaseAll ops as (Some e) st')"

definition ReleaseIPString ::
    "('a, 'h) Allocator \<Rightarrow> string list \<Rightarrow> string \<Rightarrow> ('a, 'h) IPAM
     \<Rightarrow> (go_error option \<times> ('a, 'h) IPAM) option" where
  "ReleaseIPString ops ks arg st =
     (case ParseIP arg of
        Some a \<Rightarrow> releaseAll ops [a] None st
      | None \<Rightarrow>
          (if lookupIPsByOwner ks arg st = []
           then Some (Some (PlainError ''Invalid IP address or owner name''), st)
           else releaseAll ops (lookupIPsByOwner ks arg st) None st))"

definition ReleaseIPWithOwner ::
    "('a, 'h) Allocator \<Rightarrow> string \<Rightarrow> string \<Rightarrow> ('a, 'h) IPAM
     \<Rightarrow> (go_error option \<times> ('a, 'h) IPAM) option" where
  "ReleaseIPWithOwner ops ipStr own st =
     (case ParseIP ipStr of
        None \<Rightarrow> Some (Some (PlainError ''invalid IP address''), st)
      | Some a \<Rightarrow>
          (case owner st (ip_string a) of
             None \<Rightarrow> Some (Some (PlainError ''IP is not allocated''), st)
           | Some stored \<Rightarrow>
               if stored \<noteq> own then Some (Some (PlainError ''IP owner mismatch''), st)
               else releaseIPLocked ops a st))"

section \<open>Both families\<close>

text \<open>(IPv4 result, IPv6 result, error). The error of the release in the failure path is dropped,
  as in the code.\<close>

definition AllocateNext4 ::
    "('a, 'h) Allocator \<Rightarrow> string \<Rightarrow> string \<Rightarrow> AllocationResult option \<Rightarrow> ('a, 'h) IPAM
     \<Rightarrow> ((AllocationResult option \<times> AllocationResult option \<times> go_error option) \<times> ('a, 'h) IPAM) option" where
  "AllocateNext4 ops fam own v6 st =
     (if (fam = IPv4 \<or> fam = []) \<and> IPv4Allocator st \<noteq> None
      then (case allocateNextFamily ops IPv4 own True st of
              None \<Rightarrow> None
            | Some (Inr x, st2) \<Rightarrow> Some ((Some x, v6, None), st2)
            | Some (Inl e, st2) \<Rightarrow>
                (case v6 of
                   None \<Rightarrow> Some ((None, None, Some e), st2)
                 | Some x6 \<Rightarrow>
                     (case releaseIPLocked ops (ResultIP x6) st2 of
                        None \<Rightarrow> None
                      | Some (_, st3) \<Rightarrow> Some ((None, Some x6, Some e), st3))))
      else Some ((None, v6, None), st))"

definition AllocateNext ::
    "('a, 'h) Allocator \<Rightarrow> string \<Rightarrow> string \<Rightarrow> ('a, 'h) IPAM
     \<Rightarrow> ((AllocationResult option \<times> AllocationResult option \<times> go_error option) \<times> ('a, 'h) IPAM) option" where
  "AllocateNext ops fam own st =
     (if (fam = IPv6 \<or> fam = []) \<and> IPv6Allocator st \<noteq> None
      then (case allocateNextFamily ops IPv6 own True st of
              None \<Rightarrow> None
            | Some (Inl e, st1) \<Rightarrow> Some ((None, None, Some e), st1)
            | Some (Inr x6, st1) \<Rightarrow> AllocateNext4 ops fam own (Some x6) st1)
      else AllocateNext4 ops fam own None st)"

section \<open>Expiration timers\<close>

text \<open>\<open>uuid\<close> is the fresh UUID. The goroutine sleeps for the timeout and then runs
  \<open>timerFires\<close>.\<close>

definition StartExpirationTimer ::
    "ip \<Rightarrow> string \<Rightarrow> ('a, 'h) IPAM \<Rightarrow> (go_error + string) \<times> ('a, 'h) IPAM" where
  "StartExpirationTimer a uuid st =
     (if expirationTimers st (ip_string a) \<noteq> None
      then (Inl (PlainError ''expiration timer already registered''), st)
      else (Inr uuid, st\<lparr>expirationTimers := (expirationTimers st)(ip_string a \<mapsto> uuid)\<rparr>))"

definition timerFires ::
    "('a, 'h) Allocator \<Rightarrow> ip \<Rightarrow> string \<Rightarrow> ('a, 'h) IPAM \<Rightarrow> ('a, 'h) IPAM option" where
  "timerFires ops a uuid st =
     (if expirationTimers st (ip_string a) = Some uuid
      then map_option snd (releaseIPLocked ops a st)
      else Some st)"

definition StopExpirationTimer ::
    "ip \<Rightarrow> string \<Rightarrow> ('a, 'h) IPAM \<Rightarrow> go_error option \<times> ('a, 'h) IPAM" where
  "StopExpirationTimer a uuid st =
     (case expirationTimers st (ip_string a) of
        None \<Rightarrow> (Some (PlainError ''no expiration timer registered''), st)
      | Some u \<Rightarrow>
          if u \<noteq> uuid then (Some (PlainError ''UUID mismatch, not stopping expiration timer''), st)
          else (None, st\<lparr>expirationTimers := (expirationTimers st)(ip_string a := None)\<rparr>))"

text \<open>The loop of \<open>AllocateNextWithExpiration\<close> over the two results, with a fresh UUID each; on
  an error both addresses are released.\<close>

fun startTimers ::
    "(AllocationResult option \<times> string) list \<Rightarrow> ('a, 'h) IPAM
     \<Rightarrow> (go_error + AllocationResult option list) \<times> ('a, 'h) IPAM" where
  "startTimers [] st = (Inr [], st)"
| "startTimers ((None, u) # rs) st =
     (case startTimers rs st of
        (Inl e, st') \<Rightarrow> (Inl e, st') | (Inr xs, st') \<Rightarrow> (Inr (None # xs), st'))"
| "startTimers ((Some r, u) # rs) st =
     (case StartExpirationTimer (ResultIP r) u st of
        (Inl e, st') \<Rightarrow> (Inl e, st')
      | (Inr v, st') \<Rightarrow>
          (case startTimers rs st' of
             (Inl e, st'') \<Rightarrow> (Inl e, st'')
           | (Inr xs, st'') \<Rightarrow> (Inr (Some (r\<lparr>ExpirationUUID := v\<rparr>) # xs), st'')))"

definition release_opt ::
    "('a, 'h) Allocator \<Rightarrow> AllocationResult option \<Rightarrow> ('a, 'h) IPAM \<Rightarrow> ('a, 'h) IPAM option" where
  "release_opt ops r st =
     (case r of None \<Rightarrow> Some st | Some x \<Rightarrow> map_option snd (releaseIPLocked ops (ResultIP x) st))"

definition AllocateNextWithExpiration ::
    "('a, 'h) Allocator \<Rightarrow> string \<Rightarrow> string \<Rightarrow> nat \<Rightarrow> string \<Rightarrow> string \<Rightarrow> ('a, 'h) IPAM
     \<Rightarrow> ((AllocationResult option \<times> AllocationResult option \<times> go_error option) \<times> ('a, 'h) IPAM) option" where
  "AllocateNextWithExpiration ops fam own timeout uuid4 uuid6 st =
     (case AllocateNext ops fam own st of
        None \<Rightarrow> None
      | Some ((v4, v6, Some e), st1) \<Rightarrow> Some ((None, None, Some e), st1)
      | Some ((v4, v6, None), st1) \<Rightarrow>
          if timeout = 0 then Some ((v4, v6, None), st1)
          else (case startTimers [(v4, uuid4), (v6, uuid6)] st1 of
                  (Inr rs, st2) \<Rightarrow> Some ((rs ! 0, rs ! 1, None), st2)
                | (Inl e, st2) \<Rightarrow>
                    (case release_opt ops v4 st2 of
                       None \<Rightarrow> None
                     | Some st3 \<Rightarrow>
                         map_option (\<lambda>st4. ((v4, v6, Some e), st4)) (release_opt ops v6 st3))))"

section \<open>Dump\<close>

definition withOwners :: "(string \<rightharpoonup> string) \<Rightarrow> (string \<rightharpoonup> string) \<Rightarrow> (string \<rightharpoonup> string)" where
  "withOwners own m =
     (\<lambda>ip. if m ip = None then None else Some (case own ip of None \<Rightarrow> [] | Some o' \<Rightarrow> o'))"

definition ipam_Dump ::
    "('a, 'h) Allocator \<Rightarrow> ('a, 'h) IPAM \<Rightarrow> (string \<rightharpoonup> string) \<times> (string \<rightharpoonup> string) \<times> string" where
  "ipam_Dump ops st =
     (let d4 = (case IPv4Allocator st of None \<Rightarrow> (Map.empty, [])
                | Some a \<Rightarrow> (let d = opDump ops a (heap st) in
                            (withOwners (owner st) (fst d), ''IPv4: '' @ snd d)));
          d6 = (case IPv6Allocator st of None \<Rightarrow> (Map.empty, [])
                | Some a \<Rightarrow> (let d = opDump ops a (heap st) in
                            (withOwners (owner st) (fst d), ''IPv6: '' @ snd d)));
          status = join '', '' [snd d4, snd d6]
      in (fst d4, fst d6, if status = [] then ''Not running'' else status))"

section \<open>What the IPAM object relies on\<close>

text \<open>A successful allocation of \<open>s\<close> by \<open>a\<close>: it was free and is now allocated, the other
  allocators are untouched, the heap and the handles stay well-formed.\<close>

definition alloc_step ::
    "('h \<Rightarrow> bool) \<Rightarrow> ('a \<Rightarrow> 'h \<Rightarrow> bool) \<Rightarrow> ('a \<Rightarrow> 'h \<Rightarrow> string set) \<Rightarrow> 'a \<Rightarrow> string \<Rightarrow> 'h \<Rightarrow> 'h \<Rightarrow> bool" where
  "alloc_step good live allocd a s h h' \<longleftrightarrow>
     good h' \<and> (\<forall>b. live b h \<longrightarrow> live b h') \<and> s \<notin> allocd a h \<and>
     allocd a h' = insert s (allocd a h) \<and>
     (\<forall>b. live b h \<and> b \<noteq> a \<longrightarrow> allocd b h' = allocd b h)"

definition release_step ::
    "('h \<Rightarrow> bool) \<Rightarrow> ('a \<Rightarrow> 'h \<Rightarrow> bool) \<Rightarrow> ('a \<Rightarrow> 'h \<Rightarrow> string set) \<Rightarrow> 'a \<Rightarrow> string \<Rightarrow> 'h \<Rightarrow> 'h \<Rightarrow> bool" where
  "release_step good live allocd a s h h' \<longleftrightarrow>
     good h' \<and> (\<forall>b. live b h \<longrightarrow> live b h') \<and>
     allocd a h' \<subseteq> allocd a h \<and> allocd a h - {s} \<subseteq> allocd a h' \<and>
     (\<forall>b. live b h \<and> b \<noteq> a \<longrightarrow> allocd b h' = allocd b h)"

definition handle_of :: "('a, 'h) IPAM \<Rightarrow> 'a \<Rightarrow> bool" where
  "handle_of st x \<longleftrightarrow> IPv4Allocator st = Some x \<or> IPv6Allocator st = Some x"

text \<open>The invariant of the IPAM object: its allocators are live and of their family, and every
  address with an owner is allocated.\<close>

definition ipam_inv ::
    "('h \<Rightarrow> bool) \<Rightarrow> ('a \<Rightarrow> 'h \<Rightarrow> bool) \<Rightarrow> ('a \<Rightarrow> 'h \<Rightarrow> string set) \<Rightarrow> ('a \<Rightarrow> Family)
     \<Rightarrow> ('a, 'h) IPAM \<Rightarrow> bool" where
  "ipam_inv good live allocd fam st \<longleftrightarrow>
     good (heap st) \<and>
     (\<forall>x. IPv4Allocator st = Some x \<longrightarrow> live x (heap st) \<and> fam x = IPv4) \<and>
     (\<forall>x. IPv6Allocator st = Some x \<longrightarrow> live x (heap st) \<and> fam x = IPv6) \<and>
     (\<forall>s\<in>dom (owner st). \<exists>x. handle_of st x \<and> s \<in> allocd x (heap st))"

text \<open>How a successful run of one of the operations may change the object: the address \<open>s\<close> was
  free and gets the owner \<open>own\<close>, addresses that had an owner keep it, and any other new
  entry is a blacklisted address.\<close>

definition assigned ::
    "('a \<Rightarrow> 'h \<Rightarrow> string set) \<Rightarrow> 'a \<Rightarrow> string \<Rightarrow> string \<Rightarrow> ('a, 'h) IPAM \<Rightarrow> ('a, 'h) IPAM \<Rightarrow> bool" where
  "assigned allocd x own s st st' \<longleftrightarrow>
     s \<notin> allocd x (heap st) \<and> s \<in> allocd x (heap st') \<and> owner st s = None \<and> owner st' s = Some own \<and>
     blacklist st s = None"

definition ipam_frame :: "string \<Rightarrow> string set \<Rightarrow> ('a, 'h) IPAM \<Rightarrow> ('a, 'h) IPAM \<Rightarrow> bool" where
  "ipam_frame own new st st' \<longleftrightarrow>
     IPv4Allocator st' = IPv4Allocator st \<and> IPv6Allocator st' = IPv6Allocator st \<and>
     blacklist st' = blacklist st \<and> expirationTimers st' = expirationTimers st \<and>
     (\<forall>s\<in>dom (owner st). owner st' s = owner st s) \<and>
     (\<forall>s. owner st s = None \<and> s \<notin> new \<longrightarrow> owner st' s \<in> {None, Some (blacklisted_owner own)})"

lemma ipam_frame_refl [simp]: "ipam_frame own new st st"
  by (simp add: ipam_frame_def)

lemma ipam_frame_heap [simp]: "ipam_frame own new st (st\<lparr>heap := h\<rparr>)"
  by (simp add: ipam_frame_def)

text \<open>What a pair of results means for the owners.\<close>

definition pair_ok ::
    "string \<Rightarrow> ('a, 'h) IPAM \<Rightarrow> AllocationResult option \<Rightarrow> AllocationResult option
     \<Rightarrow> go_error option \<Rightarrow> ('a, 'h) IPAM \<Rightarrow> bool" where
  "pair_ok own st v4 v6 e st' \<longleftrightarrow>
    (\<forall>s\<in>dom (owner st). owner st' s = owner st s) \<and>
    (\<forall>s. owner st s = None \<longrightarrow>
       owner st' s \<in> {None, Some (blacklisted_owner own)} \<or>
       (e = None \<and> owner st' s = Some own \<and>
        (\<exists>r. (v4 = Some r \<or> v6 = Some r) \<and> s = ip_string (ResultIP r)))) \<and>
    (\<forall>r. e = None \<and> (v4 = Some r \<or> v6 = Some r) \<longrightarrow>
       owner st (ip_string (ResultIP r)) = None \<and> owner st' (ip_string (ResultIP r)) = Some own \<and>
       blacklist st (ip_string (ResultIP r)) = None)"

lemma pair_okD:
  assumes "pair_ok own st v4 v6 e st'"
  shows "owner st s = Some o' \<Longrightarrow> owner st' s = Some o'"
    and "owner st s = None \<Longrightarrow> owner st' s = None \<or> owner st' s = Some (blacklisted_owner own) \<or>
       (e = None \<and> owner st' s = Some own \<and>
        (\<exists>r. (v4 = Some r \<or> v6 = Some r) \<and> s = ip_string (ResultIP r)))"
    and "e = None \<Longrightarrow> v4 = Some r \<or> v6 = Some r \<Longrightarrow>
       owner st (ip_string (ResultIP r)) = None \<and> owner st' (ip_string (ResultIP r)) = Some own \<and>
       blacklist st (ip_string (ResultIP r)) = None"
  using assms unfolding pair_ok_def by (force, blast, blast)

lemma ipam_frameD:
  assumes "ipam_frame own new st st'"
  shows "owner st s = Some o' \<Longrightarrow> owner st' s = Some o'"
    and "owner st s = None \<Longrightarrow> s \<notin> new \<Longrightarrow> owner st' s = None \<or> owner st' s = Some (blacklisted_owner own)"
  using assms unfolding ipam_frame_def by (force, blast)

lemma pair_ok_second:
  assumes six: "pair_ok own st None v6 None st1" "blacklist st1 = blacklist st"
    and four: "owner st1 (ip_string (ResultIP x4)) = None" "owner st2 (ip_string (ResultIP x4)) = Some own"
      "blacklist st1 (ip_string (ResultIP x4)) = None"
      "ipam_frame own {ip_string (ResultIP x4)} st1 st2"
  shows "pair_ok own st (Some x4) v6 None st2"
  unfolding pair_ok_def
proof (intro conjI allI ballI impI)
  show "owner st2 s = owner st s" if "s \<in> dom (owner st)" for s
    using that pair_okD(1) [OF six(1)] ipam_frameD(1) [OF four(4)] by force
next
  fix s assume "owner st s = None"
  then show "owner st2 s \<in> {None, Some (blacklisted_owner own)} \<or>
       None = None \<and> owner st2 s = Some own \<and>
        (\<exists>r. (Some x4 = Some r \<or> v6 = Some r) \<and> s = ip_string (ResultIP r))"
    using pair_okD(2) [OF six(1), of s] ipam_frameD [OF four(4), of s] four(2)
    by (cases "s = ip_string (ResultIP x4)") auto
next
  fix r assume r: "None = None \<and> (Some x4 = Some r \<or> v6 = Some r)"
  have x4: "owner st (ip_string (ResultIP x4)) = None"
    using pair_okD(1) [OF six(1)] four(1) by (cases "owner st (ip_string (ResultIP x4))") force+
  note r6 = pair_okD(3) [OF six(1) refl, of r]
  show "owner st (ip_string (ResultIP r)) = None" using r r6 x4 by auto
  show "owner st2 (ip_string (ResultIP r)) = Some own"
    using r r6 four(2) ipam_frameD(1) [OF four(4)] by blast
  show "blacklist st (ip_string (ResultIP r)) = None" using r r6 four(3) six(2) by auto
qed

lemma pair_ok_rollback:
  assumes six: "pair_ok own st None v6 None st1"
    and four: "ipam_frame own {} st1 st2"
    and rel: "owner st3 = (case v6 of None \<Rightarrow> owner st2
                | Some x6 \<Rightarrow> (owner st2)(ip_string (ResultIP x6) := None))"
  shows "pair_ok own st None v6 (Some e) st3"
  unfolding pair_ok_def
proof (intro conjI allI ballI impI)
  fix s assume "s \<in> dom (owner st)"
  then obtain o' where o': "owner st s = Some o'" by auto
  then have "owner st2 s = Some o'"
    using pair_okD(1) [OF six] ipam_frameD(1) [OF four] by blast
  moreover have "s \<noteq> ip_string (ResultIP x6)" if "v6 = Some x6" for x6
    using pair_okD(3) [OF six refl, of x6] that o' by auto
  ultimately show "owner st3 s = owner st s" using rel o' by (auto split: option.splits)
next
  fix s assume "owner st s = None"
  then have "owner st2 s = None \<or> owner st2 s = Some (blacklisted_owner own) \<or>
      (\<exists>r. v6 = Some r \<and> s = ip_string (ResultIP r))"
    using pair_okD(2) [OF six, of s] ipam_frameD [OF four, of s] by auto
  then show "owner st3 s \<in> {None, Some (blacklisted_owner own)} \<or>
       Some e = None \<and> owner st3 s = Some own \<and>
        (\<exists>r. (None = Some r \<or> v6 = Some r) \<and> s = ip_string (ResultIP r))"
    using rel by (auto split: option.splits)
qed simp_all

locale allocator =
  fixes ops :: "('a, 'h) Allocator"
    and good :: "'h \<Rightarrow> bool"
    and live :: "'a \<Rightarrow> 'h \<Rightarrow> bool"
    and allocd :: "'a \<Rightarrow> 'h \<Rightarrow> string set"
    and room :: "'a \<Rightarrow> 'h \<Rightarrow> nat"
    and fam :: "'a \<Rightarrow> Family"
  assumes alloc_law: "f = opAllocate ops \<or> f = opAllocateWithoutSyncUpstream ops \<Longrightarrow>
        good h \<Longrightarrow> live a h \<Longrightarrow> DeriveFamily x = fam a \<Longrightarrow>
        (\<exists>e. f a x own h = Some (Inl e, h)) \<or>
        (\<exists>r h'. f a x own h = Some (Inr r, h') \<and> alloc_step good live allocd a (ip_string x) h h')"
    and next_law: "g = opAllocateNext ops \<or> g = opAllocateNextWithoutSyncUpstream ops \<Longrightarrow>
        good h \<Longrightarrow> live a h \<Longrightarrow>
        (\<exists>e. g a own h = Some (Inl e, h)) \<or>
        (\<exists>r h'. g a own h = Some (Inr r, h') \<and>
           alloc_step good live allocd a (ip_string (ResultIP r)) h h' \<and>
           DeriveFamily (ResultIP r) = fam a \<and> room a h' < room a h)"
    and release_law: "good h \<Longrightarrow> live a h \<Longrightarrow> DeriveFamily x = fam a \<Longrightarrow>
        (\<exists>e. opRelease ops a x h = Some (Inl e, h) \<and> ip_string x \<notin> allocd a h) \<or>
        (\<exists>h'. opRelease ops a x h = Some (Inr (), h') \<and>
           release_step good live allocd a (ip_string x) h h')"
    and family_law: "good h \<Longrightarrow> live a h \<Longrightarrow> s \<in> allocd a h \<Longrightarrow>
        \<exists>x. s = ip_string x \<and> DeriveFamily x = fam a"
begin

abbreviation inv :: "('a, 'h) IPAM \<Rightarrow> bool" where
  "inv \<equiv> ipam_inv good live allocd fam"

lemma family_allocator_live:
  assumes "inv st" "family_allocator x st = Inr a"
  shows "live a (heap st)" "DeriveFamily x = fam a" "handle_of st a" "good (heap st)"
  using assms by (auto simp: family_allocator_def ipam_inv_def DeriveFamily_def handle_of_def
      split: if_splits option.splits)

text \<open>An address of the family of \<open>a\<close> that \<open>a\<close> has not allocated has no owner.\<close>

lemma free_no_owner:
  assumes "inv st" "handle_of st a" "DeriveFamily x = fam a" "ip_string x \<notin> allocd a (heap st)"
  shows "owner st (ip_string x) = None"
proof (rule ccontr)
  assume "owner st (ip_string x) \<noteq> None"
  then have "ip_string x \<in> dom (owner st)" by auto
  then obtain b where b: "handle_of st b" "ip_string x \<in> allocd b (heap st)"
    using assms(1) unfolding ipam_inv_def by blast
  have live: "good (heap st)" "live b (heap st)"
    using assms(1) b(1) by (auto simp: ipam_inv_def handle_of_def)
  obtain y where "ip_string x = ip_string y" "DeriveFamily y = fam b"
    using family_law [OF live b(2)] by auto
  then have "fam b = fam a"
    using assms(3) ip_string_eq_family [of x y] by (auto simp: DeriveFamily_def split: if_splits)
  then have "a = b" using assms(1,2) b(1) by (auto simp: ipam_inv_def handle_of_def)
  then show False using b(2) assms(4) by simp
qed

text \<open>Recording an allocation keeps the invariant.\<close>

lemma inv_assign:
  assumes "inv st" "handle_of st a" "alloc_step good live allocd a s (heap st) h"
  shows "inv (st\<lparr>heap := h, owner := (owner st)(s \<mapsto> own)\<rparr>)"
proof -
  have live: "live x (heap st)" if "handle_of st x" for x
    using that assms(1) by (auto simp: ipam_inv_def handle_of_def)
  have grow: "allocd x (heap st) \<subseteq> allocd x h" if "handle_of st x" for x
    using assms(3) live [OF that] by (cases "x = a") (auto simp: alloc_step_def)
  have "\<exists>x. handle_of st x \<and> t \<in> allocd x h" if "t \<in> insert s (dom (owner st))" for t
  proof (cases "t = s")
    case True
    then show ?thesis using assms(2,3) by (auto simp: alloc_step_def)
  next
    case False
    then show ?thesis using that assms(1) grow by (fastforce simp: ipam_inv_def)
  qed
  then show ?thesis using assms(1,3)
    by (auto simp: ipam_inv_def alloc_step_def handle_of_def)
qed

lemma allocateIP_correct:
  assumes "inv st"
  shows "\<exists>r st'. allocateIP ops x own sync st = Some (r, st') \<and> inv st' \<and>
    (case r of
       Inl e \<Rightarrow> st' = st
     | Inr res \<Rightarrow> \<exists>a. family_allocator x st = Inr a \<and> assigned allocd a own (ip_string x) st st' \<and>
         ipam_frame own {ip_string x} st st')"
proof (cases "blacklist_Contains st x")
  case True
  then show ?thesis using assms by (simp add: allocateIP_def)
next
  case nb: False
  show ?thesis
  proof (cases "family_allocator x st")
    case (Inl e)
    then show ?thesis using assms nb by (simp add: allocateIP_def)
  next
    case (Inr a)
    note fa = family_allocator_live [OF assms Inr]
    define f where "f = (if sync then opAllocate ops else opAllocateWithoutSyncUpstream ops)"
    have run: "(if sync then opAllocate ops a x own (heap st)
        else opAllocateWithoutSyncUpstream ops a x own (heap st)) = f a x own (heap st)"
      by (simp add: f_def)
    have "f = opAllocate ops \<or> f = opAllocateWithoutSyncUpstream ops" by (simp add: f_def)
    from alloc_law [OF this fa(4,1,2), of own]
    consider e where "f a x own (heap st) = Some (Inl e, heap st)"
      | r h' where "f a x own (heap st) = Some (Inr r, h')"
          "alloc_step good live allocd a (ip_string x) (heap st) h'" by blast
    then show ?thesis
    proof cases
      case 1
      then show ?thesis using assms nb Inr run by (simp add: allocateIP_def)
    next
      case 2
      let ?st = "st\<lparr>heap := h', owner := (owner st)(ip_string x \<mapsto> own)\<rparr>"
      have "inv ?st" by (rule inv_assign [OF assms fa(3) 2(2)])
      moreover have "assigned allocd a own (ip_string x) st ?st"
        using 2(2) nb free_no_owner [OF assms fa(3,2)]
        by (simp add: assigned_def alloc_step_def blacklist_Contains_def)
      moreover have "ipam_frame own {ip_string x} st ?st"
        using calculation(2) by (auto simp: ipam_frame_def assigned_def)
      ultimately show ?thesis using nb Inr run 2(1) by (auto simp: allocateIP_def)
    qed
  qed
qed

text \<open>The loop over blacklisted addresses ends, because every round takes a free address.\<close>

lemma allocateNextLoop_correct:
  assumes "inv st" "handle_of st a"
  shows "\<exists>r st'. allocateNextLoop ops a own sync st = Some (r, st') \<and> inv st' \<and>
    (case r of
       Inl e \<Rightarrow> ipam_frame own {} st st'
     | Inr res \<Rightarrow> assigned allocd a own (ip_string (ResultIP res)) st st' \<and>
         DeriveFamily (ResultIP res) = fam a \<and>
         ipam_frame own {ip_string (ResultIP res)} st st')"
  using assms
proof (induction "room a (heap st)" arbitrary: st rule: less_induct)
  case less
  define g where
    "g = (if sync then opAllocateNext ops else opAllocateNextWithoutSyncUpstream ops)"
  have run: "(if sync then opAllocateNext ops a own (heap st)
      else opAllocateNextWithoutSyncUpstream ops a own (heap st)) = g a own (heap st)"
    by (simp add: g_def)
  have live: "good (heap st)" "live a (heap st)"
    using less.prems by (auto simp: ipam_inv_def handle_of_def)
  have "g = opAllocateNext ops \<or> g = opAllocateNextWithoutSyncUpstream ops" by (simp add: g_def)
  from next_law [OF this live, of own]
  consider e where "g a own (heap st) = Some (Inl e, heap st)"
    | r h' where "g a own (heap st) = Some (Inr r, h')"
        "alloc_step good live allocd a (ip_string (ResultIP r)) (heap st) h'"
        "DeriveFamily (ResultIP r) = fam a" "room a h' < room a (heap st)" by blast
  then show ?case
  proof cases
    case 1
    then show ?thesis using less.prems run
      by (intro exI [of _ "Inl e"] exI [of _ st])
         (simp add: allocateNextLoop.simps [of _ _ _ _ st])
  next
    case 2
    let ?s = "ip_string (ResultIP r)"
    have free: "?s \<notin> allocd a (heap st)" using 2(2) by (simp add: alloc_step_def)
    have noown: "owner st ?s = None" using free_no_owner [OF less.prems(1,2) 2(3) free] .
    show ?thesis
    proof (cases "blacklist_Contains st (ResultIP r)")
      case False
      let ?st = "st\<lparr>heap := h', owner := (owner st)(?s \<mapsto> own)\<rparr>"
      have "inv ?st" by (rule inv_assign [OF less.prems 2(2)])
      moreover have "assigned allocd a own ?s st ?st"
        using 2(2) False noown by (simp add: assigned_def alloc_step_def blacklist_Contains_def)
      moreover have "ipam_frame own {?s} st ?st" using noown by (auto simp: ipam_frame_def)
      ultimately show ?thesis using run 2(1,3) False
        by (simp add: allocateNextLoop.simps [of _ _ _ _ st])
    next
      case True
      let ?st = "st\<lparr>heap := h', owner := (owner st)(?s \<mapsto> blacklisted_owner own)\<rparr>"
      have inv': "inv ?st" by (rule inv_assign [OF less.prems 2(2)])
      have h': "handle_of ?st a" using less.prems(2) by (simp add: handle_of_def)
      have loop: "allocateNextLoop ops a own sync st = allocateNextLoop ops a own sync ?st"
        using run 2(1) True by (simp add: allocateNextLoop.simps [of _ _ _ _ st])
      have grow: "allocd a (heap st) \<subseteq> allocd a (heap ?st)"
        using 2(2) by (auto simp: alloc_step_def)
      have fr: "ipam_frame own new st st'" if "ipam_frame own new ?st st'" for new st'
        using that noown
        by (auto simp: ipam_frame_def split: if_splits) (metis option.distinct(1))+
      have as: "assigned allocd a own s st st'" if "assigned allocd a own s ?st st'" for s st'
        using that grow by (auto simp: assigned_def split: if_splits)
      from less.hyps [OF _ inv' h'] 2(4)
      obtain r' st' where ih: "allocateNextLoop ops a own sync ?st = Some (r', st')" "inv st'"
        "case r' of
           Inl e \<Rightarrow> ipam_frame own {} ?st st'
         | Inr res \<Rightarrow> assigned allocd a own (ip_string (ResultIP res)) ?st st' \<and>
             DeriveFamily (ResultIP res) = fam a \<and>
             ipam_frame own {ip_string (ResultIP res)} ?st st'" by auto
      show ?thesis
        using ih loop as fr by (intro exI [of _ r'] exI [of _ st']) (auto split: sum.splits)
    qed
  qed
qed

lemma allocateNextFamily_correct:
  assumes "inv st"
  shows "\<exists>r st'. allocateNextFamily ops f own sync st = Some (r, st') \<and> inv st' \<and>
    (case r of
       Inl e \<Rightarrow> ipam_frame own {} st st'
     | Inr res \<Rightarrow> \<exists>a. handle_of st a \<and> fam a = f \<and> DeriveFamily (ResultIP res) = f \<and>
         assigned allocd a own (ip_string (ResultIP res)) st st' \<and>
         ipam_frame own {ip_string (ResultIP res)} st st')"
proof (cases "(f = IPv6 \<or> f = IPv4) \<and> (if f = IPv6 then IPv6Allocator st else IPv4Allocator st) \<noteq> None")
  case False
  then show ?thesis using assms by (auto simp: allocateNextFamily_def split: option.splits)
next
  case True
  then obtain a where a: "(if f = IPv6 then IPv6Allocator st else IPv4Allocator st) = Some a"
      "handle_of st a" "fam a = f"
    using assms by (auto simp: handle_of_def ipam_inv_def split: if_splits)
  have "allocateNextFamily ops f own sync st = allocateNextLoop ops a own sync st"
    using True a(1) by (auto simp: allocateNextFamily_def)
  moreover obtain r st' where r: "allocateNextLoop ops a own sync st = Some (r, st')" "inv st'"
      "case r of
         Inl e \<Rightarrow> ipam_frame own {} st st'
       | Inr res \<Rightarrow> assigned allocd a own (ip_string (ResultIP res)) st st' \<and>
           DeriveFamily (ResultIP res) = fam a \<and>
           ipam_frame own {ip_string (ResultIP res)} st st'"
    using allocateNextLoop_correct [OF assms a(2), of own sync] by blast
  ultimately show ?thesis
    using a(2,3) by (intro exI [of _ r] exI [of _ st']) (auto split: sum.splits)
qed

lemma releaseIPLocked_correct:
  assumes "inv st"
  shows "\<exists>e st'. releaseIPLocked ops x st = Some (e, st') \<and> inv st' \<and>
    (case e of
       Some _ \<Rightarrow> st' = st \<and> owner st (ip_string x) = None
     | None \<Rightarrow> owner st' = (owner st)(ip_string x := None) \<and>
         expirationTimers st' = (expirationTimers st)(ip_string x := None) \<and>
         blacklist st' = blacklist st \<and>
         IPv4Allocator st' = IPv4Allocator st \<and> IPv6Allocator st' = IPv6Allocator st)"
proof (cases "family_allocator x st")
  case (Inl e)
  have "owner st (ip_string x) = None"
  proof (rule ccontr)
    assume "owner st (ip_string x) \<noteq> None"
    then have "ip_string x \<in> dom (owner st)" by auto
    then obtain b where b: "handle_of st b" "ip_string x \<in> allocd b (heap st)"
      using assms(1) unfolding ipam_inv_def by blast
    have "good (heap st)" "live b (heap st)"
      using assms(1) b(1) by (auto simp: ipam_inv_def handle_of_def)
    then obtain y where y: "ip_string x = ip_string y" "DeriveFamily y = fam b"
      using family_law b(2) by blast
    then show False
      using Inl assms b(1) ip_string_eq_family [OF y(1)]
      by (auto simp: family_allocator_def DeriveFamily_def handle_of_def ipam_inv_def
          split: if_splits option.splits)
  qed
  then show ?thesis using Inl assms by (simp add: releaseIPLocked_def)
next
  case (Inr a)
  note fa = family_allocator_live [OF assms Inr]
  from release_law [OF fa(4,1,2)]
  consider e where "opRelease ops a x (heap st) = Some (Inl e, heap st)"
      "ip_string x \<notin> allocd a (heap st)"
    | h' where "opRelease ops a x (heap st) = Some (Inr (), h')"
        "release_step good live allocd a (ip_string x) (heap st) h'" by blast
  then show ?thesis
  proof cases
    case 1
    then show ?thesis using Inr assms free_no_owner [OF assms fa(3,2)]
      by (simp add: releaseIPLocked_def)
  next
    case 2
    let ?st = "st\<lparr>heap := h', owner := (owner st)(ip_string x := None),
      expirationTimers := (expirationTimers st)(ip_string x := None)\<rparr>"
    have live: "live b (heap st)" if "handle_of st b" for b
      using that assms by (auto simp: ipam_inv_def handle_of_def)
    have keep: "t \<in> allocd b h'" if "handle_of st b" "t \<in> allocd b (heap st)" "t \<noteq> ip_string x" for b t
      using 2(2) that live by (cases "b = a") (auto simp: release_step_def)
    have "\<exists>b. handle_of st b \<and> t \<in> allocd b h'" if "t \<in> dom (owner st) - {ip_string x}" for t
      using that assms keep unfolding ipam_inv_def by blast
    then have "inv ?st" using assms 2(2)
      by (auto simp: ipam_inv_def release_step_def handle_of_def)
    then show ?thesis using 2(1) Inr by (simp add: releaseIPLocked_def)
  qed
qed

text \<open>One allocation of the pair, as the caller sees it.\<close>

lemma allocateNextFamily_cases [case_names err ok]:
  assumes "inv st"
  obtains e st' where "allocateNextFamily ops f own sync st = Some (Inl e, st')" "inv st'"
      "ipam_frame own {} st st'"
  | x st' where "allocateNextFamily ops f own sync st = Some (Inr x, st')" "inv st'"
      "owner st (ip_string (ResultIP x)) = None" "owner st' (ip_string (ResultIP x)) = Some own"
      "blacklist st (ip_string (ResultIP x)) = None"
      "ipam_frame own {ip_string (ResultIP x)} st st'"
proof -
  from allocateNextFamily_correct [OF assms, of f own sync]
  obtain r st' where r: "allocateNextFamily ops f own sync st = Some (r, st')" "inv st'"
    "case r of
       Inl e \<Rightarrow> ipam_frame own {} st st'
     | Inr res \<Rightarrow> \<exists>a. handle_of st a \<and> fam a = f \<and> DeriveFamily (ResultIP res) = f \<and>
         assigned allocd a own (ip_string (ResultIP res)) st st' \<and>
         ipam_frame own {ip_string (ResultIP res)} st st'" by blast
  show thesis
  proof (cases r)
    case (Inl e)
    then show thesis using r that(1) by simp
  next
    case (Inr x)
    then show thesis using r that(2) [of x st'] by (auto simp: assigned_def)
  qed
qed

text \<open>If the second family fails, the first is given back: no address keeps the new owner.\<close>

lemma AllocateNext4_correct:
  assumes "inv st1" and six: "pair_ok own st None v6 None st1" "blacklist st1 = blacklist st"
  shows "\<exists>v4 v6' e st'. AllocateNext4 ops f own v6 st1 = Some ((v4, v6', e), st') \<and> inv st' \<and>
    pair_ok own st v4 v6' e st'"
proof (cases "(f = IPv4 \<or> f = []) \<and> IPv4Allocator st1 \<noteq> None")
  case False
  then have "AllocateNext4 ops f own v6 st1 = Some ((None, v6, None), st1)"
    unfolding AllocateNext4_def by (simp only: if_False)
  then show ?thesis using assms by blast
next
  case a4: True
  have run: "AllocateNext4 ops f own v6 st1 =
      (case allocateNextFamily ops IPv4 own True st1 of
              None \<Rightarrow> None
            | Some (Inr x, st2) \<Rightarrow> Some ((Some x, v6, None), st2)
            | Some (Inl e, st2) \<Rightarrow>
                (case v6 of
                   None \<Rightarrow> Some ((None, None, Some e), st2)
                 | Some x6 \<Rightarrow>
                     (case releaseIPLocked ops (ResultIP x6) st2 of
                        None \<Rightarrow> None
                      | Some (_, st3) \<Rightarrow> Some ((None, Some x6, Some e), st3))))"
    unfolding AllocateNext4_def using a4 by (simp only: if_True simp_thms)
  show ?thesis
    using assms(1)
  proof (cases rule: allocateNextFamily_cases [where f = IPv4 and own = own and sync = True])
    case four: (ok x4 st2)
    have "pair_ok own st (Some x4) v6 None st2"
      by (rule pair_ok_second [OF six four(3-6)])
    then show ?thesis using run four(1,2) by auto
  next
    case four: (err e st2)
    show ?thesis
    proof (cases v6)
      case None
      have "pair_ok own st None v6 (Some e) st2"
        by (rule pair_ok_rollback [OF six(1) four(3)]) (simp add: None)
      then show ?thesis using run four(1,2) None by auto
    next
      case (Some x6)
      have keep: "owner st2 (ip_string (ResultIP x6)) = Some own"
        using six(1) four(3) Some unfolding ipam_frame_def pair_ok_def by (metis domI)
      from releaseIPLocked_correct [OF four(2), of "ResultIP x6"] keep
      obtain st3 where rel: "releaseIPLocked ops (ResultIP x6) st2 = Some (None, st3)" "inv st3"
        "owner st3 = (owner st2)(ip_string (ResultIP x6) := None)"
        by (auto split: option.splits)
      have "pair_ok own st None v6 (Some e) st3"
        by (rule pair_ok_rollback [OF six(1) four(3)]) (simp add: Some rel(3))
      then show ?thesis using run four(1) rel(1,2) Some by auto
    qed
  qed
qed

lemma AllocateNext_correct:
  assumes "inv st"
  shows "\<exists>v4 v6 e st'. AllocateNext ops f own st = Some ((v4, v6, e), st') \<and> inv st' \<and>
    pair_ok own st v4 v6 e st'"
proof (cases "(f = IPv6 \<or> f = []) \<and> IPv6Allocator st \<noteq> None")
  case False
  then have "AllocateNext ops f own st = AllocateNext4 ops f own None st"
    unfolding AllocateNext_def by (simp only: if_False)
  then show ?thesis
    using AllocateNext4_correct [OF assms, of own st None f] by (simp add: pair_ok_def)
next
  case True
  then have run: "AllocateNext ops f own st =
      (case allocateNextFamily ops IPv6 own True st of
              None \<Rightarrow> None
            | Some (Inl e, st1) \<Rightarrow> Some ((None, None, Some e), st1)
            | Some (Inr x6, st1) \<Rightarrow> AllocateNext4 ops f own (Some x6) st1)"
    unfolding AllocateNext_def by (simp only: if_True simp_thms)
  show ?thesis
    using assms
  proof (cases rule: allocateNextFamily_cases [where f = IPv6 and own = own and sync = True])
    case (err e st1)
    then have "pair_ok own st None None (Some e) st1"
      by (simp add: pair_ok_def ipam_frame_def)
    then show ?thesis using run err(1,2) by auto
  next
    case (ok x6 st1)
    have "pair_ok own st None (Some x6) None st1"
      using ok(3-6) by (auto simp: pair_ok_def ipam_frame_def)
    moreover have "blacklist st1 = blacklist st" using ok(6) by (simp add: ipam_frame_def)
    ultimately show ?thesis
      using AllocateNext4_correct [OF ok(2), of own st "Some x6" f] run ok(1) by simp
  qed
qed

end

end
