(* ===== verification/Allocators.thy ===== *)
theory Allocators
  imports IPAMFacade PodCIDRPool AgentHandshake
begin

text \<open>
  The implementations of the interface \<open>Allocator\<close>: \<open>hostscope.go\<close>, the cluster-pool allocator
  of \<open>clusterpool.go\<close>, \<open>crd.go\<close> and \<open>noop_allocator.go\<close>, their dispatch, \<open>NewIPAM\<close> of
  \<open>ipam.go\<close>, the interpretation of the locale \<open>allocator\<close> on them, and the properties of the
  IPAM object that follow.
\<close>

section \<open>Handles and their heap\<close>

text \<open>A handle is the dynamic type of the interface value with what its receiver points to.\<close>

datatype handle = HostScope Family | ClusterPool Family | CRDHandle Family nat | NoOp Family

fun handle_family :: "handle \<Rightarrow> Family" where
  "handle_family (HostScope f) = f"
| "handle_family (ClusterPool f) = f"
| "handle_family (CRDHandle f i) = f"
| "handle_family (NoOp f) = f"

record 'r world =
  wStore :: nodeStore
  wPools :: "Family \<Rightarrow> 'r podCIDRPool"
  wHost :: "Family \<Rightarrow> 'r"
  wHostCIDR :: "Family \<Rightarrow> ipnet"

section \<open>The operations\<close>

definition on_store ::
    "('b \<times> nodeStore) option \<Rightarrow> 'r world \<Rightarrow> ('b \<times> 'r world) option" where
  "on_store x w = map_option (\<lambda>(r, st). (r, w\<lparr>wStore := st\<rparr>)) x"

text \<open>Host scope and cluster pool: both methods of an allocation do the same, up to the trigger of
  the status controller.\<close>

definition host_Allocate ::
    "'r range_ops \<Rightarrow> Family \<Rightarrow> ip \<Rightarrow> 'r world \<Rightarrow> ((go_error + AllocationResult) \<times> 'r world) option" where
  "host_Allocate R f a w =
     (case rAllocate R a (wHost w f) of
        Inl e \<Rightarrow> Some (Inl (PlainError e), w)
      | Inr r \<Rightarrow> Some (Inr (new_result a), w\<lparr>wHost := (wHost w)(f := r)\<rparr>))"

definition host_AllocateNext ::
    "'r range_ops \<Rightarrow> Family \<Rightarrow> 'r world \<Rightarrow> ((go_error + AllocationResult) \<times> 'r world) option" where
  "host_AllocateNext R f w =
     (case rAllocateNext R (wHost w f) of
        Inl e \<Rightarrow> Some (Inl (PlainError e), w)
      | Inr (a, r) \<Rightarrow> Some (Inr (new_result a), w\<lparr>wHost := (wHost w)(f := r)\<rparr>))"

definition host_Release ::
    "'r range_ops \<Rightarrow> Family \<Rightarrow> ip \<Rightarrow> 'r world \<Rightarrow> ((go_error + unit) \<times> 'r world) option" where
  "host_Release R f a w =
     (case rRelease R a (wHost w f) of
        Inl e \<Rightarrow> Some (Inl (PlainError e), w)
      | Inr r \<Rightarrow> Some (Inr (), w\<lparr>wHost := (wHost w)(f := r)\<rparr>))"

text \<open>The set bits of the snapshot as addresses: bit \<open>i\<close> is the address \<open>i + 1\<close> after the base.\<close>

definition host_Dump :: "'r range_ops \<Rightarrow> Family \<Rightarrow> 'r world \<Rightarrow> (string \<rightharpoonup> string) \<times> string" where
  "host_Dump R f w =
     (case rSnapshot R (wHost w f) of
        Inl e \<Rightarrow> (Map.empty, ''Unable to get a snapshot of the allocator'')
      | Inr data \<Rightarrow>
          (let c = wHostCIDR w f;
               origIP = (case to4 (IP c) of Some q \<Rightarrow> ip_val q
                         | None \<Rightarrow> ip_val (case to16 (IP c) of Some q \<Rightarrow> q | None \<Rightarrow> []));
               bits = ip_val data;
               allocs = {ip_string (nat_bytes (origIP + (i + 1))) | i. bit bits i};
               m = (\<lambda>s. if s \<in> allocs then Some [] else None)
           in (m, dec_string (card (dom m)) @ ''/'' @ int_string (CountIPsInCIDR c) @
                  '' allocated from '' @ ipnet_string c)))"

definition cluster_Allocate ::
    "'r range_ops \<Rightarrow> Family \<Rightarrow> ip \<Rightarrow> 'r world \<Rightarrow> ((go_error + AllocationResult) \<times> 'r world) option" where
  "cluster_Allocate R f a w =
     (case pool_allocate R a (wPools w f) of
        Inl e \<Rightarrow> Some (Inl (PlainError e), w)
      | Inr p \<Rightarrow> Some (Inr (new_result a), w\<lparr>wPools := (wPools w)(f := p)\<rparr>))"

definition cluster_AllocateNext ::
    "'r range_ops \<Rightarrow> Family \<Rightarrow> 'r world \<Rightarrow> ((go_error + AllocationResult) \<times> 'r world) option" where
  "cluster_AllocateNext R f w =
     (case pool_allocateNext R (wPools w f) of
        Inl e \<Rightarrow> Some (Inl (PlainError e), w)
      | Inr (a, p) \<Rightarrow> Some (Inr (new_result a), w\<lparr>wPools := (wPools w)(f := p)\<rparr>))"

definition cluster_Release ::
    "'r range_ops \<Rightarrow> Family \<Rightarrow> ip \<Rightarrow> 'r world \<Rightarrow> ((go_error + unit) \<times> 'r world) option" where
  "cluster_Release R f a w =
     (case pool_release R a (wPools w f) of
        Inl e \<Rightarrow> Some (Inl (PlainError e), w)
      | Inr p \<Rightarrow> Some (Inr (), w\<lparr>wPools := (wPools w)(f := p)\<rparr>))"

definition cluster_Dump :: "'r range_ops \<Rightarrow> Family \<Rightarrow> 'r world \<Rightarrow> (string \<rightharpoonup> string) \<times> string" where
  "cluster_Dump R f w =
     (let d = pool_dump R (wPools w f) in
      (ipToOwner d, int_string (usedIPs d) @ ''/'' @ int_string (freeIPs d) @
         '' allocated from '' @ dec_string (numPodCIDRs d) @ '' pod CIDRs''))"

definition errNotSupported :: go_error where
  "errNotSupported = PlainError ''Operation not supported''"

text \<open>The dispatch.\<close>

definition do_allocate ::
    "bool \<Rightarrow> crd_env \<Rightarrow> 'r range_ops \<Rightarrow> handle \<Rightarrow> ip \<Rightarrow> string \<Rightarrow> 'r world
     \<Rightarrow> ((go_error + AllocationResult) \<times> 'r world) option" where
  "do_allocate sync env R hd' a own w =
     (case hd' of
        HostScope f \<Rightarrow> host_Allocate R f a w
      | ClusterPool f \<Rightarrow> cluster_Allocate R f a w
      | CRDHandle f i \<Rightarrow>
          on_store (if sync then crd_Allocate env i a own (wStore w)
                    else crd_AllocateWithoutSyncUpstream env i a own (wStore w)) w
      | NoOp f \<Rightarrow> Some (Inl errNotSupported, w))"

definition do_allocateNext ::
    "bool \<Rightarrow> crd_env \<Rightarrow> 'r range_ops \<Rightarrow> handle \<Rightarrow> string \<Rightarrow> 'r world
     \<Rightarrow> ((go_error + AllocationResult) \<times> 'r world) option" where
  "do_allocateNext sync env R hd' own w =
     (case hd' of
        HostScope f \<Rightarrow> host_AllocateNext R f w
      | ClusterPool f \<Rightarrow> cluster_AllocateNext R f w
      | CRDHandle f i \<Rightarrow>
          on_store (if sync then crd_AllocateNext env i own (wStore w)
                    else crd_AllocateNextWithoutSyncUpstream env i own (wStore w)) w
      | NoOp f \<Rightarrow> Some (Inl errNotSupported, w))"

definition do_release ::
    "'r range_ops \<Rightarrow> handle \<Rightarrow> ip \<Rightarrow> 'r world \<Rightarrow> ((go_error + unit) \<times> 'r world) option" where
  "do_release R hd' a w =
     (case hd' of
        HostScope f \<Rightarrow> host_Release R f a w
      | ClusterPool f \<Rightarrow> cluster_Release R f a w
      | CRDHandle f i \<Rightarrow> on_store (Some (crd_Release i a (wStore w))) w
      | NoOp f \<Rightarrow> Some (Inl errNotSupported, w))"

definition do_dump :: "'r range_ops \<Rightarrow> handle \<Rightarrow> 'r world \<Rightarrow> (string \<rightharpoonup> string) \<times> string" where
  "do_dump R hd' w =
     (case hd' of
        HostScope f \<Rightarrow> host_Dump R f w
      | ClusterPool f \<Rightarrow> cluster_Dump R f w
      | CRDHandle f i \<Rightarrow> crd_Dump i (wStore w)
      | NoOp f \<Rightarrow> (Map.empty, ''delegated to plugin''))"

definition do_restore :: "handle \<Rightarrow> 'r world \<Rightarrow> 'r world" where
  "do_restore hd' w =
     (case hd' of CRDHandle f i \<Rightarrow> w\<lparr>wStore := crd_RestoreFinished (wStore w)\<rparr> | _ \<Rightarrow> w)"

definition world_ops :: "crd_env \<Rightarrow> 'r range_ops \<Rightarrow> (handle, 'r world) Allocator" where
  "world_ops env R =
     \<lparr>opAllocate = do_allocate True env R,
      opAllocateWithoutSyncUpstream = do_allocate False env R,
      opRelease = do_release R,
      opAllocateNext = do_allocateNext True env R,
      opAllocateNextWithoutSyncUpstream = do_allocateNext False env R,
      opDump = do_dump R,
      opRestoreFinished = do_restore\<rparr>"

section \<open>Construction\<close>

text \<open>\<open>v4\<close> and \<open>v6\<close> tell which families are enabled, \<open>alloc\<close> is the allocation CIDR of the node
  for a family (nil is \<open>None\<close>). An unknown mode is fatal, and so is a host-scope CIDR the range
  allocator refuses: \<open>None\<close>.\<close>

definition newHostScope ::
    "'r range_ops \<Rightarrow> Family \<Rightarrow> bool \<Rightarrow> (Family \<Rightarrow> ipnet option) \<Rightarrow> 'r world \<Rightarrow> (handle option \<times> 'r world) option" where
  "newHostScope R f enabled alloc w =
     (if \<not> enabled then Some (None, w)
      else case alloc f of
        None \<Rightarrow> Some (None, w)
      | Some c \<Rightarrow>
          (case rNew R c of
             Inl e \<Rightarrow> None
           | Inr r \<Rightarrow> Some (Some (HostScope f),
                w\<lparr>wHost := (wHost w)(f := r), wHostCIDR := (wHostCIDR w)(f := c)\<rparr>)))"

definition newCRD :: "Family \<Rightarrow> bool \<Rightarrow> 'r world \<Rightarrow> handle option \<times> 'r world" where
  "newCRD f enabled w =
     (if \<not> enabled then (None, w)
      else (Some (CRDHandle f (length (allocators (wStore w)))),
            w\<lparr>wStore := addAllocator f (wStore w)\<rparr>))"

definition newIPAM_state ::
    "handle option \<Rightarrow> handle option \<Rightarrow> 'r world \<Rightarrow> (handle, 'r world) IPAM" where
  "newIPAM_state v6 v4 w =
     \<lparr>IPv6Allocator = v6, IPv4Allocator = v4, owner = Map.empty, expirationTimers = Map.empty,
      blacklist = Map.empty, heap = w\<rparr>"

definition NewIPAM ::
    "'r range_ops \<Rightarrow> ipam_mode \<Rightarrow> bool \<Rightarrow> bool \<Rightarrow> (Family \<Rightarrow> ipnet option) \<Rightarrow> 'r world
     \<Rightarrow> (handle, 'r world) IPAM option" where
  "NewIPAM R mode v4 v6 alloc w =
     (if mode \<in> {IPAMKubernetes, IPAMClusterPool} then
        (case newHostScope R IPv6 v6 alloc w of
           None \<Rightarrow> None
         | Some (h6, w1) \<Rightarrow>
             (case newHostScope R IPv4 v4 alloc w1 of
                None \<Rightarrow> None
              | Some (h4, w2) \<Rightarrow> Some (newIPAM_state h6 h4 w2)))
      else if mode \<in> {IPAMClusterPoolV2, IPAMVpcRoute} then
        Some (newIPAM_state (if v6 then Some (ClusterPool IPv6) else None)
                (if v4 then Some (ClusterPool IPv4) else None) w)
      else if mode \<in> {IPAMCRD, IPAMVpcEni, IPAMRdma, IPAMPrivateCloudBase} then
        (let (h6, w1) = newCRD IPv6 v6 w; (h4, w2) = newCRD IPv4 v4 w1
         in Some (newIPAM_state h6 h4 w2))
      else if mode = IPAMDelegatedPlugin then
        Some (newIPAM_state (if v6 then Some (NoOp IPv6) else None)
                (if v4 then Some (NoOp IPv4) else None) w)
      else None)"

section \<open>The contract\<close>

definition world_good :: "crd_env \<Rightarrow> 'r world \<Rightarrow> bool" where
  "world_good env w \<longleftrightarrow> store_ok env (wStore w)"

definition net_family :: "Family \<Rightarrow> ipnet \<Rightarrow> bool" where
  "net_family f n \<longleftrightarrow> (\<forall>a. net_contains n a \<longrightarrow> DeriveFamily a = f)"

definition handle_live :: "'r range_ops \<Rightarrow> handle \<Rightarrow> 'r world \<Rightarrow> bool" where
  "handle_live R hd' w =
     (case hd' of
        HostScope f \<Rightarrow> range_laws R \<and> range_ok R (wHost w f) \<and> net_family f (rCIDR R (wHost w f))
      | ClusterPool f \<Rightarrow> range_laws R \<and> pool_inv R (wPools w f) \<and>
          (\<forall>r\<in>set (ipAllocators (wPools w f)). net_family f (rCIDR R r))
      | CRDHandle f i \<Rightarrow> allocator_ok f i (wStore w)
      | NoOp f \<Rightarrow> True)"

definition handle_allocd :: "'r range_ops \<Rightarrow> handle \<Rightarrow> 'r world \<Rightarrow> string set" where
  "handle_allocd R hd' w =
     (case hd' of
        HostScope f \<Rightarrow> rIPs R (wHost w f)
      | ClusterPool f \<Rightarrow> pool_ips R (wPools w f)
      | CRDHandle f i \<Rightarrow> crd_allocd i (wStore w)
      | NoOp f \<Rightarrow> {})"

definition pool_room :: "'r range_ops \<Rightarrow> 'r podCIDRPool \<Rightarrow> nat" where
  "pool_room R p = sum_list (map (\<lambda>r. nat (rFree R r)) (ipAllocators p))"

definition handle_room :: "'r range_ops \<Rightarrow> handle \<Rightarrow> 'r world \<Rightarrow> nat" where
  "handle_room R hd' w =
     (case hd' of
        HostScope f \<Rightarrow> nat (rFree R (wHost w f))
      | ClusterPool f \<Rightarrow> pool_room R (wPools w f)
      | CRDHandle f i \<Rightarrow> crd_room i (wStore w)
      | NoOp f \<Rightarrow> 0)"

lemma pool_allocateNext_room:
  assumes "range_laws R" "pool_allocateNext R p = Inr (a, p')"
  shows "pool_room R p' < pool_room R p"
proof -
  from assms(2) obtain rs' where rs': "allocateNextIn R (removed p) (ipAllocators p) = Inr (a, rs')"
      "p' = p\<lparr>ipAllocators := rs'\<rparr>"
    by (auto simp: pool_allocateNext_def split: sum.splits)
  then obtain ys r r' zs where sp: "ipAllocators p = ys @ r # zs" "rs' = ys @ r' # zs"
      "rAllocateNext R r = Inr (a, r')"
    using allocateNextIn_split [OF rs'(1)] by blast
  have "nat (rFree R r') < nat (rFree R r)"
    using range_lawsD(9) [OF assms(1) sp(3)] range_lawsD(6) [OF assms(1), of r'] by linarith
  then show ?thesis using rs'(2) sp(1,2) by (simp add: pool_room_def)
qed

text \<open>A change of one component leaves the handles on the others alone.\<close>

lemma host_update:
  assumes "handle_live R (HostScope f) w" "rCIDR R r = rCIDR R (wHost w f)" "range_ok R r"
  shows "handle_live R b w \<Longrightarrow> handle_live R b (w\<lparr>wHost := (wHost w)(f := r)\<rparr>)"
    and "b \<noteq> HostScope f \<Longrightarrow> handle_allocd R b (w\<lparr>wHost := (wHost w)(f := r)\<rparr>) = handle_allocd R b w"
  using assms by (auto simp: handle_live_def handle_allocd_def split: handle.splits)

lemma pool_update:
  assumes "handle_live R (ClusterPool f) w" "pool_inv R p"
    "\<forall>r\<in>set (ipAllocators p). net_family f (rCIDR R r)"
  shows "handle_live R b w \<Longrightarrow> handle_live R b (w\<lparr>wPools := (wPools w)(f := p)\<rparr>)"
    and "b \<noteq> ClusterPool f \<Longrightarrow> handle_allocd R b (w\<lparr>wPools := (wPools w)(f := p)\<rparr>) = handle_allocd R b w"
  using assms by (auto simp: handle_live_def handle_allocd_def split: handle.splits)

text \<open>The CIDRs of a pool are the same after each of the three loops.\<close>

lemma pool_nets:
  assumes "range_laws R"
  shows "pool_allocate R a p = Inr p' \<Longrightarrow> map (rCIDR R) (ipAllocators p') = map (rCIDR R) (ipAllocators p)"
    and "pool_allocateNext R p = Inr (a, p') \<Longrightarrow>
           map (rCIDR R) (ipAllocators p') = map (rCIDR R) (ipAllocators p)"
    and "pool_release R a p = Inr p' \<Longrightarrow> map (rCIDR R) (ipAllocators p') = map (rCIDR R) (ipAllocators p)"
proof -
  show "pool_allocate R a p = Inr p' \<Longrightarrow> map (rCIDR R) (ipAllocators p') = map (rCIDR R) (ipAllocators p)"
    using range_lawsD(2) [OF assms]
    by (fastforce simp: pool_allocate_def split: sum.splits dest: allocateIn_split)
  show "pool_allocateNext R p = Inr (a, p') \<Longrightarrow>
           map (rCIDR R) (ipAllocators p') = map (rCIDR R) (ipAllocators p)"
    using range_lawsD(3) [OF assms]
    by (fastforce simp: pool_allocateNext_def split: sum.splits dest: allocateNextIn_split)
  show "pool_release R a p = Inr p' \<Longrightarrow> map (rCIDR R) (ipAllocators p') = map (rCIDR R) (ipAllocators p)"
    using range_lawsD(5) [OF assms]
    by (fastforce simp: pool_release_def split: sum.splits dest: releaseIn_split)
qed

lemma nets_set:
  "map (rCIDR R) xs = map (rCIDR R) ys \<Longrightarrow>
   (\<forall>r\<in>set xs. net_family f (rCIDR R r)) \<longleftrightarrow> (\<forall>r\<in>set ys. net_family f (rCIDR R r))"
  by (metis (no_types, lifting) image_iff image_set)

lemma crd_update:
  assumes "recorded i a (wStore w) st" "DeriveFamily a = family (allocators (wStore w) ! i)"
  shows "handle_live R b w \<Longrightarrow> handle_live R b (w\<lparr>wStore := st\<rparr>)"
    and "handle_live R b w \<Longrightarrow> b \<noteq> CRDHandle (family (allocators (wStore w) ! i)) i \<Longrightarrow>
           handle_allocd R b (w\<lparr>wStore := st\<rparr>) = handle_allocd R b w"
proof -
  show "handle_live R b w \<Longrightarrow> handle_live R b (w\<lparr>wStore := st\<rparr>)"
    using recorded_ok(2) [OF assms] by (cases b) (simp_all add: handle_live_def)
  assume b: "handle_live R b w" "b \<noteq> CRDHandle (family (allocators (wStore w) ! i)) i"
  show "handle_allocd R b (w\<lparr>wStore := st\<rparr>) = handle_allocd R b w"
  proof (cases b)
    case (CRDHandle g j)
    then have "j \<noteq> i" using b by (auto simp: handle_live_def allocator_ok_def)
    then show ?thesis using assms(1) CRDHandle by (simp add: handle_allocd_def recorded_def)
  qed (simp_all add: handle_allocd_def)
qed

lemma crd_alloc_step:
  assumes "recorded i a (wStore w) st" "DeriveFamily a = f" "handle_live R (CRDHandle f i) w"
    "world_good env w" "ip_string a \<notin> crd_allocd i (wStore w)"
  shows "alloc_step (world_good env) (handle_live R) (handle_allocd R) (CRDHandle f i) (ip_string a)
           w (w\<lparr>wStore := st\<rparr>)"
proof -
  have fam: "family (allocators (wStore w) ! i) = f"
    using assms(3) by (simp add: handle_live_def allocator_ok_def)
  then have d: "DeriveFamily a = family (allocators (wStore w) ! i)" using assms(2) by simp
  show ?thesis
    using assms(1,4,5) crd_update [OF assms(1) d, of R] recorded_ok(1) [OF assms(1) d] fam
    by (auto simp: alloc_step_def world_good_def handle_allocd_def recorded_def)
qed

lemma do_allocate_law:
  assumes good: "world_good env w" and live: "handle_live R b w" and fam: "DeriveFamily x = handle_family b"
  shows "(\<exists>e. do_allocate sync env R b x own w = Some (Inl e, w)) \<or>
     (\<exists>r w'. do_allocate sync env R b x own w = Some (Inr r, w') \<and>
        alloc_step (world_good env) (handle_live R) (handle_allocd R) b (ip_string x) w w')"
proof (cases b)
  case (HostScope f)
  show ?thesis
  proof (cases "rAllocate R x (wHost w f)")
    case (Inl e)
    then show ?thesis using HostScope by (simp add: do_allocate_def host_Allocate_def)
  next
    case (Inr r)
    have law: "range_laws R" and ok: "range_ok R (wHost w f)" using live HostScope by (auto simp: handle_live_def)
    note l = range_lawsD(2) [OF law Inr]
    have ok': "range_ok R r" using ok l by (auto simp: range_ok_def)
    have "alloc_step (world_good env) (handle_live R) (handle_allocd R) b (ip_string x) w
        (w\<lparr>wHost := (wHost w)(f := r)\<rparr>)"
      using host_update [of R f w r] live l ok' good HostScope
      by (simp add: alloc_step_def world_good_def) (simp add: handle_allocd_def)
    then show ?thesis using Inr HostScope by (simp add: do_allocate_def host_Allocate_def)
  qed
next
  case (ClusterPool f)
  show ?thesis
  proof (cases "pool_allocate R x (wPools w f)")
    case (Inl e)
    then show ?thesis using ClusterPool by (simp add: do_allocate_def cluster_Allocate_def)
  next
    case (Inr p)
    have law: "range_laws R" and inv: "pool_inv R (wPools w f)"
      using live ClusterPool by (auto simp: handle_live_def)
    note eff = pool_allocate_effect [OF law inv Inr]
    have nets: "\<forall>r\<in>set (ipAllocators p). net_family f (rCIDR R r)"
      using nets_set [OF pool_nets(1) [OF law Inr]] live ClusterPool by (simp add: handle_live_def)
    have "alloc_step (world_good env) (handle_live R) (handle_allocd R) b (ip_string x) w
        (w\<lparr>wPools := (wPools w)(f := p)\<rparr>)"
      using pool_update [OF _ eff(3) nets, of w] live eff good ClusterPool
      by (simp add: alloc_step_def world_good_def) (simp add: handle_allocd_def)
    then show ?thesis using Inr ClusterPool by (simp add: do_allocate_def cluster_Allocate_def)
  qed
next
  case (CRDHandle f i)
  have len: "i < length (allocators (wStore w))"
    using live CRDHandle by (simp add: handle_live_def allocator_ok_def)
  from crd_Allocate_cases [OF len, of env x own] crd_AllocateWithoutSyncUpstream_cases [OF len, of env x own]
  have "(\<exists>e. do_allocate sync env R b x own w = Some (Inl e, w)) \<or>
     (\<exists>r st'. do_allocate sync env R b x own w = Some (Inr r, w\<lparr>wStore := st'\<rparr>) \<and>
        recorded i x (wStore w) st' \<and> ip_string x \<notin> crd_allocd i (wStore w))"
    by (cases sync) (auto simp: do_allocate_def on_store_def CRDHandle)
  then show ?thesis
    using crd_alloc_step [of i x w _ f R env] live good fam CRDHandle by fastforce
next
  case (NoOp f)
  then show ?thesis by (simp add: do_allocate_def)
qed

lemma do_allocateNext_law:
  assumes good: "world_good env w" and live: "handle_live R b w"
  shows "(\<exists>e. do_allocateNext sync env R b own w = Some (Inl e, w)) \<or>
     (\<exists>r w'. do_allocateNext sync env R b own w = Some (Inr r, w') \<and>
        alloc_step (world_good env) (handle_live R) (handle_allocd R) b (ip_string (ResultIP r)) w w' \<and>
        DeriveFamily (ResultIP r) = handle_family b \<and> handle_room R b w' < handle_room R b w)"
proof (cases b)
  case (HostScope f)
  show ?thesis
  proof (cases "rAllocateNext R (wHost w f)")
    case (Inl e)
    then show ?thesis using HostScope by (simp add: do_allocateNext_def host_AllocateNext_def)
  next
    case (Inr ar)
    obtain a r where ar: "ar = (a, r)" by (cases ar)
    have law: "range_laws R" and ok: "range_ok R (wHost w f)" and nf: "net_family f (rCIDR R (wHost w f))"
      using live HostScope by (auto simp: handle_live_def)
    note l = range_lawsD(3,9) [OF law Inr [unfolded ar]]
    have ok': "range_ok R r" using ok l(1) by (auto simp: range_ok_def)
    have "alloc_step (world_good env) (handle_live R) (handle_allocd R) b (ip_string a) w
        (w\<lparr>wHost := (wHost w)(f := r)\<rparr>)"
      using host_update [of R f w r] live l(1) ok' good HostScope
      by (simp add: alloc_step_def world_good_def) (simp add: handle_allocd_def)
    moreover have "DeriveFamily a = f" using nf l(1) by (simp add: net_family_def)
    moreover have "nat (rFree R r) < nat (rFree R (wHost w f))"
      using l(2) range_lawsD(6) [OF law, of r] by linarith
    ultimately show ?thesis using Inr ar HostScope
      by (simp add: do_allocateNext_def host_AllocateNext_def new_result_def handle_room_def)
  qed
next
  case (ClusterPool f)
  show ?thesis
  proof (cases "pool_allocateNext R (wPools w f)")
    case (Inl e)
    then show ?thesis using ClusterPool by (simp add: do_allocateNext_def cluster_AllocateNext_def)
  next
    case (Inr ap)
    obtain a p where ap: "ap = (a, p)" by (cases ap)
    note run = Inr [unfolded ap]
    have law: "range_laws R" and inv: "pool_inv R (wPools w f)"
      and nf: "\<forall>r\<in>set (ipAllocators (wPools w f)). net_family f (rCIDR R r)"
      using live ClusterPool by (auto simp: handle_live_def)
    note eff = pool_allocateNext_effect [OF law inv run]
    have nets: "\<forall>r\<in>set (ipAllocators p). net_family f (rCIDR R r)"
      using nets_set [OF pool_nets(2) [OF law run]] nf by simp
    have "alloc_step (world_good env) (handle_live R) (handle_allocd R) b (ip_string a) w
        (w\<lparr>wPools := (wPools w)(f := p)\<rparr>)"
      using pool_update [OF _ eff(3) nets, of w] live eff good ClusterPool
      by (simp add: alloc_step_def world_good_def) (simp add: handle_allocd_def)
    moreover have "DeriveFamily a = f" using nf eff(4) by (auto simp: net_family_def)
    moreover have "pool_room R p < pool_room R (wPools w f)" by (rule pool_allocateNext_room [OF law run])
    ultimately show ?thesis using run ClusterPool
      by (simp add: do_allocateNext_def cluster_AllocateNext_def new_result_def handle_room_def)
  qed
next
  case (CRDHandle f i)
  have len: "i < length (allocators (wStore w))" and fm: "family (allocators (wStore w) ! i) = f"
    using live CRDHandle by (simp_all add: handle_live_def allocator_ok_def)
  have ok: "store_ok env (wStore w)" using good by (simp add: world_good_def)
  from crd_AllocateNext_cases [OF ok len, of own]
    crd_AllocateNextWithoutSyncUpstream_cases [OF ok len, of own]
  have "(\<exists>e. do_allocateNext sync env R b own w = Some (Inl e, w)) \<or>
     (\<exists>r st' n. do_allocateNext sync env R b own w = Some (Inr r, w\<lparr>wStore := st'\<rparr>) \<and>
        recorded i (ResultIP r) (wStore w) st' \<and> ownNode (wStore w) = Some n \<and>
        ip_string (ResultIP r) \<in> dom (pool_map n) - crd_allocd i (wStore w) \<and>
        DeriveFamily (ResultIP r) = f)"
    using fm by (cases sync) (auto simp: do_allocateNext_def on_store_def CRDHandle)
  then show ?thesis
  proof (elim disjE exE conjE)
    fix r st' n
    assume r: "do_allocateNext sync env R b own w = Some (Inr r, w\<lparr>wStore := st'\<rparr>)"
      "recorded i (ResultIP r) (wStore w) st'" "ownNode (wStore w) = Some n"
      "ip_string (ResultIP r) \<in> dom (pool_map n) - crd_allocd i (wStore w)"
      "DeriveFamily (ResultIP r) = f"
    have "handle_room R b (w\<lparr>wStore := st'\<rparr>) < handle_room R b w"
      using recorded_room [OF r(2) ok r(3,4)] CRDHandle by (simp add: handle_room_def)
    moreover have "alloc_step (world_good env) (handle_live R) (handle_allocd R) b
        (ip_string (ResultIP r)) w (w\<lparr>wStore := st'\<rparr>)"
      using crd_alloc_step [OF r(2,5), of R env] live good r(4) CRDHandle by simp
    ultimately show ?thesis using r(1,5) CRDHandle by auto
  qed blast
next
  case (NoOp f)
  then show ?thesis by (simp add: do_allocateNext_def)
qed

lemma releaseIn_total: "range_laws R \<Longrightarrow> \<exists>rs'. releaseIn R a rs = Inr rs'"
proof (induction rs)
  case Nil
  then show ?case by simp
next
  case (Cons r rs)
  then show ?case using range_lawsD(10) [of R a r] by (auto split: sum.splits)
qed

lemma do_release_law:
  assumes good: "world_good env w" and live: "handle_live R b w"
  shows "(\<exists>e. do_release R b x w = Some (Inl e, w) \<and> ip_string x \<notin> handle_allocd R b w) \<or>
     (\<exists>w'. do_release R b x w = Some (Inr (), w') \<and>
        release_step (world_good env) (handle_live R) (handle_allocd R) b (ip_string x) w w')"
proof (cases b)
  case (HostScope f)
  have law: "range_laws R" and ok: "range_ok R (wHost w f)"
    using live HostScope by (auto simp: handle_live_def)
  obtain r where r: "rRelease R x (wHost w f) = Inr r" using range_lawsD(10) [OF law] by blast
  note l = range_lawsD(5) [OF law r]
  have ok': "range_ok R r" using ok l by (auto simp: range_ok_def)
  have "release_step (world_good env) (handle_live R) (handle_allocd R) b (ip_string x) w
      (w\<lparr>wHost := (wHost w)(f := r)\<rparr>)"
    using host_update [of R f w r] live l ok' good HostScope
    by (simp add: release_step_def world_good_def) (auto simp: handle_allocd_def)
  then show ?thesis using r HostScope by (simp add: do_release_def host_Release_def)
next
  case (ClusterPool f)
  have law: "range_laws R" and inv: "pool_inv R (wPools w f)"
    using live ClusterPool by (auto simp: handle_live_def)
  obtain p where run: "pool_release R x (wPools w f) = Inr p"
    using releaseIn_total [OF law, of x "ipAllocators (wPools w f)"] by (auto simp: pool_release_def)
  note eff = pool_release_effect [OF law inv run]
  have nets: "\<forall>r\<in>set (ipAllocators p). net_family f (rCIDR R r)"
    using nets_set [OF pool_nets(3) [OF law run]] live ClusterPool by (simp add: handle_live_def)
  have "pool_ips R p \<subseteq> pool_ips R (wPools w f) \<and> pool_ips R (wPools w f) - {ip_string x} \<subseteq> pool_ips R p"
    using eff(1) by (auto split: if_splits)
  then have "release_step (world_good env) (handle_live R) (handle_allocd R) b (ip_string x) w
      (w\<lparr>wPools := (wPools w)(f := p)\<rparr>)"
    using pool_update [OF _ eff(2) nets, of w] live good ClusterPool
    by (simp add: release_step_def world_good_def) (simp add: handle_allocd_def)
  then show ?thesis using run ClusterPool by (simp add: do_release_def cluster_Release_def)
next
  case (CRDHandle f i)
  define st where "st = wStore w"
  have len: "i < length (allocators st)" and ok: "allocator_ok f i st"
    using live CRDHandle by (simp_all add: handle_live_def allocator_ok_def st_def)
  show ?thesis
  proof (cases "allocated (allocators st ! i) (ip_string x)")
    case None
    then show ?thesis using CRDHandle
      by (auto simp: do_release_def on_store_def crd_Release_def handle_allocd_def st_def)
  next
    case (Some info)
    define st' where "st' = trigger ''release of IP'' (st\<lparr>allocators := (allocators st)[i := (allocators st ! i)
                 \<lparr>allocated := (allocated (allocators st ! i))(ip_string x := None)\<rparr>]\<rparr>)"
    have run: "do_release R b x w = Some (Inr (), w\<lparr>wStore := st'\<rparr>)"
      using Some CRDHandle by (simp add: do_release_def on_store_def crd_Release_def st_def st'_def)
    have nth: "allocators st' ! j = (if j = i then (allocators st ! i)
        \<lparr>allocated := (allocated (allocators st ! i))(ip_string x := None)\<rparr> else allocators st ! j)" for j
      using len by (simp add: st'_def nth_list_update)
    have ok': "allocator_ok g j st'" if "allocator_ok g j st" for g j
      using that len by (auto simp: allocator_ok_def nth) (simp_all add: st'_def)
    have "handle_live R c (w\<lparr>wStore := st'\<rparr>)" if "handle_live R c w" for c
      using that ok' by (cases c) (simp_all add: handle_live_def st_def)
    moreover have "handle_allocd R c (w\<lparr>wStore := st'\<rparr>) = handle_allocd R c w"
      if "handle_live R c w" "c \<noteq> b" for c
    proof (cases c)
      case (CRDHandle g j)
      then have "j \<noteq> i" using that live \<open>b = CRDHandle f i\<close>
        by (auto simp: handle_live_def allocator_ok_def)
      then show ?thesis using CRDHandle nth by (simp add: handle_allocd_def st_def)
    qed (simp_all add: handle_allocd_def)
    moreover have "store_ok env st'" using good by (simp add: world_good_def store_ok_def st'_def st_def)
    ultimately have "release_step (world_good env) (handle_live R) (handle_allocd R) b (ip_string x) w
        (w\<lparr>wStore := st'\<rparr>)"
      using CRDHandle nth by (auto simp: release_step_def world_good_def handle_allocd_def st_def)
    then show ?thesis using run by blast
  qed
next
  case (NoOp f)
  then show ?thesis by (simp add: do_release_def handle_allocd_def)
qed

lemma do_family_law:
  assumes "handle_live R b w" "s \<in> handle_allocd R b w"
  shows "\<exists>x. s = ip_string x \<and> DeriveFamily x = handle_family b"
proof (cases b)
  case (HostScope f)
  then show ?thesis using assms
    by (auto simp: handle_live_def handle_allocd_def range_ok_def net_family_def)
next
  case (ClusterPool f)
  then obtain r where "r \<in> set (ipAllocators (wPools w f))" "s \<in> rIPs R r" "range_ok R r"
      "net_family f (rCIDR R r)"
    using assms by (auto simp: handle_live_def handle_allocd_def pool_inv_def pool_ips_def)
  then show ?thesis using ClusterPool by (auto simp: range_ok_def net_family_def)
next
  case (CRDHandle f i)
  then show ?thesis using assms by (auto simp: handle_live_def handle_allocd_def allocator_ok_def)
next
  case (NoOp f)
  then show ?thesis using assms by (simp add: handle_allocd_def)
qed

interpretation al: allocator "world_ops env R" "world_good env" "handle_live R" "handle_allocd R"
  "handle_room R" handle_family
  for env :: crd_env and R :: "'r range_ops"
proof unfold_locales
  fix f :: "handle \<Rightarrow> ip \<Rightarrow> string \<Rightarrow> 'r world \<Rightarrow> ((go_error + AllocationResult) \<times> 'r world) option"
  fix w :: "'r world" and a x own
  assume f: "f = opAllocate (world_ops env R) \<or> f = opAllocateWithoutSyncUpstream (world_ops env R)"
    and w: "world_good env w" "handle_live R a w" "DeriveFamily x = handle_family a"
  then obtain sync where "f = do_allocate sync env R" by (auto simp: world_ops_def)
  with do_allocate_law [OF w, of sync own]
  show "(\<exists>e. f a x own w = Some (Inl e, w)) \<or>
     (\<exists>r h'. f a x own w = Some (Inr r, h') \<and>
        alloc_step (world_good env) (handle_live R) (handle_allocd R) a (ip_string x) w h')" by simp
next
  fix g :: "handle \<Rightarrow> string \<Rightarrow> 'r world \<Rightarrow> ((go_error + AllocationResult) \<times> 'r world) option"
  fix w :: "'r world" and a own
  assume g: "g = opAllocateNext (world_ops env R) \<or> g = opAllocateNextWithoutSyncUpstream (world_ops env R)"
    and w: "world_good env w" "handle_live R a w"
  then obtain sync where "g = do_allocateNext sync env R" by (auto simp: world_ops_def)
  with do_allocateNext_law [OF w, of sync own]
  show "(\<exists>e. g a own w = Some (Inl e, w)) \<or>
     (\<exists>r h'. g a own w = Some (Inr r, h') \<and>
        alloc_step (world_good env) (handle_live R) (handle_allocd R) a (ip_string (ResultIP r)) w h' \<and>
        DeriveFamily (ResultIP r) = handle_family a \<and> handle_room R a h' < handle_room R a w)" by simp
next
  fix w :: "'r world" and a x
  assume w: "world_good env w" "handle_live R a w"
  from do_release_law [OF w, of x]
  show "(\<exists>e. opRelease (world_ops env R) a x w = Some (Inl e, w) \<and> ip_string x \<notin> handle_allocd R a w) \<or>
     (\<exists>h'. opRelease (world_ops env R) a x w = Some (Inr (), h') \<and>
        release_step (world_good env) (handle_live R) (handle_allocd R) a (ip_string x) w h')"
    by (simp add: world_ops_def)
next
  fix w :: "'r world" and a s
  assume "handle_live R a w" "s \<in> handle_allocd R a w"
  then show "\<exists>x. s = ip_string x \<and> DeriveFamily x = handle_family a" by (rule do_family_law)
qed

section \<open>Properties of the IPAM object\<close>

definition world_inv :: "crd_env \<Rightarrow> 'r range_ops \<Rightarrow> (handle, 'r world) IPAM \<Rightarrow> bool" where
  "world_inv env R st = ipam_inv (world_good env) (handle_live R) (handle_allocd R) handle_family st"

text \<open>A concrete IPAM object in mode CRD with one address in the pool.\<close>

definition demo_world :: "listRange world" where
  "demo_world = \<lparr>wStore = hs_store, wPools = (\<lambda>_. demo_pool {}),
     wHost = (\<lambda>_. \<lparr>lrNet = demo_net, lrCandidates = [], lrUsed = []\<rparr>), wHostCIDR = (\<lambda>_. demo_net)\<rparr>"

definition demo_ipam :: "(handle, listRange world) IPAM" where
  "demo_ipam = newIPAM_state None (Some (CRDHandle IPv4 0)) demo_world"

lemma demo_inv: "world_inv (hs_env IPAMCRD) R demo_ipam"
  using hs_store_ok(1)
  by (simp add: world_inv_def ipam_inv_def demo_ipam_def newIPAM_state_def demo_world_def world_good_def
      handle_live_def agent_ok_def hs_store_def crd_RestoreFinished_def addAllocator_def
      newNodeStore_def)

text \<open>
  C8: Allocating a specific address never panics and keeps the invariant. It fails without any
  effect, or the address was free in the allocator of its family, had no owner, was not
  blacklisted, and is now allocated to the caller while every other owner stays.
\<close>

theorem allocateIP_exclusive:
  assumes "world_inv env R st"
  shows "\<exists>r st'. allocateIP (world_ops env R) x own sync st = Some (r, st') \<and> world_inv env R st' \<and>
    (case r of
       Inl e \<Rightarrow> st' = st
     | Inr res \<Rightarrow> \<exists>a. family_allocator x st = Inr a \<and>
         assigned (handle_allocd R) a own (ip_string x) st st' \<and> ipam_frame own {ip_string x} st st')"
  using al.allocateIP_correct [OF assms [unfolded world_inv_def]] unfolding world_inv_def by blast

theorem allocateIP_exclusive_witness:
  "\<exists>r st'. allocateIP (world_ops (hs_env IPAMCRD) (list_range_ops [])) [10, 0, 0, 1] ''pod'' True demo_ipam =
     Some (r, st') \<and> world_inv (hs_env IPAMCRD) (list_range_ops []) st'"
  using allocateIP_exclusive [OF demo_inv] by blast

text \<open>
  C7: The loop that skips blacklisted addresses ends for every allocator and every blacklist. The
  address it returns belongs to the requested family, was free, had no owner, is not
  blacklisted and now belongs to the caller; owners of other addresses do not change, and the
  only other new entries are addresses set aside as blacklisted.
\<close>

theorem allocateNextFamily_terminates_exclusive:
  assumes "world_inv env R st"
  shows "\<exists>r st'. allocateNextFamily (world_ops env R) f own sync st = Some (r, st') \<and>
    world_inv env R st' \<and>
    (case r of
       Inl e \<Rightarrow> ipam_frame own {} st st'
     | Inr res \<Rightarrow> \<exists>a. handle_of st a \<and> handle_family a = f \<and> DeriveFamily (ResultIP res) = f \<and>
         assigned (handle_allocd R) a own (ip_string (ResultIP res)) st st' \<and>
         ipam_frame own {ip_string (ResultIP res)} st st')"
  using al.allocateNextFamily_correct [OF assms [unfolded world_inv_def]] unfolding world_inv_def
  by blast

theorem allocateNextFamily_terminates_exclusive_witness:
  "\<exists>r st'. allocateNextFamily (world_ops (hs_env IPAMCRD) (list_range_ops [])) IPv4 ''pod'' True demo_ipam =
     Some (r, st') \<and> world_inv (hs_env IPAMCRD) (list_range_ops []) st'"
  using allocateNextFamily_terminates_exclusive [OF demo_inv] by blast

text \<open>
  C4: A dual-stack allocation is all or nothing: on success both addresses are new and belong to
  the caller; on an error no address has been left with the caller as its owner, because the
  IPv6 address is released when the IPv4 allocation fails. Existing owners never change.
\<close>

theorem AllocateNext_all_or_nothing:
  assumes "world_inv env R st"
  shows "\<exists>v4 v6 e st'. AllocateNext (world_ops env R) f own st = Some ((v4, v6, e), st') \<and>
    world_inv env R st' \<and> pair_ok own st v4 v6 e st'"
  using al.AllocateNext_correct [OF assms [unfolded world_inv_def]] unfolding world_inv_def by blast

theorem AllocateNext_all_or_nothing_witness:
  "\<exists>v4 v6 e st'. AllocateNext (world_ops (hs_env IPAMCRD) (list_range_ops [])) [] ''pod'' demo_ipam =
     Some ((v4, v6, e), st') \<and> pair_ok ''pod'' demo_ipam v4 v6 e st'"
  using AllocateNext_all_or_nothing [OF demo_inv] by blast

text \<open>
  \<open>ReleaseIPWithOwner\<close> releases an address only for its recorded owner: without an error
  exactly that owner entry and its timer are gone; with an error nothing has changed.
\<close>

theorem ReleaseIPWithOwner_safe:
  assumes "world_inv env R st"
  shows "\<exists>e st'. ReleaseIPWithOwner (world_ops env R) s own st = Some (e, st') \<and> world_inv env R st' \<and>
    (e \<noteq> None \<longrightarrow> st' = st) \<and>
    (e = None \<longrightarrow> (\<exists>a. ParseIP s = Some a \<and> owner st (ip_string a) = Some own \<and>
       owner st' = (owner st)(ip_string a := None) \<and>
       expirationTimers st' = (expirationTimers st)(ip_string a := None)))"
proof (cases "ParseIP s")
  case None
  then show ?thesis using assms by (simp add: ReleaseIPWithOwner_def)
next
  case (Some a)
  show ?thesis
  proof (cases "owner st (ip_string a) = Some own")
    case False
    then show ?thesis using Some assms by (auto simp: ReleaseIPWithOwner_def split: option.splits)
  next
    case True
    from al.releaseIPLocked_correct [OF assms [unfolded world_inv_def], of a]
    show ?thesis using Some True unfolding world_inv_def
      by (auto simp: ReleaseIPWithOwner_def split: option.splits)
  qed
qed

theorem ReleaseIPWithOwner_safe_witness:
  "\<exists>e st'. ReleaseIPWithOwner (world_ops (hs_env IPAMCRD) (list_range_ops [])) ''10.0.0.1'' ''pod'' demo_ipam =
     Some (e, st') \<and> (e \<noteq> None \<longrightarrow> st' = demo_ipam)"
  using ReleaseIPWithOwner_safe [OF demo_inv] by blast

text \<open>
  C12: A fired expiration timer never panics and acts only if its UUID is still the registered one:
  then it releases exactly that address and its registration; a timer that was stopped, or
  replaced by a newer one, does nothing.
\<close>

theorem expiration_timer_releases_only_registered:
  assumes "world_inv env R st"
  shows "\<exists>st'. timerFires (world_ops env R) a u st = Some st' \<and> world_inv env R st' \<and>
    (if expirationTimers st (ip_string a) = Some u \<and> owner st (ip_string a) \<noteq> None
     then owner st' = (owner st)(ip_string a := None) \<and>
          expirationTimers st' = (expirationTimers st)(ip_string a := None)
     else owner st' = owner st) \<and>
    timerFires (world_ops env R) a u (snd (StopExpirationTimer a u st)) =
      Some (snd (StopExpirationTimer a u st))"
proof -
  from al.releaseIPLocked_correct [OF assms [unfolded world_inv_def], of a]
  have "\<exists>st'. timerFires (world_ops env R) a u st = Some st' \<and> world_inv env R st' \<and>
    (if expirationTimers st (ip_string a) = Some u \<and> owner st (ip_string a) \<noteq> None
     then owner st' = (owner st)(ip_string a := None) \<and>
          expirationTimers st' = (expirationTimers st)(ip_string a := None)
     else owner st' = owner st)"
  proof (elim exE conjE)
    fix e st1
    assume r: "releaseIPLocked (world_ops env R) a st = Some (e, st1)" "ipam_inv (world_good env) (handle_live R)
        (handle_allocd R) handle_family st1"
      "case e of Some _ \<Rightarrow> st1 = st \<and> owner st (ip_string a) = None
       | None \<Rightarrow> owner st1 = (owner st)(ip_string a := None) \<and>
         expirationTimers st1 = (expirationTimers st)(ip_string a := None) \<and>
         blacklist st1 = blacklist st \<and>
         IPv4Allocator st1 = IPv4Allocator st \<and> IPv6Allocator st1 = IPv6Allocator st"
    have idem: "owner st (ip_string a) = None \<Longrightarrow> (owner st)(ip_string a := None) = owner st"
      by (simp add: fun_upd_idem)
    show ?thesis
    proof (cases "expirationTimers st (ip_string a) = Some u")
      case True
      then show ?thesis using r idem unfolding world_inv_def timerFires_def
        by (cases e; cases "owner st (ip_string a)") simp_all
    next
      case False
      then show ?thesis using assms by (simp add: timerFires_def)
    qed
  qed
  moreover have "timerFires (world_ops env R) a u (snd (StopExpirationTimer a u st)) =
      Some (snd (StopExpirationTimer a u st))"
    by (simp add: timerFires_def StopExpirationTimer_def split: option.splits)
  ultimately show ?thesis by blast
qed

theorem expiration_timer_releases_only_registered_witness:
  "\<exists>st'. timerFires (world_ops (hs_env IPAMCRD) (list_range_ops [])) [10, 0, 0, 1] ''u'' demo_ipam = Some st' \<and>
     owner st' = owner demo_ipam"
  using expiration_timer_releases_only_registered [OF demo_inv, of "list_range_ops []" "[10, 0, 0, 1]" "''u''"]
  by (auto simp: demo_ipam_def newIPAM_state_def)

text \<open>
  In every IPAM mode, a constructed IPAM object satisfies the invariant the other properties
  start from, has no owners, and has an allocator only for an enabled family.
\<close>

theorem NewIPAM_establishes_inv:
  assumes "NewIPAM R mode v4 v6 alloc w = Some st" "world_good env w" "range_laws R"
    and "\<forall>f c. alloc f = Some c \<longrightarrow> net_family f c"
    and "\<forall>f. handle_live R (ClusterPool f) w"
  shows "world_inv env R st \<and> owner st = Map.empty \<and>
    (IPv4Allocator st \<noteq> None \<longrightarrow> v4) \<and> (IPv6Allocator st \<noteq> None \<longrightarrow> v6)"
proof -
  note hs = range_lawsD(1) [OF assms(3)]
  have new: "rNew R c = Inr r \<Longrightarrow> range_ok R r \<and> rCIDR R r = c" for c r
    using hs by (auto simp: range_ok_def)
  consider "mode \<in> {IPAMKubernetes, IPAMClusterPool}" | "mode \<in> {IPAMClusterPoolV2, IPAMVpcRoute}"
    | "mode \<in> {IPAMCRD, IPAMVpcEni, IPAMRdma, IPAMPrivateCloudBase}" | "mode = IPAMDelegatedPlugin"
    using assms(1) by (fastforce simp: NewIPAM_def split: if_splits)
  then show ?thesis
  proof cases
    case 1
    then have "\<exists>h6 w1 h4 w2. newHostScope R IPv6 v6 alloc w = Some (h6, w1) \<and>
        newHostScope R IPv4 v4 alloc w1 = Some (h4, w2) \<and> st = newIPAM_state h6 h4 w2"
      using assms(1) by (auto simp: NewIPAM_def split: option.splits)
    then show ?thesis using assms(2-4) new
      by (auto simp: newHostScope_def world_inv_def ipam_inv_def newIPAM_state_def world_good_def
          handle_live_def split: if_splits option.splits sum.splits)
  next
    case 2
    then have "st = newIPAM_state (if v6 then Some (ClusterPool IPv6) else None)
                (if v4 then Some (ClusterPool IPv4) else None) w"
      using assms(1) by (auto simp: NewIPAM_def)
    then show ?thesis using assms(2,5)
      by (auto simp: world_inv_def ipam_inv_def newIPAM_state_def)
  next
    case 3
    then have "st = (let (h6, w1) = newCRD IPv6 v6 w; (h4, w2) = newCRD IPv4 v4 w1
         in newIPAM_state h6 h4 w2)"
      using assms(1) by (auto simp: NewIPAM_def split: prod.splits)
    then show ?thesis using assms(2)
      by (auto simp: newCRD_def world_inv_def ipam_inv_def newIPAM_state_def world_good_def
          handle_live_def store_ok_def allocator_ok_def addAllocator_def nth_append
          split: if_splits)
  next
    case 4
    then have "st = newIPAM_state (if v6 then Some (NoOp IPv6) else None)
                (if v4 then Some (NoOp IPv4) else None) w"
      using assms(1) by (auto simp: NewIPAM_def)
    then show ?thesis using assms(2)
      by (auto simp: world_inv_def ipam_inv_def newIPAM_state_def handle_live_def)
  qed
qed

theorem NewIPAM_establishes_inv_witness:
  "world_inv (hs_env IPAMCRD) (list_range_ops [])
     (newIPAM_state (Some (CRDHandle IPv6 1)) (Some (CRDHandle IPv4 2))
        (demo_world\<lparr>wPools := (\<lambda>_. newPodCIDRPool 0 0 []),
           wStore := addAllocator IPv4 (addAllocator IPv6 hs_store)\<rparr>))"
proof -
  let ?w = "demo_world\<lparr>wPools := (\<lambda>_. newPodCIDRPool 0 0 [])\<rparr> :: listRange world"
  have "NewIPAM (list_range_ops []) IPAMCRD True True (\<lambda>_. None) ?w =
      Some (newIPAM_state (Some (CRDHandle IPv6 1)) (Some (CRDHandle IPv4 2))
        (?w\<lparr>wStore := addAllocator IPv4 (addAllocator IPv6 hs_store)\<rparr>))"
    by (simp add: NewIPAM_def newCRD_def demo_world_def hs_store_def crd_RestoreFinished_def
        addAllocator_def newNodeStore_def numeral_2_eq_2)
  moreover have "world_good (hs_env IPAMCRD) ?w"
    using hs_store_ok(1) by (simp add: world_good_def demo_world_def agent_ok_def)
  moreover have "handle_live (list_range_ops []) (ClusterPool f) ?w" for f
    by (simp add: handle_live_def list_range_laws newPodCIDRPool_def pool_inv_def ranges_disjoint_def
        inUsePodCIDRsLocked_def)
  ultimately show ?thesis
    using NewIPAM_establishes_inv [of "list_range_ops []" IPAMCRD True True "\<lambda>_. None" ?w _ "hs_env IPAMCRD"]
      list_range_laws by simp
qed

end
