(* ===== verification/CIDRLists.thy ===== *)
theory CIDRLists
  imports GoNet
begin

text \<open>
  Lists of networks, after \<open>pkg/cidr/cidr.go\<close> and \<open>pkg/cidr/diff.go\<close>: equality, membership,
  removal, and the difference of two lists by their text. A nil \<open>*CIDR\<close> of a list is \<open>None\<close>.
\<close>

section \<open>Operations\<close>

definition Equal :: "ipnet \<Rightarrow> ipnet \<Rightarrow> bool" where
  "Equal n o' \<longleftrightarrow> ip_equal (IP n) (IP o') \<and> Mask n = Mask o'"

fun Contains :: "ipnet list \<Rightarrow> ipnet \<Rightarrow> bool" where
  "Contains [] x = False"
| "Contains (n # ns) x = (if Equal n x then True else Contains ns x)"

fun ContainsAll :: "ipnet list \<Rightarrow> ipnet list \<Rightarrow> bool" where
  "ContainsAll ns [] = True"
| "ContainsAll ns (m # ms) = (if \<not> Contains ns m then False else ContainsAll ns ms)"

fun RemoveAll :: "ipnet list \<Rightarrow> ipnet list \<Rightarrow> ipnet list" where
  "RemoveAll [] toRemove = []"
| "RemoveAll (n # ns) toRemove =
     (if \<not> Contains toRemove n then n # RemoveAll ns toRemove else RemoveAll ns toRemove)"

text \<open>\<open>1 << k\<close> on Go's 64-bit \<open>int\<close>: the value wraps, so it is negative for 63 host bits and 0
  for more.\<close>

definition AvailableIPs :: "ipnet \<Rightarrow> 64 word" where
  "AvailableIPs n = (let (ones, bits) = mask_size (Mask n) in push_bit (nat (bits - ones)) 1)"

definition CIDR_DeepEqual :: "ipnet \<Rightarrow> ipnet \<Rightarrow> bool" where
  "CIDR_DeepEqual n o' \<longleftrightarrow> ip_equal (IP n) (IP o') \<and> mask_size (Mask n) = mask_size (Mask o')"

definition CIDRStringContainsIP :: "string \<Rightarrow> string \<Rightarrow> bool" where
  "CIDRStringContainsIP cidrs ips =
     (case ParseCIDR cidrs of
        None \<Rightarrow> False
      | Some (_, n) \<Rightarrow> (case ParseIP ips of None \<Rightarrow> False | Some a \<Rightarrow> net_contains n a))"

fun createIPNetMap :: "ipnet option list \<Rightarrow> (string \<rightharpoonup> ipnet) \<Rightarrow> (string \<rightharpoonup> ipnet)" where
  "createIPNetMap [] m = m"
| "createIPNetMap (None # cs) m = createIPNetMap cs m"
| "createIPNetMap (Some c # cs) m = createIPNetMap cs (m(ipnet_string c \<mapsto> c))"

fun listMissingIPNets :: "(string \<rightharpoonup> ipnet) \<Rightarrow> ipnet option list \<Rightarrow> ipnet list" where
  "listMissingIPNets existing [] = []"
| "listMissingIPNets existing (None # cs) = listMissingIPNets existing cs"
| "listMissingIPNets existing (Some c # cs) =
     (if existing (ipnet_string c) = None then c # listMissingIPNets existing cs
      else listMissingIPNets existing cs)"

text \<open>(added, removed)\<close>

definition DiffCIDRLists :: "ipnet option list \<Rightarrow> ipnet option list \<Rightarrow> ipnet list \<times> ipnet list" where
  "DiffCIDRLists old new' =
     (listMissingIPNets (createIPNetMap old Map.empty) new',
      listMissingIPNets (createIPNetMap new' Map.empty) old)"

section \<open>Lemmas\<close>

lemma Contains_iff: "Contains ns x \<longleftrightarrow> (\<exists>n\<in>set ns. Equal n x)"
  by (induction ns) auto

lemma ContainsAll_iff: "ContainsAll ns ms \<longleftrightarrow> (\<forall>m\<in>set ms. \<exists>n\<in>set ns. Equal n m)"
  by (induction ms) (auto simp: Contains_iff)

lemma RemoveAll_filter: "RemoveAll ns ms = filter (\<lambda>n. \<not> Contains ms n) ns"
  by (induction ns) auto

abbreviation texts :: "ipnet option list \<Rightarrow> string set" where
  "texts cs \<equiv> {ipnet_string c |c. Some c \<in> set cs}"

lemma createIPNetMap_None_gen:
  "createIPNetMap cs m s = None \<longleftrightarrow> m s = None \<and> s \<notin> texts cs"
proof (induction cs arbitrary: m)
  case (Cons c cs)
  show ?case
  proof (cases c)
    case (Some n)
    then show ?thesis using Cons.IH [of "m(ipnet_string n \<mapsto> n)"] by (auto simp: fun_upd_def split: if_splits)
  qed (use Cons.IH in simp)
qed simp

lemma createIPNetMap_None:
  "createIPNetMap cs Map.empty s = None \<longleftrightarrow> s \<notin> texts cs"
  by (simp add: createIPNetMap_None_gen)

lemma set_listMissing:
  "set (listMissingIPNets m cs) = {c. Some c \<in> set cs \<and> m (ipnet_string c) = None}"
proof (induction cs)
  case (Cons c cs)
  then show ?case by (cases c) (auto simp only: listMissingIPNets.simps set_ConsD list.set split: if_splits)
qed simp

section \<open>Properties\<close>

text \<open>
  The difference of two lists turns the old one into the new one: the networks of the new
  list are, by their text, those of the old list without the removed and with the added ones;
  what is added was not in the old list, what is removed is not in the new one; nil entries are
  skipped.
\<close>

theorem DiffCIDRLists_correct:
  "(case DiffCIDRLists old new' of (add, remove) \<Rightarrow>
     texts new' = (texts old - ipnet_string ` set remove) \<union> ipnet_string ` set add \<and>
     ipnet_string ` set add \<inter> texts old = {} \<and> ipnet_string ` set remove \<inter> texts new' = {} \<and>
     ipnet_string ` set remove \<subseteq> texts old \<and> ipnet_string ` set add \<subseteq> texts new')"
  by (auto simp: DiffCIDRLists_def set_listMissing createIPNetMap_None)

end
