(* ===== verification/NodesPodCIDR.thy ===== *)
theory NodesPodCIDR
  imports CIDRLists CIDRMath IPAMTypes
begin

text \<open>
  The operator's assignment of pod CIDRs to nodes: \<open>pkg/ipam/allocator/podcidr/podcidr.go\<close>, its
  undo stack \<open>pkg/revert/revert.go\<close>, and the cluster pool of
  \<open>pkg/ipam/allocator/clusterpool/clusterpool.go\<close>. The allocator of one cluster CIDR
  (\<open>cidrset\<close>, a library outside the repository) is the parameter \<open>cidr_ops\<close>.
\<close>

section \<open>The allocator of one cluster CIDR\<close>

record 'c cidr_ops =
  cNew :: "ipnet \<Rightarrow> int \<Rightarrow> string + 'c"
  cOccupy :: "ipnet \<Rightarrow> 'c \<Rightarrow> string + 'c"
  cAllocateNext :: "'c \<Rightarrow> string + (ipnet \<times> 'c)"
  cRelease :: "ipnet \<Rightarrow> 'c \<Rightarrow> string + 'c"
  cIsAllocated :: "ipnet \<Rightarrow> 'c \<Rightarrow> string + bool"
  cIsFull :: "'c \<Rightarrow> bool"
  cInRange :: "ipnet \<Rightarrow> 'c \<Rightarrow> bool"
  cString :: "'c \<Rightarrow> string"

section \<open>Errors\<close>

definition ipNetString :: "ipnet list \<Rightarrow> string list" where
  "ipNetString ns = map ipnet_string ns"

text \<open>How \<open>fmt\<close> prints a list of strings with the verb s.\<close>

definition go_list :: "string list \<Rightarrow> string" where
  "go_list ss = ''['' @ join '' '' ss @ '']''"

datatype pc_error = ErrAllocatorNotFound "ipnet list" string | ErrAllocatorFull
  | ErrCIDRAllocated ipnet | ErrNoAllocators string string string | OtherErr string

fun pc_error_string :: "pc_error \<Rightarrow> string" where
  "pc_error_string (ErrAllocatorNotFound ns ty) =
     ''unable to allocate CIDR '' @ go_list (ipNetString ns) @ '' since allocator for '' @ ty @
     '' addresses does not exist''"
| "pc_error_string ErrAllocatorFull = ''allocator full''"
| "pc_error_string (ErrCIDRAllocated n) =
     ''requested CIDR ('' @ ipnet_string n @ '') is already allocated''"
| "pc_error_string (ErrNoAllocators name v4 v6) =
     ''Unable to allocate node CIDR for node '' @ name @ ''. IPAMInfo: {IPv4: '' @ v4 @
     '', IPv6: '' @ v6 @ ''}. Please check that your configuration is correct.''"
| "pc_error_string (OtherErr s) = s"

definition v4AllocatorType :: string where "v4AllocatorType = ''IPv4''"
definition v6AllocatorType :: string where "v6AllocatorType = ''IPv6''"

definition getCIDRAllocatorsInfo :: "'c cidr_ops \<Rightarrow> 'c list \<Rightarrow> string" where
  "getCIDRAllocatorsInfo ops cs = ''['' @ join '', '' (map (cString ops) cs) @ '']''"

section \<open>State\<close>

record nodeCIDRs =
  v4PodCIDRs :: "ipnet list"
  v6PodCIDRs :: "ipnet list"

fun parseNodeCIDRs :: "string list \<Rightarrow> nodeCIDRs \<Rightarrow> pc_error + nodeCIDRs" where
  "parseNodeCIDRs [] cidrs = Inr cidrs"
| "parseNodeCIDRs (s # ss) cidrs =
     (case ParseCIDR s of
        None \<Rightarrow> Inl (OtherErr (''invalid CIDR address: '' @ s))
      | Some (a, n) \<Rightarrow>
          if IsIPv4 a then parseNodeCIDRs ss (cidrs\<lparr>v4PodCIDRs := v4PodCIDRs cidrs @ [n]\<rparr>)
          else parseNodeCIDRs ss (cidrs\<lparr>v6PodCIDRs := v6PodCIDRs cidrs @ [n]\<rparr>))"

datatype k8sOp = k8sOpCreate | k8sOpDelete | k8sOpUpdate | k8sOpUpdateStatus

text \<open>\<open>resyncTriggered\<close> says that the trigger of the synchronisation has been fired.\<close>

record 'c NodesPodCIDRManager =
  canAllocatePodCIDRs :: bool
  nodesToAllocate :: "string \<rightharpoonup> NetResourceSet"
  v4CIDRAllocators :: "'c list"
  v6CIDRAllocators :: "'c list"
  nodes :: "string \<rightharpoonup> nodeCIDRs"
  netResourceSetsToK8s :: "string \<rightharpoonup> k8sOp \<times> NetResourceSet option"
  resyncTriggered :: bool

definition NewNodesPodCIDRManager :: "'c list \<Rightarrow> 'c list \<Rightarrow> 'c NodesPodCIDRManager" where
  "NewNodesPodCIDRManager v4 v6 =
     \<lparr>canAllocatePodCIDRs = False, nodesToAllocate = Map.empty, v4CIDRAllocators = v4,
      v6CIDRAllocators = v6, nodes = Map.empty, netResourceSetsToK8s = Map.empty,
      resyncTriggered = False\<rparr>"

section \<open>Taking and giving back CIDRs\<close>

text \<open>The undo stack of an allocation. Every closure pushed by the loop of \<open>allocateIPNet\<close> releases
  the value of the loop variable \<open>newCIDR\<close>, which all rounds share (the module declares Go 1.20);
  the allocator it captured is that of its own round. So a stack is the list of allocator
  positions with the one value the variable has in the end. \<open>Revert\<close> runs from the top and stops
  at the first failure.\<close>

type_synonym revert = "nat list \<times> ipnet"

fun runReverts :: "'c cidr_ops \<Rightarrow> ipnet \<Rightarrow> nat list \<Rightarrow> 'c list \<Rightarrow> 'c list" where
  "runReverts ops n [] cs = cs"
| "runReverts ops n (i # is) cs =
     (case cRelease ops n (cs ! i) of
        Inl e \<Rightarrow> cs
      | Inr c \<Rightarrow> runReverts ops n is (cs[i := c]))"

definition Revert :: "'c cidr_ops \<Rightarrow> revert \<Rightarrow> 'c list \<Rightarrow> 'c list" where
  "Revert ops r cs = runReverts ops (snd r) (rev (fst r)) cs"

text \<open>The inner loop: the first allocator with the CIDR in range decides.\<close>

fun occupyIn :: "'c cidr_ops \<Rightarrow> ipnet \<Rightarrow> 'c list \<Rightarrow> pc_error + (nat \<times> 'c list)" where
  "occupyIn ops n [] =
     Inl (OtherErr (''allocator not configured for the requested CIDR '' @ ipnet_string n))"
| "occupyIn ops n (c # cs) =
     (if \<not> cInRange ops n c
      then (case occupyIn ops n cs of Inl e \<Rightarrow> Inl e | Inr (i, cs') \<Rightarrow> Inr (Suc i, c # cs'))
      else if cIsFull ops c then Inl (OtherErr (''allocator '' @ cString ops c @ '' full''))
      else case cIsAllocated ops n c of
        Inl e \<Rightarrow> Inl (OtherErr e)
      | Inr True \<Rightarrow> Inl (ErrCIDRAllocated n)
      | Inr False \<Rightarrow>
          (case cOccupy ops n c of
             Inl e \<Rightarrow> Inl (OtherErr e)
           | Inr c' \<Rightarrow> Inr (0, c' # cs)))"

text \<open>The outer loop: (error, allocators, stack, the loop variable).\<close>

fun occupyAll :: "'c cidr_ops \<Rightarrow> ipnet list \<Rightarrow> 'c list \<Rightarrow> nat list \<Rightarrow> ipnet
    \<Rightarrow> pc_error option \<times> 'c list \<times> nat list \<times> ipnet" where
  "occupyAll ops [] cs stack newCIDR = (None, cs, stack, newCIDR)"
| "occupyAll ops (n # ns) cs stack newCIDR =
     (case occupyIn ops n cs of
        Inl e \<Rightarrow> (Some e, cs, stack, n)
      | Inr (i, cs') \<Rightarrow> occupyAll ops ns cs' (stack @ [i]) n)"

definition no_net :: ipnet where "no_net = \<lparr>IP = [], Mask = []\<rparr>"

definition allocateIPNet ::
    "'c cidr_ops \<Rightarrow> string \<Rightarrow> 'c list \<Rightarrow> ipnet list \<Rightarrow> (pc_error + revert) \<times> 'c list" where
  "allocateIPNet ops ty cs ns =
     (if cs = [] then (Inl (ErrAllocatorNotFound ns ty), cs)
      else case occupyAll ops ns cs [] no_net of
        (Some e, cs', stack, newCIDR) \<Rightarrow> (Inl e, Revert ops (stack, newCIDR) cs')
      | (None, cs', stack, newCIDR) \<Rightarrow> (Inr (stack, newCIDR), cs'))"

fun firstFree :: "'c cidr_ops \<Rightarrow> 'c list \<Rightarrow> nat option" where
  "firstFree ops [] = None"
| "firstFree ops (c # cs) = (if \<not> cIsFull ops c then Some 0 else map_option Suc (firstFree ops cs))"

definition allocateFirstFreeCIDR ::
    "'c cidr_ops \<Rightarrow> 'c list \<Rightarrow> (pc_error + (revert \<times> ipnet)) \<times> 'c list" where
  "allocateFirstFreeCIDR ops cs =
     (case firstFree ops cs of
        None \<Rightarrow> (Inl ErrAllocatorFull, cs)
      | Some i \<Rightarrow>
          (case cAllocateNext ops (cs ! i) of
             Inl e \<Rightarrow> (Inl (OtherErr e), cs)
           | Inr (n, c) \<Rightarrow> (Inr (([i], n), n), cs[i := c])))"

fun releaseFirst :: "'c cidr_ops \<Rightarrow> ipnet \<Rightarrow> 'c list \<Rightarrow> 'c list" where
  "releaseFirst ops n [] = []"
| "releaseFirst ops n (c # cs) =
     (if \<not> cInRange ops n c then c # releaseFirst ops n cs
      else case cRelease ops n c of
        Inl e \<Rightarrow> c # releaseFirst ops n cs
      | Inr c' \<Rightarrow> c' # cs)"

definition releaseCIDRs :: "'c cidr_ops \<Rightarrow> ipnet list \<Rightarrow> 'c list \<Rightarrow> 'c list" where
  "releaseCIDRs ops ns cs = fold (releaseFirst ops) ns cs"

definition releaseIPNets ::
    "'c cidr_ops \<Rightarrow> string \<Rightarrow> 'c NodesPodCIDRManager \<Rightarrow> bool \<times> 'c NodesPodCIDRManager" where
  "releaseIPNets ops name m =
     (case nodes m name of
        None \<Rightarrow> (False, m)
      | Some cidrs \<Rightarrow>
          (True, m\<lparr>nodes := (nodes m)(name := None),
                   v4CIDRAllocators := releaseCIDRs ops (v4PodCIDRs cidrs) (v4CIDRAllocators m),
                   v6CIDRAllocators := releaseCIDRs ops (v6PodCIDRs cidrs) (v6CIDRAllocators m)\<rparr>))"

section \<open>Assigning CIDRs to a node\<close>

text \<open>One family of \<open>reuseIPNets\<close>: the requested CIDRs are occupied, or a free one is taken when
  none is requested.\<close>

definition takeCIDRs ::
    "'c cidr_ops \<Rightarrow> string \<Rightarrow> 'c list \<Rightarrow> ipnet list \<Rightarrow> (pc_error + (revert \<times> ipnet list)) \<times> 'c list" where
  "takeCIDRs ops ty cs ns =
     (if ns \<noteq> []
      then (case allocateIPNet ops ty cs ns of
              (Inl e, cs') \<Rightarrow> (Inl e, cs')
            | (Inr r, cs') \<Rightarrow> (Inr (r, ns), cs'))
      else (case allocateFirstFreeCIDR ops cs of
              (Inl e, cs') \<Rightarrow> (Inl e, cs')
            | (Inr (r, n), cs') \<Rightarrow> (Inr (r, [n]), cs')))"

text \<open>The checks before anything is taken.\<close>

definition conflict_error :: "ipnet list \<Rightarrow> ipnet list \<Rightarrow> pc_error" where
  "conflict_error old req =
     OtherErr (''node has CIDRs allocated ('' @ go_list (ipNetString old) @
       '') that conflict with requested CIDRs '' @ go_list (ipNetString req))"

definition checkFamily :: "string \<Rightarrow> 'c list \<Rightarrow> ipnet list \<Rightarrow> ipnet list \<Rightarrow> pc_error option" where
  "checkFamily ty cs old req =
     (if old = [] then None
      else if cs = [] then Some (ErrAllocatorNotFound old ty)
      else if \<not> ContainsAll old req then Some (conflict_error old req)
      else None)"

definition reuseChecks :: "string \<Rightarrow> ipnet list \<Rightarrow> ipnet list \<Rightarrow> 'c NodesPodCIDRManager \<Rightarrow> pc_error option" where
  "reuseChecks name v4 v6 m =
     (if v4CIDRAllocators m = [] \<and> v4 \<noteq> [] then Some (ErrAllocatorNotFound v4 v4AllocatorType)
      else if v6CIDRAllocators m = [] \<and> v6 \<noteq> [] then Some (ErrAllocatorNotFound v6 v6AllocatorType)
      else case nodes m name of
        None \<Rightarrow> None
      | Some old \<Rightarrow>
          (case checkFamily v4AllocatorType (v4CIDRAllocators m) (v4PodCIDRs old) v4 of
             Some e \<Rightarrow> Some e
           | None \<Rightarrow> checkFamily v6AllocatorType (v6CIDRAllocators m) (v6PodCIDRs old) v6))"

definition canAllocateFamily :: "'c NodesPodCIDRManager \<Rightarrow> string \<Rightarrow> (nodeCIDRs \<Rightarrow> ipnet list) \<Rightarrow> bool" where
  "canAllocateFamily m name sel =
     (case nodes m name of None \<Rightarrow> True | Some old \<Rightarrow> sel old = [] \<and> canAllocatePodCIDRs m)"

definition old_cidrs :: "'c NodesPodCIDRManager \<Rightarrow> string \<Rightarrow> nodeCIDRs" where
  "old_cidrs m name =
     (case nodes m name of None \<Rightarrow> \<lparr>v4PodCIDRs = [], v6PodCIDRs = []\<rparr> | Some old \<Rightarrow> old)"

text \<open>An entry that exists is written through its pointer, so the write survives a later failure;
  a new entry is only stored at the end.\<close>

definition write_through :: "string \<Rightarrow> nodeCIDRs \<Rightarrow> 'c NodesPodCIDRManager \<Rightarrow> 'c NodesPodCIDRManager" where
  "write_through name c m = (if nodes m name = None then m else m\<lparr>nodes := (nodes m)(name \<mapsto> c)\<rparr>)"

text \<open>The IPv6 half, with the undo stack of the IPv4 half.\<close>

definition reuseV6 ::
    "'c cidr_ops \<Rightarrow> string \<Rightarrow> ipnet list \<Rightarrow> bool \<Rightarrow> nodeCIDRs \<Rightarrow> revert option \<Rightarrow> 'c NodesPodCIDRManager
     \<Rightarrow> (pc_error + (nodeCIDRs \<times> bool)) \<times> 'c NodesPodCIDRManager" where
  "reuseV6 ops name v6 can6 c r4 m =
     (if can6 \<and> v6CIDRAllocators m \<noteq> []
      then (case takeCIDRs ops v6AllocatorType (v6CIDRAllocators m) v6 of
              (Inl e, cs) \<Rightarrow>
                (Inl e, m\<lparr>v6CIDRAllocators := cs,
                          v4CIDRAllocators := (case r4 of None \<Rightarrow> v4CIDRAllocators m
                                               | Some r \<Rightarrow> Revert ops r (v4CIDRAllocators m))\<rparr>)
            | (Inr (r, ns), cs) \<Rightarrow>
                (Inr (c\<lparr>v6PodCIDRs := ns\<rparr>, True),
                 m\<lparr>v6CIDRAllocators := cs, nodes := (nodes m)(name \<mapsto> c\<lparr>v6PodCIDRs := ns\<rparr>)\<rparr>))
      else (Inr (c, r4 \<noteq> None), m\<lparr>nodes := (nodes m)(name \<mapsto> c)\<rparr>))"

definition reuseIPNets ::
    "'c cidr_ops \<Rightarrow> string \<Rightarrow> ipnet list \<Rightarrow> ipnet list \<Rightarrow> 'c NodesPodCIDRManager
     \<Rightarrow> (pc_error + (nodeCIDRs \<times> bool)) \<times> 'c NodesPodCIDRManager" where
  "reuseIPNets ops name v4 v6 m =
     (case reuseChecks name v4 v6 m of
        Some e \<Rightarrow> (Inl e, m)
      | None \<Rightarrow>
          (let c = old_cidrs m name;
               can6 = canAllocateFamily m name v6PodCIDRs
           in if canAllocateFamily m name v4PodCIDRs \<and> v4CIDRAllocators m \<noteq> []
              then (case takeCIDRs ops v4AllocatorType (v4CIDRAllocators m) v4 of
                      (Inl e, cs) \<Rightarrow> (Inl e, m\<lparr>v4CIDRAllocators := cs\<rparr>)
                    | (Inr (r, ns), cs) \<Rightarrow>
                        reuseV6 ops name v6 can6 (c\<lparr>v4PodCIDRs := ns\<rparr>) (Some r)
                          (write_through name (c\<lparr>v4PodCIDRs := ns\<rparr>) (m\<lparr>v4CIDRAllocators := cs\<rparr>)))
              else reuseV6 ops name v6 can6 c None m))"

text \<open>\<open>allocateNext\<close>: (CIDRs, newly allocated).\<close>

definition nextV6 ::
    "'c cidr_ops \<Rightarrow> string \<Rightarrow> ipnet list \<Rightarrow> revert option \<Rightarrow> 'c NodesPodCIDRManager
     \<Rightarrow> (pc_error + (nodeCIDRs \<times> bool)) \<times> 'c NodesPodCIDRManager" where
  "nextV6 ops name v4 r4 m =
     (if v6CIDRAllocators m \<noteq> []
      then (case allocateFirstFreeCIDR ops (v6CIDRAllocators m) of
              (Inl e, cs) \<Rightarrow>
                (Inl e, m\<lparr>v6CIDRAllocators := cs,
                          v4CIDRAllocators := (case r4 of None \<Rightarrow> v4CIDRAllocators m
                                               | Some r \<Rightarrow> Revert ops r (v4CIDRAllocators m))\<rparr>)
            | (Inr (r, n), cs) \<Rightarrow>
                (Inr (\<lparr>v4PodCIDRs = v4, v6PodCIDRs = [n]\<rparr>, True),
                 m\<lparr>v6CIDRAllocators := cs,
                   nodes := (nodes m)(name \<mapsto> \<lparr>v4PodCIDRs = v4, v6PodCIDRs = [n]\<rparr>)\<rparr>))
      else if v4 = []
      then (Inl (ErrNoAllocators name (getCIDRAllocatorsInfo ops (v4CIDRAllocators m))
                   (getCIDRAllocatorsInfo ops (v6CIDRAllocators m))), m)
      else (Inr (\<lparr>v4PodCIDRs = v4, v6PodCIDRs = []\<rparr>, True),
            m\<lparr>nodes := (nodes m)(name \<mapsto> \<lparr>v4PodCIDRs = v4, v6PodCIDRs = []\<rparr>)\<rparr>))"

definition allocateNext ::
    "'c cidr_ops \<Rightarrow> string \<Rightarrow> 'c NodesPodCIDRManager
     \<Rightarrow> (pc_error + (nodeCIDRs \<times> bool)) \<times> 'c NodesPodCIDRManager" where
  "allocateNext ops name m =
     (case nodes m name of
        Some cidrs \<Rightarrow> (Inr (cidrs, False), m)
      | None \<Rightarrow>
          (if v4CIDRAllocators m \<noteq> []
           then (case allocateFirstFreeCIDR ops (v4CIDRAllocators m) of
                   (Inl e, cs) \<Rightarrow> (Inl e, m\<lparr>v4CIDRAllocators := cs\<rparr>)
                 | (Inr (r, n), cs) \<Rightarrow>
                     nextV6 ops name [n] (Some r) (m\<lparr>v4CIDRAllocators := cs\<rparr>))
           else nextV6 ops name [] None m))"

section \<open>Handling a node\<close>

definition set_OperatorError :: "string \<Rightarrow> NetResourceSet \<Rightarrow> NetResourceSet" where
  "set_OperatorError e n = n\<lparr>StatusIPAM := (StatusIPAM n)\<lparr>OperatorError := e\<rparr>\<rparr>"

definition set_PodCIDRs :: "string list \<Rightarrow> NetResourceSet \<Rightarrow> NetResourceSet" where
  "set_PodCIDRs cs n = n\<lparr>SpecIPAM := (SpecIPAM n)\<lparr>PodCIDRs := cs\<rparr>\<rparr>"

record node_answer =
  naNode :: "NetResourceSet option"
  naAllocated :: bool
  naUpdateStatus :: bool

text \<open>Every error is turned into a status by the deferred function of \<open>allocateNode\<close>, because each
  of its error returns has set \<open>updateStatus\<close>.\<close>

definition error_answer :: "pc_error \<Rightarrow> NetResourceSet \<Rightarrow> node_answer" where
  "error_answer e node =
     \<lparr>naNode = Some (set_OperatorError (pc_error_string e) node), naAllocated = False,
      naUpdateStatus = True\<rparr>"

definition cidrs_answer :: "nodeCIDRs \<Rightarrow> bool \<Rightarrow> NetResourceSet \<Rightarrow> node_answer" where
  "cidrs_answer c allocated' node =
     \<lparr>naNode = Some (set_OperatorError [] (set_PodCIDRs
         (map ipnet_string (v4PodCIDRs c) @ map ipnet_string (v6PodCIDRs c)) node)),
      naAllocated = allocated', naUpdateStatus = False\<rparr>"

definition postpone :: "NetResourceSet \<Rightarrow> 'c NodesPodCIDRManager \<Rightarrow> node_answer \<times> 'c NodesPodCIDRManager" where
  "postpone node m =
     (\<lparr>naNode = None, naAllocated = False, naUpdateStatus = False\<rparr>,
      m\<lparr>nodesToAllocate := (nodesToAllocate m)(nrsName node \<mapsto> node)\<rparr>)"

definition reuse_answer :: "NetResourceSet \<Rightarrow> nodeCIDRs \<Rightarrow> bool \<Rightarrow> 'c NodesPodCIDRManager
    \<Rightarrow> node_answer \<times> 'c NodesPodCIDRManager" where
  "reuse_answer node c allocated' m =
     (if allocated' then (cidrs_answer c True node, m)
      else if \<not> canAllocatePodCIDRs m then postpone node m
      else if OperatorError (StatusIPAM node) \<noteq> []
      then (\<lparr>naNode = Some (set_OperatorError [] node), naAllocated = False, naUpdateStatus = True\<rparr>, m)
      else (\<lparr>naNode = None, naAllocated = False, naUpdateStatus = False\<rparr>, m))"

definition allocateNode ::
    "'c cidr_ops \<Rightarrow> NetResourceSet \<Rightarrow> 'c NodesPodCIDRManager \<Rightarrow> node_answer \<times> 'c NodesPodCIDRManager" where
  "allocateNode ops node m =
     (if PodCIDRs (SpecIPAM node) = []
      then (if \<not> canAllocatePodCIDRs m then postpone node m
            else case allocateNext ops (nrsName node) m of
              (Inl e, m') \<Rightarrow> (error_answer e node, m')
            | (Inr (c, a), m') \<Rightarrow> (cidrs_answer c a node, m'))
      else case parseNodeCIDRs (PodCIDRs (SpecIPAM node)) \<lparr>v4PodCIDRs = [], v6PodCIDRs = []\<rparr> of
        Inl e \<Rightarrow> (error_answer e node, m)
      | Inr req \<Rightarrow>
          (case reuseIPNets ops (nrsName node) (v4PodCIDRs req) (v6PodCIDRs req) m of
             (Inl e, m') \<Rightarrow> (error_answer e node, m')
           | (Inr (c, a), m') \<Rightarrow> reuse_answer node c a m'))"

definition syncNode :: "k8sOp \<Rightarrow> NetResourceSet \<Rightarrow> 'c NodesPodCIDRManager \<Rightarrow> 'c NodesPodCIDRManager" where
  "syncNode op n m =
     m\<lparr>netResourceSetsToK8s := (netResourceSetsToK8s m)(nrsName n \<mapsto> (op, Some n)), resyncTriggered := True\<rparr>"

definition upsertLocked :: "'c cidr_ops \<Rightarrow> NetResourceSet \<Rightarrow> 'c NodesPodCIDRManager \<Rightarrow> 'c NodesPodCIDRManager" where
  "upsertLocked ops node m =
     (case allocateNode ops node m of
        (ans, m') \<Rightarrow>
          (case naNode ans of
             None \<Rightarrow> m'
           | Some cn \<Rightarrow>
               if \<not> naAllocated ans \<and> naUpdateStatus ans
               then syncNode (if ResourceVersion cn \<noteq> [] then k8sOpUpdateStatus else k8sOpCreate) cn m'
               else syncNode (if ResourceVersion cn \<noteq> [] then k8sOpUpdate else k8sOpCreate) cn m'))"

text \<open>\<open>Create\<close> and \<open>Update\<close> are \<open>upsertLocked\<close>.\<close>

definition pc_Update :: "'c cidr_ops \<Rightarrow> NetResourceSet \<Rightarrow> 'c NodesPodCIDRManager \<Rightarrow> 'c NodesPodCIDRManager" where
  "pc_Update ops node m = upsertLocked ops node m"

definition pc_Delete :: "'c cidr_ops \<Rightarrow> string \<Rightarrow> 'c NodesPodCIDRManager \<Rightarrow> 'c NodesPodCIDRManager" where
  "pc_Delete ops name m =
     (let m1 = (if \<not> canAllocatePodCIDRs m
                then m\<lparr>nodesToAllocate := (nodesToAllocate m)(name := None)\<rparr> else m)
      in case releaseIPNets ops name m1 of
           (False, m2) \<Rightarrow> m2
         | (True, m2) \<Rightarrow>
             m2\<lparr>netResourceSetsToK8s := (netResourceSetsToK8s m2)(name \<mapsto> (k8sOpDelete, None)),
                resyncTriggered := True\<rparr>)"

definition AnnotationRDMAInfoVifFeatures :: string where
  "AnnotationRDMAInfoVifFeatures = ''cce.baidubce.com/rdma-vif-features''"

definition is_eth :: "NetResourceSet \<Rightarrow> bool" where
  "is_eth n \<longleftrightarrow> Annotations n AnnotationRDMAInfoVifFeatures = None"

text \<open>\<open>Resync\<close>: \<open>nrsDatas\<close> is what the lister returns, \<open>ks\<close> the order in which the postponed
  nodes are visited.\<close>

definition Resync ::
    "'c cidr_ops \<Rightarrow> NetResourceSet list \<Rightarrow> string list \<Rightarrow> 'c NodesPodCIDRManager \<Rightarrow> 'c NodesPodCIDRManager" where
  "Resync ops nrsDatas ks m =
     (if canAllocatePodCIDRs m then m\<lparr>resyncTriggered := True\<rparr>
      else (let m1 = fold (upsertLocked ops) (filter is_eth nrsDatas) m;
                m2 = m1\<lparr>canAllocatePodCIDRs := True\<rparr>;
                m3 = fold (\<lambda>k. upsertLocked ops (the (nodesToAllocate m1 k))) ks m2
            in m3\<lparr>nodesToAllocate := Map.empty, resyncTriggered := True\<rparr>))"

section \<open>The contract of an allocator\<close>

text \<open>What the code relies on, with \<open>U c\<close> the blocks in use, \<open>S c n\<close> the blocks a CIDR covers and
  \<open>N c\<close> the cluster CIDR: a CIDR is in range iff it shares an address with the cluster CIDR,
  occupying and releasing change exactly the blocks of the CIDR, and two CIDRs that share an
  address share a block.\<close>

definition keeps_shape :: "('c \<Rightarrow> ipnet \<Rightarrow> 'b set) \<Rightarrow> ('c \<Rightarrow> ipnet) \<Rightarrow> 'c \<Rightarrow> 'c \<Rightarrow> bool" where
  "keeps_shape S N c c' \<longleftrightarrow> S c' = S c \<and> N c' = N c"

definition cidr_laws ::
    "'c cidr_ops \<Rightarrow> ('c \<Rightarrow> 'b set) \<Rightarrow> ('c \<Rightarrow> ipnet \<Rightarrow> 'b set) \<Rightarrow> ('c \<Rightarrow> ipnet) \<Rightarrow> bool" where
  "cidr_laws ops U S N \<longleftrightarrow>
     (\<forall>n c. cInRange ops n c \<longleftrightarrow> \<not> nets_disjoint n (N c)) \<and>
     (\<forall>n sz c. cNew ops n sz = Inr c \<longrightarrow> N c = n \<and> U c = {}) \<and>
     (\<forall>n c c'. cInRange ops n c \<and> cOccupy ops n c = Inr c' \<longrightarrow>
        U c' = U c \<union> S c n \<and> keeps_shape S N c c') \<and>
     (\<forall>n c b. cInRange ops n c \<and> cIsAllocated ops n c = Inr b \<longrightarrow> (b \<longleftrightarrow> S c n \<inter> U c \<noteq> {})) \<and>
     (\<forall>c n c'. cAllocateNext ops c = Inr (n, c') \<longrightarrow>
        (\<forall>a. net_contains n a \<longrightarrow> net_contains (N c) a) \<and> cInRange ops n c \<and>
        S c n \<inter> U c = {} \<and> U c' = U c \<union> S c n \<and> keeps_shape S N c c') \<and>
     (\<forall>c. \<not> cIsFull ops c \<longrightarrow> (\<exists>n c'. cAllocateNext ops c = Inr (n, c'))) \<and>
     (\<forall>n c. cInRange ops n c \<longrightarrow>
        (\<exists>c'. cRelease ops n c = Inr c' \<and> U c' = U c - S c n \<and> keeps_shape S N c c')) \<and>
     (\<forall>n k c. cInRange ops n c \<and> cInRange ops k c \<and> \<not> nets_disjoint n k \<longrightarrow> S c n \<inter> S c k \<noteq> {})"

lemma law_range:
  "cidr_laws ops U S N \<Longrightarrow> cInRange ops n c \<longleftrightarrow> \<not> nets_disjoint n (N c)"
  unfolding cidr_laws_def by (elim conjE) meson

lemma law_new:
  "cidr_laws ops U S N \<Longrightarrow> cNew ops n sz = Inr c \<Longrightarrow> N c = n \<and> U c = {}"
  unfolding cidr_laws_def by (elim conjE) meson

lemma law_occupy:
  "cidr_laws ops U S N \<Longrightarrow> cInRange ops n c \<Longrightarrow> cOccupy ops n c = Inr c' \<Longrightarrow>
     U c' = U c \<union> S c n \<and> keeps_shape S N c c'"
  unfolding cidr_laws_def by (elim conjE) meson

lemma law_allocated:
  "cidr_laws ops U S N \<Longrightarrow> cInRange ops n c \<Longrightarrow> cIsAllocated ops n c = Inr b \<Longrightarrow> (b \<longleftrightarrow> S c n \<inter> U c \<noteq> {})"
  unfolding cidr_laws_def by (elim conjE) meson

lemma law_next:
  "cidr_laws ops U S N \<Longrightarrow> cAllocateNext ops c = Inr (n, c') \<Longrightarrow>
     (\<forall>a. net_contains n a \<longrightarrow> net_contains (N c) a) \<and> cInRange ops n c \<and>
     S c n \<inter> U c = {} \<and> U c' = U c \<union> S c n \<and> keeps_shape S N c c'"
  unfolding cidr_laws_def by (elim conjE) meson

lemma law_notfull:
  "cidr_laws ops U S N \<Longrightarrow> \<not> cIsFull ops c \<Longrightarrow> \<exists>n c'. cAllocateNext ops c = Inr (n, c')"
  unfolding cidr_laws_def by (elim conjE) meson

lemma law_release:
  "cidr_laws ops U S N \<Longrightarrow> cInRange ops n c \<Longrightarrow>
     \<exists>c'. cRelease ops n c = Inr c' \<and> U c' = U c - S c n \<and> keeps_shape S N c c'"
  unfolding cidr_laws_def by (elim conjE) meson

lemma law_share:
  "cidr_laws ops U S N \<Longrightarrow> cInRange ops n c \<Longrightarrow> cInRange ops k c \<Longrightarrow> \<not> nets_disjoint n k \<Longrightarrow>
     S c n \<inter> S c k \<noteq> {}"
  unfolding cidr_laws_def by (elim conjE) meson

section \<open>The accounting of one family\<close>

text \<open>The allocator a CIDR belongs to is the first one with the CIDR in range.\<close>

fun home :: "'c cidr_ops \<Rightarrow> ipnet \<Rightarrow> 'c list \<Rightarrow> nat option" where
  "home ops n [] = None"
| "home ops n (c # cs) = (if cInRange ops n c then Some 0 else map_option Suc (home ops n cs))"

definition net_blocks :: "'c cidr_ops \<Rightarrow> ('c \<Rightarrow> ipnet \<Rightarrow> 'b set) \<Rightarrow> 'c list \<Rightarrow> ipnet \<Rightarrow> (nat \<times> 'b) set" where
  "net_blocks ops S cs n = {(i, b). home ops n cs = Some i \<and> b \<in> S (cs ! i) n}"

definition node_blocks :: "'c cidr_ops \<Rightarrow> ('c \<Rightarrow> ipnet \<Rightarrow> 'b set) \<Rightarrow> 'c list \<Rightarrow> ipnet list \<Rightarrow> (nat \<times> 'b) set" where
  "node_blocks ops S cs ns = (\<Union>n\<in>set ns. net_blocks ops S cs n)"

definition used_blocks :: "('c \<Rightarrow> 'b set) \<Rightarrow> 'c list \<Rightarrow> (nat \<times> 'b) set" where
  "used_blocks U cs = {(i, b). i < length cs \<and> b \<in> U (cs ! i)}"

definition clusters_disjoint :: "('c \<Rightarrow> ipnet) \<Rightarrow> 'c list \<Rightarrow> bool" where
  "clusters_disjoint N cs \<longleftrightarrow>
     (\<forall>i j. i < j \<and> j < length cs \<longrightarrow> nets_disjoint (N (cs ! i)) (N (cs ! j)))"

text \<open>The accounting is exact: every CIDR of a node has a home, no block is held twice, and the
  blocks in use are those the nodes hold.\<close>

definition accounts ::
    "'c cidr_ops \<Rightarrow> ('c \<Rightarrow> 'b set) \<Rightarrow> ('c \<Rightarrow> ipnet \<Rightarrow> 'b set) \<Rightarrow> ('c \<Rightarrow> ipnet) \<Rightarrow> 'c list
     \<Rightarrow> (string \<Rightarrow> ipnet list) \<Rightarrow> bool" where
  "accounts ops U S N cs cl \<longleftrightarrow>
     clusters_disjoint N cs \<and>
     (\<forall>x. \<forall>n\<in>set (cl x). home ops n cs \<noteq> None) \<and>
     (\<forall>x. sorted_wrt (\<lambda>n k. net_blocks ops S cs n \<inter> net_blocks ops S cs k = {}) (cl x)) \<and>
     (\<forall>x y. x \<noteq> y \<longrightarrow> node_blocks ops S cs (cl x) \<inter> node_blocks ops S cs (cl y) = {}) \<and>
     used_blocks U cs = (\<Union>x. node_blocks ops S cs (cl x))"

definition same_shapes :: "('c \<Rightarrow> ipnet \<Rightarrow> 'b set) \<Rightarrow> ('c \<Rightarrow> ipnet) \<Rightarrow> 'c list \<Rightarrow> 'c list \<Rightarrow> bool" where
  "same_shapes S N cs cs' \<longleftrightarrow> list_all2 (keeps_shape S N) cs cs'"

lemma same_shapes_refl: "same_shapes S N cs cs"
  by (simp add: same_shapes_def keeps_shape_def list_all2_refl)

lemma same_shapes_update:
  "i < length cs \<Longrightarrow> keeps_shape S N (cs ! i) c \<Longrightarrow> same_shapes S N cs (cs[i := c])"
  by (auto simp: same_shapes_def keeps_shape_def list_all2_conv_all_nth nth_list_update)

lemma home_SomeD: "home ops n cs = Some i \<Longrightarrow> i < length cs \<and> cInRange ops n (cs ! i)"
  by (induction cs arbitrary: i) (auto split: if_splits)

lemma home_same_shapes:
  assumes "cidr_laws ops U S N" "same_shapes S N cs cs'"
  shows "home ops n cs' = home ops n cs"
  using assms(2) unfolding same_shapes_def
  by (induction rule: list_all2_induct)
    (auto simp: law_range [OF assms(1)] keeps_shape_def)

lemma net_blocks_same_shapes:
  assumes "cidr_laws ops U S N" "same_shapes S N cs cs'"
  shows "net_blocks ops S cs' n = net_blocks ops S cs n"
  using home_same_shapes [OF assms, of n] assms(2)
  by (auto simp: net_blocks_def same_shapes_def keeps_shape_def list_all2_conv_all_nth
      dest: home_SomeD)

lemma clusters_same_shapes:
  "same_shapes S N cs cs' \<Longrightarrow> clusters_disjoint N cs \<Longrightarrow> clusters_disjoint N cs'"
  by (auto simp: clusters_disjoint_def same_shapes_def keeps_shape_def list_all2_conv_all_nth)

lemma net_blocks_home: "home ops n cs = Some i \<Longrightarrow> net_blocks ops S cs n = {i} \<times> S (cs ! i) n"
  by (auto simp: net_blocks_def)

lemma node_blocks_simps [simp]:
  "node_blocks ops S cs [] = {}"
  "node_blocks ops S cs (n # ns) = net_blocks ops S cs n \<union> node_blocks ops S cs ns"
  "node_blocks ops S cs (ns @ ms) = node_blocks ops S cs ns \<union> node_blocks ops S cs ms"
  by (auto simp: node_blocks_def)

lemma accountsD:
  assumes "accounts ops U S N cs cl"
  shows "clusters_disjoint N cs" "\<And>x n. n \<in> set (cl x) \<Longrightarrow> home ops n cs \<noteq> None"
    "\<And>x. sorted_wrt (\<lambda>n k. net_blocks ops S cs n \<inter> net_blocks ops S cs k = {}) (cl x)"
    "\<And>x y. x \<noteq> y \<Longrightarrow> node_blocks ops S cs (cl x) \<inter> node_blocks ops S cs (cl y) = {}"
    "used_blocks U cs = (\<Union>x. node_blocks ops S cs (cl x))"
  using assms unfolding accounts_def by simp_all

lemma accounts_blocks_update:
  assumes "cidr_laws ops U S N" "home ops n cs = Some i" "keeps_shape S N (cs ! i) c"
  shows "same_shapes S N cs (cs[i := c])"
    and "net_blocks ops S (cs[i := c]) = net_blocks ops S cs"
    and "node_blocks ops S (cs[i := c]) = node_blocks ops S cs"
    and "home ops k (cs[i := c]) = home ops k cs"
proof -
  show sh: "same_shapes S N cs (cs[i := c])"
    using home_SomeD [OF assms(2)] assms(3) by (simp add: same_shapes_update)
  show nb: "net_blocks ops S (cs[i := c]) = net_blocks ops S cs"
    using net_blocks_same_shapes [OF assms(1) sh] by auto
  show "node_blocks ops S (cs[i := c]) = node_blocks ops S cs"
    by (auto simp: node_blocks_def nb)
  show "home ops k (cs[i := c]) = home ops k cs"
    by (rule home_same_shapes [OF assms(1) sh])
qed

text \<open>Taking a CIDR whose blocks are free.\<close>

lemma accounts_take:
  assumes L: "cidr_laws ops U S N" and A: "accounts ops U S N cs cl"
    and h: "home ops n cs = Some i" and sh: "keeps_shape S N (cs ! i) c"
    and free: "S (cs ! i) n \<inter> U (cs ! i) = {}" and u: "U c = U (cs ! i) \<union> S (cs ! i) n"
  shows "accounts ops U S N (cs[i := c]) (cl(x := cl x @ [n]))"
proof -
  note upd = accounts_blocks_update [OF L h sh]
  have i: "i < length cs" using home_SomeD [OF h] by simp
  have nb: "net_blocks ops S cs n = {i} \<times> S (cs ! i) n" by (rule net_blocks_home [OF h])
  have used: "used_blocks U (cs[i := c]) = used_blocks U cs \<union> net_blocks ops S cs n"
    using i by (auto simp: u nb used_blocks_def nth_list_update split: if_splits)
  have fresh: "net_blocks ops S cs n \<inter> used_blocks U cs = {}"
    using free by (auto simp: nb used_blocks_def)
  have fresh': "net_blocks ops S cs n \<inter> node_blocks ops S cs (cl y) = {}" for y
    using fresh A by (auto simp: accounts_def)
  have fresh1: "k \<in> set (cl y) \<Longrightarrow> net_blocks ops S cs k \<inter> net_blocks ops S cs n = {}" for k y
    using fresh' [of y] by (auto simp: node_blocks_def)
  show ?thesis
    unfolding accounts_def upd(2,3,4)
  proof (intro conjI)
    show "clusters_disjoint N (cs[i := c])"
      using A clusters_same_shapes [OF upd(1)] by (auto simp: accounts_def)
    show "\<forall>y. \<forall>k\<in>set ((cl(x := cl x @ [n])) y). home ops k cs \<noteq> None"
      using A h by (auto simp: accounts_def)
    show "\<forall>y. sorted_wrt (\<lambda>n k. net_blocks ops S cs n \<inter> net_blocks ops S cs k = {}) ((cl(x := cl x @ [n])) y)"
      using A fresh1 by (auto simp: accounts_def sorted_wrt_append)
    show "\<forall>y z. y \<noteq> z \<longrightarrow> node_blocks ops S cs ((cl(x := cl x @ [n])) y) \<inter>
        node_blocks ops S cs ((cl(x := cl x @ [n])) z) = {}"
      using accountsD(4) [OF A] fresh' by (simp add: Int_Un_distrib Int_Un_distrib2 Int_commute)
    show "used_blocks U (cs[i := c]) = (\<Union>y. node_blocks ops S cs ((cl(x := cl x @ [n])) y))"
      using A by (auto simp: used accounts_def split: if_splits)
  qed
qed

text \<open>Giving back the first CIDR of a node.\<close>

lemma accounts_drop:
  assumes L: "cidr_laws ops U S N" and A: "accounts ops U S N cs cl" and cl: "cl x = n # ns"
    and h: "home ops n cs = Some i" and sh: "keeps_shape S N (cs ! i) c"
    and u: "U c = U (cs ! i) - S (cs ! i) n"
  shows "accounts ops U S N (cs[i := c]) (cl(x := ns))"
proof -
  note upd = accounts_blocks_update [OF L h sh]
  have i: "i < length cs" using home_SomeD [OF h] by simp
  have nb: "net_blocks ops S cs n = {i} \<times> S (cs ! i) n" by (rule net_blocks_home [OF h])
  have used: "used_blocks U (cs[i := c]) = used_blocks U cs - net_blocks ops S cs n"
    using i by (auto simp: u nb used_blocks_def nth_list_update split: if_splits)
  have own: "net_blocks ops S cs n \<inter> node_blocks ops S cs ns = {}"
    using accountsD(3) [OF A, of x] cl by (auto simp: node_blocks_def)
  have other: "y \<noteq> x \<Longrightarrow> net_blocks ops S cs n \<inter> node_blocks ops S cs (cl y) = {}" for y
  proof -
    assume "y \<noteq> x"
    then have "node_blocks ops S cs (cl x) \<inter> node_blocks ops S cs (cl y) = {}"
      using A unfolding accounts_def by metis
    then show ?thesis using cl by auto
  qed
  show ?thesis
    unfolding accounts_def upd(2,3,4)
  proof (intro conjI)
    show "clusters_disjoint N (cs[i := c])"
      using A clusters_same_shapes [OF upd(1)] by (auto simp: accounts_def)
    show "\<forall>y. \<forall>k\<in>set ((cl(x := ns)) y). home ops k cs \<noteq> None"
    proof (intro allI ballI)
      fix y k assume "k \<in> set ((cl(x := ns)) y)"
      then have "k \<in> set (cl y)" using cl by (auto split: if_splits)
      then show "home ops k cs \<noteq> None" using A by (auto simp: accounts_def)
    qed
    show "\<forall>y. sorted_wrt (\<lambda>n k. net_blocks ops S cs n \<inter> net_blocks ops S cs k = {}) ((cl(x := ns)) y)"
    proof
      fix y show "sorted_wrt (\<lambda>n k. net_blocks ops S cs n \<inter> net_blocks ops S cs k = {}) ((cl(x := ns)) y)"
        using A [unfolded accounts_def] cl by (cases "y = x") (auto dest!: spec [of _ x])
    qed
    show "\<forall>y z. y \<noteq> z \<longrightarrow> node_blocks ops S cs ((cl(x := ns)) y) \<inter>
        node_blocks ops S cs ((cl(x := ns)) z) = {}"
    proof (intro allI impI)
      fix y z :: string assume "y \<noteq> z"
      then have "node_blocks ops S cs (cl y) \<inter> node_blocks ops S cs (cl z) = {}"
        using A unfolding accounts_def by metis
      moreover have "node_blocks ops S cs ((cl(x := ns)) v) \<subseteq> node_blocks ops S cs (cl v)" for v
        using cl by auto
      ultimately show "node_blocks ops S cs ((cl(x := ns)) y) \<inter>
        node_blocks ops S cs ((cl(x := ns)) z) = {}" by blast
    qed
    have "used_blocks U cs = (\<Union>y. node_blocks ops S cs (cl y))"
      using A by (simp add: accounts_def)
    also have "\<dots> = net_blocks ops S cs n \<union> node_blocks ops S cs ns \<union>
        (\<Union>y\<in>-{x}. node_blocks ops S cs (cl y))"
      using cl by (auto simp: set_eq_iff) (metis Un_iff node_blocks_simps(2))+
    finally have "used_blocks U cs - net_blocks ops S cs n =
        node_blocks ops S cs ns \<union> (\<Union>y\<in>-{x}. node_blocks ops S cs (cl y))"
      using own other by auto
    also have "\<dots> = (\<Union>y. node_blocks ops S cs ((cl(x := ns)) y))"
      by (auto split: if_splits)
    finally show "used_blocks U (cs[i := c]) = (\<Union>y. node_blocks ops S cs ((cl(x := ns)) y))"
      by (simp add: used)
  qed
qed

subsection \<open>The operations on one family\<close>

lemma occupyIn_ok:
  assumes L: "cidr_laws ops U S N"
  shows "occupyIn ops n cs = Inr (i, cs') \<Longrightarrow>
    home ops n cs = Some i \<and> (\<exists>c. cs' = cs[i := c] \<and> keeps_shape S N (cs ! i) c \<and>
      S (cs ! i) n \<inter> U (cs ! i) = {} \<and> U c = U (cs ! i) \<union> S (cs ! i) n)"
proof (induction cs arbitrary: i cs')
  case (Cons c cs)
  show ?case
  proof (cases "cInRange ops n c")
    case True
    then show ?thesis using Cons.prems law_occupy [OF L True] law_allocated [OF L True]
      by (auto split: if_splits sum.splits bool.splits)
  next
    case False
    then obtain j cs1 where 1: "occupyIn ops n cs = Inr (j, cs1)" "i = Suc j" "cs' = c # cs1"
      using Cons.prems by (auto split: sum.splits)
    then show ?thesis using Cons.IH [OF 1(1)] False by auto
  qed
qed simp

lemma accounts_occupyIn:
  assumes L: "cidr_laws ops U S N" and A: "accounts ops U S N cs cl"
    and o': "occupyIn ops n cs = Inr (i, cs')"
  shows "accounts ops U S N cs' (cl(x := cl x @ [n]))"
  using occupyIn_ok [OF L o'] accounts_take [OF L A] by auto

lemma accounts_occupyAll:
  assumes L: "cidr_laws ops U S N"
  shows "accounts ops U S N cs cl \<Longrightarrow> occupyAll ops ns cs st v = (None, cs', st', v') \<Longrightarrow>
    accounts ops U S N cs' (cl(x := cl x @ ns))"
proof (induction ns arbitrary: cs cl st v)
  case (Cons n ns)
  then obtain i cs1 where 1: "occupyIn ops n cs = Inr (i, cs1)"
      "occupyAll ops ns cs1 (st @ [i]) n = (None, cs', st', v')"
    by (auto split: sum.splits)
  from Cons.IH [OF accounts_occupyIn [OF L Cons.prems(1) 1(1), of x] 1(2)] show ?case
    by (simp add: fun_upd_def if_distrib cong: if_cong)
qed simp

lemma firstFree_SomeD: "firstFree ops cs = Some i \<Longrightarrow> i < length cs \<and> \<not> cIsFull ops (cs ! i)"
  by (induction cs arbitrary: i) (auto split: if_splits)

text \<open>An allocated CIDR lies in its cluster CIDR, so its allocator is its home when the cluster
  CIDRs are disjoint.\<close>

lemma home_allocated:
  assumes L: "cidr_laws ops U S N" and d: "clusters_disjoint N cs" and i: "i < length cs"
    and n: "\<forall>a. net_contains n a \<longrightarrow> net_contains (N (cs ! i)) a" "cInRange ops n (cs ! i)"
  shows "home ops n cs = Some i"
proof -
  have out: "\<not> cInRange ops n (cs ! j)" if j: "j < i" for j
  proof
    assume "cInRange ops n (cs ! j)"
    then obtain a b where "net_contains n a" "net_contains (N (cs ! j)) b" "ip_string a = ip_string b"
      by (auto simp: law_range [OF L] nets_disjoint_def)
    then show False using n(1) d i j by (force simp: clusters_disjoint_def nets_disjoint_def)
  qed
  have "\<forall>j<i. \<not> cInRange ops n (cs ! j) \<Longrightarrow> cInRange ops n (cs ! i) \<Longrightarrow> i < length cs \<Longrightarrow>
      home ops n cs = Some i"
  proof (induction cs arbitrary: i)
    case (Cons c cs)
    then show ?case
      by (cases i) (auto simp: All_less_Suc2)
  qed simp
  then show ?thesis using out n(2) i by blast
qed

lemma allocateFirstFree_ok:
  assumes L: "cidr_laws ops U S N" and A: "accounts ops U S N cs cl"
    and f: "allocateFirstFreeCIDR ops cs = (Inr (r, n), cs')"
  shows "\<exists>i. r = ([i], n) \<and> home ops n cs = Some i \<and> accounts ops U S N cs' (cl(x := cl x @ [n])) \<and>
    (\<exists>c. cs' = cs[i := c] \<and> keeps_shape S N (cs ! i) c)"
proof -
  obtain i c where 1: "firstFree ops cs = Some i" "cAllocateNext ops (cs ! i) = Inr (n, c)"
      "r = ([i], n)" "cs' = cs[i := c]"
    using f by (auto simp: allocateFirstFreeCIDR_def split: option.splits sum.splits)
  note next' = law_next [OF L 1(2)]
  have "home ops n cs = Some i"
    using home_allocated [OF L _ _ conjunct1 [OF next']] A next' firstFree_SomeD [OF 1(1)]
    by (auto simp: accounts_def)
  then show ?thesis using accounts_take [OF L A, of n i c x] next' 1 by blast
qed

lemma allocateFirstFree_error:
  assumes "cidr_laws ops U S N" "allocateFirstFreeCIDR ops cs = (Inl e, cs')"
  shows "cs' = cs \<and> e = ErrAllocatorFull \<and> (\<forall>c\<in>set cs. cIsFull ops c)"
proof -
  have "firstFree ops cs = None \<Longrightarrow> \<forall>c\<in>set cs. cIsFull ops c"
    by (induction cs) (auto split: if_splits)
  then show ?thesis
    using assms(2) law_notfull [OF assms(1)] firstFree_SomeD [of ops cs]
    by (fastforce simp: allocateFirstFreeCIDR_def split: option.splits sum.splits)
qed

text \<open>Releasing a CIDR through its home.\<close>

lemma releaseFirst_home:
  assumes L: "cidr_laws ops U S N"
  shows "home ops n cs = Some i \<Longrightarrow>
    \<exists>c. releaseFirst ops n cs = cs[i := c] \<and> cRelease ops n (cs ! i) = Inr c \<and>
        keeps_shape S N (cs ! i) c \<and> U c = U (cs ! i) - S (cs ! i) n"
proof (induction cs arbitrary: i)
  case (Cons c cs)
  show ?case
  proof (cases "cInRange ops n c")
    case True
    then show ?thesis using Cons.prems law_release [OF L True] by auto
  next
    case False
    then show ?thesis using Cons by (auto split: if_splits)
  qed
qed simp

lemma accounts_releaseFirst:
  assumes L: "cidr_laws ops U S N" and A: "accounts ops U S N cs cl" and cl: "cl x = n # ns"
  shows "accounts ops U S N (releaseFirst ops n cs) (cl(x := ns))"
proof -
  obtain i where h: "home ops n cs = Some i"
  proof -
    have "\<forall>k\<in>set (cl x). home ops k cs \<noteq> None" using A unfolding accounts_def by blast
    then show ?thesis using cl that by auto
  qed
  from releaseFirst_home [OF L h] accounts_drop [OF L A cl h] show ?thesis by auto
qed

lemma accounts_releaseCIDRs:
  assumes L: "cidr_laws ops U S N"
  shows "accounts ops U S N cs cl \<Longrightarrow> accounts ops U S N (releaseCIDRs ops (cl x) cs) (cl(x := []))"
proof (induction "cl x" arbitrary: cl cs)
  case Nil
  then have "cl(x := []) = cl" by auto
  then show ?case using Nil by (simp add: releaseCIDRs_def)
next
  case (Cons n ns)
  from Cons.hyps(1) [of "cl(x := ns)" "releaseFirst ops n cs"]
    accounts_releaseFirst [OF L Cons.prems Cons.hyps(2) [symmetric]]
  show ?case using Cons.hyps(2) [symmetric] by (simp add: releaseCIDRs_def)
qed

text \<open>Undoing the allocation of one CIDR.\<close>

lemma accounts_revert_single:
  assumes L: "cidr_laws ops U S N" and A: "accounts ops U S N cs (cl(x := [n]))"
    and h: "home ops n cs = Some i"
  shows "accounts ops U S N (Revert ops ([i], n) cs) (cl(x := []))"
proof -
  obtain c where c: "cRelease ops n (cs ! i) = Inr c" "keeps_shape S N (cs ! i) c"
      "U c = U (cs ! i) - S (cs ! i) n"
    using releaseFirst_home [OF L h] by blast
  from accounts_drop [OF L A, of x n "[]" i c] h c show ?thesis
    by (simp add: Revert_def)
qed

section \<open>The invariant of the manager\<close>

definition held :: "(nodeCIDRs \<Rightarrow> ipnet list) \<Rightarrow> (string \<rightharpoonup> nodeCIDRs) \<Rightarrow> string \<Rightarrow> ipnet list" where
  "held sel f x = (case f x of None \<Rightarrow> [] | Some c \<Rightarrow> sel c)"

lemma held_upd [simp]:
  "held sel (f(x \<mapsto> c)) = (held sel f)(x := sel c)"
  "held sel (f(x := None)) = (held sel f)(x := [])"
  "f x = None \<Longrightarrow> held sel f x = []"
  by (auto simp: held_def fun_eq_iff)

abbreviation cl4 :: "'c NodesPodCIDRManager \<Rightarrow> string \<Rightarrow> ipnet list" where
  "cl4 m \<equiv> held v4PodCIDRs (nodes m)"

abbreviation cl6 :: "'c NodesPodCIDRManager \<Rightarrow> string \<Rightarrow> ipnet list" where
  "cl6 m \<equiv> held v6PodCIDRs (nodes m)"

text \<open>A resource that asks for at most one CIDR of each family.\<close>

definition single_stack :: "NetResourceSet \<Rightarrow> bool" where
  "single_stack n \<longleftrightarrow>
     (case parseNodeCIDRs (PodCIDRs (SpecIPAM n)) \<lparr>v4PodCIDRs = [], v6PodCIDRs = []\<rparr> of
        Inl _ \<Rightarrow> True
      | Inr req \<Rightarrow> length (v4PodCIDRs req) \<le> 1 \<and> length (v6PodCIDRs req) \<le> 1)"

definition mgr_inv ::
    "'c cidr_ops \<Rightarrow> ('c \<Rightarrow> 'b set) \<Rightarrow> ('c \<Rightarrow> ipnet \<Rightarrow> 'b set) \<Rightarrow> ('c \<Rightarrow> ipnet)
     \<Rightarrow> 'c NodesPodCIDRManager \<Rightarrow> bool" where
  "mgr_inv ops U S N m \<longleftrightarrow>
     accounts ops U S N (v4CIDRAllocators m) (cl4 m) \<and>
     accounts ops U S N (v6CIDRAllocators m) (cl6 m) \<and>
     (\<forall>x c. nodes m x = Some c \<longrightarrow> v4PodCIDRs c \<noteq> [] \<or> v6PodCIDRs c \<noteq> []) \<and>
     (\<forall>x n. nodesToAllocate m x = Some n \<longrightarrow> single_stack n)"

lemma takeCIDRs_ok:
  assumes L: "cidr_laws ops U S N" and A: "accounts ops U S N cs cl" and x: "cl x = []"
    and len: "length ns \<le> 1" and t: "takeCIDRs ops ty cs ns = (Inr (r, ns'), cs')"
  shows "\<exists>n i. ns' = [n] \<and> r = ([i], n) \<and> home ops n cs' = Some i \<and>
    accounts ops U S N cs' (cl(x := [n])) \<and> (ns \<noteq> [] \<longrightarrow> ns' = ns)"
proof (cases ns)
  case Nil
  then obtain n where n: "allocateFirstFreeCIDR ops cs = (Inr (r, n), cs')" "ns' = [n]"
    using t by (auto simp: takeCIDRs_def split: prod.splits sum.splits)
  from allocateFirstFree_ok [OF L A n(1), of x] obtain i c where
    i: "r = ([i], n)" "home ops n cs = Some i" "accounts ops U S N cs' (cl(x := cl x @ [n]))"
       "cs' = cs[i := c]" "keeps_shape S N (cs ! i) c" by blast
  from accounts_blocks_update(4) [OF L i(2,5), of n] i n(2) x Nil show ?thesis by auto
next
  case (Cons n ns1)
  then have ns: "ns = [n]" using len by simp
  then obtain i where n: "occupyIn ops n cs = Inr (i, cs')" "r = ([i], n)" "ns' = [n]"
    using t by (auto simp: takeCIDRs_def allocateIPNet_def split: prod.splits sum.splits if_splits)
  from occupyIn_ok [OF L n(1)] obtain c where
    c: "home ops n cs = Some i" "cs' = cs[i := c]" "keeps_shape S N (cs ! i) c" by blast
  from accounts_blocks_update(4) [OF L c(1,3), of n] accounts_occupyIn [OF L A n(1), of x] c n x ns
  show ?thesis by auto
qed

lemma takeCIDRs_error:
  assumes L: "cidr_laws ops U S N" and len: "length ns \<le> 1"
    and t: "takeCIDRs ops ty cs ns = (Inl e, cs')"
  shows "cs' = cs"
proof (cases ns)
  case Nil
  then have "\<exists>e. allocateFirstFreeCIDR ops cs = (Inl e, cs')"
    using t by (auto simp: takeCIDRs_def split: prod.splits sum.splits)
  then show ?thesis using allocateFirstFree_error [OF L] by blast
next
  case (Cons n ns1)
  then show ?thesis using t len
    by (auto simp: takeCIDRs_def allocateIPNet_def Revert_def split: prod.splits sum.splits if_splits)
qed

text \<open>The IPv6 half of a request, after an IPv4 half that may have taken a CIDR.\<close>

lemma reuseV6_inv:
  assumes L: "cidr_laws ops U S N" and len: "length v6 \<le> 1"
    and A6: "accounts ops U S N (v6CIDRAllocators m) (cl6 m)"
    and A4: "accounts ops U S N (v4CIDRAllocators m) ((cl4 m)(name := v4PodCIDRs c))"
    and c6: "v6PodCIDRs c = cl6 m name"
    and can: "can6 \<Longrightarrow> cl6 m name = [] \<and> (r4 \<noteq> None \<longrightarrow> nodes m name = None)"
    and r4: "case r4 of None \<Rightarrow> cl4 m name = v4PodCIDRs c
             | Some r \<Rightarrow> \<exists>n i. v4PodCIDRs c = [n] \<and> r = ([i], n) \<and> home ops n (v4CIDRAllocators m) = Some i"
    and ne: "v4PodCIDRs c \<noteq> [] \<or> v6PodCIDRs c \<noteq> [] \<or> can6 \<and> v6CIDRAllocators m \<noteq> []"
    and rest: "\<forall>x c. nodes m x = Some c \<longrightarrow> v4PodCIDRs c \<noteq> [] \<or> v6PodCIDRs c \<noteq> []"
      "\<forall>x n. nodesToAllocate m x = Some n \<longrightarrow> single_stack n"
  shows "mgr_inv ops U S N (snd (reuseV6 ops name v6 can6 c r4 m))"
proof (cases "can6 \<and> v6CIDRAllocators m \<noteq> []")
  case False
  have "(cl6 m)(name := v6PodCIDRs c) = cl6 m" by (simp add: c6)
  then show ?thesis using False A4 A6 ne rest by (auto simp: reuseV6_def mgr_inv_def)
next
  case True
  with can have free: "cl6 m name = []" and z4: "r4 \<noteq> None \<Longrightarrow> cl4 m name = []" by auto
  obtain res cs where t: "takeCIDRs ops v6AllocatorType (v6CIDRAllocators m) v6 = (res, cs)"
    by (cases "takeCIDRs ops v6AllocatorType (v6CIDRAllocators m) v6") auto
  show ?thesis
  proof (cases res)
    case (Inr rn)
    then obtain r ns where rn: "rn = (r, ns)" by (cases rn)
    from takeCIDRs_ok [OF L A6 free len t [unfolded Inr rn]] obtain n where
      n: "ns = [n]" "accounts ops U S N cs ((cl6 m)(name := [n]))" by blast
    show ?thesis using True t Inr rn n A4 rest by (auto simp: reuseV6_def mgr_inv_def)
  next
    case (Inl e)
    from takeCIDRs_error [OF L len t [unfolded Inl]] have cs: "cs = v6CIDRAllocators m" .
    have "accounts ops U S N (case r4 of None \<Rightarrow> v4CIDRAllocators m
            | Some r \<Rightarrow> Revert ops r (v4CIDRAllocators m)) (cl4 m)"
    proof (cases r4)
      case None
      then have "(cl4 m)(name := v4PodCIDRs c) = cl4 m" using r4 by auto
      then show ?thesis using A4 None by simp
    next
      case (Some r)
      then obtain n i where n: "v4PodCIDRs c = [n]" "r = ([i], n)"
          "home ops n (v4CIDRAllocators m) = Some i" using r4 by auto
      have "(cl4 m)(name := []) = cl4 m" using z4 Some by auto
      then show ?thesis
        using accounts_revert_single [OF L A4 [unfolded n(1)] n(3)] Some n(2) by simp
    qed
    then show ?thesis using True t Inl cs A6 rest by (auto simp: reuseV6_def mgr_inv_def)
  qed
qed

lemma reuseIPNets_inv:
  assumes L: "cidr_laws ops U S N" and I: "mgr_inv ops U S N m"
    and len: "length v4 \<le> 1" "length v6 \<le> 1" and ne: "v4 \<noteq> [] \<or> v6 \<noteq> []"
  shows "mgr_inv ops U S N (snd (reuseIPNets ops name v4 v6 m))"
proof (cases "reuseChecks name v4 v6 m")
  case (Some e)
  then show ?thesis using I by (simp add: reuseIPNets_def)
next
  case None
  note I' = I [unfolded mgr_inv_def]
  have alloc: "v4 \<noteq> [] \<Longrightarrow> v4CIDRAllocators m \<noteq> []" "v6 \<noteq> [] \<Longrightarrow> v6CIDRAllocators m \<noteq> []"
    using None by (auto simp: reuseChecks_def split: if_splits)
  let ?c = "old_cidrs m name"
  let ?can6 = "canAllocateFamily m name v6PodCIDRs"
  have sel: "cl4 m name = v4PodCIDRs ?c" "cl6 m name = v6PodCIDRs ?c"
    by (auto simp: held_def old_cidrs_def split: option.splits)
  have can6: "?can6 \<Longrightarrow> cl6 m name = []"
    by (auto simp: canAllocateFamily_def held_def split: option.splits)
  have old: "nodes m name \<noteq> None \<Longrightarrow> v4PodCIDRs ?c \<noteq> [] \<or> v6PodCIDRs ?c \<noteq> []"
    using I' by (auto simp: old_cidrs_def)
  show ?thesis
  proof (cases "canAllocateFamily m name v4PodCIDRs \<and> v4CIDRAllocators m \<noteq> []")
    case False
    have id4: "(cl4 m)(name := v4PodCIDRs ?c) = cl4 m" by (simp add: sel(1) [symmetric])
    have "v4PodCIDRs ?c \<noteq> [] \<or> v6PodCIDRs ?c \<noteq> [] \<or> ?can6 \<and> v6CIDRAllocators m \<noteq> []"
    proof (cases "nodes m name")
      case None
      then show ?thesis using False alloc ne by (auto simp: canAllocateFamily_def)
    qed (use old in auto)
    moreover have "snd (reuseIPNets ops name v4 v6 m) = snd (reuseV6 ops name v6 ?can6 ?c None m)"
      using False None by (auto simp: reuseIPNets_def)
    ultimately show ?thesis
      using reuseV6_inv [OF L len(2), of m name ?c ?can6 None] I' can6 by (simp add: sel id4)
  next
    case True
    then have z4: "cl4 m name = []" by (auto simp: canAllocateFamily_def held_def split: option.splits)
    obtain res cs where t: "takeCIDRs ops v4AllocatorType (v4CIDRAllocators m) v4 = (res, cs)"
      by (cases "takeCIDRs ops v4AllocatorType (v4CIDRAllocators m) v4") auto
    show ?thesis
    proof (cases res)
      case (Inl e)
      from takeCIDRs_error [OF L len(1) t [unfolded Inl]] show ?thesis
        using True None t Inl I by (simp add: reuseIPNets_def)
    next
      case (Inr rn)
      then obtain r ns where rn: "rn = (r, ns)" by (cases rn)
      from takeCIDRs_ok [OF L conjunct1 [OF I'] z4 len(1) t [unfolded Inr rn]] obtain n i where
        n: "ns = [n]" "r = ([i], n)" "home ops n cs = Some i" "accounts ops U S N cs ((cl4 m)(name := [n]))"
        by blast
      define c where "c = ?c\<lparr>v4PodCIDRs := ns\<rparr>"
      define m1 where "m1 = write_through name c (m\<lparr>v4CIDRAllocators := cs\<rparr>)"
      have m1: "v4CIDRAllocators m1 = cs" "v6CIDRAllocators m1 = v6CIDRAllocators m"
          "nodesToAllocate m1 = nodesToAllocate m"
        by (simp_all add: m1_def write_through_def)
      have nodes1: "nodes m1 = nodes m \<and> nodes m name = None \<or>
          nodes m1 = (nodes m)(name \<mapsto> c) \<and> nodes m name \<noteq> None"
        by (simp add: m1_def write_through_def)
      have c6: "v6PodCIDRs c = cl6 m name" by (simp add: c_def sel)
      have cl: "cl6 m1 = cl6 m" "(cl4 m1)(name := ns) = (cl4 m)(name := [n])"
      proof -
        have "v4PodCIDRs c = ns" by (simp add: c_def)
        with nodes1 c6 n(1) show "cl6 m1 = cl6 m" "(cl4 m1)(name := ns) = (cl4 m)(name := [n])"
          by (auto simp: fun_upd_idem)
      qed
      have new: "?can6 \<Longrightarrow> nodes m1 name = None"
        using nodes1 old True can6 z4 by (auto simp: sel)
      have rest: "\<forall>x c. nodes m1 x = Some c \<longrightarrow> v4PodCIDRs c \<noteq> [] \<or> v6PodCIDRs c \<noteq> []"
        using nodes1 I' n(1) by (auto simp: c_def split: if_splits)
      have "snd (reuseIPNets ops name v4 v6 m) = snd (reuseV6 ops name v6 ?can6 c (Some r) m1)"
        using True None t Inr rn by (simp add: reuseIPNets_def c_def m1_def Let_def)
      then show ?thesis
        using reuseV6_inv [OF L len(2), of m1 name c ?can6 "Some r"] I' n new rest can6 c6 m1 cl
        by (simp add: c_def)
    qed
  qed
qed


lemma nextV6_inv:
  assumes L: "cidr_laws ops U S N"
    and A6: "accounts ops U S N (v6CIDRAllocators m) (cl6 m)"
    and A4: "accounts ops U S N (v4CIDRAllocators m) ((cl4 m)(name := v4))"
    and new: "nodes m name = None"
    and r4: "case r4 of None \<Rightarrow> v4 = []
             | Some r \<Rightarrow> \<exists>n i. v4 = [n] \<and> r = ([i], n) \<and> home ops n (v4CIDRAllocators m) = Some i"
    and rest: "\<forall>x c. nodes m x = Some c \<longrightarrow> v4PodCIDRs c \<noteq> [] \<or> v6PodCIDRs c \<noteq> []"
      "\<forall>x n. nodesToAllocate m x = Some n \<longrightarrow> single_stack n"
  shows "mgr_inv ops U S N (snd (nextV6 ops name v4 r4 m))"
proof -
  have id: "(cl4 m)(name := []) = cl4 m" "(cl6 m)(name := []) = cl6 m" using new by auto
  show ?thesis
  proof (cases "v6CIDRAllocators m = []")
    case True
    then show ?thesis using A4 A6 id rest
      by (cases "v4 = []") (simp_all add: nextV6_def mgr_inv_def)
  next
    case False
    obtain res cs where t: "allocateFirstFreeCIDR ops (v6CIDRAllocators m) = (res, cs)"
      by (cases "allocateFirstFreeCIDR ops (v6CIDRAllocators m)") auto
    show ?thesis
    proof (cases res)
      case (Inr rn)
      then obtain r n where rn: "rn = (r, n)" by (cases rn)
      have "accounts ops U S N cs ((cl6 m)(name := [n]))"
        using allocateFirstFree_ok [OF L A6 t [unfolded Inr rn], of name] new by auto
      then show ?thesis using False t Inr rn A4 rest by (auto simp: nextV6_def mgr_inv_def)
    next
      case (Inl e)
      then have cs: "cs = v6CIDRAllocators m" using allocateFirstFree_error [OF L] t by blast
      have "accounts ops U S N (case r4 of None \<Rightarrow> v4CIDRAllocators m
              | Some r \<Rightarrow> Revert ops r (v4CIDRAllocators m)) (cl4 m)"
        using r4 A4 accounts_revert_single [OF L, of "v4CIDRAllocators m" "cl4 m" name] id
        by (auto split: option.splits)
      then show ?thesis using False t Inl cs A6 rest by (auto simp: nextV6_def mgr_inv_def)
    qed
  qed
qed

lemma allocateNext_inv:
  assumes L: "cidr_laws ops U S N" and I: "mgr_inv ops U S N m"
  shows "mgr_inv ops U S N (snd (allocateNext ops name m))"
proof (cases "nodes m name")
  case (Some c)
  then show ?thesis using I by (simp add: allocateNext_def)
next
  case None
  note I' = I [unfolded mgr_inv_def]
  have id: "(cl4 m)(name := []) = cl4 m" using None by auto
  obtain res cs where t: "allocateFirstFreeCIDR ops (v4CIDRAllocators m) = (res, cs)"
    by (cases "allocateFirstFreeCIDR ops (v4CIDRAllocators m)") auto
  show ?thesis
  proof (cases "v4CIDRAllocators m = []")
    case True
    then show ?thesis using nextV6_inv [OF L, of m name "[]" None] I' None id
      by (simp add: allocateNext_def)
  next
    case False
    show ?thesis
    proof (cases res)
      case (Inl e)
      then have "cs = v4CIDRAllocators m" using allocateFirstFree_error [OF L] t by blast
      then show ?thesis using Inl t None False I by (simp add: allocateNext_def)
    next
      case (Inr rn)
      then obtain r n where rn: "rn = (r, n)" by (cases rn)
      from allocateFirstFree_ok [OF L conjunct1 [OF I'] t [unfolded Inr rn], of name] None obtain i c where
        i: "r = ([i], n)" "home ops n (v4CIDRAllocators m) = Some i"
           "accounts ops U S N cs ((cl4 m)(name := [n]))"
           "cs = (v4CIDRAllocators m)[i := c]" "keeps_shape S N (v4CIDRAllocators m ! i) c" by auto
      have "home ops n cs = Some i"
        using accounts_blocks_update(4) [OF L i(2,5), of n] i by simp
      then show ?thesis
        using nextV6_inv [OF L, of "m\<lparr>v4CIDRAllocators := cs\<rparr>" name "[n]" "Some r"] None False t Inr rn i I'
        by (simp add: allocateNext_def)
    qed
  qed
qed

lemma releaseIPNets_inv:
  assumes L: "cidr_laws ops U S N" and I: "mgr_inv ops U S N m"
  shows "mgr_inv ops U S N (snd (releaseIPNets ops name m))"
proof (cases "nodes m name")
  case None
  then show ?thesis using I by (simp add: releaseIPNets_def)
next
  case (Some c)
  note I' = I [unfolded mgr_inv_def]
  have "cl4 m name = v4PodCIDRs c" "cl6 m name = v6PodCIDRs c" using Some by (simp_all add: held_def)
  then show ?thesis
    using Some I' accounts_releaseCIDRs [OF L, of "v4CIDRAllocators m" "cl4 m" name]
      accounts_releaseCIDRs [OF L, of "v6CIDRAllocators m" "cl6 m" name]
    by (auto simp: releaseIPNets_def mgr_inv_def)
qed

lemma mgr_inv_frame:
  assumes "mgr_inv ops U S N m" "v4CIDRAllocators m' = v4CIDRAllocators m"
    "v6CIDRAllocators m' = v6CIDRAllocators m" "nodes m' = nodes m"
    "\<forall>x n. nodesToAllocate m' x = Some n \<longrightarrow> single_stack n"
  shows "mgr_inv ops U S N m'"
  using assms by (simp add: mgr_inv_def)

lemma parse_nonempty:
  "parseNodeCIDRs ss c = Inr req \<Longrightarrow>
   length (v4PodCIDRs req) + length (v6PodCIDRs req) = length ss + length (v4PodCIDRs c) + length (v6PodCIDRs c)"
  by (induction ss c rule: parseNodeCIDRs.induct) (auto split: option.splits if_splits prod.splits)

lemma allocateNode_inv:
  assumes L: "cidr_laws ops U S N" and I: "mgr_inv ops U S N m" and s: "single_stack node"
  shows "mgr_inv ops U S N (snd (allocateNode ops node m))"
proof -
  have pp: "mgr_inv ops U S N (snd (postpone node m'))" if "mgr_inv ops U S N m'" for m'
    using that s by (auto simp: postpone_def mgr_inv_def)
  show ?thesis
  proof (cases "PodCIDRs (SpecIPAM node) = []")
    case True
    then show ?thesis using pp [OF I] allocateNext_inv [OF L I, of "nrsName node"] I
      by (auto simp: allocateNode_def split: prod.splits sum.splits)
  next
    case False
    show ?thesis
    proof (cases "parseNodeCIDRs (PodCIDRs (SpecIPAM node)) \<lparr>v4PodCIDRs = [], v6PodCIDRs = []\<rparr>")
      case (Inl e)
      then show ?thesis using False I by (simp add: allocateNode_def)
    next
      case (Inr req)
      have "v4PodCIDRs req \<noteq> [] \<or> v6PodCIDRs req \<noteq> []"
        using parse_nonempty [OF Inr] False by auto
      then have "mgr_inv ops U S N
          (snd (reuseIPNets ops (nrsName node) (v4PodCIDRs req) (v6PodCIDRs req) m))"
        using reuseIPNets_inv [OF L I] s Inr by (simp add: single_stack_def)
      then show ?thesis using False Inr pp
        by (auto simp: allocateNode_def reuse_answer_def split: prod.splits sum.splits)
    qed
  qed
qed

lemma syncNode_frame: "mgr_inv ops U S N m \<Longrightarrow> mgr_inv ops U S N (syncNode op n m)"
  by (simp add: syncNode_def mgr_inv_def)

lemma upsertLocked_inv:
  assumes "cidr_laws ops U S N" "mgr_inv ops U S N m" "single_stack node"
  shows "mgr_inv ops U S N (upsertLocked ops node m)"
  using allocateNode_inv [OF assms]
  by (auto simp: upsertLocked_def syncNode_frame split: prod.splits option.splits)

lemma fold_upsert_inv:
  assumes L: "cidr_laws ops U S N"
  shows "mgr_inv ops U S N m \<Longrightarrow> \<forall>n\<in>set ns. single_stack n \<Longrightarrow>
    mgr_inv ops U S N (fold (upsertLocked ops) ns m)"
  by (induction ns arbitrary: m) (auto intro: upsertLocked_inv [OF L])

lemma pc_Delete_inv:
  assumes L: "cidr_laws ops U S N" and I: "mgr_inv ops U S N m"
  shows "mgr_inv ops U S N (pc_Delete ops name m)"
proof -
  define m1 where "m1 = (if \<not> canAllocatePodCIDRs m
      then m\<lparr>nodesToAllocate := (nodesToAllocate m)(name := None)\<rparr> else m)"
  have "mgr_inv ops U S N m1" using I by (auto simp: m1_def mgr_inv_def)
  from releaseIPNets_inv [OF L this, of name] show ?thesis
    by (cases "releaseIPNets ops name m1")
      (auto simp: pc_Delete_def m1_def [symmetric] mgr_inv_def split: bool.splits)
qed

lemma Resync_inv:
  assumes L: "cidr_laws ops U S N" and I: "mgr_inv ops U S N m"
    and ns: "\<forall>n\<in>set ns. single_stack n"
    and ks: "set ks \<subseteq> dom (nodesToAllocate (fold (upsertLocked ops) (filter is_eth ns) m))"
  shows "mgr_inv ops U S N (Resync ops ns ks m)"
proof (cases "canAllocatePodCIDRs m")
  case True
  then show ?thesis using I by (simp add: Resync_def mgr_inv_def)
next
  case False
  define m1 where "m1 = fold (upsertLocked ops) (filter is_eth ns) m"
  have I1: "mgr_inv ops U S N m1"
    using fold_upsert_inv [OF L I, of "filter is_eth ns"] ns by (simp add: m1_def)
  have "\<forall>n\<in>set (map (\<lambda>k. the (nodesToAllocate m1 k)) ks). single_stack n"
    using ks I1 by (auto simp: m1_def mgr_inv_def)
  moreover have "mgr_inv ops U S N (m1\<lparr>canAllocatePodCIDRs := True\<rparr>)"
    using I1 by (simp add: mgr_inv_def)
  ultimately have "mgr_inv ops U S N (fold (upsertLocked ops)
      (map (\<lambda>k. the (nodesToAllocate m1 k)) ks) (m1\<lparr>canAllocatePodCIDRs := True\<rparr>))"
    using fold_upsert_inv [OF L] by blast
  then show ?thesis using False
    by (simp add: Resync_def Let_def m1_def [symmetric] fold_map comp_def mgr_inv_def)
qed

section \<open>Reachable states\<close>

text \<open>The events of the operator, from the start, with resources that ask for at most one CIDR of
  each family. \<open>ks\<close> is the order in which \<open>Resync\<close> visits the postponed nodes.\<close>

inductive pc_reachable :: "'c cidr_ops \<Rightarrow> 'c NodesPodCIDRManager \<Rightarrow> 'c NodesPodCIDRManager \<Rightarrow> bool"
  for ops m0 where
  start: "pc_reachable ops m0 m0"
| update: "pc_reachable ops m0 m \<Longrightarrow> single_stack node \<Longrightarrow> pc_reachable ops m0 (pc_Update ops node m)"
| delete: "pc_reachable ops m0 m \<Longrightarrow> pc_reachable ops m0 (pc_Delete ops name m)"
| resync: "pc_reachable ops m0 m \<Longrightarrow> \<forall>n\<in>set ns. single_stack n \<Longrightarrow>
    iter_order ks (nodesToAllocate (fold (upsertLocked ops) (filter is_eth ns) m)) \<Longrightarrow>
    pc_reachable ops m0 (Resync ops ns ks m)"

lemma new_manager_inv:
  assumes "clusters_disjoint N v4" "clusters_disjoint N v6"
    "\<forall>c\<in>set v4 \<union> set v6. U c = {}"
  shows "mgr_inv ops U S N (NewNodesPodCIDRManager v4 v6)"
proof -
  have "held sel Map.empty = (\<lambda>_. [])" for sel by (auto simp: held_def)
  then show ?thesis using assms
    by (auto simp: mgr_inv_def NewNodesPodCIDRManager_def accounts_def used_blocks_def)
qed

lemma reachable_inv:
  assumes L: "cidr_laws ops U S N" and I: "mgr_inv ops U S N m0" and r: "pc_reachable ops m0 m"
  shows "mgr_inv ops U S N m"
  using r
proof induction
  case (resync m ns ks)
  from resync(3) have "set ks \<subseteq> dom (nodesToAllocate (fold (upsertLocked ops) (filter is_eth ns) m))"
    by (simp add: iter_order_def)
  then show ?case using Resync_inv [OF L resync(4,2)] by blast
qed (use I L in \<open>auto simp: pc_Update_def intro: upsertLocked_inv pc_Delete_inv\<close>)

lemma accounts_exclusive:
  assumes L: "cidr_laws ops U S N" and A: "accounts ops U S N cs cl"
    and xy: "x \<noteq> y" "n \<in> set (cl x)" "k \<in> set (cl y)" "home ops n cs = home ops k cs"
  shows "nets_disjoint n k"
proof (rule ccontr)
  assume c: "\<not> nets_disjoint n k"
  obtain i where i: "home ops n cs = Some i" using accountsD(2) [OF A xy(2)] by auto
  then have "S (cs ! i) n \<inter> S (cs ! i) k \<noteq> {}"
    using law_share [OF L _ _ c, of "cs ! i"] home_SomeD [OF i] xy(4) home_SomeD by metis
  then have "net_blocks ops S cs n \<inter> net_blocks ops S cs k \<noteq> {}"
    using i xy(4) by (auto simp: net_blocks_home)
  moreover have "net_blocks ops S cs n \<subseteq> node_blocks ops S cs (cl x)"
      "net_blocks ops S cs k \<subseteq> node_blocks ops S cs (cl y)"
    using xy by (auto simp: node_blocks_def)
  ultimately show False using accountsD(4) [OF A xy(1)] by blast
qed

end
