(* ===== verification/ClusterPool.thy ===== *)
theory ClusterPool
  imports NodesPodCIDR
begin

text \<open>
  Around the pod-CIDR manager: the construction of the cluster pool
  (\<open>pkg/ipam/allocator/clusterpool/clusterpool.go\<close>), the synchronisation of the decisions with the
  Kubernetes API (\<open>syncToK8s\<close> of \<open>podcidr.go\<close>), and the properties of both.
\<close>

section \<open>The cluster pool\<close>

datatype pool_error = CIDRCollision string | PoolErr string

definition newCIDRSet :: "'c cidr_ops \<Rightarrow> bool \<Rightarrow> ip \<Rightarrow> ipnet \<Rightarrow> int \<Rightarrow> pool_error + 'c" where
  "newCIDRSet ops isV6 addr cidr maskSize =
     (if isV6 \<and> IsIPv4 addr then Inl (PoolErr ''CIDR is not v6 family'')
      else if \<not> isV6 \<and> \<not> IsIPv4 addr then Inl (PoolErr ''CIDR is not v4 family'')
      else case cNew ops cidr maskSize of Inl e \<Rightarrow> Inl (PoolErr e) | Inr c \<Rightarrow> Inr c)"

fun newCIDRSetsLoop ::
    "'c cidr_ops \<Rightarrow> bool \<Rightarrow> string list \<Rightarrow> int \<Rightarrow> 'c list \<Rightarrow> pool_error + 'c list" where
  "newCIDRSetsLoop ops isV6 [] maskSize cs = Inr cs"
| "newCIDRSetsLoop ops isV6 (s # ss) maskSize cs =
     (case ParseCIDR s of
        None \<Rightarrow> Inl (PoolErr ''invalid CIDR address'')
      | Some (addr, cidr) \<Rightarrow>
          if list_ex (cInRange ops cidr) cs then Inl (CIDRCollision s)
          else (case newCIDRSet ops isV6 addr cidr maskSize of
                  Inl e \<Rightarrow> Inl e
                | Inr c \<Rightarrow> newCIDRSetsLoop ops isV6 ss maskSize (cs @ [c])))"

definition newCIDRSets :: "'c cidr_ops \<Rightarrow> bool \<Rightarrow> string list \<Rightarrow> int \<Rightarrow> pool_error + 'c list" where
  "newCIDRSets ops isV6 strCIDRs maskSize = newCIDRSetsLoop ops isV6 strCIDRs maskSize []"

record pool_config =
  EnableIPv4 :: bool
  EnableIPv6 :: bool
  ClusterPoolIPv4CIDR :: "string list"
  ClusterPoolIPv6CIDR :: "string list"
  NodeCIDRMaskSizeIPv4 :: int
  NodeCIDRMaskSizeIPv6 :: int

definition initFamily ::
    "'c cidr_ops \<Rightarrow> bool \<Rightarrow> bool \<Rightarrow> string list \<Rightarrow> int \<Rightarrow> pool_error + 'c list" where
  "initFamily ops isV6 enabled cidrs maskSize =
     (if enabled
      then (if cidrs = [] then Inl (PoolErr ''must be provided when using ClusterPool'')
            else newCIDRSets ops isV6 cidrs maskSize)
      else if cidrs \<noteq> [] then Inl (PoolErr ''must not be set if the family is disabled'')
      else Inr [])"

text \<open>\<open>Init\<close>: (IPv4 allocators, IPv6 allocators).\<close>

definition cp_Init :: "'c cidr_ops \<Rightarrow> pool_config \<Rightarrow> pool_error + ('c list \<times> 'c list)" where
  "cp_Init ops cf =
     (case initFamily ops False (EnableIPv4 cf) (ClusterPoolIPv4CIDR cf) (NodeCIDRMaskSizeIPv4 cf) of
        Inl e \<Rightarrow> Inl e
      | Inr v4 \<Rightarrow>
          (case initFamily ops True (EnableIPv6 cf) (ClusterPoolIPv6CIDR cf) (NodeCIDRMaskSizeIPv6 cf) of
             Inl e \<Rightarrow> Inl e
           | Inr v6 \<Rightarrow> Inr (v4, v6)))"

lemma newCIDRSetsLoop_ok:
  assumes L: "cidr_laws ops U S N"
  shows "newCIDRSetsLoop ops isV6 ss maskSize cs = Inr cs' \<Longrightarrow>
    clusters_disjoint N cs \<Longrightarrow> \<forall>c\<in>set cs. U c = {} \<Longrightarrow>
    clusters_disjoint N cs' \<and> (\<forall>c\<in>set cs'. U c = {})"
proof (induction ss arbitrary: cs)
  case (Cons s ss)
  obtain addr cidr where p: "ParseCIDR s = Some (addr, cidr)"
    using Cons.prems(1) by (cases "ParseCIDR s") auto
  then obtain c where c: "\<not> list_ex (cInRange ops cidr) cs" "cNew ops cidr maskSize = Inr c"
      "newCIDRSetsLoop ops isV6 ss maskSize (cs @ [c]) = Inr cs'"
    using Cons.prems(1) by (auto simp: newCIDRSet_def split: if_splits sum.splits)
  have "N c = cidr" "U c = {}" using law_new [OF L c(2)] by auto
  moreover have "nets_disjoint (N d) cidr" if "d \<in> set cs" for d
    using c(1) that law_range [OF L, of cidr d]
    by (auto simp: list_ex_iff nets_disjoint_ips Int_commute)
  ultimately have "clusters_disjoint N (cs @ [c])" "\<forall>d\<in>set (cs @ [c]). U d = {}"
    using Cons.prems(2,3) by (auto simp: clusters_disjoint_def nth_append less_Suc_eq)
  then show ?case using Cons.IH [OF c(3)] by blast
qed simp

lemma initFamily_ok:
  assumes L: "cidr_laws ops U S N" and "initFamily ops isV6 e ss k = Inr cs"
  shows "clusters_disjoint N cs \<and> (\<forall>c\<in>set cs. U c = {})"
proof -
  have "clusters_disjoint N []" by (simp add: clusters_disjoint_def)
  then show ?thesis using assms newCIDRSetsLoop_ok [OF L, of isV6 ss k "[]" cs]
    by (auto simp: initFamily_def newCIDRSets_def split: if_splits)
qed

section \<open>Writing the decisions to Kubernetes\<close>

text \<open>The API client is a parameter; only what the code distinguishes of an error is kept.\<close>

datatype k8s_error = NotFound | AlreadyExists | Conflict | APIError string

record 's k8s_api =
  kCreate :: "NetResourceSet \<Rightarrow> 's \<Rightarrow> k8s_error option \<times> 's"
  kUpdate :: "NetResourceSet \<Rightarrow> 's \<Rightarrow> (k8s_error + NetResourceSet) \<times> 's"
  kUpdateStatus :: "NetResourceSet \<Rightarrow> 's \<Rightarrow> k8s_error option \<times> 's"
  kGet :: "string \<Rightarrow> 's \<Rightarrow> (k8s_error + NetResourceSet) \<times> 's"

definition ignoreNotFound :: "k8s_error option \<Rightarrow> k8s_error option" where
  "ignoreNotFound e = (if e = Some NotFound then None else e)"

text \<open>The first switch of the loop body: (error, resource of the entry, API state).\<close>

definition syncStatus ::
    "'s k8s_api \<Rightarrow> NetResourceSet \<Rightarrow> 's \<Rightarrow> k8s_error option \<times> NetResourceSet option \<times> 's" where
  "syncStatus api n s = (case kUpdateStatus api n s of (e, s') \<Rightarrow> (ignoreNotFound e, Some n, s'))"

fun syncOp ::
    "'s k8s_api \<Rightarrow> string \<Rightarrow> k8sOp \<times> NetResourceSet option \<Rightarrow> 's
     \<Rightarrow> k8s_error option \<times> NetResourceSet option \<times> 's" where
  "syncOp api name (k8sOpDelete, n) s =
     (case kGet api name s of
        (Inl e, s') \<Rightarrow> (ignoreNotFound (Some e), n, s') | (Inr _, s') \<Rightarrow> (None, n, s'))"
| "syncOp api name (k8sOpCreate, n) s =
     (case kCreate api (the n) s of (e, s') \<Rightarrow> (e, n, s'))"
| "syncOp api name (k8sOpUpdateStatus, n) s = syncStatus api (the n) s"
| "syncOp api name (k8sOpUpdate, n) s =
     (case kUpdate api (the n) s of
        (Inl e, s') \<Rightarrow> (ignoreNotFound (Some e), n, s')
      | (Inr u, s') \<Rightarrow>
          syncStatus api (set_OperatorError (OperatorError (StatusIPAM (the n))) u) s')"

text \<open>What is taken over into the newest version of a resource after a conflict.\<close>

definition mergeConflict :: "NetResourceSet \<Rightarrow> NetResourceSet \<Rightarrow> NetResourceSet" where
  "mergeConflict n new' =
     set_OperatorError (OperatorError (StatusIPAM n))
       ((set_PodCIDRs (PodCIDRs (SpecIPAM n)) new')
          \<lparr>OwnerReferences := (if OwnerReferences new' = [] then OwnerReferences n
                               else OwnerReferences new')\<rparr>)"

text \<open>The loop body: (error to return, remaining entry, API state); \<open>None\<close> is the nil dereference
  of a delete entry whose \<open>Get\<close> reports a conflict.\<close>

definition syncEntry ::
    "'s k8s_api \<Rightarrow> string \<Rightarrow> k8sOp \<times> NetResourceSet option \<Rightarrow> 's
     \<Rightarrow> (k8s_error option \<times> (k8sOp \<times> NetResourceSet option) option \<times> 's) option" where
  "syncEntry api name ent s =
     (case syncOp api name ent s of
        (err, n, s') \<Rightarrow>
          if err = Some AlreadyExists \<or> err = Some Conflict
          then (case n of
                  None \<Rightarrow> None
                | Some n' \<Rightarrow>
                    (case kGet api (nrsName n') s' of
                       (Inl _, s'') \<Rightarrow> Some (err, Some (fst ent, n), s'')
                     | (Inr new', s'') \<Rightarrow>
                         Some (err, Some (if fst ent = k8sOpCreate then k8sOpUpdate else fst ent,
                                          Some (mergeConflict n' new')), s'')))
          else if err = None then Some (None, None, s')
          else Some (err, Some (fst ent, n), s'))"

fun syncLoop ::
    "'s k8s_api \<Rightarrow> string list \<Rightarrow> k8s_error option \<Rightarrow> (string \<rightharpoonup> k8sOp \<times> NetResourceSet option) \<Rightarrow> 's
     \<Rightarrow> (k8s_error option \<times> (string \<rightharpoonup> k8sOp \<times> NetResourceSet option) \<times> 's) option" where
  "syncLoop api [] ret m s = Some (ret, m, s)"
| "syncLoop api (k # ks) ret m s =
     (case syncEntry api k (the (m k)) s of
        None \<Rightarrow> None
      | Some (err, ent, s') \<Rightarrow>
          syncLoop api ks (if err = None then ret else err) (m(k := ent)) s')"

text \<open>\<open>ks\<close> is the order in which the map is visited.\<close>

definition syncToK8s ::
    "'s k8s_api \<Rightarrow> string list \<Rightarrow> (string \<rightharpoonup> k8sOp \<times> NetResourceSet option) \<Rightarrow> 's
     \<Rightarrow> (k8s_error option \<times> (string \<rightharpoonup> k8sOp \<times> NetResourceSet option) \<times> 's) option" where
  "syncToK8s api ks m s = syncLoop api ks None m s"

text \<open>What is assumed of the API: \<open>Get\<close> reports no conflict, and \<open>Update\<close> returns the
  specification it was given.\<close>

definition api_laws :: "'s k8s_api \<Rightarrow> bool" where
  "api_laws api \<longleftrightarrow>
     (\<forall>k s. fst (kGet api k s) \<notin> {Inl AlreadyExists, Inl Conflict}) \<and>
     (\<forall>n s u. fst (kUpdate api n s) = Inr u \<longrightarrow> PodCIDRs (SpecIPAM u) = PodCIDRs (SpecIPAM n))"

text \<open>A pending entry names a resource unless it is a deletion.\<close>

definition entry_ok :: "k8sOp \<times> NetResourceSet option \<Rightarrow> bool" where
  "entry_ok ent \<longleftrightarrow> (fst ent = k8sOpDelete \<longleftrightarrow> snd ent = None)"

definition same_decision :: "k8sOp \<times> NetResourceSet option \<Rightarrow> k8sOp \<times> NetResourceSet option \<Rightarrow> bool" where
  "same_decision ent ent' \<longleftrightarrow>
     (case (snd ent, snd ent') of
        (None, None) \<Rightarrow> True
      | (Some n, Some n') \<Rightarrow>
          PodCIDRs (SpecIPAM n') = PodCIDRs (SpecIPAM n) \<and>
          OperatorError (StatusIPAM n') = OperatorError (StatusIPAM n)
      | _ \<Rightarrow> False)"

lemma set_simps [simp]:
  "OperatorError (StatusIPAM (set_OperatorError e n)) = e"
  "SpecIPAM (set_OperatorError e n) = SpecIPAM n"
  "PodCIDRs (SpecIPAM (set_PodCIDRs cs n)) = cs"
  "StatusIPAM (set_PodCIDRs cs n) = StatusIPAM n"
  "nrsName (set_PodCIDRs cs n) = nrsName n" "nrsName (set_OperatorError e n) = nrsName n"
  by (simp_all add: set_OperatorError_def set_PodCIDRs_def)

lemma same_decision_simps [simp]:
  "same_decision (op, None) ent \<longleftrightarrow> snd ent = None"
  "same_decision (op, Some n) (op', Some n') \<longleftrightarrow>
     PodCIDRs (SpecIPAM n') = PodCIDRs (SpecIPAM n) \<and>
     OperatorError (StatusIPAM n') = OperatorError (StatusIPAM n)"
  "same_decision (op, Some n) (op', None) \<longleftrightarrow> False"
  by (auto simp: same_decision_def split: option.splits)

lemma syncOp_keeps:
  assumes A: "api_laws api" and E: "entry_ok (op, n)" and r: "syncOp api k (op, n) s = (err, n', s')"
  shows "same_decision (op, n) (op', n') \<and> (n = None \<longrightarrow> err \<noteq> Some AlreadyExists \<and> err \<noteq> Some Conflict)"
proof (cases op)
  case k8sOpDelete
  have "fst (kGet api k s) \<notin> {Inl AlreadyExists, Inl Conflict}" using A by (simp add: api_laws_def)
  then show ?thesis using r E k8sOpDelete
    by (auto simp: entry_ok_def ignoreNotFound_def split: prod.splits sum.splits if_splits)
next
  case k8sOpUpdate
  have "PodCIDRs (SpecIPAM u) = PodCIDRs (SpecIPAM (the n))" if "fst (kUpdate api (the n) s) = Inr u" for u
    using A that by (simp add: api_laws_def)
  then show ?thesis using r E k8sOpUpdate
    by (auto simp: entry_ok_def syncStatus_def split: prod.splits sum.splits if_splits)
qed (use r E in \<open>auto simp: entry_ok_def syncStatus_def split: prod.splits\<close>)

lemma syncEntry_keeps:
  assumes A: "api_laws api" and E: "entry_ok ent"
  shows "\<exists>err ent' s'. syncEntry api k ent s = Some (err, ent', s') \<and>
    (err = None \<longleftrightarrow> ent' = None) \<and>
    (\<forall>x. ent' = Some x \<longrightarrow> entry_ok x \<and> same_decision ent x)"
proof -
  obtain op n where ent: "ent = (op, n)" by (cases ent)
  obtain err n' s' where r: "syncOp api k (op, n) s = (err, n', s')"
    by (cases "syncOp api k (op, n) s")
  note K = syncOp_keeps [OF A E [unfolded ent] r]
  have n': "n' = None \<longleftrightarrow> n = None" using K [of op] by (cases n; cases n') auto
  have E': "op = k8sOpDelete \<longleftrightarrow> n' = None" using E ent n' by (simp add: entry_ok_def)
  show ?thesis
  proof (cases "err = Some AlreadyExists \<or> err = Some Conflict")
    case True
    then obtain x where x: "n' = Some x" using K [of op] n' by (cases n') auto
    then obtain y where y: "n = Some y" using n' by (cases n) auto
    show ?thesis using True r ent x y K E'
      by (auto simp: syncEntry_def entry_ok_def mergeConflict_def split: prod.splits sum.splits)
  next
    case False
    then show ?thesis using r ent K E'
      by (auto simp: syncEntry_def entry_ok_def)
  qed
qed

lemma syncLoop_keeps:
  assumes A: "api_laws api"
  shows "distinct ks \<Longrightarrow> \<forall>k\<in>set ks. \<exists>e. m k = Some e \<and> entry_ok e \<Longrightarrow>
    \<exists>ret' m' s'. syncLoop api ks ret m s = Some (ret', m', s') \<and>
      (ret' = None \<longleftrightarrow> ret = None \<and> (\<forall>k\<in>set ks. m' k = None)) \<and>
      (\<forall>k. k \<notin> set ks \<longrightarrow> m' k = m k) \<and>
      (\<forall>k\<in>set ks. \<forall>x. m' k = Some x \<longrightarrow> entry_ok x \<and> same_decision (the (m k)) x)"
proof (induction ks arbitrary: ret m s)
  case (Cons k ks)
  then obtain e where e: "m k = Some e" "entry_ok e" by auto
  obtain err ent s1 where 1: "syncEntry api k e s = Some (err, ent, s1)" "err = None \<longleftrightarrow> ent = None"
      "\<forall>x. ent = Some x \<longrightarrow> entry_ok x \<and> same_decision e x"
    using syncEntry_keeps [OF A e(2)] by blast
  let ?ret = "if err = None then ret else err"
  have "\<forall>j\<in>set ks. \<exists>e. (m(k := ent)) j = Some e \<and> entry_ok e" using Cons.prems by auto
  then have "\<exists>ret' m' s'. syncLoop api ks ?ret (m(k := ent)) s1 = Some (ret', m', s') \<and>
      (ret' = None \<longleftrightarrow> ?ret = None \<and> (\<forall>k\<in>set ks. m' k = None)) \<and>
      (\<forall>j. j \<notin> set ks \<longrightarrow> m' j = (m(k := ent)) j) \<and>
      (\<forall>j\<in>set ks. \<forall>x. m' j = Some x \<longrightarrow> entry_ok x \<and> same_decision (the ((m(k := ent)) j)) x)"
    using Cons.prems(1) by (intro Cons.IH) auto
  then obtain ret' m' s' where
    2: "syncLoop api ks ?ret (m(k := ent)) s1 = Some (ret', m', s')"
       "ret' = None \<longleftrightarrow> ?ret = None \<and> (\<forall>k\<in>set ks. m' k = None)"
       "\<forall>j. j \<notin> set ks \<longrightarrow> m' j = (m(k := ent)) j"
       "\<forall>j\<in>set ks. \<forall>x. m' j = Some x \<longrightarrow> entry_ok x \<and> same_decision (the ((m(k := ent)) j)) x"
    by blast
  have "m' k = ent" using 2(3) Cons.prems(1) by simp
  moreover have "syncLoop api (k # ks) ret m s = Some (ret', m', s')"
    using e(1) 1(1) 2(1) by simp
  moreover have "ret' = None \<longleftrightarrow> ret = None \<and> ent = None \<and> (\<forall>k\<in>set ks. m' k = None)"
    using 2(2) 1(2) by (auto split: if_splits)
  moreover have "\<forall>j\<in>set ks. \<forall>x. m' j = Some x \<longrightarrow> entry_ok x \<and> same_decision (the (m j)) x"
  proof (intro ballI allI impI)
    fix j x assume j: "j \<in> set ks" "m' j = Some x"
    then have "(m(k := ent)) j = m j" using Cons.prems(1) by auto
    then show "entry_ok x \<and> same_decision (the (m j)) x" using 2(4) j by metis
  qed
  ultimately show ?case using 1(3) e(1) 2(3) by auto
qed simp

section \<open>A concrete allocator\<close>

text \<open>An allocator over an explicit list of CIDRs to hand out, which satisfies the contract with the
  addresses as its blocks.\<close>

record listCIDRs =
  lcNet :: ipnet
  lcBlocks :: "ipnet list"
  lcUsed :: "string set"

definition lc_free :: "listCIDRs \<Rightarrow> ipnet \<Rightarrow> bool" where
  "lc_free c n \<longleftrightarrow> (\<forall>a. net_contains n a \<longrightarrow> net_contains (lcNet c) a) \<and>
     \<not> nets_disjoint n (lcNet c) \<and> net_ips n \<inter> lcUsed c = {}"

definition list_cidr_ops :: "ipnet list \<Rightarrow> listCIDRs cidr_ops" where
  "list_cidr_ops blocks =
     \<lparr>cNew = (\<lambda>n sz. Inr \<lparr>lcNet = n, lcBlocks = blocks, lcUsed = {}\<rparr>),
      cOccupy = (\<lambda>n c. Inr (c\<lparr>lcUsed := lcUsed c \<union> net_ips n\<rparr>)),
      cAllocateNext = (\<lambda>c. case List.find (lc_free c) (lcBlocks c) of
                             None \<Rightarrow> Inl ''full''
                           | Some n \<Rightarrow> Inr (n, c\<lparr>lcUsed := lcUsed c \<union> net_ips n\<rparr>)),
      cRelease = (\<lambda>n c. Inr (c\<lparr>lcUsed := lcUsed c - net_ips n\<rparr>)),
      cIsAllocated = (\<lambda>n c. Inr (net_ips n \<inter> lcUsed c \<noteq> {})),
      cIsFull = (\<lambda>c. List.find (lc_free c) (lcBlocks c) = None),
      cInRange = (\<lambda>n c. \<not> nets_disjoint n (lcNet c)),
      cString = (\<lambda>c. ipnet_string (lcNet c))\<rparr>"

lemma list_cidr_laws: "cidr_laws (list_cidr_ops blocks) lcUsed (\<lambda>_. net_ips) lcNet"
proof -
  have find: "List.find (lc_free c) ns = Some n \<Longrightarrow> lc_free c n" for c ns n
    by (auto simp: find_Some_iff)
  show ?thesis
    unfolding cidr_laws_def list_cidr_ops_def
    by (auto simp: keeps_shape_def nets_disjoint_ips lc_free_def dest!: find split: option.splits)
qed

text \<open>Three hosts of one cluster network.\<close>

definition host_net :: "byte \<Rightarrow> ipnet" where
  "host_net d = \<lparr>IP = [10, 0, 0, d], Mask = [255, 255, 255, 255]\<rparr>"

definition lc_net :: ipnet where
  "lc_net = \<lparr>IP = [10, 0, 0, 0], Mask = [255, 255, 255, 0]\<rparr>"

lemma to4_length: "to4 a = Some b \<Longrightarrow> length b = 4"
  by (auto simp: to4_def split: if_splits)

lemma host_contains: "net_contains (host_net d) a \<longleftrightarrow> to4 a = Some [10, 0, 0, d]"
proof -
  have n: "networkNumberAndMask (host_net d) = Some ([10, 0, 0, d], [255, 255, 255, 255])"
    by (simp add: host_net_def networkNumberAndMask_def to4_def)
  have "(255 :: byte) = -1" by simp
  then have and255: "x AND (255 :: byte) = x" for x
    by (simp only: and.right_neutral)
  show ?thesis
  proof (cases "to4 a")
    case None
    then have "length a \<noteq> 4" by (auto simp: to4_def)
    then show ?thesis using None n by (auto simp: net_contains_def Let_def)
  next
    case (Some b)
    then obtain w x y z where "b = [w, x, y, z]"
      using to4_length [OF Some] by (auto simp: length_Suc_conv eval_nat_numeral)
    then show ?thesis using Some n and255 by (auto simp: net_contains_def Let_def)
  qed
qed

lemma host_ips: "net_ips (host_net d) = {ip_string [10, 0, 0, d]}"
proof -
  have "ip_string a = ip_string [10, 0, 0, d]" if "to4 a = Some [10, 0, 0, d]" for a
  proof (cases "a = []")
    case True
    then show ?thesis using that by (simp add: to4_def)
  next
    case False
    then show ?thesis using that by (simp add: ip_string_def) (simp add: to4_def)
  qed
  moreover have "to4 [10, 0, 0, d] = Some [10, 0, 0, d]" by (simp add: to4_def)
  ultimately show ?thesis unfolding net_ips_def host_contains by blast
qed

lemma host_strings:
  "ip_string [10, 0, 0, 1] = ''10.0.0.1''" "ip_string [10, 0, 0, 2] = ''10.0.0.2''"
  "ip_string [10, 0, 0, 3] = ''10.0.0.3''"
  by (simp_all add: go_eval)

lemma host_ips_eval:
  "net_ips (host_net 1) = {''10.0.0.1''}" "net_ips (host_net 2) = {''10.0.0.2''}"
  "net_ips (host_net 3) = {''10.0.0.3''}"
  by (simp_all add: host_ips host_strings)

lemma host_in_cluster: "\<not> nets_disjoint (host_net d) lc_net"
proof -
  have "net_contains lc_net [10, 0, 0, d]"
    by (simp add: lc_net_def net_contains_def networkNumberAndMask_def to4_def)
  then have "ip_string [10, 0, 0, d] \<in> net_ips lc_net" by (auto simp: net_ips_def)
  then show ?thesis by (auto simp: nets_disjoint_ips host_ips)
qed

lemma host_subset: "net_contains (host_net d) a \<Longrightarrow> net_contains lc_net a"
  unfolding host_contains
  by (simp add: lc_net_def net_contains_def networkNumberAndMask_def) (simp add: to4_def)

text \<open>A manager with one cluster CIDR, and resources that ask for given CIDRs.\<close>

definition lc_alloc :: "string set \<Rightarrow> listCIDRs" where
  "lc_alloc used = \<lparr>lcNet = lc_net, lcBlocks = [host_net 1, host_net 2, host_net 3], lcUsed = used\<rparr>"

definition lc_ops :: "listCIDRs cidr_ops" where
  "lc_ops = list_cidr_ops [host_net 1, host_net 2, host_net 3]"

definition lc_node :: "string \<Rightarrow> string list \<Rightarrow> NetResourceSet" where
  "lc_node name cidrs =
     \<lparr>nrsName = name, ResourceVersion = ''1'', OwnerReferences = [], Annotations = Map.empty,
      SpecIPAM = \<lparr>Pool = None, PodCIDRs = cidrs, MinAllocate = 0, MaxAllocate = 0, PreAllocate = 0,
        MaxAboveWatermark = 0, PodCIDRAllocationThreshold = 0, PodCIDRReleaseThreshold = 0\<rparr>,
      SpecENI = None,
      StatusIPAM = \<lparr>Used = Map.empty, PodCIDRsStatus = Map.empty, VPCRouteCIDRs = Map.empty,
        OperatorError = [], ReleaseIPs = Map.empty, AvailableSubnetIDs = []\<rparr>,
      StatusENIs = [], PrivateCloud = None\<rparr>"

lemma lc_parse:
  "ParseCIDR ''10.0.0.1/32'' = Some (v4InV6Prefix @ [10, 0, 0, 1], host_net 1)"
  "ParseCIDR ''10.0.0.2/32'' = Some (v4InV6Prefix @ [10, 0, 0, 2], host_net 2)"
  by (simp_all add: ParseCIDR_def host_net_def go_eval)

lemma lc_laws: "cidr_laws lc_ops lcUsed (\<lambda>_. net_ips) lcNet"
  by (simp add: lc_ops_def list_cidr_laws)

lemma lc_not_full: "''10.0.0.3'' \<notin> used \<Longrightarrow> \<not> cIsFull lc_ops (lc_alloc used)"
  using host_in_cluster [of 3] host_subset [of 3]
  by (auto simp: lc_ops_def list_cidr_ops_def lc_alloc_def find_None_iff lc_free_def host_ips_eval)

lemma lc_simps:
  "cInRange lc_ops (host_net d) (lc_alloc used)"
  "cIsAllocated lc_ops n (lc_alloc used) = Inr (net_ips n \<inter> used \<noteq> {})"
  "cOccupy lc_ops n (lc_alloc used) = Inr (lc_alloc (used \<union> net_ips n))"
  "cRelease lc_ops n (lc_alloc used) = Inr (lc_alloc (used - net_ips n))"
  using host_in_cluster by (simp_all add: lc_ops_def list_cidr_ops_def lc_alloc_def)

section \<open>Properties\<close>

text \<open>
  C14: In every state the operator can reach with resources that ask for at most one CIDR of each
  family, no two nodes hold CIDRs of the same cluster CIDR that share an address, and the
  accounting is exact: the blocks in use are those the nodes hold, so nothing leaks.
\<close>

theorem pod_CIDRs_exclusive:
  assumes "cidr_laws ops U S N" "cp_Init ops cf = Inr (v4, v6)"
    and "pc_reachable ops (NewNodesPodCIDRManager v4 v6) m"
  shows "(\<forall>x y c d n k. nodes m x = Some c \<and> nodes m y = Some d \<and> x \<noteq> y \<longrightarrow>
            (n \<in> set (v4PodCIDRs c) \<and> k \<in> set (v4PodCIDRs d) \<and>
             home ops n (v4CIDRAllocators m) = home ops k (v4CIDRAllocators m) \<longrightarrow> nets_disjoint n k) \<and>
            (n \<in> set (v6PodCIDRs c) \<and> k \<in> set (v6PodCIDRs d) \<and>
             home ops n (v6CIDRAllocators m) = home ops k (v6CIDRAllocators m) \<longrightarrow> nets_disjoint n k)) \<and>
    used_blocks U (v4CIDRAllocators m) = (\<Union>x. node_blocks ops S (v4CIDRAllocators m) (cl4 m x)) \<and>
    used_blocks U (v6CIDRAllocators m) = (\<Union>x. node_blocks ops S (v6CIDRAllocators m) (cl6 m x))"
proof -
  note L = assms(1)
  have "mgr_inv ops U S N (NewNodesPodCIDRManager v4 v6)"
    using assms(2) initFamily_ok [OF L, of False] initFamily_ok [OF L, of True]
    by (intro new_manager_inv) (auto simp: cp_Init_def split: sum.splits)
  from reachable_inv [OF L this assms(3)]
  have A: "accounts ops U S N (v4CIDRAllocators m) (cl4 m)" "accounts ops U S N (v6CIDRAllocators m) (cl6 m)"
    by (auto simp: mgr_inv_def)
  have e4: "nets_disjoint n k" if "nodes m x = Some c" "nodes m y = Some d" "x \<noteq> y"
      "n \<in> set (v4PodCIDRs c)" "k \<in> set (v4PodCIDRs d)"
      "home ops n (v4CIDRAllocators m) = home ops k (v4CIDRAllocators m)" for x y c d n k
    using accounts_exclusive [OF L A(1), of x y n k] that by (simp add: held_def)
  have e6: "nets_disjoint n k" if "nodes m x = Some c" "nodes m y = Some d" "x \<noteq> y"
      "n \<in> set (v6PodCIDRs c)" "k \<in> set (v6PodCIDRs d)"
      "home ops n (v6CIDRAllocators m) = home ops k (v6CIDRAllocators m)" for x y c d n k
    using accounts_exclusive [OF L A(2), of x y n k] that by (simp add: held_def)
  show ?thesis
    by (intro conjI allI impI; (elim conjE)?)
      (rule e4 e6 accountsD(5) [OF A(1)] accountsD(5) [OF A(2)]; assumption)+
qed

lemma lc_single: "single_stack (lc_node name [])"
  by (simp add: single_stack_def lc_node_def)

definition lc_config :: pool_config where
  "lc_config = \<lparr>EnableIPv4 = True, EnableIPv6 = False, ClusterPoolIPv4CIDR = [''10.0.0.0/24''],
     ClusterPoolIPv6CIDR = [], NodeCIDRMaskSizeIPv4 = 32, NodeCIDRMaskSizeIPv6 = 0\<rparr>"

lemma lc_init: "cp_Init lc_ops lc_config = Inr ([lc_alloc {}], [])"
  by (simp add: cp_Init_def initFamily_def newCIDRSets_def newCIDRSet_def lc_config_def IsIPv4_def
      lc_ops_def list_cidr_ops_def lc_alloc_def lc_net_def ParseCIDR_def go_eval)

theorem pod_CIDRs_exclusive_witness:
  "let m = pc_Delete lc_ops ''a'' (pc_Update lc_ops (lc_node ''a'' [])
             (NewNodesPodCIDRManager [lc_alloc {}] []))
   in used_blocks lcUsed (v4CIDRAllocators m) =
        (\<Union>x. node_blocks lc_ops (\<lambda>_. net_ips) (v4CIDRAllocators m) (cl4 m x))"
  unfolding Let_def
  using pod_CIDRs_exclusive [OF lc_laws lc_init pc_reachable.delete
      [OF pc_reachable.update [OF pc_reachable.start lc_single]]] by blast


text \<open>
  C16: Allocating CIDRs for a new node is all or nothing and never refused without need: it fails
  only if no allocator is configured or those of one configured family are all full, and then
  the nodes are unchanged and nothing stays occupied; on success the node holds what is
  returned, one CIDR of every configured family.
\<close>

theorem allocateNext_all_or_nothing:
  assumes L: "cidr_laws ops U S N" and I: "mgr_inv ops U S N m"
  shows "case allocateNext ops name m of
      (Inl e, m') \<Rightarrow>
        mgr_inv ops U S N m' \<and> nodes m' = nodes m \<and> nodes m name = None \<and>
        (v4CIDRAllocators m = [] \<and> v6CIDRAllocators m = [] \<or>
         v4CIDRAllocators m \<noteq> [] \<and> (\<forall>c\<in>set (v4CIDRAllocators m). cIsFull ops c) \<or>
         v6CIDRAllocators m \<noteq> [] \<and> (\<forall>c\<in>set (v6CIDRAllocators m). cIsFull ops c))
    | (Inr (c, a), m') \<Rightarrow>
        mgr_inv ops U S N m' \<and> nodes m' = (nodes m)(name \<mapsto> c) \<and> (a \<longleftrightarrow> nodes m name = None) \<and>
        (a \<longrightarrow> length (v4PodCIDRs c) = (if v4CIDRAllocators m = [] then 0 else 1) \<and>
               length (v6PodCIDRs c) = (if v6CIDRAllocators m = [] then 0 else 1))"
proof -
  have inv: "mgr_inv ops U S N (snd (allocateNext ops name m))" by (rule allocateNext_inv [OF L I])
  have err: "allocateFirstFreeCIDR ops cs = (Inl e, cs') \<Longrightarrow> cs' = cs \<and> (\<forall>c\<in>set cs. cIsFull ops c)"
    for cs e cs' using allocateFirstFree_error [OF L] by blast
  have same: "nodes m name = Some c \<Longrightarrow> (nodes m)(name \<mapsto> c) = nodes m" for c by auto
  obtain r m' where r: "allocateNext ops name m = (r, m')" by (cases "allocateNext ops name m")
  show ?thesis
  proof (cases r)
    case (Inl e)
    have "nodes m' = nodes m \<and> nodes m name = None \<and>
        (v4CIDRAllocators m = [] \<and> v6CIDRAllocators m = [] \<or>
         v4CIDRAllocators m \<noteq> [] \<and> (\<forall>c\<in>set (v4CIDRAllocators m). cIsFull ops c) \<or>
         v6CIDRAllocators m \<noteq> [] \<and> (\<forall>c\<in>set (v6CIDRAllocators m). cIsFull ops c))"
      using r Inl
      by (auto simp: allocateNext_def nextV6_def dest!: err split: option.splits prod.splits sum.splits if_splits)
    then show ?thesis using inv r Inl by simp
  next
    case (Inr ca)
    have "nodes m' = (nodes m)(name \<mapsto> fst ca) \<and> (snd ca \<longleftrightarrow> nodes m name = None) \<and>
        (snd ca \<longrightarrow> length (v4PodCIDRs (fst ca)) = (if v4CIDRAllocators m = [] then 0 else 1) \<and>
               length (v6PodCIDRs (fst ca)) = (if v6CIDRAllocators m = [] then 0 else 1))"
      using r Inr same
      by (auto simp: allocateNext_def nextV6_def split: option.splits prod.splits sum.splits if_splits)
    then show ?thesis using inv r Inr by (auto split: prod.splits)
  qed
qed

theorem allocateNext_all_or_nothing_witness:
  "case allocateNext lc_ops ''a'' (NewNodesPodCIDRManager [lc_alloc {}] []) of
     (Inl e, m') \<Rightarrow> nodes m' = Map.empty | (Inr (c, a), m') \<Rightarrow> nodes m' = [''a'' \<mapsto> c]"
proof -
  have "mgr_inv lc_ops lcUsed (\<lambda>_. net_ips) lcNet (NewNodesPodCIDRManager [lc_alloc {}] [])"
    by (rule new_manager_inv) (auto simp: clusters_disjoint_def lc_alloc_def)
  from allocateNext_all_or_nothing [OF lc_laws this, of "''a''"] show ?thesis
    by (auto simp: NewNodesPodCIDRManager_def split: prod.splits sum.splits)
qed

text \<open>
  C17: The synchronisation with the API never panics and visits every pending entry: it reports
  no error exactly if nothing is left to write, and an entry that is left for a retry still
  carries the CIDRs and the error text that were decided, also after a conflict replaced its
  resource by the newest version.
\<close>

theorem syncToK8s_keeps_decisions:
  assumes "api_laws api" "iter_order ks m" "\<forall>e\<in>ran m. entry_ok e"
  shows "\<exists>ret m' s'. syncToK8s api ks m s = Some (ret, m', s') \<and>
    (ret = None \<longleftrightarrow> m' = Map.empty) \<and> dom m' \<subseteq> dom m \<and>
    (\<forall>k x. m' k = Some x \<longrightarrow> entry_ok x \<and> same_decision (the (m k)) x)"
proof -
  have ks: "distinct ks" "set ks = dom m" using assms(2) by auto
  have "\<forall>k\<in>set ks. \<exists>e. m k = Some e \<and> entry_ok e"
    using assms(3) by (auto simp: ks(2) intro: ranI)
  from syncLoop_keeps [OF assms(1) ks(1) this, of None s] obtain ret m' s' where
    r: "syncLoop api ks None m s = Some (ret, m', s')" "ret = None \<longleftrightarrow> (\<forall>k\<in>set ks. m' k = None)"
       "\<forall>k. k \<notin> set ks \<longrightarrow> m' k = m k"
       "\<forall>k\<in>set ks. \<forall>x. m' k = Some x \<longrightarrow> entry_ok x \<and> same_decision (the (m k)) x"
    by blast
  have out: "k \<notin> set ks \<Longrightarrow> m' k = None" for k using r(3) ks(2) by (metis domIff)
  then have "ret = None \<longleftrightarrow> m' = Map.empty" using r(2) by (auto simp: fun_eq_iff)
  moreover have "dom m' \<subseteq> dom m" using out ks(2) by (metis domIff subsetI)
  ultimately show ?thesis using r(1,4) out unfolding syncToK8s_def by (metis option.distinct(1))
qed

definition lc_api :: "unit k8s_api" where
  "lc_api = \<lparr>kCreate = (\<lambda>n s. (Some AlreadyExists, s)), kUpdate = (\<lambda>n s. (Inr n, s)),
     kUpdateStatus = (\<lambda>n s. (None, s)), kGet = (\<lambda>k s. (Inr (lc_node k []), s))\<rparr>"

theorem syncToK8s_keeps_decisions_witness:
  "\<exists>ret m' s'. syncToK8s lc_api [''a''] [''a'' \<mapsto> (k8sOpCreate, Some (lc_node ''a'' [''10.0.0.1/32'']))] () =
     Some (ret, m', s') \<and> (ret = None \<longleftrightarrow> m' = Map.empty)"
proof -
  have "api_laws lc_api" by (simp add: api_laws_def lc_api_def)
  then show ?thesis
    using syncToK8s_keeps_decisions [of lc_api "[''a'']"
        "[''a'' \<mapsto> (k8sOpCreate, Some (lc_node ''a'' [''10.0.0.1/32'']))]" "()"]
    by (force simp: iter_order_def entry_ok_def)
qed

end
