(* ===== verification/PoolStats.thy ===== *)
theory PoolStats
  imports Prelude
begin

text \<open>
  How many addresses a node needs or may give back: \<open>calculateNeededIPs\<close> and
  \<open>calculateExcessIPs\<close> of \<open>pkg/ipam/net_resource.go\<close>, with \<open>pkg/math\<close>. The arithmetic is that of
  Go's 64-bit \<open>int\<close>; \<open>count\<close> bounds an argument so that no operation wraps.
\<close>

section \<open>The calculations\<close>

definition IntMin :: "int \<Rightarrow> int \<Rightarrow> int" where
  "IntMin a b = (if a < b then a else b)"

definition IntMax :: "int \<Rightarrow> int \<Rightarrow> int" where
  "IntMax a b = (if a > b then a else b)"

lemma IntMin_eq_min: "IntMin a b = min a b"
  by (simp add: IntMin_def min_def)

lemma IntMax_eq_max: "IntMax a b = max a b"
  by (simp add: IntMax_def max_def)

definition calculateNeededIPs :: "int \<Rightarrow> int \<Rightarrow> int \<Rightarrow> int \<Rightarrow> int \<Rightarrow> int \<Rightarrow> int" where
  "calculateNeededIPs availableIPs usedIPs preAllocate minAllocate maxAllocate burstableENIIPs =
     (let freeIPs = go_int (availableIPs - usedIPs);
          n1 = go_int (preAllocate - freeIPs);
          n2 = (if minAllocate > 0 then IntMax n1 (go_int (minAllocate - availableIPs)) else n1);
          n3 = (if n2 > 0 \<and> burstableENIIPs > 0 then burstableENIIPs else n2);
          n4 = (if maxAllocate > 0 \<and> go_int (availableIPs + n3) > maxAllocate
                then go_int (maxAllocate - availableIPs) else n3)
      in if n4 < 0 then 0 else n4)"

definition calculateExcessIPs :: "int \<Rightarrow> int \<Rightarrow> int \<Rightarrow> int \<Rightarrow> int \<Rightarrow> int \<Rightarrow> int \<Rightarrow> int" where
  "calculateExcessIPs availableIPs usedIPs preAllocate minAllocate maxAboveWatermark
       burstableMehrfachENI readyForReleaseCount =
     (if readyForReleaseCount > 0 then readyForReleaseCount
      else if burstableMehrfachENI > 0 then 0
      else if usedIPs \<le> go_int (minAllocate + maxAboveWatermark) \<and>
              availableIPs \<le> go_int (minAllocate + maxAboveWatermark) then 0
      else (let e = go_int (go_int (go_int (availableIPs - usedIPs) - preAllocate) - maxAboveWatermark)
            in if e < 0 then 0 else e))"

section \<open>Without overflow\<close>

definition count :: "int \<Rightarrow> bool" where
  "count x \<longleftrightarrow> 0 \<le> x \<and> x < 2 ^ 60"

lemma needed_exact:
  assumes "count a" "count u" "count p" "count m" "count x" "count b"
  shows "calculateNeededIPs a u p m x b =
    (let n2 = (if m > 0 then max (p + u - a) (m - a) else p + u - a);
         n3 = (if n2 > 0 \<and> b > 0 then b else n2);
         n4 = (if x > 0 \<and> a + n3 > x then x - a else n3)
     in max 0 n4)"
proof -
  have "go_int (a - u) = a - u" "go_int (p - (a - u)) = p - (a - u)" "go_int (m - a) = m - a"
      "go_int (x - a) = x - a"
    using assms by (intro go_int_id; simp add: count_def)+
  moreover have "go_int (a + b) = a + b" "go_int (a + (p - (a - u))) = p + u" "go_int (a + (m - a)) = m"
    using assms by (simp_all add: go_int_id count_def)
  ultimately show ?thesis
    by (simp add: calculateNeededIPs_def IntMax_eq_max Let_def max_def)
qed

lemma excess_exact:
  assumes "count a" "count u" "count p" "count m" "count w"
  shows "calculateExcessIPs a u p m w b r =
    (if r > 0 then r else if b > 0 then 0 else if u \<le> m + w \<and> a \<le> m + w then 0
     else max 0 (a - u - p - w))"
proof -
  have "go_int (a - u) = a - u" "go_int (a - u - p) = a - u - p" "go_int (a - u - p - w) = a - u - p - w"
      "go_int (m + w) = m + w"
    using assms by (intro go_int_id; simp add: count_def)+
  then show ?thesis by (simp add: calculateExcessIPs_def Let_def max_def)
qed

section \<open>Properties\<close>

text \<open>
  Without overflow the number of addresses to allocate is never negative, never takes the node
  above its maximum (with a burstable ENI included), and is zero when the node is above it.
\<close>

theorem calculateNeededIPs_within_max:
  assumes "count a" "count u" "count p" "count m" "count x" "count b"
  shows "0 \<le> calculateNeededIPs a u p m x b \<and>
    (0 < x \<and> a \<le> x \<longrightarrow> a + calculateNeededIPs a u p m x b \<le> x) \<and>
    (0 < x \<and> x \<le> a \<longrightarrow> calculateNeededIPs a u p m x b = 0)"
  using assms by (auto simp: needed_exact Let_def max_def count_def)

theorem calculateNeededIPs_within_max_witness:
  "(18::int) + calculateNeededIPs 18 16 8 0 20 0 \<le> 20"
  using calculateNeededIPs_within_max [of 18 16 8 0 20 0] by (simp add: count_def)

text \<open>
  Without a burstable ENI, the number of addresses to allocate is the least one with which the node
  has \<open>preAllocate\<close> free addresses and \<open>minAllocate\<close> addresses in all, unless the maximum is
  reached first; when they are allocated, nothing more is needed.
\<close>

theorem calculateNeededIPs_least:
  assumes "count a" "count u" "count p" "count m" "count x" "n = calculateNeededIPs a u p m x 0"
  shows "(a + n - u \<ge> p \<and> a + n \<ge> m \<or> 0 < x \<and> a + n \<ge> x) \<and>
    (\<forall>k. 0 \<le> k \<and> k < n \<longrightarrow> \<not> (a + k - u \<ge> p \<and> a + k \<ge> m)) \<and>
    (count (a + n) \<longrightarrow> calculateNeededIPs (a + n) u p m x 0 = 0)"
proof -
  have b: "count 0" by (simp add: count_def)
  show ?thesis
    using assms(1-5) unfolding assms(6)
    by (auto simp: needed_exact [OF _ _ _ _ _ b] Let_def max_def count_def split: if_splits)
qed

theorem calculateNeededIPs_least_witness:
  "calculateNeededIPs 10 9 8 0 0 0 = 7 \<and> calculateNeededIPs (10 + 7) 9 8 0 0 0 = 0"
proof -
  have n: "7 = calculateNeededIPs 10 9 8 0 0 0"
    by (simp add: calculateNeededIPs_def go_int_id)
  from calculateNeededIPs_least [of 10 9 8 0 0, OF _ _ _ _ _ n] n show ?thesis
    by (simp add: count_def)
qed

text \<open>
  While no release is in progress, a node that gives back all its excess keeps exactly
  \<open>preAllocate + maxAboveWatermark\<close> free addresses; giving back any part of it never makes the
  pre-allocation ask for addresses again, only the minimum can; a node that needs addresses has
  no excess.
\<close>

theorem calculateExcessIPs_keeps_watermark:
  assumes "count a" "count u" "count p" "count m" "count w" "count b" "count x"
    and "e = calculateExcessIPs a u p m w b 0"
  shows "(0 < e \<longrightarrow> b = 0 \<and> a - e - u = p + w) \<and>
    (0 < e \<longrightarrow> (\<forall>k. 0 \<le> k \<and> k \<le> e \<and> k \<le> a \<longrightarrow>
        calculateNeededIPs (a - k) u p m 0 0 = max 0 (if 0 < m then m - (a - k) else 0))) \<and>
    (0 < calculateNeededIPs a u p m x b \<longrightarrow> e = 0)"
proof -
  have z: "count 0" by (simp add: count_def)
  have e: "e = (if b > 0 then 0 else if u \<le> m + w \<and> a \<le> m + w then 0 else max 0 (a - u - p - w))"
    using assms excess_exact by simp
  have n: "calculateNeededIPs (a - k) u p m 0 0 = max 0 (if 0 < m then m - (a - k) else 0)"
    if "0 < e" "0 \<le> k" "k \<le> e" "k \<le> a" for k
  proof -
    have "count (a - k)" using assms(1) that by (simp add: count_def)
    then show ?thesis
      using that assms(2-5) e needed_exact [of "a - k" u p m 0 0] z
      by (auto simp: Let_def max_def count_def split: if_splits)
  qed
  have "e = 0" if "0 < calculateNeededIPs a u p m x b"
    using that assms(1-7) unfolding e
    by (auto simp: needed_exact Let_def max_def count_def split: if_splits)
  with n e assms(6) show ?thesis by (auto simp: count_def split: if_splits)
qed

theorem calculateExcessIPs_keeps_watermark_witness:
  "20 - calculateExcessIPs 20 4 8 0 2 0 0 - 4 = (10::int)"
  using calculateExcessIPs_keeps_watermark [of 20 4 8 0 2 0 0 6]
  by (simp add: count_def calculateExcessIPs_def go_int_id)

text \<open>
  The minimum is not kept: with one address more than \<open>minAllocate + maxAboveWatermark\<close> on a
  lightly used node everything above the pre-allocation is excess, although the initial base of
  addresses is not used up; once it is given back the node needs addresses again.
\<close>

theorem calculateExcessIPs_breaks_minimum:
  assumes "count a" "count u" "count p" "count m" "count w"
    and "m + w < a" "u + p + w < m"
  shows "u < m + w \<and> calculateExcessIPs a u p m w 0 0 = a - (u + p + w) \<and>
    calculateNeededIPs (a - calculateExcessIPs a u p m w 0 0) u p m 0 0 = m - (u + p + w)"
proof -
  have e: "calculateExcessIPs a u p m w 0 0 = a - (u + p + w)"
    using assms by (auto simp: excess_exact count_def)
  have "count (u + p + w)" "count 0" using assms by (auto simp: count_def)
  then have "calculateNeededIPs (u + p + w) u p m 0 0 = m - (u + p + w)"
    using assms by (auto simp: needed_exact Let_def max_def count_def)
  moreover have s: "a - (a - (u + p + w)) = u + p + w" by simp
  moreover have "u < m + w" using assms(3,5,7) by (simp add: count_def)
  ultimately show ?thesis unfolding e s by blast
qed

theorem calculateExcessIPs_breaks_minimum_witness:
  "calculateExcessIPs 11 0 2 10 0 0 0 = 9 \<and> calculateNeededIPs 2 0 2 10 0 0 = 8"
proof -
  have "calculateExcessIPs 11 0 2 10 0 0 0 = 11 - (0 + 2 + 0) \<and>
      calculateNeededIPs (11 - calculateExcessIPs 11 0 2 10 0 0 0) 0 2 10 0 0 = 10 - (0 + 2 + 0)"
    by (rule conjunct2 [OF calculateExcessIPs_breaks_minimum]) (simp_all add: count_def)
  then show ?thesis by (elim conjE) simp
qed

end
