(* ===== verification/NetResource.thy ===== *)
theory NetResource
  imports IPAMTypes PoolStats
begin

text \<open>
  The operator's side of a node: \<open>pkg/ipam/net_resource.go\<close>. The record \<open>NetResource\<close> is the Go
  struct without its lock, logger and triggers; \<open>cloud\<close> is the state behind the interface
  \<open>NetResourceOperations\<close> and behind the Kubernetes client, whose methods are the parameters \<open>op_*\<close>
  and \<open>ns_*\<close>, and \<open>trace\<close> records the calls and the triggers in their order (a write to the
  API server with whether it was accepted). An operation that the
  Go runtime would stop with a nil dereference has the value \<open>None\<close>.

  Times are nanoseconds since the zero time, which is 0; an operation runs at one instant.
\<close>

section \<open>State\<close>

record SubnetInfo =
  UsedCount :: int
  SubnetAZ :: string

record Statistics =
  UsedIPs :: int
  AvailableIPs :: int
  NeededIPs :: int
  ExcessIPs :: int
  RemainingInterfaces :: int
  SubnetInfos :: "string \<rightharpoonup> SubnetInfo"

record AllocationAction =
  aaInterfaceID :: string
  aaPoolID :: string
  AvailableForAllocationIPv4 :: int
  AvailableForAllocationIPv6 :: int
  MaxIPsToAllocate :: int
  AvailableInterfaces :: int

record ReleaseAction =
  raInterfaceID :: string
  raPoolID :: string
  IPsToRelease :: "string list"

record maintenanceAction =
  allocation :: "AllocationAction option"
  release :: "ReleaseAction option"

datatype trigger_name = PoolMaintainer | Retry | RetrySyncToAPIServer | ResyncTrigger | K8sSync

datatype effect = Triggered trigger_name
  | CreateInterfaceCall AllocationAction | AllocateIPsCall AllocationAction
  | ReleaseIPsCall ReleaseAction
  | UpdateCall NetResourceSet bool | UpdateStatusCall NetResourceSet bool
  | SubnetsAvailable

record 'w NetResource =
  name :: string
  resource :: "NetResourceSet option"
  stats :: Statistics
  lastMaxAdapterWarning :: int
  instanceRunning :: bool
  instanceStoppedRunning :: int
  waitingForPoolMaintenance :: bool
  resyncNeeded :: int
  available :: AllocationMap
  ipsMarkedForRelease :: "string \<rightharpoonup> int"
  ipReleaseStatus :: "string \<rightharpoonup> string"
  cloud :: 'w
  trace :: "effect list"

section \<open>What a node depends on\<close>

record 'w net_ops =
  op_UpdatedNode :: "NetResourceSet \<Rightarrow> 'w \<Rightarrow> 'w"
  op_PopulateStatusFields :: "NetResourceSet \<Rightarrow> 'w \<Rightarrow> NetResourceSet \<times> 'w"
  op_CreateInterface :: "AllocationAction \<Rightarrow> 'w \<Rightarrow> (err + int) \<times> 'w"
  op_ResyncInterfacesAndIPs :: "'w \<Rightarrow> (err + AllocationMap) \<times> 'w"
  op_PrepareIPAllocation :: "'w \<Rightarrow> (err + AllocationAction option) \<times> 'w"
  op_AllocateIPs :: "AllocationAction \<Rightarrow> 'w \<Rightarrow> err option \<times> 'w"
  op_PrepareIPRelease :: "int \<Rightarrow> 'w \<Rightarrow> ReleaseAction option \<times> 'w"
  op_ReleaseIPs :: "ReleaseAction \<Rightarrow> 'w \<Rightarrow> (err + string list) \<times> 'w"
  op_GetMaximumAllocatableIPv4 :: "'w \<Rightarrow> int"
  op_GetMinimumAllocatableIPv4 :: "'w \<Rightarrow> int"
  op_IsPrefixDelegated :: "'w \<Rightarrow> bool"
  op_GetUsedIPWithPrefixes :: "'w \<Rightarrow> int"
  op_GetMaximumBurstableAllocatableIPv4 :: "'w \<Rightarrow> int"

text \<open>The error of the Kubernetes client: only whether the object is missing matters. \<open>ns_lister\<close> is
  the informer's cache, \<open>ns_pods\<close> the pods of a node with their phases (an error while the store is
  not initialised).\<close>

datatype api_error = APINotFound | APIOther string

record 'w node_api =
  ns_Update :: "NetResourceSet \<Rightarrow> NetResourceSet \<Rightarrow> 'w \<Rightarrow> (NetResourceSet option \<times> api_error option) \<times> 'w"
  ns_UpdateStatus :: "NetResourceSet \<Rightarrow> NetResourceSet \<Rightarrow> 'w \<Rightarrow> (NetResourceSet option \<times> api_error option) \<times> 'w"
  ns_Get :: "string \<Rightarrow> 'w \<Rightarrow> (api_error + NetResourceSet) \<times> 'w"
  ns_lister :: "string \<Rightarrow> 'w \<Rightarrow> NetResourceSet option"
  ns_pods :: "string \<Rightarrow> 'w \<Rightarrow> err + string list"

text \<open>The manager and the configuration, and the orders in which the runtime visits the maps.\<close>

record 'w nr_env =
  ops :: "'w net_ops"
  api :: "'w node_api"
  releaseExcessIPs :: bool
  stableInstancesAPI :: bool
  ExcessIPReleaseDelay :: int
  zoneOf :: "string \<Rightarrow> string"
  allocOrder :: "AllocationMap \<Rightarrow> string list"
  markOrder :: "(string \<rightharpoonup> int) \<Rightarrow> string list"

definition emit :: "effect \<Rightarrow> 'w NetResource \<Rightarrow> 'w NetResource" where
  "emit e n = n\<lparr>trace := trace n @ [e]\<rparr>"

definition set_stats :: "(Statistics \<Rightarrow> Statistics) \<Rightarrow> 'w NetResource \<Rightarrow> 'w NetResource" where
  "set_stats f n = n\<lparr>stats := f (stats n)\<rparr>"

text \<open>The node the manager creates for a resource it has not seen before.\<close>

definition newNetResource :: "string \<Rightarrow> int \<Rightarrow> 'w \<Rightarrow> 'w NetResource" where
  "newNetResource nm now w = \<lparr>name = nm, resource = None,
     stats = \<lparr>UsedIPs = 0, AvailableIPs = 0, NeededIPs = 0, ExcessIPs = 0, RemainingInterfaces = 0,
              SubnetInfos = Map.empty\<rparr>,
     lastMaxAdapterWarning = now, instanceRunning = False, instanceStoppedRunning = 0,
     waitingForPoolMaintenance = False, resyncNeeded = 0, available = Map.empty,
     ipsMarkedForRelease = Map.empty, ipReleaseStatus = Map.empty, cloud = w, trace = []\<rparr>"

section \<open>Whether the instance runs\<close>

definition second :: int where "second = 10 ^ 9"

definition IsRunning :: "int \<Rightarrow> 'w NetResource \<Rightarrow> bool" where
  "IsRunning now n \<longleftrightarrow> instanceRunning n \<and> instanceStoppedRunning n + 60 * second < now"

definition SetRunning :: "'w nr_env \<Rightarrow> int \<Rightarrow> 'w NetResource \<Rightarrow> 'w NetResource" where
  "SetRunning E now n =
     (case resource n of
        None \<Rightarrow> n
      | Some r \<Rightarrow>
          (let running = (ns_lister (api E) (nrsName r) (cloud n) \<noteq> None);
               n1 = n\<lparr>instanceRunning := running\<rparr>
           in if instanceRunning n \<and> \<not> running then n1\<lparr>instanceStoppedRunning := now\<rparr> else n1))"

section \<open>The settings of a node\<close>

definition IPAMPreAllocation :: int where "IPAMPreAllocation = 1"

definition getMaxAboveWatermark :: "NetResourceSet \<Rightarrow> int" where
  "getMaxAboveWatermark r = MaxAboveWatermark (SpecIPAM r)"

definition getPreAllocate :: "NetResourceSet \<Rightarrow> int" where
  "getPreAllocate r =
     (if PreAllocate (SpecIPAM r) \<noteq> 0 then PreAllocate (SpecIPAM r) else IPAMPreAllocation)"

definition getMinAllocate :: "NetResourceSet \<Rightarrow> int" where
  "getMinAllocate r = MinAllocate (SpecIPAM r)"

definition getMaxAllocate :: "'w nr_env \<Rightarrow> NetResourceSet \<Rightarrow> 'w \<Rightarrow> int" where
  "getMaxAllocate E r w =
     (let instanceMax = op_GetMaximumAllocatableIPv4 (ops E) w in
      if MaxAllocate (SpecIPAM r) > 0
      then (if MaxAllocate (SpecIPAM r) > instanceMax then instanceMax else MaxAllocate (SpecIPAM r))
      else instanceMax)"

definition getMaxIPBurstableIPCount :: "'w nr_env \<Rightarrow> 'w \<Rightarrow> int" where
  "getMaxIPBurstableIPCount E w = op_GetMaximumBurstableAllocatableIPv4 (ops E) w"

definition GetNeededAddresses :: "'w nr_env \<Rightarrow> 'w NetResource \<Rightarrow> int" where
  "GetNeededAddresses E n =
     (if NeededIPs (stats n) > 0 then NeededIPs (stats n)
      else if releaseExcessIPs E \<and> ExcessIPs (stats n) > 0 then ExcessIPs (stats n) * -1
      else 0)"

definition getPendingPodCount :: "'w nr_env \<Rightarrow> string \<Rightarrow> 'w \<Rightarrow> err + int" where
  "getPendingPodCount E nodeName w =
     (case ns_pods (api E) nodeName w of
        Inl e \<Rightarrow> Inl e
      | Inr phases \<Rightarrow> Inr (int (length (filter (\<lambda>p. p = ''Pending'') phases))))"

section \<open>Recalculation\<close>

text \<open>\<open>ip == nil || ip.To4() != nil\<close>: text that is no address counts as IPv4.\<close>

definition counts_as_v4 :: "string \<Rightarrow> bool" where
  "counts_as_v4 s = (case ParseIP s of None \<Rightarrow> True | Some a \<Rightarrow> to4 a \<noteq> None)"

definition isIPInReadyForReleaseStateLocked :: "'w NetResource \<Rightarrow> string \<Rightarrow> bool" where
  "isIPInReadyForReleaseStateLocked n ip \<longleftrightarrow> ipReleaseStatus n ip \<noteq> None"

definition collectOne :: "string \<Rightarrow> AllocationMap \<Rightarrow> string \<Rightarrow> Statistics \<Rightarrow> Statistics" where
  "collectOne nodeAZ used ipstr s =
     (if counts_as_v4 ipstr
      then (let s1 = s\<lparr>UsedIPs := UsedIPs s + 1\<rparr>;
                sid = SubnetID (the (used ipstr));
                subnetID = (if sid = [] then ''unknown'' else sid);
                info = (case SubnetInfos s1 subnetID of
                          None \<Rightarrow> \<lparr>UsedCount = 0, SubnetAZ = []\<rparr> | Some i \<Rightarrow> i)
            in s1\<lparr>SubnetInfos := (SubnetInfos s1)(subnetID \<mapsto>
                    \<lparr>UsedCount = UsedCount info + 1, SubnetAZ = nodeAZ\<rparr>)\<rparr>)
      else s)"

definition collectSubnetUsage ::
    "'w nr_env \<Rightarrow> string \<Rightarrow> AllocationMap \<Rightarrow> Statistics \<Rightarrow> Statistics" where
  "collectSubnetUsage E nodeAZ used s = fold (collectOne nodeAZ used) (allocOrder E used) s"

text \<open>The loop over the available addresses: those free to use, and those in a release.\<close>

definition countAvailable :: "'w NetResource \<Rightarrow> string list \<Rightarrow> int \<times> int" where
  "countAvailable n ks =
     fold (\<lambda>ip (a, r). if counts_as_v4 ip
                       then (if \<not> isIPInReadyForReleaseStateLocked n ip then (a + 1, r) else (a, r + 1))
                       else (a, r))
       ks (0, 0)"

definition recalculate :: "'w nr_env \<Rightarrow> 'w NetResource \<Rightarrow> 'w NetResource" where
  "recalculate E n =
     (case resource n of
        None \<Rightarrow> n
      | Some r \<Rightarrow>
          (case op_ResyncInterfacesAndIPs (ops E) (cloud n) of
             (Inl _, w) \<Rightarrow> set_stats (\<lambda>s. s\<lparr>NeededIPs := 0, ExcessIPs := 0\<rparr>) (n\<lparr>cloud := w\<rparr>)
           | (Inr a, w) \<Rightarrow>
               (let n1 = n\<lparr>cloud := w, available := a\<rparr>;
                    s1 = (stats n)\<lparr>UsedIPs := 0, SubnetInfos := Map.empty\<rparr>;
                    s2 = (case SpecENI r of
                            None \<Rightarrow> s1
                          | Some eni \<Rightarrow>
                              if AvailabilityZone eni = [] then s1
                              else collectSubnetUsage E (zoneOf E (AvailabilityZone eni))
                                     (Used (StatusIPAM r)) s1);
                    usedForExcess = (if op_IsPrefixDelegated (ops E) w
                                     then op_GetUsedIPWithPrefixes (ops E) w else UsedIPs s2);
                    (availableIPv4Count, readyForReleaseCount) = countAvailable n1 (allocOrder E a);
                    preAllocate = getPreAllocate r; minAllocate = getMinAllocate r;
                    maxAllocate = getMaxAllocate E r w; maxAboveWatermark = getMaxAboveWatermark r;
                    burstableIPCount = getMaxIPBurstableIPCount E w;
                    needed = calculateNeededIPs availableIPv4Count (UsedIPs s2) preAllocate minAllocate
                               maxAllocate burstableIPCount;
                    excess = calculateExcessIPs availableIPv4Count usedForExcess preAllocate minAllocate
                               maxAboveWatermark burstableIPCount readyForReleaseCount;
                    n2 = n1\<lparr>stats := s2\<lparr>AvailableIPs := availableIPv4Count, NeededIPs := needed,
                                        ExcessIPs := excess\<rparr>\<rparr>
                in if needed = 0 then emit SubnetsAvailable n2 else n2)))"

definition allocationNeeded :: "'w NetResource \<Rightarrow> bool" where
  "allocationNeeded n \<longleftrightarrow>
     \<not> waitingForPoolMaintenance n \<and> resyncNeeded n = 0 \<and> NeededIPs (stats n) > 0"

definition releaseNeeded :: "'w nr_env \<Rightarrow> 'w NetResource \<Rightarrow> bool" where
  "releaseNeeded E n \<longleftrightarrow>
     (releaseExcessIPs E \<and> \<not> waitingForPoolMaintenance n \<and> resyncNeeded n = 0 \<and>
      ExcessIPs (stats n) > 0) \<or>
     (case resource n of None \<Rightarrow> False | Some r \<Rightarrow> release_ips r \<noteq> Map.empty)"

text \<open>The return value of the handler is whether an allocation is needed.\<close>

definition UpdatedResource ::
    "'w nr_env \<Rightarrow> int \<Rightarrow> NetResourceSet option \<Rightarrow> 'w NetResource \<Rightarrow> bool \<times> 'w NetResource" where
  "UpdatedResource E now r n =
     (case r of
        None \<Rightarrow> (False, n)
      | Some r' \<Rightarrow>
          (let n1 = n\<lparr>cloud := op_UpdatedNode (ops E) r' (cloud n), resource := Some r'\<rparr>;
               n2 = recalculate E (SetRunning E now n1)
           in if allocationNeeded n2 then (True, emit (Triggered PoolMaintainer) n2) else (False, n2)))"

definition Pool_copy :: "'w NetResource \<Rightarrow> AllocationMap" where
  "Pool_copy n = available n"

section \<open>Deciding what to do\<close>

text \<open>\<open>None\<close> is the nil dereference of an allocation action that is missing without an error.\<close>

definition determineMaintenanceAction ::
    "'w nr_env \<Rightarrow> 'w NetResource \<Rightarrow> ((err + maintenanceAction option) \<times> 'w NetResource) option" where
  "determineMaintenanceAction E n =
     (if releaseExcessIPs E \<and> ExcessIPs (stats n) > 0 \<and> getMaxIPBurstableIPCount E (cloud n) = 0
      then (case op_PrepareIPRelease (ops E) (ExcessIPs (stats n)) (cloud n) of
              (ra, w) \<Rightarrow> Some (Inr (Some \<lparr>allocation = None, release = ra\<rparr>), n\<lparr>cloud := w\<rparr>))
      else if NeededIPs (stats n) = 0 then Some (Inr None, n)
      else (case op_PrepareIPAllocation (ops E) (cloud n) of
              (Inl e, w) \<Rightarrow> Some (Inl e, n\<lparr>cloud := w\<rparr>)
            | (Inr None, w) \<Rightarrow> None
            | (Inr (Some aa), w) \<Rightarrow>
                (let surge = (case getPendingPodCount E (name n) w of
                                Inl _ \<Rightarrow> 0
                              | Inr pending \<Rightarrow> if pending > NeededIPs (stats n)
                                               then pending - NeededIPs (stats n) else 0);
                     aa' = aa\<lparr>MaxIPsToAllocate := NeededIPs (stats n) + surge\<rparr>
                 in Some (Inr (Some \<lparr>allocation = Some aa', release = None\<rparr>),
                          set_stats (\<lambda>s. s\<lparr>RemainingInterfaces := AvailableInterfaces aa\<rparr>)
                            (n\<lparr>cloud := w\<rparr>)))))"

section \<open>Releasing\<close>

text \<open>An entry \<open>released\<close> without a resource would be a nil dereference; no entry is ever \<open>released\<close>
  (\<open>nr_inv\<close> below).\<close>

definition removeStaleReleaseIPs :: "'w NetResource \<Rightarrow> 'w NetResource" where
  "removeStaleReleaseIPs n =
     n\<lparr>ipReleaseStatus := (\<lambda>ip. if ipReleaseStatus n ip = Some IPAMReleased \<and>
                                    (\<forall>r. resource n = Some r \<longrightarrow> release_ips r ip = None)
                                then None else ipReleaseStatus n ip)\<rparr>"

text \<open>The entries of the status whose release is given up: \<open>excess\<close> is the set of addresses that
  are still excess.\<close>

definition aborted :: "NetResourceSet \<Rightarrow> (string \<Rightarrow> bool) \<Rightarrow> 'w NetResource \<Rightarrow> string \<Rightarrow> bool" where
  "aborted r excess n ip \<longleftrightarrow>
     \<not> excess ip \<and> release_ips r ip \<noteq> None \<and> release_ips r ip \<noteq> Some IPAMReleased \<and>
     ipReleaseStatus n ip \<noteq> None \<and> ipReleaseStatus n ip \<noteq> Some IPAMReleased"

definition abortNoLongerExcessIPs ::
    "(string \<Rightarrow> bool) \<Rightarrow> 'w NetResource \<Rightarrow> 'w NetResource option" where
  "abortNoLongerExcessIPs excess n =
     (case resource n of
        None \<Rightarrow> None
      | Some r \<Rightarrow> Some (n\<lparr>
          ipsMarkedForRelease := (\<lambda>ip. if aborted r excess n ip then None else ipsMarkedForRelease n ip),
          ipReleaseStatus := (\<lambda>ip. if aborted r excess n ip then None else ipReleaseStatus n ip)\<rparr>))"

definition forget :: "string \<Rightarrow> 'w NetResource \<Rightarrow> 'w NetResource" where
  "forget ip n = n\<lparr>ipsMarkedForRelease := (ipsMarkedForRelease n)(ip := None),
                   ipReleaseStatus := (ipReleaseStatus n)(ip := None)\<rparr>"

text \<open>The addresses to release are collected in the list \<open>rel\<close>; the flag is the return value.\<close>

definition handleIPReleaseResponse ::
    "NetResourceSet \<Rightarrow> string \<Rightarrow> string list \<Rightarrow> 'w NetResource \<Rightarrow> bool \<times> string list \<times> 'w NetResource" where
  "handleIPReleaseResponse r markedIP rel n =
     (case release_ips r markedIP of
        None \<Rightarrow> (False, rel, n)
      | Some status \<Rightarrow>
          if status = IPAMReadyForRelease then (True, rel @ [markedIP], n)
          else if status = IPAMDoNotRelease then (True, rel, forget markedIP n)
          else (True, rel, n))"

definition markTimes :: "int \<Rightarrow> string list \<Rightarrow> (string \<rightharpoonup> int) \<Rightarrow> (string \<rightharpoonup> int)" where
  "markTimes now ips m = fold (\<lambda>ip m. if m ip = None then m(ip \<mapsto> now) else m) ips m"

text \<open>The loop over the marked addresses: what is marked next, what is released, the node.\<close>

fun markedLoop ::
    "int \<Rightarrow> int \<Rightarrow> NetResourceSet \<Rightarrow> string list \<Rightarrow> string list \<Rightarrow> string list \<times> string list \<times> 'w NetResource
     \<Rightarrow> string list \<times> string list \<times> 'w NetResource" where
  "markedLoop delay now r excess [] acc = acc"
| "markedLoop delay now r excess (ip # ips) (mark, rel, n) =
     markedLoop delay now r excess ips
       (if ip \<notin> set excess then (mark, rel, forget ip n)
        else if the (ipsMarkedForRelease n ip) + delay * second > now then (mark, rel, n)
        else (case handleIPReleaseResponse r ip rel n of
                (handled, rel', n') \<Rightarrow> if handled then (mark, rel', n') else (mark @ [ip], rel', n')))"

definition handleIPRelease ::
    "'w nr_env \<Rightarrow> int \<Rightarrow> maintenanceAction \<Rightarrow> 'w NetResource \<Rightarrow> ((err + bool) \<times> 'w NetResource) option" where
  "handleIPRelease E now a n =
     (case resource n of
        None \<Rightarrow> None
      | Some r \<Rightarrow>
          (let excess = (case release a of None \<Rightarrow> [] | Some ra \<Rightarrow> IPsToRelease ra);
               marked = (if excess = [] then Map.empty else markTimes now excess (ipsMarkedForRelease n));
               n1 = n\<lparr>ipsMarkedForRelease := marked\<rparr>;
               (toMark, toRelease, n2) =
                 markedLoop (ExcessIPReleaseDelay E) now r excess (markOrder E marked) ([], [], n1);
               n3 = n2\<lparr>ipReleaseStatus :=
                       fold (\<lambda>ip m. m(ip \<mapsto> IPAMMarkForRelease)) toMark (ipReleaseStatus n2)\<rparr>
           in case abortNoLongerExcessIPs (\<lambda>ip. ip \<in> set excess) n3 of
                None \<Rightarrow> None
              | Some n4 \<Rightarrow>
                  if toRelease = [] then Some (Inr False, n4)
                  else (let ra = (the (release a))\<lparr>IPsToRelease := toRelease\<rparr> in
                        case op_ReleaseIPs (ops E) ra (cloud n4) of
                          (Inl e, w) \<Rightarrow>
                            Some (Inl ''failed to release IPs'', emit (ReleaseIPsCall ra) (n4\<lparr>cloud := w\<rparr>))
                        | (Inr released, w) \<Rightarrow>
                            Some (Inr True, fold forget released
                                              (emit (ReleaseIPsCall ra) (n4\<lparr>cloud := w\<rparr>))))))"

section \<open>Allocating\<close>

definition hour :: int where "hour = 3600 * second"

definition createInterface ::
    "'w nr_env \<Rightarrow> int \<Rightarrow> AllocationAction \<Rightarrow> 'w NetResource \<Rightarrow> (err + bool) \<times> 'w NetResource" where
  "createInterface E now aa n =
     (if AvailableInterfaces aa = 0
      then (Inr False,
            if lastMaxAdapterWarning n \<noteq> 0 \<and> now - lastMaxAdapterWarning n > hour
            then n\<lparr>lastMaxAdapterWarning := now\<rparr> else n)
      else (case op_CreateInterface (ops E) aa (cloud n) of
              (Inl e, w) \<Rightarrow> (Inl e, emit (CreateInterfaceCall aa) (n\<lparr>cloud := w\<rparr>))
            | (Inr _, w) \<Rightarrow> (Inr True, emit (CreateInterfaceCall aa) (n\<lparr>cloud := w\<rparr>))))"

definition handleIPAllocation ::
    "'w nr_env \<Rightarrow> int \<Rightarrow> maintenanceAction \<Rightarrow> 'w NetResource \<Rightarrow> (err + bool) \<times> 'w NetResource" where
  "handleIPAllocation E now a n =
     (case allocation a of
        None \<Rightarrow> (Inr False, n)
      | Some aa \<Rightarrow>
          if AvailableForAllocationIPv4 aa > 0 \<or> AvailableForAllocationIPv6 aa > 0
          then (let aa' = aa\<lparr>AvailableForAllocationIPv4 :=
                               IntMin (AvailableForAllocationIPv4 aa) (MaxIPsToAllocate aa),
                             AvailableForAllocationIPv6 :=
                               IntMin (AvailableForAllocationIPv6 aa) (MaxIPsToAllocate aa)\<rparr>
                in case op_AllocateIPs (ops E) aa' (cloud n) of
                     (None, w) \<Rightarrow> (Inr True, emit (AllocateIPsCall aa') (n\<lparr>cloud := w\<rparr>))
                   | (Some e, w) \<Rightarrow>
                       createInterface E now aa' (emit (AllocateIPsCall aa') (n\<lparr>cloud := w\<rparr>)))
          else createInterface E now aa n)"

section \<open>Maintenance of the pool\<close>

definition maintainIPPool ::
    "'w nr_env \<Rightarrow> int \<Rightarrow> 'w NetResource \<Rightarrow> ((err + bool) \<times> 'w NetResource) option" where
  "maintainIPPool E now n =
     (let n0 = (if releaseExcessIPs E then removeStaleReleaseIPs n else n) in
      case determineMaintenanceAction E n0 of
        None \<Rightarrow> None
      | Some (Inl e, n1) \<Rightarrow> map_option (Pair (Inl e)) (abortNoLongerExcessIPs (\<lambda>_. False) n1)
      | Some (Inr None, n1) \<Rightarrow> map_option (Pair (Inr False)) (abortNoLongerExcessIPs (\<lambda>_. False) n1)
      | Some (Inr (Some a), n1) \<Rightarrow>
          (case handleIPRelease E now a n1 of
             None \<Rightarrow> None
           | Some (Inl e, n2) \<Rightarrow> Some (Inl e, n2)
           | Some (Inr True, n2) \<Rightarrow> Some (Inr True, n2)
           | Some (Inr False, n2) \<Rightarrow> Some (handleIPAllocation E now a n2)))"

definition updateLastResync :: "int \<Rightarrow> 'w NetResource \<Rightarrow> 'w NetResource" where
  "updateLastResync syncTime n = (if syncTime > resyncNeeded n then n\<lparr>resyncNeeded := 0\<rparr> else n)"

definition set_waiting :: "bool \<Rightarrow> 'w NetResource \<Rightarrow> 'w NetResource" where
  "set_waiting b n = n\<lparr>waitingForPoolMaintenance := b\<rparr>"

definition MaintainIPPool ::
    "'w nr_env \<Rightarrow> int \<Rightarrow> 'w NetResource \<Rightarrow> (err option \<times> 'w NetResource) option" where
  "MaintainIPPool E now n =
     map_option (apsnd (set_waiting False))
       (let n0 = set_waiting True n in
        if \<not> stableInstancesAPI E
        then Some (Some ''instances API is unstable'', emit (Triggered Retry) n0)
        else if \<not> IsRunning now n0 then Some (None, n0)
        else (case maintainIPPool E now n0 of
                None \<Rightarrow> None
              | Some (res, n1) \<Rightarrow>
                  (let n2 = (if is_err res then n1 else n1\<lparr>resyncNeeded := now\<rparr>);
                       n3 = recalculate E n2;
                       n4 = (if res \<noteq> Inr False then emit (Triggered ResyncTrigger) n3 else n3)
                   in Some (case res of Inl e \<Rightarrow> Some e | Inr _ \<Rightarrow> None, n4))))"

section \<open>Synchronisation with the API server\<close>

definition PopulateIPReleaseStatus ::
    "NetResourceSet \<Rightarrow> 'w NetResource \<Rightarrow> NetResourceSet \<times> 'w NetResource" where
  "PopulateIPReleaseStatus node n =
     (let n1 = removeStaleReleaseIPs n;
          st = (\<lambda>ip. case ipReleaseStatus n1 ip of
                  None \<Rightarrow> None
                | Some status \<Rightarrow>
                    (case release_ips node ip of
                       Some existing \<Rightarrow>
                         if status = IPAMMarkForRelease \<and>
                            (existing = IPAMReadyForRelease \<or> existing = IPAMDoNotRelease)
                         then Some existing else Some status
                     | None \<Rightarrow> Some status))
      in (set_ReleaseIPs st node, n1))"

text \<open>The rest of \<open>update\<close> when no named object came back.\<close>

definition update_failed ::
    "'w nr_env \<Rightarrow> api_error option \<Rightarrow> NetResourceSet \<Rightarrow> NetResourceSet \<Rightarrow> 'w NetResource
     \<Rightarrow> api_error option \<times> NetResourceSet \<times> NetResourceSet \<times> 'w NetResource" where
  "update_failed E updateErr orig node n =
     (case updateErr of
        None \<Rightarrow> (None, orig, node, n)
      | Some e \<Rightarrow>
          (case ns_Get (api E) (nrsName node) (cloud n) of
             (Inl e', w') \<Rightarrow> (Some e', orig, node, n\<lparr>cloud := w'\<rparr>)
           | (Inr new', w') \<Rightarrow> (Some e, new', new', n\<lparr>cloud := w'\<rparr>)))"

text \<open>\<open>update\<close>: the error, and the new values behind the pointers \<open>origNode\<close> and \<open>node\<close>. An error
  that comes with a named object is dropped.\<close>

definition update_node ::
    "'w nr_env \<Rightarrow> bool \<Rightarrow> NetResourceSet \<Rightarrow> NetResourceSet \<Rightarrow> 'w NetResource
     \<Rightarrow> api_error option \<times> NetResourceSet \<times> NetResourceSet \<times> 'w NetResource" where
  "update_node E status orig node n =
     (let ((updated, updateErr), w) =
            (if status then ns_UpdateStatus (api E) orig node (cloud n)
             else ns_Update (api E) orig node (cloud n));
          accepted = (updateErr = None \<or> (case updated of None \<Rightarrow> False | Some u \<Rightarrow> nrsName u \<noteq> []));
          n1 = emit (if status then UpdateStatusCall node accepted else UpdateCall node accepted)
                 (n\<lparr>cloud := w\<rparr>)
      in case updated of
           Some u \<Rightarrow>
             if nrsName u \<noteq> [] then (None, orig, u, n1) else update_failed E updateErr orig node n1
         | None \<Rightarrow> update_failed E updateErr orig node n1)"

definition with_pool :: "'w nr_env \<Rightarrow> NetResourceSet \<Rightarrow> 'w NetResource \<Rightarrow> NetResourceSet" where
  "with_pool E node n =
     node\<lparr>SpecIPAM := (SpecIPAM node)\<lparr>
       Pool := Some (Pool_copy n),
       PreAllocate := (if PreAllocate (SpecIPAM node) = 0
                       then op_GetMinimumAllocatableIPv4 (ops E) (cloud n)
                       else PreAllocate (SpecIPAM node))\<rparr>\<rparr>"

text \<open>The two loops; the first argument is the number of attempts left.\<close>

fun syncSpec ::
    "'w nr_env \<Rightarrow> nat \<Rightarrow> api_error option \<Rightarrow> NetResourceSet \<Rightarrow> NetResourceSet \<Rightarrow> 'w NetResource
     \<Rightarrow> api_error option \<times> NetResourceSet \<times> NetResourceSet \<times> 'w NetResource" where
  "syncSpec E 0 err orig node n = (err, orig, node, n)"
| "syncSpec E (Suc k) err orig node n =
     (case update_node E False orig (with_pool E node n) n of
        (None, orig', node', n') \<Rightarrow> (None, orig', node', n')
      | (Some e, orig', node', n') \<Rightarrow> syncSpec E k (Some e) orig' node' n')"

text \<open>The map of used addresses is never nil here, so the first statement of the loop has no effect.\<close>

fun syncStatusLoop ::
    "'w nr_env \<Rightarrow> nat \<Rightarrow> api_error option \<Rightarrow> NetResourceSet \<Rightarrow> NetResourceSet \<Rightarrow> 'w NetResource
     \<Rightarrow> api_error option \<times> 'w NetResource" where
  "syncStatusLoop E 0 err orig node n = (err, n)"
| "syncStatusLoop E (Suc k) err orig node n =
     (case op_PopulateStatusFields (ops E) node (cloud n) of
        (node1, w) \<Rightarrow>
          (case PopulateIPReleaseStatus node1 (n\<lparr>cloud := w\<rparr>) of
             (node2, n2) \<Rightarrow>
               (case update_node E True orig node2 n2 of
                  (None, orig', node', n') \<Rightarrow> (None, n')
                | (Some e, orig', node', n') \<Rightarrow>
                    if e = APINotFound then (None, n')
                    else syncStatusLoop E k (Some e) orig' node' n')))"

definition syncToAPIServer :: "'w nr_env \<Rightarrow> 'w NetResource \<Rightarrow> api_error option \<times> 'w NetResource" where
  "syncToAPIServer E n =
     (case resource n of
        None \<Rightarrow> (None, n)
      | Some node \<Rightarrow>
          (let (res, n') =
                 (case syncSpec E 2 None node node n of
                    (Some e, orig', node', n') \<Rightarrow> (Some e, n')
                  | (None, orig', node', n') \<Rightarrow> syncStatusLoop E 2 None orig' node' n')
           in (res, if res \<noteq> None then emit (Triggered RetrySyncToAPIServer) n' else n')))"

end
