(* ===== verification/NodeMaintenance.thy ===== *)
theory NodeMaintenance
  imports NetResource
begin

text \<open>
  What the operator's maintenance of a node guarantees (\<open>pkg/ipam/net_resource.go\<close>): the exact
  effect of the loop over the addresses marked for release, which addresses reach the cloud's
  \<open>ReleaseIPs\<close>, what the operator writes into the status of the resource, and the invariant of the
  node over all its operations in any order.
\<close>

section \<open>The loop over the marked addresses\<close>

definition settled :: "int \<Rightarrow> int \<Rightarrow> string list \<Rightarrow> (string \<rightharpoonup> int) \<Rightarrow> string \<Rightarrow> bool" where
  "settled delay now excess marked ip \<longleftrightarrow>
     ip \<in> set excess \<and> the (marked ip) + delay * second \<le> now"

definition dropped :: "int \<Rightarrow> int \<Rightarrow> NetResourceSet \<Rightarrow> string list \<Rightarrow> (string \<rightharpoonup> int) \<Rightarrow> string \<Rightarrow> bool" where
  "dropped delay now r excess marked ip \<longleftrightarrow>
     ip \<notin> set excess \<or>
     settled delay now excess marked ip \<and> release_ips r ip = Some IPAMDoNotRelease"

definition forget_where :: "(string \<Rightarrow> bool) \<Rightarrow> 'w NetResource \<Rightarrow> 'w NetResource" where
  "forget_where P n = n\<lparr>
     ipsMarkedForRelease := (\<lambda>ip. if P ip then None else ipsMarkedForRelease n ip),
     ipReleaseStatus := (\<lambda>ip. if P ip then None else ipReleaseStatus n ip)\<rparr>"

lemma forget_where_simps [simp]:
  "ipsMarkedForRelease (forget_where P n) ip = (if P ip then None else ipsMarkedForRelease n ip)"
  "ipReleaseStatus (forget_where P n) ip = (if P ip then None else ipReleaseStatus n ip)"
  "resource (forget_where P n) = resource n" "cloud (forget_where P n) = cloud n"
  "trace (forget_where P n) = trace n" "stats (forget_where P n) = stats n"
  "available (forget_where P n) = available n" "instanceRunning (forget_where P n) = instanceRunning n"
  by (simp_all add: forget_where_def)

lemma forget_where_False [simp]: "forget_where (\<lambda>ip. False) n = n"
  by (simp add: forget_where_def)

lemma forget_eq: "forget ip = forget_where (\<lambda>x. x = ip)"
  by (simp add: fun_eq_iff forget_def forget_where_def fun_upd_def)

lemma forget_where_twice:
  "forget_where P (forget_where Q n) = forget_where (\<lambda>ip. P ip \<or> Q ip) n"
  by (simp add: forget_where_def fun_eq_iff)

lemma fold_forget: "fold forget ips n = forget_where (\<lambda>ip. ip \<in> set ips) n"
proof (induction ips arbitrary: n)
  case Nil
  then show ?case by simp
next
  case (Cons ip ips)
  then show ?case by (simp add: forget_eq forget_where_twice) (simp add: disj_commute eq_commute)
qed

lemma abortNoLongerExcessIPs_eq:
  "resource n = Some r \<Longrightarrow> abortNoLongerExcessIPs excess n = Some (forget_where (aborted r excess n) n)"
  by (simp add: abortNoLongerExcessIPs_def forget_where_def)

lemma markedLoop_spec:
  assumes "distinct ks" "\<And>ip. ip \<in> set ks \<Longrightarrow> ipsMarkedForRelease n ip = m ip"
  shows "markedLoop delay now r excess ks (mark, rel, n) =
    (mark @ filter (\<lambda>ip. settled delay now excess m ip \<and> release_ips r ip = None) ks,
     rel @ filter (\<lambda>ip. settled delay now excess m ip \<and> release_ips r ip = Some IPAMReadyForRelease) ks,
     forget_where (\<lambda>ip. ip \<in> set ks \<and> dropped delay now r excess m ip) n)"
  using assms
proof (induction ks arbitrary: mark rel n)
  case Nil
  then show ?case by simp
next
  case (Cons ip ks)
  have m: "ipsMarkedForRelease n ip = m ip" using Cons.prems by simp
  have nin: "ip \<notin> set ks" "distinct ks" using Cons.prems by auto
  let ?drop = "forget_where (\<lambda>x. x = ip) n"
  have keep: "markedLoop delay now r excess ks (mark', rel', n) =
    (mark' @ filter (\<lambda>ip. settled delay now excess m ip \<and> release_ips r ip = None) ks,
     rel' @ filter (\<lambda>ip. settled delay now excess m ip \<and> release_ips r ip = Some IPAMReadyForRelease) ks,
     forget_where (\<lambda>ip. ip \<in> set ks \<and> dropped delay now r excess m ip) n)" for mark' rel'
    by (rule Cons.IH) (use nin Cons.prems in auto)
  have gone: "markedLoop delay now r excess ks (mark', rel', ?drop) =
    (mark' @ filter (\<lambda>ip. settled delay now excess m ip \<and> release_ips r ip = None) ks,
     rel' @ filter (\<lambda>ip. settled delay now excess m ip \<and> release_ips r ip = Some IPAMReadyForRelease) ks,
     forget_where (\<lambda>x. x \<in> set ks \<and> dropped delay now r excess m x \<or> x = ip) n)" for mark' rel'
    unfolding forget_where_twice [symmetric]
    by (rule Cons.IH) (use nin Cons.prems in auto)
  have drop_eq: "(\<lambda>x. x \<in> set (ip # ks) \<and> dropped delay now r excess m x) =
      (\<lambda>x. x \<in> set ks \<and> dropped delay now r excess m x \<or> x = ip)" if "dropped delay now r excess m ip"
    using that by auto
  have keep_eq: "(\<lambda>x. x \<in> set (ip # ks) \<and> dropped delay now r excess m x) =
      (\<lambda>x. x \<in> set ks \<and> dropped delay now r excess m x)" if "\<not> dropped delay now r excess m ip"
    using that by auto
  consider (out) "ip \<notin> set excess" | (early) "ip \<in> set excess" "the (m ip) + delay * second > now"
    | (ready) "settled delay now excess m ip" "release_ips r ip = Some IPAMReadyForRelease"
    | (refused) "settled delay now excess m ip" "release_ips r ip = Some IPAMDoNotRelease"
    | (other) s where "settled delay now excess m ip" "release_ips r ip = Some s"
        "s \<noteq> IPAMReadyForRelease" "s \<noteq> IPAMDoNotRelease"
    | (new) "settled delay now excess m ip" "release_ips r ip = None"
    by (cases "release_ips r ip") (metis not_le settled_def)+
  then show ?case
  proof cases
    case out
    then have d: "dropped delay now r excess m ip" "\<not> settled delay now excess m ip"
      by (simp_all add: dropped_def settled_def)
    show ?thesis unfolding drop_eq [OF d(1)] using out d(2) by (simp add: forget_eq gone)
  next
    case early
    then have d: "\<not> dropped delay now r excess m ip" "\<not> settled delay now excess m ip"
      by (simp_all add: dropped_def settled_def)
    show ?thesis unfolding keep_eq [OF d(1)] using early d(2) m by (simp add: keep)
  next
    case ready
    then have d: "\<not> dropped delay now r excess m ip" by (simp add: dropped_def settled_def)
    show ?thesis unfolding keep_eq [OF d] using ready m
      by (simp add: keep settled_def handleIPReleaseResponse_def)
  next
    case refused
    then have d: "dropped delay now r excess m ip" by (simp add: dropped_def)
    show ?thesis unfolding drop_eq [OF d] using refused m
      by (simp add: gone settled_def handleIPReleaseResponse_def forget_eq)
  next
    case other
    then have d: "\<not> dropped delay now r excess m ip" by (simp add: dropped_def settled_def)
    show ?thesis unfolding keep_eq [OF d] using other m
      by (simp add: keep settled_def handleIPReleaseResponse_def)
  next
    case new
    then have d: "\<not> dropped delay now r excess m ip" by (simp add: dropped_def settled_def)
    show ?thesis unfolding keep_eq [OF d] using new m
      by (simp add: keep settled_def handleIPReleaseResponse_def)
  qed
qed

lemma markTimes_dom: "dom (markTimes now ips m) = dom m \<union> set ips"
  unfolding markTimes_def
  by (induction ips arbitrary: m) auto

lemma markTimes_value:
  "markTimes now ips m ip = (if m ip = None \<and> ip \<in> set ips then Some now else m ip)"
  unfolding markTimes_def
  by (induction ips arbitrary: m) auto

lemma fold_mark:
  "fold (\<lambda>ip m. m(ip \<mapsto> v)) ips m = (\<lambda>ip. if ip \<in> set ips then Some v else m ip)"
  by (induction ips arbitrary: m) (auto simp: fun_eq_iff)

section \<open>One release round\<close>

definition nr_env_ok :: "'w nr_env \<Rightarrow> bool" where
  "nr_env_ok E \<longleftrightarrow>
     (\<forall>m. finite (dom m) \<longrightarrow> iter_order (allocOrder E m) m) \<and>
     (\<forall>m. finite (dom m) \<longrightarrow> iter_order (markOrder E m) m)"

definition excess_of :: "maintenanceAction \<Rightarrow> string list" where
  "excess_of a = (case release a of None \<Rightarrow> [] | Some ra \<Rightarrow> IPsToRelease ra)"

definition marked_of :: "int \<Rightarrow> maintenanceAction \<Rightarrow> 'w NetResource \<Rightarrow> (string \<rightharpoonup> int)" where
  "marked_of now a n =
     (if excess_of a = [] then Map.empty else markTimes now (excess_of a) (ipsMarkedForRelease n))"

lemma marked_of_dom: "settled d now (excess_of a) m ip \<Longrightarrow> ip \<in> dom (marked_of now a n)"
  by (auto simp: settled_def marked_of_def markTimes_dom simp del: domIff)

definition released_in :: "'w nr_env \<Rightarrow> int \<Rightarrow> NetResourceSet \<Rightarrow> maintenanceAction \<Rightarrow> 'w NetResource \<Rightarrow> string \<Rightarrow> bool" where
  "released_in E now r a n ip \<longleftrightarrow>
     settled (ExcessIPReleaseDelay E) now (excess_of a) (marked_of now a n) ip \<and>
     release_ips r ip = Some IPAMReadyForRelease"

definition newly_marked :: "'w nr_env \<Rightarrow> int \<Rightarrow> NetResourceSet \<Rightarrow> maintenanceAction \<Rightarrow> 'w NetResource \<Rightarrow> string \<Rightarrow> bool" where
  "newly_marked E now r a n ip \<longleftrightarrow>
     settled (ExcessIPReleaseDelay E) now (excess_of a) (marked_of now a n) ip \<and> release_ips r ip = None"

text \<open>The node before the cloud is asked to release.\<close>

definition after_marks :: "'w nr_env \<Rightarrow> int \<Rightarrow> NetResourceSet \<Rightarrow> maintenanceAction \<Rightarrow> 'w NetResource \<Rightarrow> 'w NetResource" where
  "after_marks E now r a n =
     (let m = marked_of now a n;
          n2 = forget_where (\<lambda>ip. ip \<in> dom m \<and> dropped (ExcessIPReleaseDelay E) now r (excess_of a) m ip)
                 (n\<lparr>ipsMarkedForRelease := m\<rparr>);
          n3 = n2\<lparr>ipReleaseStatus := (\<lambda>ip. if newly_marked E now r a n ip then Some IPAMMarkForRelease
                                          else ipReleaseStatus n2 ip)\<rparr>
      in forget_where (aborted r (\<lambda>ip. ip \<in> set (excess_of a)) n3) n3)"

lemma after_marks_simps [simp]:
  "resource (after_marks E now r a n) = resource n" "cloud (after_marks E now r a n) = cloud n"
  "trace (after_marks E now r a n) = trace n" "stats (after_marks E now r a n) = stats n"
  "available (after_marks E now r a n) = available n"
  "instanceRunning (after_marks E now r a n) = instanceRunning n"
  by (simp_all add: after_marks_def Let_def)

lemma handleIPRelease_eq:
  assumes "resource n = Some r" "nr_env_ok E" "finite (dom (ipsMarkedForRelease n))"
  shows "\<exists>rel. distinct rel \<and> set rel = Collect (released_in E now r a n) \<and>
    handleIPRelease E now a n = Some
      (if rel = [] then (Inr False, after_marks E now r a n)
       else (let ra = (the (release a))\<lparr>IPsToRelease := rel\<rparr> in
             case op_ReleaseIPs (ops E) ra (cloud n) of
               (Inl e, w) \<Rightarrow> (Inl ''failed to release IPs'',
                  emit (ReleaseIPsCall ra) (after_marks E now r a n\<lparr>cloud := w\<rparr>))
             | (Inr released, w) \<Rightarrow> (Inr True, forget_where (\<lambda>ip. ip \<in> set released)
                  (emit (ReleaseIPsCall ra) (after_marks E now r a n\<lparr>cloud := w\<rparr>)))))"
proof -
  define m where "m = marked_of now a n"
  define n1 where "n1 = n\<lparr>ipsMarkedForRelease := m\<rparr>"
  define ks where "ks = markOrder E m"
  have fin: "finite (dom m)"
    using assms(3) by (simp add: m_def marked_of_def markTimes_dom del: domIff)
  then have ks: "distinct ks" "set ks = dom m"
    using assms(2) unfolding ks_def nr_env_ok_def iter_order_def by blast+
  define rel where "rel = filter (\<lambda>ip. settled (ExcessIPReleaseDelay E) now (excess_of a) m ip \<and>
      release_ips r ip = Some IPAMReadyForRelease) ks"
  define mark where "mark = filter (\<lambda>ip. settled (ExcessIPReleaseDelay E) now (excess_of a) m ip \<and>
      release_ips r ip = None) ks"
  have loop: "markedLoop (ExcessIPReleaseDelay E) now r (excess_of a) ks ([], [], n1) =
      (mark, rel, forget_where (\<lambda>ip. ip \<in> dom m \<and> dropped (ExcessIPReleaseDelay E) now r (excess_of a) m ip) n1)"
    using markedLoop_spec [OF ks(1), where n = n1 and m = m and r = r and mark = "[]" and rel = "[]"]
    by (simp add: rel_def mark_def ks(2) n1_def)
  have in_dom: "ip \<in> dom m" if "settled (ExcessIPReleaseDelay E) now (excess_of a) m ip" for ip
    using marked_of_dom [OF that, of n] by (simp add: m_def)
  have set_rel: "set rel = Collect (released_in E now r a n)"
    unfolding rel_def set_filter ks(2) released_in_def m_def [symmetric] using in_dom by blast
  have set_mark: "ip \<in> set mark \<longleftrightarrow> newly_marked E now r a n ip" for ip
    unfolding mark_def set_filter ks(2) newly_marked_def m_def [symmetric] using in_dom by blast
  define n2 where "n2 = forget_where (\<lambda>ip. ip \<in> dom m \<and> dropped (ExcessIPReleaseDelay E) now r (excess_of a) m ip) n1"
  define n3 where "n3 = n2\<lparr>ipReleaseStatus :=
      fold (\<lambda>ip m. m(ip \<mapsto> IPAMMarkForRelease)) mark (ipReleaseStatus n2)\<rparr>"
  have res: "resource n3 = Some r" by (simp add: n3_def n2_def n1_def assms(1))
  have am: "forget_where (aborted r (\<lambda>ip. ip \<in> set (excess_of a)) n3) n3 = after_marks E now r a n"
    by (simp add: after_marks_def n3_def n2_def n1_def m_def fold_mark set_mark Let_def)
  have unf: "handleIPRelease E now a n =
     (case abortNoLongerExcessIPs (\<lambda>ip. ip \<in> set (excess_of a)) n3 of
        None \<Rightarrow> None
      | Some n4 \<Rightarrow>
          if rel = [] then Some (Inr False, n4)
          else (let ra = (the (release a))\<lparr>IPsToRelease := rel\<rparr> in
                case op_ReleaseIPs (ops E) ra (cloud n4) of
                  (Inl e, w) \<Rightarrow>
                    Some (Inl ''failed to release IPs'', emit (ReleaseIPsCall ra) (n4\<lparr>cloud := w\<rparr>))
                | (Inr released, w) \<Rightarrow>
                    Some (Inr True, fold forget released
                                      (emit (ReleaseIPsCall ra) (n4\<lparr>cloud := w\<rparr>)))))"
    unfolding handleIPRelease_def assms(1) option.case Let_def excess_of_def [symmetric]
    unfolding marked_of_def [symmetric] m_def [symmetric] n1_def [symmetric] ks_def [symmetric] loop
    by (simp add: n3_def n2_def)
  have "distinct rel" using ks(1) by (simp add: rel_def)
  with set_rel show ?thesis
    unfolding unf abortNoLongerExcessIPs_eq [OF res] am option.case
    by (intro exI [of _ rel]) (simp add: fold_forget Let_def split: prod.split sum.split)
qed

section \<open>What the operations keep\<close>

definition nr_inv :: "'w NetResource \<Rightarrow> bool" where
  "nr_inv n \<longleftrightarrow>
     (\<forall>ip s. ipReleaseStatus n ip = Some s \<longrightarrow> s = IPAMMarkForRelease) \<and>
     finite (dom (ipsMarkedForRelease n)) \<and> (instanceRunning n \<longrightarrow> resource n \<noteq> None)"

lemma nr_invD:
  assumes "nr_inv n"
  shows "ipReleaseStatus n ip = Some s \<Longrightarrow> s = IPAMMarkForRelease"
    "finite (dom (ipsMarkedForRelease n))" "instanceRunning n \<Longrightarrow> resource n \<noteq> None"
  using assms by (auto simp: nr_inv_def)

lemma nr_inv_cong:
  assumes "nr_inv n" "ipReleaseStatus n' = ipReleaseStatus n"
    "ipsMarkedForRelease n' = ipsMarkedForRelease n"
    "instanceRunning n' \<Longrightarrow> resource n' \<noteq> None"
  shows "nr_inv n'"
  using assms by (simp add: nr_inv_def)

lemma finite_dom_restrict: "finite (dom m) \<Longrightarrow> finite (dom (\<lambda>x. if P x then None else m x))"
  by (erule finite_subset [rotated]) (auto split: if_splits)

lemma nr_inv_forget_where [simp]: "nr_inv n \<Longrightarrow> nr_inv (forget_where P n)"
  by (auto simp: nr_inv_def forget_where_def finite_dom_restrict split: if_splits)

lemma emit_simps [simp]:
  "resource (emit e n) = resource n" "ipReleaseStatus (emit e n) = ipReleaseStatus n"
  "ipsMarkedForRelease (emit e n) = ipsMarkedForRelease n" "stats (emit e n) = stats n"
  "instanceRunning (emit e n) = instanceRunning n" "trace (emit e n) = trace n @ [e]"
  "available (emit e n) = available n" "cloud (emit e n) = cloud n"
  "resyncNeeded (emit e n) = resyncNeeded n"
  "waitingForPoolMaintenance (emit e n) = waitingForPoolMaintenance n"
  by (simp_all add: emit_def)

lemma set_stats_simps [simp]:
  "resource (set_stats f n) = resource n" "ipReleaseStatus (set_stats f n) = ipReleaseStatus n"
  "ipsMarkedForRelease (set_stats f n) = ipsMarkedForRelease n" "trace (set_stats f n) = trace n"
  "instanceRunning (set_stats f n) = instanceRunning n" "available (set_stats f n) = available n"
  "stats (set_stats f n) = f (stats n)"
  by (simp_all add: set_stats_def)

lemma set_waiting_simps [simp]:
  "resource (set_waiting b n) = resource n" "ipReleaseStatus (set_waiting b n) = ipReleaseStatus n"
  "ipsMarkedForRelease (set_waiting b n) = ipsMarkedForRelease n" "trace (set_waiting b n) = trace n"
  "instanceRunning (set_waiting b n) = instanceRunning n" "stats (set_waiting b n) = stats n"
  "cloud (set_waiting b n) = cloud n"
  by (simp_all add: set_waiting_def)

lemma recalculate_frame:
  "resource (recalculate E n) = resource n" "ipReleaseStatus (recalculate E n) = ipReleaseStatus n"
  "ipsMarkedForRelease (recalculate E n) = ipsMarkedForRelease n"
  "instanceRunning (recalculate E n) = instanceRunning n"
  "\<exists>t. trace (recalculate E n) = trace n @ t \<and> set t \<subseteq> {SubnetsAvailable}"
  by (simp_all add: recalculate_def Let_def split: option.split prod.split sum.split)

lemma removeStaleReleaseIPs_id: "nr_inv n \<Longrightarrow> removeStaleReleaseIPs n = n"
proof -
  assume "nr_inv n"
  then have "ipReleaseStatus n ip \<noteq> Some IPAMReleased" for ip
    using nr_invD(1) [of n ip IPAMReleased] by auto
  then show ?thesis by (simp add: removeStaleReleaseIPs_def)
qed

lemma determineMaintenanceAction_frame:
  assumes "determineMaintenanceAction E n = Some (res, n')"
  shows "resource n' = resource n" "ipReleaseStatus n' = ipReleaseStatus n"
    "ipsMarkedForRelease n' = ipsMarkedForRelease n" "instanceRunning n' = instanceRunning n"
    "trace n' = trace n"
    "res = Inr (Some a) \<Longrightarrow> allocation a = None \<or> release a = None"
  using assms
  by (auto simp: determineMaintenanceAction_def Let_def split: if_splits prod.splits sum.splits option.splits)

lemma createInterface_frame:
  assumes "createInterface E now aa n = (res, n')"
  shows "resource n' = resource n" "ipReleaseStatus n' = ipReleaseStatus n"
    "ipsMarkedForRelease n' = ipsMarkedForRelease n" "instanceRunning n' = instanceRunning n"
    "\<exists>t. trace n' = trace n @ t \<and> (\<forall>ra. ReleaseIPsCall ra \<notin> set t)"
  using assms by (auto simp: createInterface_def split: if_splits prod.splits sum.splits)

lemma handleIPAllocation_frame:
  assumes "handleIPAllocation E now a n = (res, n')"
  shows "resource n' = resource n" "ipReleaseStatus n' = ipReleaseStatus n"
    "ipsMarkedForRelease n' = ipsMarkedForRelease n" "instanceRunning n' = instanceRunning n"
    "\<exists>t. trace n' = trace n @ t \<and> (\<forall>ra. ReleaseIPsCall ra \<notin> set t)"
  using assms
  by (auto simp: handleIPAllocation_def Let_def split: option.splits if_splits prod.splits
      dest: createInterface_frame)

lemma finite_dom_forget_where:
  "finite (dom (ipsMarkedForRelease n)) \<Longrightarrow> finite (dom (ipsMarkedForRelease (forget_where P n)))"
  by (simp add: forget_where_def finite_dom_restrict)

lemma after_marks_inv: "nr_inv n \<Longrightarrow> nr_inv (after_marks E now r a n)"
proof -
  assume inv: "nr_inv n"
  have "finite (dom (marked_of now a n))"
    using nr_invD(2) [OF inv] by (simp add: marked_of_def markTimes_dom del: domIff)
  then show ?thesis
    using nr_invD(1,3) [OF inv]
    unfolding after_marks_def Let_def
    by (intro nr_inv_forget_where) (auto simp: nr_inv_def finite_dom_forget_where split: if_splits)
qed

lemma after_marks_status:
  "ipReleaseStatus (after_marks E now r a n) ip = Some s \<Longrightarrow>
   s = IPAMMarkForRelease \<or> ipReleaseStatus n ip = Some s"
  by (auto simp: after_marks_def Let_def split: if_splits)

text \<open>A round either leaves the trace as it is or adds one call of the cloud, with addresses the
  agent has acknowledged and whose delay has passed.\<close>

lemma handleIPRelease_cases:
  assumes "resource n = Some r" "nr_env_ok E" "nr_inv n"
    and "handleIPRelease E now a n = Some (res, n')"
  obtains (quiet) "res = Inr False" "n' = after_marks E now r a n"
    | (called) ra where "res \<noteq> Inr False" "trace n' = trace n @ [ReleaseIPsCall ra]"
        "IPsToRelease ra \<noteq> []" "distinct (IPsToRelease ra)"
        "set (IPsToRelease ra) = Collect (released_in E now r a n)"
        "resource n' = Some r" "nr_inv n'"
proof -
  obtain rel where rel: "distinct rel" "set rel = Collect (released_in E now r a n)"
    "handleIPRelease E now a n = Some
      (if rel = [] then (Inr False, after_marks E now r a n)
       else (let ra = (the (release a))\<lparr>IPsToRelease := rel\<rparr> in
             case op_ReleaseIPs (ops E) ra (cloud n) of
               (Inl e, w) \<Rightarrow> (Inl ''failed to release IPs'',
                  emit (ReleaseIPsCall ra) (after_marks E now r a n\<lparr>cloud := w\<rparr>))
             | (Inr released, w) \<Rightarrow> (Inr True, forget_where (\<lambda>ip. ip \<in> set released)
                  (emit (ReleaseIPsCall ra) (after_marks E now r a n\<lparr>cloud := w\<rparr>)))))"
    using handleIPRelease_eq [OF assms(1,2) nr_invD(2) [OF assms(3)]] by blast
  show thesis
  proof (cases "rel = []")
    case True
    then show thesis using rel(3) assms(4) quiet by simp
  next
    case False
    define ra where "ra = (the (release a))\<lparr>IPsToRelease := rel\<rparr>"
    have inv: "nr_inv (emit (ReleaseIPsCall ra) (after_marks E now r a n\<lparr>cloud := w\<rparr>))" for w
      by (rule nr_inv_cong [OF after_marks_inv [OF assms(3)]]) (use nr_invD(3) [OF assms(3)] in auto)
    obtain o1 w where o: "op_ReleaseIPs (ops E) ra (cloud n) = (o1, w)" by fastforce
    have eq: "(res, n') = (case o1 of
               Inl e \<Rightarrow> (Inl ''failed to release IPs'',
                  emit (ReleaseIPsCall ra) (after_marks E now r a n\<lparr>cloud := w\<rparr>))
             | Inr released \<Rightarrow> (Inr True, forget_where (\<lambda>ip. ip \<in> set released)
                  (emit (ReleaseIPsCall ra) (after_marks E now r a n\<lparr>cloud := w\<rparr>))))"
      using rel(3) assms(4) False o by (simp add: ra_def [symmetric] Let_def)
    have ra: "IPsToRelease ra = rel" by (simp add: ra_def)
    show thesis
    proof (rule called [of ra])
      show "IPsToRelease ra \<noteq> []" "distinct (IPsToRelease ra)"
        "set (IPsToRelease ra) = Collect (released_in E now r a n)"
        using ra rel(1,2) False by simp_all
      show "res \<noteq> Inr False" "trace n' = trace n @ [ReleaseIPsCall ra]" "resource n' = Some r"
        using eq assms(1) by (simp_all split: sum.splits)
      show "nr_inv n'" using eq inv by (simp split: sum.splits)
    qed
  qed
qed

lemma markedLoop_resource:
  "markedLoop d now r ex ks (mark, rel, n) = (mark', rel', n') \<Longrightarrow> resource n' = resource n"
  by (induction d now r ex ks "(mark, rel, n)" arbitrary: mark rel n rule: markedLoop.induct)
     (auto simp: forget_def handleIPReleaseResponse_def split: option.splits if_splits)

lemma handleIPRelease_None_iff: "handleIPRelease E now a n = None \<longleftrightarrow> resource n = None"
proof (cases "resource n")
  case None
  then show ?thesis by (simp add: handleIPRelease_def)
next
  case (Some r)
  define ks where "ks = (if excess_of a = [] then Map.empty else markTimes now (excess_of a) (ipsMarkedForRelease n))"
  obtain mark rel n2 where l: "markedLoop (ExcessIPReleaseDelay E) now r (excess_of a) (markOrder E ks)
      ([], [], n\<lparr>ipsMarkedForRelease := ks\<rparr>) = (mark, rel, n2)"
    by (rule prod_cases3)
  have "resource n2 = Some r" using markedLoop_resource [OF l] Some by simp
  then show ?thesis
    unfolding handleIPRelease_def Some option.case Let_def excess_of_def [symmetric] ks_def [symmetric] l
    by (simp add: abortNoLongerExcessIPs_def split: prod.split sum.split)
qed

section \<open>Maintenance of the pool\<close>

text \<open>The agent has acknowledged the address, and it has been marked for as long as the delay asks.\<close>

definition releasable :: "'w nr_env \<Rightarrow> int \<Rightarrow> NetResourceSet \<Rightarrow> 'w NetResource \<Rightarrow> string \<Rightarrow> bool" where
  "releasable E now r n ip \<longleftrightarrow>
     release_ips r ip = Some IPAMReadyForRelease \<and>
     (ExcessIPReleaseDelay E \<le> 0 \<or>
      (\<exists>ts. ipsMarkedForRelease n ip = Some ts \<and> ts + ExcessIPReleaseDelay E * second \<le> now))"

lemma released_in_releasable:
  assumes "released_in E now r a n ip"
  shows "releasable E now r n ip"
proof -
  have s: "ip \<in> set (excess_of a)" "the (marked_of now a n ip) + ExcessIPReleaseDelay E * second \<le> now"
    "release_ips r ip = Some IPAMReadyForRelease"
    using assms by (auto simp: released_in_def settled_def)
  then have m: "marked_of now a n ip =
      (case ipsMarkedForRelease n ip of None \<Rightarrow> Some now | Some ts \<Rightarrow> Some ts)"
    by (auto simp: marked_of_def markTimes_value split: option.split)
  show ?thesis using s m by (auto simp: releasable_def second_def split: option.splits)
qed

definition only_acknowledged :: "'w nr_env \<Rightarrow> int \<Rightarrow> 'w NetResource \<Rightarrow> 'w NetResource \<Rightarrow> bool" where
  "only_acknowledged E now n n' \<longleftrightarrow>
     (\<exists>t. trace n' = trace n @ t \<and>
        (\<forall>ra. ReleaseIPsCall ra \<in> set t \<longrightarrow>
           (\<exists>r. resource n = Some r \<and> distinct (IPsToRelease ra) \<and>
                (\<forall>ip\<in>set (IPsToRelease ra). releasable E now r n ip))))"

lemma only_acknowledged_no_call:
  "trace n' = trace n @ t \<Longrightarrow> \<forall>ra. ReleaseIPsCall ra \<notin> set t \<Longrightarrow> only_acknowledged E now n n'"
  by (auto simp: only_acknowledged_def)

lemma only_acknowledged_trans:
  "only_acknowledged E now n n1 \<Longrightarrow> trace n2 = trace n1 @ t \<Longrightarrow> \<forall>ra. ReleaseIPsCall ra \<notin> set t
   \<Longrightarrow> only_acknowledged E now n n2"
proof -
  assume a: "only_acknowledged E now n n1" "trace n2 = trace n1 @ t" "\<forall>ra. ReleaseIPsCall ra \<notin> set t"
  then obtain t0 where "trace n1 = trace n @ t0" "\<forall>ra. ReleaseIPsCall ra \<in> set t0 \<longrightarrow>
      (\<exists>r. resource n = Some r \<and> distinct (IPsToRelease ra) \<and>
           (\<forall>ip\<in>set (IPsToRelease ra). releasable E now r n ip))"
    unfolding only_acknowledged_def by blast
  with a(2,3) show "only_acknowledged E now n n2"
    unfolding only_acknowledged_def by (intro exI [of _ "t0 @ t"]) auto
qed

lemma only_acknowledged_cong:
  "only_acknowledged E now n0 n' \<Longrightarrow> trace n0 = trace n \<Longrightarrow> resource n0 = resource n \<Longrightarrow>
   ipsMarkedForRelease n0 = ipsMarkedForRelease n \<Longrightarrow> only_acknowledged E now n n'"
  by (simp add: only_acknowledged_def releasable_def)

lemma aborted_round:
  assumes "resource n1 = Some r" "nr_inv n1" "trace n1 = trace n"
    "map_option (Pair v) (abortNoLongerExcessIPs ex n1) = Some (res, n')"
  shows "only_acknowledged E now n n' \<and> nr_inv n' \<and> resource n' = Some r"
proof -
  have n': "n' = forget_where (aborted r ex n1) n1"
    using assms(4) by (simp add: abortNoLongerExcessIPs_eq [OF assms(1)])
  have "only_acknowledged E now n n'"
    by (rule only_acknowledged_no_call [of _ _ "[]"]) (simp_all add: n' assms(3))
  then show ?thesis using assms(1,2) by (simp add: n')
qed

lemma maintainIPPool_spec:
  assumes "nr_inv n" "nr_env_ok E" "resource n = Some r" "maintainIPPool E now n = Some (res, n')"
  shows "only_acknowledged E now n n' \<and> nr_inv n' \<and> resource n' = Some r"
proof -
  have n0: "(if releaseExcessIPs E then removeStaleReleaseIPs n else n) = n"
    by (simp add: removeStaleReleaseIPs_id [OF assms(1)])
  obtain dres n1 where d: "determineMaintenanceAction E n = Some (dres, n1)"
    using assms(4) unfolding maintainIPPool_def n0 Let_def by (auto split: option.splits)
  note fr = determineMaintenanceAction_frame [OF d]
  have inv1: "nr_inv n1" using nr_inv_cong [OF assms(1) fr(2,3)] fr(1,4) assms(1) nr_invD(3) by metis
  have r1: "resource n1 = Some r" using fr(1) assms(3) by simp
  have unf: "maintainIPPool E now n =
     (case dres of
        Inl e \<Rightarrow> map_option (Pair (Inl e)) (abortNoLongerExcessIPs (\<lambda>_. False) n1)
      | Inr None \<Rightarrow> map_option (Pair (Inr False)) (abortNoLongerExcessIPs (\<lambda>_. False) n1)
      | Inr (Some a) \<Rightarrow>
          (case handleIPRelease E now a n1 of
             None \<Rightarrow> None
           | Some (Inl e, n2) \<Rightarrow> Some (Inl e, n2)
           | Some (Inr True, n2) \<Rightarrow> Some (Inr True, n2)
           | Some (Inr False, n2) \<Rightarrow> Some (handleIPAllocation E now a n2)))"
    unfolding maintainIPPool_def n0 Let_def d by simp
  show ?thesis
  proof (cases "\<exists>a. dres = Inr (Some a)")
    case False
    then consider (err) e where "dres = Inl e" | (idle) "dres = Inr None"
      by (metis obj_sumE option.exhaust)
    then show ?thesis
    proof cases
      case err
      have "map_option (Pair (Inl e)) (abortNoLongerExcessIPs (\<lambda>_. False) n1) = Some (res, n')"
        using assms(4) by (simp only: unf err sum.case)
      then show ?thesis by (rule aborted_round [OF r1 inv1 fr(5)])
    next
      case idle
      have "map_option (Pair (Inr False)) (abortNoLongerExcessIPs (\<lambda>_. False) n1) = Some (res, n')"
        using assms(4) by (simp only: unf idle sum.case option.case)
      then show ?thesis by (rule aborted_round [OF r1 inv1 fr(5)])
    qed
  next
    case True
    then obtain a where act: "dres = Inr (Some a)" by blast
    obtain hres n2 where h: "handleIPRelease E now a n1 = Some (hres, n2)"
      using r1 handleIPRelease_None_iff [of E now a n1] by (cases "handleIPRelease E now a n1") auto
    have run: "Some (res, n') = (if hres = Inr False then Some (handleIPAllocation E now a n2) else Some (hres, n2))"
      using assms(4) unfolding unf act by (auto simp: h split: sum.splits bool.splits)
    from r1 assms(2) inv1 h show ?thesis
    proof (cases rule: handleIPRelease_cases)
      case quiet
      then have alloc: "handleIPAllocation E now a n2 = (res, n')" using run by simp
      note af = handleIPAllocation_frame [OF alloc]
      obtain t where t: "trace n' = trace n2 @ t" "\<forall>ra. ReleaseIPsCall ra \<notin> set t" using af(5) by blast
      have "trace n' = trace n @ t" using t quiet(2) fr(5) by simp
      moreover have r': "resource n' = Some r" using af(1) quiet(2) r1 by simp
      moreover have "nr_inv n2" using after_marks_inv [OF inv1] quiet(2) by simp
      ultimately show ?thesis
        using only_acknowledged_no_call [OF _ t(2)] nr_inv_cong [of n2 n'] af by blast
    next
      case (called ra)
      have "n' = n2" using run called(1) by simp
      have "only_acknowledged E now n1 n2"
        using called r1 released_in_releasable [of E now r a n1] by (auto simp: only_acknowledged_def)
      then have "only_acknowledged E now n n2"
        by (rule only_acknowledged_cong) (simp_all add: fr(1,3,5))
      then show ?thesis using called \<open>n' = n2\<close> by simp
    qed
  qed
qed

lemma MaintainIPPool_spec:
  assumes "nr_inv n" "nr_env_ok E" "MaintainIPPool E now n = Some (e, n')"
  shows "only_acknowledged E now n n' \<and> nr_inv n' \<and> resource n' = resource n"
proof -
  define n0 where "n0 = set_waiting True n"
  have n0: "resource n0 = resource n" "ipsMarkedForRelease n0 = ipsMarkedForRelease n"
      "trace n0 = trace n" "nr_inv n0" "instanceRunning n0 = instanceRunning n"
    using nr_inv_cong [OF assms(1), of n0] nr_invD(3) [OF assms(1)] by (simp_all add: n0_def)
  have fin: "only_acknowledged E now n (set_waiting False m) \<and> nr_inv (set_waiting False m) \<and>
      resource (set_waiting False m) = resource n"
    if m: "trace m = trace x @ t" "\<forall>ra. ReleaseIPsCall ra \<notin> set t" "only_acknowledged E now n0 x"
      "nr_inv x" "resource x = resource n" "ipsMarkedForRelease m = ipsMarkedForRelease x"
      "ipReleaseStatus m = ipReleaseStatus x" "resource m = resource x"
      "instanceRunning m = instanceRunning x" for m x t
  proof -
    have "nr_inv (set_waiting False m)"
      using nr_inv_cong [OF m(4), of "set_waiting False m"] m nr_invD(3) [OF m(4)] by simp
    moreover have "only_acknowledged E now n (set_waiting False m)"
      by (rule only_acknowledged_cong [OF only_acknowledged_trans [OF m(3) _ m(2)]]) (simp_all add: m n0)
    ultimately show ?thesis using m(5,8) by simp
  qed
  have refl: "only_acknowledged E now n0 n0" by (auto simp: only_acknowledged_def)
  show ?thesis
  proof (cases "stableInstancesAPI E \<and> IsRunning now n0")
    case False
    then consider "n' = set_waiting False (emit (Triggered Retry) n0)" | "n' = set_waiting False n0"
      using assms(3) by (auto simp: MaintainIPPool_def n0_def [symmetric] Let_def split: if_splits)
    then show ?thesis using fin [OF _ _ refl, of _ "[Triggered Retry]"] fin [OF _ _ refl, of n0 "[]"] n0
      by cases auto
  next
    case True
    then obtain r where r: "resource n0 = Some r" using nr_invD(3) [OF n0(4)] by (auto simp: IsRunning_def)
    obtain res n1 where m: "maintainIPPool E now n0 = Some (res, n1)"
      using assms(3) True by (auto simp: MaintainIPPool_def n0_def [symmetric] Let_def split: option.splits)
    define n3 where "n3 = recalculate E (if is_err res then n1 else n1\<lparr>resyncNeeded := now\<rparr>)"
    have n': "n' = set_waiting False (if res \<noteq> Inr False then emit (Triggered ResyncTrigger) n3 else n3)"
      using assms(3) True m
      by (auto simp: MaintainIPPool_def n0_def [symmetric] Let_def n3_def split: if_splits)
    have sp: "only_acknowledged E now n0 n1" "nr_inv n1" "resource n1 = resource n"
      using maintainIPPool_spec [OF n0(4) assms(2) r m] r n0(1) by simp_all
    have n3: "resource n3 = resource n1" "ipReleaseStatus n3 = ipReleaseStatus n1"
      "ipsMarkedForRelease n3 = ipsMarkedForRelease n1" "instanceRunning n3 = instanceRunning n1"
      by (simp_all add: n3_def recalculate_frame)
    obtain t where t: "trace n3 = trace n1 @ t" "set t \<subseteq> {SubnetsAvailable}"
      using recalculate_frame(5) [of E "if is_err res then n1 else n1\<lparr>resyncNeeded := now\<rparr>"]
      by (auto simp: n3_def)
    show ?thesis unfolding n'
    proof (cases "res \<noteq> Inr False")
      case True
      have "trace (emit (Triggered ResyncTrigger) n3) = trace n1 @ (t @ [Triggered ResyncTrigger])"
        using t by simp
      from fin [OF this _ sp] t(2) n3 True show "only_acknowledged E now n (set_waiting False (if res \<noteq> Inr False
          then emit (Triggered ResyncTrigger) n3 else n3)) \<and> nr_inv (set_waiting False (if res \<noteq> Inr False
          then emit (Triggered ResyncTrigger) n3 else n3)) \<and> resource (set_waiting False (if res \<noteq> Inr False
          then emit (Triggered ResyncTrigger) n3 else n3)) = resource n"
        by (auto simp: subset_singleton_iff)
    next
      case False
      from fin [OF t(1) _ sp] t(2) n3 False show "only_acknowledged E now n (set_waiting False (if res \<noteq> Inr False
          then emit (Triggered ResyncTrigger) n3 else n3)) \<and> nr_inv (set_waiting False (if res \<noteq> Inr False
          then emit (Triggered ResyncTrigger) n3 else n3)) \<and> resource (set_waiting False (if res \<noteq> Inr False
          then emit (Triggered ResyncTrigger) n3 else n3)) = resource n"
        by auto
    qed
  qed
qed

section \<open>Synchronisation\<close>

text \<open>An operation that only writes to the API server keeps the local state.\<close>

definition same_local :: "'w NetResource \<Rightarrow> 'w NetResource \<Rightarrow> bool" where
  "same_local n n' \<longleftrightarrow>
     resource n' = resource n \<and> ipReleaseStatus n' = ipReleaseStatus n \<and>
     ipsMarkedForRelease n' = ipsMarkedForRelease n \<and> instanceRunning n' = instanceRunning n \<and>
     available n' = available n"

lemma same_local_trans: "same_local n n1 \<Longrightarrow> same_local n1 n2 \<Longrightarrow> same_local n n2"
  by (simp add: same_local_def)

lemma same_local_inv: "nr_inv n \<Longrightarrow> same_local n n' \<Longrightarrow> nr_inv n'"
  by (auto simp: same_local_def nr_inv_def)

lemma update_node_frame:
  assumes "update_node E status orig node n = (res, orig', node', n')"
  shows "same_local n n' \<and>
    trace n' = trace n @ [if status then UpdateStatusCall node (res = None) else UpdateCall node (res = None)]"
  using assms
  by (auto simp: update_node_def update_failed_def Let_def same_local_def split: prod.splits option.splits sum.splits if_splits)

lemma PopulateIPReleaseStatus_eq:
  assumes "nr_inv n"
  shows "PopulateIPReleaseStatus node n =
    (set_ReleaseIPs (\<lambda>ip. if ipReleaseStatus n ip = None then None
       else if release_ips node ip \<in> {Some IPAMReadyForRelease, Some IPAMDoNotRelease}
       then release_ips node ip else Some IPAMMarkForRelease) node, n)"
proof -
  have "(case ipReleaseStatus n ip of None \<Rightarrow> None
        | Some status \<Rightarrow> (case release_ips node ip of
             Some existing \<Rightarrow> if status = IPAMMarkForRelease \<and>
                 (existing = IPAMReadyForRelease \<or> existing = IPAMDoNotRelease)
               then Some existing else Some status
           | None \<Rightarrow> Some status)) =
      (if ipReleaseStatus n ip = None then None
       else if release_ips node ip \<in> {Some IPAMReadyForRelease, Some IPAMDoNotRelease}
       then release_ips node ip else Some IPAMMarkForRelease)" for ip
    using nr_invD(1) [OF assms, of ip] by (auto split: option.splits)
  then show ?thesis by (simp add: PopulateIPReleaseStatus_def removeStaleReleaseIPs_id [OF assms])
qed

definition spec_write :: "'w NetResource \<Rightarrow> effect \<Rightarrow> bool" where
  "spec_write n e \<longleftrightarrow> (\<exists>node ok. e = UpdateCall node ok \<and> Pool (SpecIPAM node) = Some (available n))"

definition status_write :: "'w NetResource \<Rightarrow> effect \<Rightarrow> bool" where
  "status_write n e \<longleftrightarrow>
     (\<exists>node ok. e = UpdateStatusCall node ok \<and> dom (release_ips node) = dom (ipReleaseStatus n) \<and>
        ran (release_ips node) \<subseteq> {IPAMMarkForRelease, IPAMReadyForRelease, IPAMDoNotRelease})"

lemma syncSpec_spec:
  assumes "syncSpec E k err orig node n = (res, orig', node', n')"
  shows "same_local n n' \<and> (\<exists>us. trace n' = trace n @ us \<and> (\<forall>e\<in>set us. spec_write n e) \<and>
    (res = None \<and> k > 0 \<longrightarrow> (\<exists>us' node. us = us' @ [UpdateCall node True])))"
  using assms
proof (induction E k err orig node n rule: syncSpec.induct)
  case (1 E err orig node n)
  then show ?case by (simp add: same_local_def)
next
  case (2 E k err orig node n)
  obtain r1 o1 m1 n1 where u: "update_node E False orig (with_pool E node n) n = (r1, o1, m1, n1)"
    by (cases "update_node E False orig (with_pool E node n) n") auto
  have f: "same_local n n1" "trace n1 = trace n @ [UpdateCall (with_pool E node n) (r1 = None)]"
    using update_node_frame [OF u] by simp_all
  have w: "spec_write n (UpdateCall (with_pool E node n) b)" for b
    by (simp add: spec_write_def with_pool_def Pool_copy_def)
  show ?case
  proof (cases r1)
    case None
    then have "n' = n1" using 2(2) u by simp
    then show ?thesis using f w None by auto
  next
    case (Some e)
    then have rec: "syncSpec E k (Some e) o1 m1 n1 = (res, orig', node', n')" using 2(2) u by simp
    from 2(1) [OF u [symmetric] Some refl refl rec] obtain us where us:
      "same_local n1 n'" "trace n' = trace n1 @ us" "\<forall>e\<in>set us. spec_write n1 e"
      "res = None \<and> k > 0 \<longrightarrow> (\<exists>us' node. us = us' @ [UpdateCall node True])"
      by blast
    have "res = None \<Longrightarrow> k > 0" using rec by (cases k) auto
    moreover have "spec_write n e = spec_write n1 e" for e
      using f(1) by (simp add: spec_write_def same_local_def)
    ultimately show ?thesis
      using us f w same_local_trans [OF f(1) us(1)]
      by (intro conjI exI [of _ "UpdateCall (with_pool E node n) (r1 = None) # us"]) auto
  qed
qed

lemma syncStatusLoop_spec:
  assumes "syncStatusLoop E k err orig node n = (res, n')" "nr_inv n"
  shows "same_local n n' \<and> (\<exists>ss. trace n' = trace n @ ss \<and> (\<forall>e\<in>set ss. status_write n e))"
  using assms
proof (induction E k err orig node n rule: syncStatusLoop.induct)
  case (1 E err orig node n)
  then show ?case by (simp add: same_local_def)
next
  case (2 E k err orig node n)
  obtain node1 w where p: "op_PopulateStatusFields (ops E) node (cloud n) = (node1, w)" by fastforce
  define n1 where "n1 = n\<lparr>cloud := w\<rparr>"
  have s1: "same_local n n1" by (simp add: same_local_def n1_def)
  define node2 where "node2 = fst (PopulateIPReleaseStatus node1 n1)"
  have pr: "PopulateIPReleaseStatus node1 (n\<lparr>cloud := w\<rparr>) = (node2, n1)"
    using PopulateIPReleaseStatus_eq [OF same_local_inv [OF 2(3) s1], of node1]
    by (simp add: node2_def n1_def)
  obtain r1 o1 m1 n2 where u: "update_node E True orig node2 n1 = (r1, o1, m1, n2)"
    by (cases "update_node E True orig node2 n1") auto
  have f: "same_local n1 n2" "trace n2 = trace n1 @ [UpdateStatusCall node2 (r1 = None)]"
    using update_node_frame [OF u] by simp_all
  then have s2: "same_local n n2" "trace n2 = trace n @ [UpdateStatusCall node2 (r1 = None)]"
    using same_local_trans [OF s1] by (simp_all add: n1_def)
  have "release_ips node2 = (\<lambda>ip. if ipReleaseStatus n ip = None then None
       else if release_ips node1 ip \<in> {Some IPAMReadyForRelease, Some IPAMDoNotRelease}
       then release_ips node1 ip else Some IPAMMarkForRelease)"
    using PopulateIPReleaseStatus_eq [OF same_local_inv [OF 2(3) s1], of node1]
    by (simp add: node2_def n1_def)
  then have w: "status_write n (UpdateStatusCall node2 b)" for b
    unfolding status_write_def by (auto simp: dom_def ran_def split: if_splits)
  show ?case
  proof (cases "\<exists>e. r1 = Some e \<and> e \<noteq> APINotFound")
    case False
    then have "n' = n2" using 2(2) u by (auto simp: p pr split: option.splits)
    then show ?thesis using s2 w by auto
  next
    case True
    then obtain e where e: "r1 = Some e" "e \<noteq> APINotFound" by blast
    then have rec: "syncStatusLoop E k (Some e) o1 m1 n2 = (res, n')" using 2(2) u by (simp add: p pr)
    from 2(1) [OF p [symmetric] pr [symmetric] u [symmetric] e(1) refl refl e(2) rec same_local_inv [OF 2(3) s2(1)]]
    obtain ss where ss: "same_local n2 n'" "trace n' = trace n2 @ ss" "\<forall>e\<in>set ss. status_write n2 e"
      by blast
    have "status_write n e = status_write n2 e" for e
      using s2(1) by (simp add: status_write_def same_local_def)
    then show ?thesis
      using ss s2 w same_local_trans [OF s2(1) ss(1)]
      by (intro conjI exI [of _ "UpdateStatusCall node2 (r1 = None) # ss"]) auto
  qed
qed

lemma syncToAPIServer_spec:
  assumes "nr_inv n" "syncToAPIServer E n = (res, n')"
  shows "same_local n n' \<and> (\<exists>us ss ts. trace n' = trace n @ us @ ss @ ts \<and>
    (\<forall>e\<in>set us. spec_write n e) \<and> (\<forall>e\<in>set ss. status_write n e) \<and>
    set ts \<subseteq> {Triggered RetrySyncToAPIServer} \<and>
    (ss \<noteq> [] \<longrightarrow> (\<exists>us' node. us = us' @ [UpdateCall node True])))"
proof (cases "resource n")
  case None
  then show ?thesis using assms(2)
    by (intro conjI exI [of _ "[]"]) (simp_all add: syncToAPIServer_def same_local_def)
next
  case (Some node)
  obtain r1 o1 m1 n1 where u: "syncSpec E 2 None node node n = (r1, o1, m1, n1)"
    by (cases "syncSpec E 2 None node node n") auto
  obtain us where us: "same_local n n1" "trace n1 = trace n @ us" "\<forall>e\<in>set us. spec_write n e"
    "r1 = None \<longrightarrow> (\<exists>us' node. us = us' @ [UpdateCall node True])"
    using syncSpec_spec [OF u] by auto
  define fin where "fin = (\<lambda>(e :: api_error option) (m :: 'a NetResource).
    if e \<noteq> None then emit (Triggered RetrySyncToAPIServer) m else m)"
  have fin: "same_local n1 m \<Longrightarrow> same_local n (fin e m)"
    "\<exists>ts. trace (fin e m) = trace m @ ts \<and> set ts \<subseteq> {Triggered RetrySyncToAPIServer}" for e m
    using us(1) by (auto simp: fin_def same_local_def)
  show ?thesis
  proof (cases r1)
    case None
    obtain r2 n2 where st: "syncStatusLoop E 2 None o1 m1 n1 = (r2, n2)" by fastforce
    have n': "n' = fin r2 n2"
      using assms(2) Some u None st by (simp add: syncToAPIServer_def fin_def split: if_splits)
    obtain ss where ss: "same_local n1 n2" "trace n2 = trace n1 @ ss" "\<forall>e\<in>set ss. status_write n1 e"
      using syncStatusLoop_spec [OF st same_local_inv [OF assms(1) us(1)]] by blast
    have "status_write n e = status_write n1 e" for e
      using us(1) by (simp add: status_write_def same_local_def)
    moreover obtain ts where "trace (fin r2 n2) = trace n2 @ ts" "set ts \<subseteq> {Triggered RetrySyncToAPIServer}"
      using fin(2) by blast
    ultimately show ?thesis
      unfolding n' using us ss None fin(1) [OF ss(1)]
      by (intro conjI exI [of _ us] exI [of _ ss] exI [of _ ts]) simp_all
  next
    case e: (Some e)
    have n': "n' = fin r1 n1"
      using assms(2) Some u e by (auto simp: syncToAPIServer_def fin_def split: if_splits)
    obtain ts where "trace (fin r1 n1) = trace n1 @ ts" "set ts \<subseteq> {Triggered RetrySyncToAPIServer}"
      using fin(2) by blast
    then show ?thesis
      unfolding n' using us fin(1) [of n1]
      by (intro conjI exI [of _ us] exI [of _ "[]"] exI [of _ ts]) (simp_all add: same_local_def)
  qed
qed

section \<open>All operations in any order\<close>

inductive nr_step :: "'w nr_env \<Rightarrow> 'w NetResource \<Rightarrow> 'w NetResource \<Rightarrow> bool" for E where
  updated: "nr_step E n (snd (UpdatedResource E now r n))"
| running: "nr_step E n (SetRunning E now n)"
| recalculated: "nr_step E n (recalculate E n)"
| maintained: "MaintainIPPool E now n = Some (e, n') \<Longrightarrow> nr_step E n n'"
| synced: "nr_step E n (snd (syncToAPIServer E n))"
| resynced: "nr_step E n (updateLastResync t n)"
| cloud_changes: "nr_step E n (n\<lparr>cloud := w\<rparr>)"

inductive_cases nr_stepE: "nr_step E n n'"

lemma SetRunning_inv: "nr_inv n \<Longrightarrow> nr_inv (SetRunning E now n)"
  by (auto simp: nr_inv_def SetRunning_def Let_def split: option.split)

lemma recalculate_inv: "nr_inv n \<Longrightarrow> nr_inv (recalculate E n)"
  by (simp add: nr_inv_def recalculate_frame)

lemma UpdatedResource_inv: "nr_inv n \<Longrightarrow> nr_inv (snd (UpdatedResource E now r n))"
proof (cases r)
  case (Some r')
  assume inv: "nr_inv n"
  have "nr_inv (n\<lparr>cloud := op_UpdatedNode (ops E) r' (cloud n), resource := Some r'\<rparr>)"
    using inv by (simp add: nr_inv_def)
  from recalculate_inv [OF SetRunning_inv [OF this]] have
    "nr_inv (recalculate E (SetRunning E now (n\<lparr>cloud := op_UpdatedNode (ops E) r' (cloud n),
       resource := Some r'\<rparr>)))" .
  then show ?thesis unfolding UpdatedResource_def Some option.case Let_def
    by (auto simp: nr_inv_def)
qed (simp add: UpdatedResource_def)

lemma nr_step_inv:
  assumes "nr_step E n n'" "nr_inv n" "nr_env_ok E"
  shows "nr_inv n'"
  using assms(1)
proof cases
  case updated
  then show ?thesis using UpdatedResource_inv [OF assms(2)] by simp
next
  case running
  then show ?thesis using SetRunning_inv [OF assms(2)] by simp
next
  case recalculated
  then show ?thesis using recalculate_inv [OF assms(2)] by simp
next
  case maintained
  then show ?thesis using MaintainIPPool_spec [OF assms(2,3)] by blast
next
  case synced
  then show ?thesis
    using syncToAPIServer_spec [OF assms(2)] same_local_inv [OF assms(2)] by (metis prod.collapse)
next
  case resynced
  then show ?thesis using assms(2) by (auto simp: nr_inv_def updateLastResync_def)
next
  case cloud_changes
  then show ?thesis using assms(2) by (simp add: nr_inv_def)
qed

lemma nr_steps_inv:
  "(nr_step E)\<^sup>*\<^sup>* n n' \<Longrightarrow> nr_inv n \<Longrightarrow> nr_env_ok E \<Longrightarrow> nr_inv n'"
  by (induction rule: rtranclp_induct) (auto intro: nr_step_inv)

lemma newNetResource_inv: "nr_inv (newNetResource nm now w)"
  by (simp add: nr_inv_def newNetResource_def)

lemma MaintainIPPool_total:
  assumes "nr_inv n" "\<And>w. fst (op_PrepareIPAllocation (ops E) w) \<noteq> Inr None"
  shows "MaintainIPPool E now n \<noteq> None"
proof -
  define n0 where "n0 = set_waiting True n"
  have "maintainIPPool E now n0 \<noteq> None" if run: "IsRunning now n0"
  proof -
    have inv: "nr_inv n0" using assms(1) by (auto simp: n0_def nr_inv_def)
    have st: "(if releaseExcessIPs E then removeStaleReleaseIPs n0 else n0) = n0"
      by (simp add: removeStaleReleaseIPs_id [OF inv])
    have "determineMaintenanceAction E n0 \<noteq> None"
      using assms(2) [of "cloud n0"]
      by (auto simp: determineMaintenanceAction_def Let_def split: prod.split sum.split option.split)
    then obtain dres n1 where d: "determineMaintenanceAction E n0 = Some (dres, n1)" by auto
    have "resource n1 \<noteq> None"
      using determineMaintenanceAction_frame(1) [OF d] nr_invD(3) [OF inv] run by (simp add: IsRunning_def)
    then obtain r where r: "resource n1 = Some r" by blast
    have h: "handleIPRelease E now a n1 \<noteq> None" for a by (simp add: handleIPRelease_None_iff r)
    show ?thesis
      unfolding maintainIPPool_def st Let_def d
      by (simp add: abortNoLongerExcessIPs_eq [OF r] h split: sum.split option.split bool.split)
  qed
  then show ?thesis
    by (auto simp: MaintainIPPool_def n0_def [symmetric] Let_def split: option.split)
qed

end
