(* ===== verification/NodeProps.thy ===== *)
theory NodeProps
  imports NodeMaintenance "HOL-Library.List_Lexorder" "HOL-Library.Char_ord"
begin

text \<open>
  The properties of the operator's side of a node (\<open>pkg/ipam/net_resource.go\<close>), with a concrete
  node and cloud they are applied to.
\<close>

section \<open>What a recalculation counts\<close>

lemma countAvailable_eq:
  assumes "distinct ks"
  shows "countAvailable n ks =
    (int (card {ip \<in> set ks. counts_as_v4 ip \<and> ipReleaseStatus n ip = None}),
     int (card {ip \<in> set ks. counts_as_v4 ip \<and> ipReleaseStatus n ip \<noteq> None}))"
proof -
  define step where "step = (\<lambda>ip (a :: int, r :: int). if counts_as_v4 ip
      then (if \<not> isIPInReadyForReleaseStateLocked n ip then (a + 1, r) else (a, r + 1)) else (a, r))"
  have card: "int (card {x \<in> set (k # ks). P x}) = (if P k then 1 else 0) + int (card {x \<in> set ks. P x})"
    if "k \<notin> set ks" for P k and ks :: "string list"
  proof -
    have "{x \<in> set (k # ks). P x} = (if P k then insert k {x \<in> set ks. P x} else {x \<in> set ks. P x})"
      by auto
    then show ?thesis using that by simp
  qed
  have "fold step ks (a, r) =
    (a + int (card {ip \<in> set ks. counts_as_v4 ip \<and> ipReleaseStatus n ip = None}),
     r + int (card {ip \<in> set ks. counts_as_v4 ip \<and> ipReleaseStatus n ip \<noteq> None}))" for a r
    using assms
  proof (induction ks arbitrary: a r)
    case Nil
    then show ?case by simp
  next
    case (Cons k ks)
    then have k: "k \<notin> set ks" "distinct ks" by auto
    have st: "step k (a, r) = (if counts_as_v4 k then (if ipReleaseStatus n k = None then (a + 1, r)
        else (a, r + 1)) else (a, r))"
      by (simp add: step_def isIPInReadyForReleaseStateLocked_def)
    show ?case
      unfolding card [OF k(1)] fold_Cons comp_apply st
      by (simp add: Cons.IH [OF k(2)])
  qed
  then show ?thesis by (simp add: countAvailable_def step_def [symmetric])
qed

lemma collectSubnetUsage_UsedIPs:
  "UsedIPs (fold (collectOne az used) ks s) = UsedIPs s + int (length (filter counts_as_v4 ks))"
  by (induction ks arbitrary: s) (auto simp: collectOne_def Let_def)

definition subnet_of :: "AllocationMap \<Rightarrow> string \<Rightarrow> string" where
  "subnet_of used ip = (let sid = SubnetID (the (used ip)) in if sid = [] then ''unknown'' else sid)"

definition subnet_count :: "Statistics \<Rightarrow> string \<Rightarrow> int" where
  "subnet_count s sid = (case SubnetInfos s sid of None \<Rightarrow> 0 | Some i \<Rightarrow> UsedCount i)"

lemma collectSubnetUsage_counts:
  "subnet_count (fold (collectOne az used) ks s) sid =
   subnet_count s sid + int (length (filter (\<lambda>ip. counts_as_v4 ip \<and> subnet_of used ip = sid) ks))"
proof (induction ks arbitrary: s)
  case Nil
  then show ?case by simp
next
  case (Cons k ks)
  have "subnet_count (collectOne az used k s) sid =
      subnet_count s sid + (if counts_as_v4 k \<and> subnet_of used k = sid then 1 else 0)"
    by (simp add: subnet_count_def collectOne_def Let_def subnet_of_def split: option.split)
  then show ?case using Cons.IH [of "collectOne az used k s"] by simp
qed

lemma recalculate_ok:
  assumes "resource n = Some r" "op_ResyncInterfacesAndIPs (ops E) (cloud n) = (Inr a, w)"
    "iter_order (allocOrder E a) a"
  obtains s where "stats (recalculate E n) = s" "available (recalculate E n) = a"
    "cloud (recalculate E n) = w"
    "AvailableIPs s = int (card {ip \<in> dom a. counts_as_v4 ip \<and> ipReleaseStatus n ip = None})"
    "NeededIPs s = calculateNeededIPs (AvailableIPs s) (UsedIPs s) (getPreAllocate r) (getMinAllocate r)
       (getMaxAllocate E r w) (getMaxIPBurstableIPCount E w)"
    "ExcessIPs s = calculateExcessIPs (AvailableIPs s)
       (if op_IsPrefixDelegated (ops E) w then op_GetUsedIPWithPrefixes (ops E) w else UsedIPs s)
       (getPreAllocate r) (getMinAllocate r) (getMaxAboveWatermark r) (getMaxIPBurstableIPCount E w)
       (int (card {ip \<in> dom a. counts_as_v4 ip \<and> ipReleaseStatus n ip \<noteq> None}))"
    "UsedIPs s = (case SpecENI r of None \<Rightarrow> 0 | Some eni \<Rightarrow>
       if AvailabilityZone eni = [] then 0
       else int (length (filter counts_as_v4 (allocOrder E (Used (StatusIPAM r))))))"
    "subnet_count s = (\<lambda>sid. case SpecENI r of None \<Rightarrow> 0 | Some eni \<Rightarrow>
       if AvailabilityZone eni = [] then 0
       else int (length (filter (\<lambda>ip. counts_as_v4 ip \<and> subnet_of (Used (StatusIPAM r)) ip = sid)
              (allocOrder E (Used (StatusIPAM r))))))"
proof -
  define n1 where "n1 = n\<lparr>cloud := w, available := a\<rparr>"
  define s2 where "s2 = (let s1 = (stats n)\<lparr>UsedIPs := 0, SubnetInfos := Map.empty\<rparr> in
      case SpecENI r of None \<Rightarrow> s1 | Some eni \<Rightarrow>
        if AvailabilityZone eni = [] then s1
        else collectSubnetUsage E (zoneOf E (AvailabilityZone eni)) (Used (StatusIPAM r)) s1)"
  obtain av rd where c: "countAvailable n1 (allocOrder E a) = (av, rd)" by fastforce
  have cnt: "av = int (card {ip \<in> dom a. counts_as_v4 ip \<and> ipReleaseStatus n ip = None})"
    "rd = int (card {ip \<in> dom a. counts_as_v4 ip \<and> ipReleaseStatus n ip \<noteq> None})"
    using countAvailable_eq [of "allocOrder E a" n1] assms(3) c by (simp_all add: iter_order_def n1_def)
  have rec: "recalculate E n =
    (let needed = calculateNeededIPs av (UsedIPs s2) (getPreAllocate r) (getMinAllocate r)
           (getMaxAllocate E r w) (getMaxIPBurstableIPCount E w);
         excess = calculateExcessIPs av
           (if op_IsPrefixDelegated (ops E) w then op_GetUsedIPWithPrefixes (ops E) w else UsedIPs s2)
           (getPreAllocate r) (getMinAllocate r) (getMaxAboveWatermark r)
           (getMaxIPBurstableIPCount E w) rd;
         n2 = n1\<lparr>stats := s2\<lparr>AvailableIPs := av, NeededIPs := needed, ExcessIPs := excess\<rparr>\<rparr>
     in if needed = 0 then emit SubnetsAvailable n2 else n2)"
    unfolding recalculate_def assms(1,2) option.case prod.case sum.case Let_def n1_def [symmetric] c
    by (simp add: s2_def Let_def cong: option.case_cong)
  have u: "UsedIPs s2 = (case SpecENI r of None \<Rightarrow> 0 | Some eni \<Rightarrow>
       if AvailabilityZone eni = [] then 0
       else int (length (filter counts_as_v4 (allocOrder E (Used (StatusIPAM r))))))"
    by (simp add: s2_def Let_def collectSubnetUsage_def collectSubnetUsage_UsedIPs split: option.split)
  have sc: "subnet_count s2 = (\<lambda>sid. case SpecENI r of None \<Rightarrow> 0 | Some eni \<Rightarrow>
       if AvailabilityZone eni = [] then 0
       else int (length (filter (\<lambda>ip. counts_as_v4 ip \<and> subnet_of (Used (StatusIPAM r)) ip = sid)
              (allocOrder E (Used (StatusIPAM r))))))"
  proof
    fix sid
    have "subnet_count ((stats n)\<lparr>UsedIPs := 0, SubnetInfos := Map.empty\<rparr>) sid = 0"
      by (simp add: subnet_count_def)
    then show "subnet_count s2 sid = (case SpecENI r of None \<Rightarrow> 0 | Some eni \<Rightarrow>
       if AvailabilityZone eni = [] then 0
       else int (length (filter (\<lambda>ip. counts_as_v4 ip \<and> subnet_of (Used (StatusIPAM r)) ip = sid)
              (allocOrder E (Used (StatusIPAM r))))))"
      by (simp add: s2_def Let_def collectSubnetUsage_def collectSubnetUsage_counts split: option.split)
  qed
  have "subnet_count (s2\<lparr>AvailableIPs := x, NeededIPs := y, ExcessIPs := z\<rparr>) = subnet_count s2" for x y z
    by (simp add: subnet_count_def fun_eq_iff)
  with u sc cnt show thesis
    by (intro that [OF refl]) (simp_all add: rec Let_def n1_def emit_def)
qed

lemma recalculate_stats:
  assumes "resource n = Some r" "op_ResyncInterfacesAndIPs (ops E) (cloud n) = (Inr a, w)"
    "iter_order (allocOrder E a) a"
  defines "s \<equiv> stats (recalculate E n)"
  shows "available (recalculate E n) = a" "cloud (recalculate E n) = w"
    "AvailableIPs s = int (card {ip \<in> dom a. counts_as_v4 ip \<and> ipReleaseStatus n ip = None})"
    "NeededIPs s = calculateNeededIPs (AvailableIPs s) (UsedIPs s) (getPreAllocate r) (getMinAllocate r)
       (getMaxAllocate E r w) (getMaxIPBurstableIPCount E w)"
    "ExcessIPs s = calculateExcessIPs (AvailableIPs s)
       (if op_IsPrefixDelegated (ops E) w then op_GetUsedIPWithPrefixes (ops E) w else UsedIPs s)
       (getPreAllocate r) (getMinAllocate r) (getMaxAboveWatermark r) (getMaxIPBurstableIPCount E w)
       (int (card {ip \<in> dom a. counts_as_v4 ip \<and> ipReleaseStatus n ip \<noteq> None}))"
    "UsedIPs s = (case SpecENI r of None \<Rightarrow> 0 | Some eni \<Rightarrow>
       if AvailabilityZone eni = [] then 0
       else int (length (filter counts_as_v4 (allocOrder E (Used (StatusIPAM r))))))"
    "subnet_count s = (\<lambda>sid. case SpecENI r of None \<Rightarrow> 0 | Some eni \<Rightarrow>
       if AvailabilityZone eni = [] then 0
       else int (length (filter (\<lambda>ip. counts_as_v4 ip \<and> subnet_of (Used (StatusIPAM r)) ip = sid)
              (allocOrder E (Used (StatusIPAM r))))))"
  unfolding s_def
  by (rule recalculate_ok [OF assms(1-3)], simp only:)+

section \<open>A concrete node\<close>

definition np_resource :: "int \<Rightarrow> string \<Rightarrow> AllocationMap \<Rightarrow> (string \<rightharpoonup> string) \<Rightarrow> NetResourceSet" where
  "np_resource pre zone used rel = \<lparr>nrsName = ''node'', ResourceVersion = ''1'', OwnerReferences = [],
     Annotations = Map.empty,
     SpecIPAM = \<lparr>Pool = None, PodCIDRs = [], MinAllocate = 0, MaxAllocate = 0, PreAllocate = pre,
       MaxAboveWatermark = 0, PodCIDRAllocationThreshold = 0, PodCIDRReleaseThreshold = 0\<rparr>,
     SpecENI = Some \<lparr>MaxIPsPerENI = 0, MaxAllocateENI = 0, ENISubnetIDs = [], AvailabilityZone = zone,
       BurstableMehrfachENI = 0\<rparr>,
     StatusIPAM = \<lparr>Used = used, PodCIDRsStatus = Map.empty, VPCRouteCIDRs = Map.empty,
       OperatorError = [], ReleaseIPs = rel, AvailableSubnetIDs = []\<rparr>,
     StatusENIs = [], PrivateCloud = None\<rparr>"

definition np_ops :: "AllocationMap \<Rightarrow> unit net_ops" where
  "np_ops a = \<lparr>op_UpdatedNode = (\<lambda>_ w. w), op_PopulateStatusFields = Pair,
     op_CreateInterface = (\<lambda>_ w. (Inr 0, w)), op_ResyncInterfacesAndIPs = (\<lambda>w. (Inr a, w)),
     op_PrepareIPAllocation = (\<lambda>w. (Inl ''no interface'', w)), op_AllocateIPs = (\<lambda>_ w. (None, w)),
     op_PrepareIPRelease = (\<lambda>_ w. (Some \<lparr>raInterfaceID = ''eni'', raPoolID = ''sbn'',
        IPsToRelease = [''10.0.0.2'']\<rparr>, w)),
     op_ReleaseIPs = (\<lambda>ra w. (Inr (IPsToRelease ra), w)),
     op_GetMaximumAllocatableIPv4 = (\<lambda>_. 0), op_GetMinimumAllocatableIPv4 = (\<lambda>_. 0),
     op_IsPrefixDelegated = (\<lambda>_. False), op_GetUsedIPWithPrefixes = (\<lambda>_. 0),
     op_GetMaximumBurstableAllocatableIPv4 = (\<lambda>_. 0)\<rparr>"

definition np_api :: "unit node_api" where
  "np_api = \<lparr>ns_Update = (\<lambda>_ n w. ((Some n, None), w)), ns_UpdateStatus = (\<lambda>_ n w. ((Some n, None), w)),
     ns_Get = (\<lambda>_ w. (Inl APINotFound, w)), ns_lister = (\<lambda>_ _. Some (np_resource 1 [] Map.empty Map.empty)),
     ns_pods = (\<lambda>_ _. Inr [])\<rparr>"

definition np_env :: "AllocationMap \<Rightarrow> unit nr_env" where
  "np_env a = \<lparr>ops = np_ops a, api = np_api, releaseExcessIPs = True, stableInstancesAPI = True,
     ExcessIPReleaseDelay = 0, zoneOf = (\<lambda>z. z), allocOrder = (\<lambda>m. sorted_list_of_set (dom m)),
     markOrder = (\<lambda>m. sorted_list_of_set (dom m))\<rparr>"

definition np_ip :: AllocationIP where
  "np_ip = \<lparr>Owner = [], SubnetID = [], IsPrimary = False, Resource = []\<rparr>"

definition np_new :: "unit NetResource" where
  "np_new = newNetResource ''node'' 0 ()"

lemma np_env_ok: "nr_env_ok (np_env a)"
  by (auto simp: nr_env_ok_def np_env_def iter_order_def)

lemma np_v4: "counts_as_v4 ''10.0.0.2''" "counts_as_v4 ''10.0.0.3''" "counts_as_v4 ''10.0.0.4''"
  by (simp_all add: counts_as_v4_def go_eval)

abbreviation np_cloud :: "unit nr_env" where
  "np_cloud \<equiv> np_env [''10.0.0.2'' \<mapsto> np_ip, ''10.0.0.3'' \<mapsto> np_ip]"

abbreviation np_obj :: "(string \<rightharpoonup> string) \<Rightarrow> NetResourceSet" where
  "np_obj \<equiv> np_resource 1 ''zoneA'' Map.empty"

definition np_action :: ReleaseAction where
  "np_action = \<lparr>raInterfaceID = ''eni'', raPoolID = ''sbn'', IPsToRelease = [''10.0.0.2'']\<rparr>"

definition np_time :: int where "np_time = 10 ^ 12"

lemma recalculate_stopped:
  "instanceStoppedRunning (recalculate E n) = instanceStoppedRunning n"
  by (simp add: recalculate_def Let_def emit_def set_stats_def split: option.split prod.split sum.split)

text \<open>The resource arrives at a node on which at most one address is marked.\<close>

lemma np_seen:
  fixes rel :: "string \<rightharpoonup> string"
  assumes "instanceStoppedRunning n = 0"
    "ipReleaseStatus n \<in> {Map.empty, [''10.0.0.2'' \<mapsto> IPAMMarkForRelease]}"
  defines "m \<equiv> snd (UpdatedResource np_cloud 1 (Some (np_obj rel)) n)"
  shows "resource m = Some (np_obj rel)" "instanceRunning m" "instanceStoppedRunning m = 0"
    "ipReleaseStatus m = ipReleaseStatus n" "ipsMarkedForRelease m = ipsMarkedForRelease n"
    "ExcessIPs (stats m) = 1" "\<exists>t. trace m = trace n @ t \<and> set t \<subseteq> {SubnetsAvailable}"
proof -
  let ?a = "[''10.0.0.2'' \<mapsto> np_ip, ''10.0.0.3'' \<mapsto> np_ip]"
  define n1 where "n1 = SetRunning np_cloud 1 (n\<lparr>cloud := (), resource := Some (np_obj rel)\<rparr>)"
  have n1: "resource n1 = Some (np_obj rel)" "instanceRunning n1" "instanceStoppedRunning n1 = 0"
    "ipReleaseStatus n1 = ipReleaseStatus n" "ipsMarkedForRelease n1 = ipsMarkedForRelease n"
    "trace n1 = trace n" "cloud n1 = ()"
    by (simp_all add: n1_def SetRunning_def assms(1) np_env_def np_api_def Let_def)
  have fs: "op_ResyncInterfacesAndIPs (ops np_cloud) (cloud n1) = (Inr ?a, ())"
    by (simp add: np_env_def np_ops_def)
  have o: "iter_order (allocOrder np_cloud ?a) ?a"
    using np_env_ok [of ?a] by (simp add: nr_env_ok_def)
  define s where "s = stats (recalculate np_cloud n1)"
  note s = recalculate_stats(3-6) [OF n1(1) fs o, folded s_def]
  let ?free = "{ip \<in> dom ?a. counts_as_v4 ip \<and> ipReleaseStatus n1 ip = None}"
  let ?ready = "{ip \<in> dom ?a. counts_as_v4 ip \<and> ipReleaseStatus n1 ip \<noteq> None}"
  have u: "UsedIPs s = 0" using s(4) by (simp add: np_resource_def np_env_def)
  have c: "card ?free = 2 \<and> card ?ready = 0 \<or> card ?free = 1 \<and> card ?ready = 1"
  proof (cases "ipReleaseStatus n = Map.empty")
    case True
    then have "?free = {''10.0.0.2'', ''10.0.0.3''}" "?ready = {}" using np_v4 n1(4) by auto
    then show ?thesis by (simp del: not_None_eq)
  next
    case False
    then have "?free = {''10.0.0.3''}" "?ready = {''10.0.0.2''}" using np_v4 n1(4) assms(2) by auto
    then show ?thesis by (simp del: not_None_eq)
  qed
  have calc: "calculateExcessIPs (int cf) 0 1 0 0 0 (int cr) = 1 \<and> calculateNeededIPs (int cf) 0 1 0 0 0 = 0"
    if "cf = 2 \<and> cr = 0 \<or> cf = 1 \<and> cr = 1" for cf cr :: nat
    using that by (auto simp: calculateExcessIPs_def calculateNeededIPs_def go_int_id Let_def)
  have settings: "getPreAllocate (np_obj rel) = 1" "getMinAllocate (np_obj rel) = 0"
    "getMaxAboveWatermark (np_obj rel) = 0" "getMaxAllocate np_cloud (np_obj rel) () = 0"
    "getMaxIPBurstableIPCount np_cloud () = 0" "\<not> op_IsPrefixDelegated (ops np_cloud) ()"
    by (simp_all add: np_env_def np_ops_def np_resource_def getPreAllocate_def getMinAllocate_def
        getMaxAllocate_def getMaxAboveWatermark_def getMaxIPBurstableIPCount_def)
  have st: "ExcessIPs s = 1" "NeededIPs s = 0"
    unfolding s(2) s(3) s(1) u settings if_not_P [OF settings(6)] using calc [OF c] by blast+
  have nd: "\<not> allocationNeeded (recalculate np_cloud n1)"
    unfolding allocationNeeded_def s_def [symmetric] st(2) by simp
  have "op_UpdatedNode (ops np_cloud) (np_obj rel) (cloud n) = ()" by simp
  then have eq: "m = recalculate np_cloud n1"
    unfolding m_def UpdatedResource_def option.case Let_def n1_def [symmetric]
    using nd by (simp only: n1_def [symmetric] if_False snd_conv)
  show "resource m = Some (np_obj rel)" "instanceRunning m" "instanceStoppedRunning m = 0"
    "ipReleaseStatus m = ipReleaseStatus n" "ipsMarkedForRelease m = ipsMarkedForRelease n"
    "ExcessIPs (stats m) = 1" "\<exists>t. trace m = trace n @ t \<and> set t \<subseteq> {SubnetsAvailable}"
    unfolding eq using recalculate_frame(5) [of np_cloud n1]
    by (simp_all add: recalculate_frame n1 s_def [symmetric] st recalculate_stopped)
qed

text \<open>A round of the maintenance on such a node.\<close>

lemma np_round:
  assumes "resource n = Some (np_obj rel)" "instanceRunning n" "instanceStoppedRunning n = 0"
    "ExcessIPs (stats n) = 1" "nr_inv n" "ipsMarkedForRelease n \<in> {Map.empty, [''10.0.0.2'' \<mapsto> np_time]}"
  shows "rel ''10.0.0.2'' = Some IPAMReadyForRelease \<Longrightarrow>
      \<exists>n' t. MaintainIPPool np_cloud np_time n = Some (None, n') \<and> trace n' = trace n @ t \<and>
        ReleaseIPsCall np_action \<in> set t"
    "rel = Map.empty \<Longrightarrow> ipReleaseStatus n = Map.empty \<Longrightarrow>
      \<exists>n'. MaintainIPPool np_cloud np_time n = Some (None, n') \<and> resource n' = resource n \<and>
        ipReleaseStatus n' = [''10.0.0.2'' \<mapsto> IPAMMarkForRelease] \<and>
        ipsMarkedForRelease n' = [''10.0.0.2'' \<mapsto> np_time] \<and> instanceStoppedRunning n' = 0"
proof -
  let ?act = "\<lparr>allocation = None, release = Some np_action\<rparr>"
  define n0 where "n0 = set_waiting True n"
  have run: "IsRunning np_time n0"
    using assms(2,3) by (simp add: IsRunning_def n0_def set_waiting_def second_def np_time_def)
  have inv: "nr_inv n0" using assms(5) by (simp add: nr_inv_def n0_def)
  have d: "determineMaintenanceAction np_cloud n0 = Some (Inr (Some ?act), n0\<lparr>cloud := ()\<rparr>)"
    using assms(4)
    by (simp add: determineMaintenanceAction_def np_env_def np_ops_def n0_def
        getMaxIPBurstableIPCount_def np_action_def)
  define n1 where "n1 = n0\<lparr>cloud := ()\<rparr>"
  have n1: "resource n1 = Some (np_obj rel)" "ipsMarkedForRelease n1 = ipsMarkedForRelease n" "cloud n1 = ()"
    "ipReleaseStatus n1 = ipReleaseStatus n" "trace n1 = trace n" "instanceStoppedRunning n1 = 0"
    using assms(1,3) by (simp_all add: n1_def n0_def set_waiting_def)
  have ex: "excess_of ?act = [''10.0.0.2'']" by (simp add: excess_of_def np_action_def)
  have m: "marked_of np_time ?act n1 = [''10.0.0.2'' \<mapsto> np_time]"
    using assms(6) by (auto simp: marked_of_def ex markTimes_def n1(2))
  have de: "ExcessIPReleaseDelay np_cloud = 0" by (simp add: np_env_def)
  have ok: "nr_env_ok np_cloud" by (rule np_env_ok)
  have fin: "finite (dom (ipsMarkedForRelease n1))" using assms(6) n1(2) by auto
  have opr: "op_ReleaseIPs (ops np_cloud) x y = (Inr (IPsToRelease x), y)" for x y
    by (simp add: np_env_def np_ops_def)
  from handleIPRelease_eq [OF n1(1) ok fin, of np_time ?act]
  obtain rl where rl: "distinct rl" "set rl = Collect (released_in np_cloud np_time (np_obj rel) ?act n1)"
    "handleIPRelease np_cloud np_time ?act n1 = Some
      (if rl = [] then (Inr False, after_marks np_cloud np_time (np_obj rel) ?act n1)
       else (let ra = (the (release ?act))\<lparr>IPsToRelease := rl\<rparr> in
             case op_ReleaseIPs (ops np_cloud) ra (cloud n1) of
               (Inl e, w) \<Rightarrow> (Inl ''failed to release IPs'',
                  emit (ReleaseIPsCall ra) (after_marks np_cloud np_time (np_obj rel) ?act n1\<lparr>cloud := w\<rparr>))
             | (Inr released, w) \<Rightarrow> (Inr True, forget_where (\<lambda>ip. ip \<in> set released)
                  (emit (ReleaseIPsCall ra) (after_marks np_cloud np_time (np_obj rel) ?act n1\<lparr>cloud := w\<rparr>)))))"
    by blast
  have stale: "(if releaseExcessIPs np_cloud then removeStaleReleaseIPs n0 else n0) = n0"
    by (simp add: removeStaleReleaseIPs_id [OF inv])
  have st: "stableInstancesAPI np_cloud" by (simp add: np_env_def)
  have rel_obj: "release_ips (np_obj x) = x" for x by (simp add: np_resource_def)
  show "\<exists>n' t. MaintainIPPool np_cloud np_time n = Some (None, n') \<and> trace n' = trace n @ t \<and>
        ReleaseIPsCall np_action \<in> set t" if "rel ''10.0.0.2'' = Some IPAMReadyForRelease"
  proof -
    have "Collect (released_in np_cloud np_time (np_obj rel) ?act n1) = {''10.0.0.2''}"
      using that by (auto simp: released_in_def settled_def ex m de rel_obj)
    then have "rl = [''10.0.0.2'']" using rl(1,2) by (cases rl; cases "tl rl") auto
    then have "\<exists>n2. handleIPRelease np_cloud np_time ?act n1 = Some (Inr True, n2) \<and>
        trace n2 = trace n @ [ReleaseIPsCall np_action]"
      unfolding rl(3) using opr n1(5) by (simp add: Let_def np_action_def)
    then obtain n2 where n2: "handleIPRelease np_cloud np_time ?act n1 = Some (Inr True, n2)"
      "trace n2 = trace n @ [ReleaseIPsCall np_action]" by blast
    have mm: "maintainIPPool np_cloud np_time n0 = Some (Inr True, n2)"
      unfolding maintainIPPool_def stale Let_def d by (simp add: n1_def [symmetric] n2(1))
    obtain t where "trace (recalculate np_cloud (n2\<lparr>resyncNeeded := np_time\<rparr>)) = trace n2 @ t"
      using recalculate_frame(5) [of np_cloud "n2\<lparr>resyncNeeded := np_time\<rparr>"] by auto
    then show ?thesis
      unfolding MaintainIPPool_def n0_def [symmetric] Let_def
      using run st mm n2(2) by simp
  qed
  show "\<exists>n'. MaintainIPPool np_cloud np_time n = Some (None, n') \<and> resource n' = resource n \<and>
        ipReleaseStatus n' = [''10.0.0.2'' \<mapsto> IPAMMarkForRelease] \<and>
        ipsMarkedForRelease n' = [''10.0.0.2'' \<mapsto> np_time] \<and> instanceStoppedRunning n' = 0"
    if "rel = Map.empty" "ipReleaseStatus n = Map.empty"
  proof -
    define n2 where "n2 = after_marks np_cloud np_time (np_obj rel) ?act n1"
    have "Collect (released_in np_cloud np_time (np_obj rel) ?act n1) = {}"
      using that by (auto simp: released_in_def rel_obj)
    then have "set rl = {}" unfolding rl(2) .
    then have "rl = []" by simp
    then have h: "handleIPRelease np_cloud np_time ?act n1 = Some (Inr False, n2)"
      unfolding rl(3) n2_def by simp
    have mm: "maintainIPPool np_cloud np_time n0 = Some (Inr False, n2)"
      unfolding maintainIPPool_def stale Let_def d
      by (simp add: n1_def [symmetric] h handleIPAllocation_def)
    have n2: "ipReleaseStatus n2 = [''10.0.0.2'' \<mapsto> IPAMMarkForRelease]"
      "ipsMarkedForRelease n2 = [''10.0.0.2'' \<mapsto> np_time]" "instanceStoppedRunning n2 = 0"
      "resource n2 = resource n"
      using that n1 assms(1)
      by (auto simp: n2_def after_marks_def Let_def m dropped_def settled_def ex de newly_marked_def rel_obj
          aborted_def forget_where_def fun_eq_iff)
    show ?thesis
      unfolding MaintainIPPool_def n0_def [symmetric] Let_def
      using run st mm n2 by (simp add: recalculate_frame recalculate_stopped set_waiting_def)
  qed
qed

text \<open>The node after its resource has arrived, with the agent's acknowledgement in it.\<close>

definition np_acked :: "unit NetResource" where
  "np_acked = snd (UpdatedResource np_cloud 1 (Some (np_obj [''10.0.0.2'' \<mapsto> IPAMReadyForRelease])) np_new)"

lemma np_new_simps:
  "instanceStoppedRunning np_new = 0" "ipReleaseStatus np_new = Map.empty"
  "ipsMarkedForRelease np_new = Map.empty" "trace np_new = []"
  by (simp_all add: np_new_def newNetResource_def)

lemma np_acked_facts:
  "resource np_acked = Some (np_obj [''10.0.0.2'' \<mapsto> IPAMReadyForRelease])"
  "instanceRunning np_acked" "instanceStoppedRunning np_acked = 0" "ipReleaseStatus np_acked = Map.empty"
  "ipsMarkedForRelease np_acked = Map.empty" "ExcessIPs (stats np_acked) = 1"
  "set (trace np_acked) \<subseteq> {SubnetsAvailable}"
  unfolding np_acked_def using np_seen [of np_new] by (auto simp: np_new_simps)

lemma np_maintained:
  "\<exists>n' t. MaintainIPPool np_cloud np_time np_acked = Some (None, n') \<and> trace n' = trace np_acked @ t \<and>
     ReleaseIPsCall np_action \<in> set t"
  by (rule np_round(1) [OF np_acked_facts(1-3,6)]) (simp_all add: np_acked_facts nr_inv_def)

lemma np_steps:
  "(nr_step (np_env [''10.0.0.2'' \<mapsto> np_ip, ''10.0.0.3'' \<mapsto> np_ip]))\<^sup>*\<^sup>*
     (newNetResource ''node'' 0 ()) np_acked"
  unfolding np_acked_def np_new_def by (intro r_into_rtranclp nr_step.updated)

section \<open>Properties\<close>

text \<open>
  C18: In every history of the node, the only addresses the operator asks the cloud to release are
  addresses whose status in the resource is the agent's acknowledgement, each at most once per
  call, and that have been marked for the configured delay.
\<close>

theorem MaintainIPPool_releases_acknowledged:
  assumes "nr_env_ok E" "(nr_step E)\<^sup>*\<^sup>* (newNetResource nm t0 w) n"
    and "MaintainIPPool E now n = Some (e, n')"
  shows "\<exists>t. trace n' = trace n @ t \<and>
    (\<forall>ra. ReleaseIPsCall ra \<in> set t \<longrightarrow>
       (\<exists>r. resource n = Some r \<and> distinct (IPsToRelease ra) \<and>
            (\<forall>ip\<in>set (IPsToRelease ra).
               release_ips r ip = Some IPAMReadyForRelease \<and>
               (ExcessIPReleaseDelay E \<le> 0 \<or>
                (\<exists>ts. ipsMarkedForRelease n ip = Some ts \<and>
                      ts + ExcessIPReleaseDelay E * second \<le> now)))))"
  using MaintainIPPool_spec [OF nr_steps_inv [OF assms(2) newNetResource_inv assms(1)] assms(1,3)]
  by (simp add: only_acknowledged_def releasable_def)

theorem MaintainIPPool_releases_acknowledged_witness:
  "\<exists>(n' :: unit NetResource) t. trace n' = trace np_acked @ t \<and> ReleaseIPsCall np_action \<in> set t \<and>
     (\<forall>ra. ReleaseIPsCall ra \<in> set t \<longrightarrow> (\<exists>r. resource np_acked = Some r \<and>
        (\<forall>ip\<in>set (IPsToRelease ra). release_ips r ip = Some IPAMReadyForRelease)))"
proof -
  obtain n' t0 where n': "MaintainIPPool np_cloud np_time np_acked = Some (None, n')"
    "trace n' = trace np_acked @ t0" "ReleaseIPsCall np_action \<in> set t0"
    using np_maintained by blast
  from MaintainIPPool_releases_acknowledged [OF np_env_ok np_steps n'(1)]
  obtain t where t: "trace n' = trace np_acked @ t"
    "\<forall>ra. ReleaseIPsCall ra \<in> set t \<longrightarrow> (\<exists>r. resource np_acked = Some r \<and> distinct (IPsToRelease ra) \<and>
        (\<forall>ip\<in>set (IPsToRelease ra). release_ips r ip = Some IPAMReadyForRelease \<and>
           (ExcessIPReleaseDelay np_cloud \<le> 0 \<or> (\<exists>ts. ipsMarkedForRelease np_acked ip = Some ts \<and>
              ts + ExcessIPReleaseDelay np_cloud * second \<le> np_time))))"
    by blast
  have "t = t0" using t(1) n'(2) by simp
  moreover have "\<forall>ra. ReleaseIPsCall ra \<in> set t \<longrightarrow> (\<exists>r. resource np_acked = Some r \<and>
        (\<forall>ip\<in>set (IPsToRelease ra). release_ips r ip = Some IPAMReadyForRelease))"
    using t(2) by metis
  ultimately show ?thesis using t(1) n'(3) by (intro exI conjI) simp_all
qed

text \<open>
  C38: In every history of the node the local status holds marks only (the stages after the mark are
  the agent's), so that the clean-up of released entries never has anything to do; a running node has
  a resource; and maintenance never stops with a nil dereference as long as the cloud reports an
  allocation or an error.
\<close>

theorem node_history_invariant:
  assumes "nr_env_ok E" "(nr_step E)\<^sup>*\<^sup>* (newNetResource nm t0 w) n"
  shows "(\<forall>ip s. ipReleaseStatus n ip = Some s \<longrightarrow> s = IPAMMarkForRelease) \<and>
    removeStaleReleaseIPs n = n \<and> (instanceRunning n \<longrightarrow> resource n \<noteq> None) \<and>
    ((\<forall>w. fst (op_PrepareIPAllocation (ops E) w) \<noteq> Inr None) \<longrightarrow> MaintainIPPool E now n \<noteq> None)"
proof -
  have inv: "nr_inv n" by (rule nr_steps_inv [OF assms(2) newNetResource_inv assms(1)])
  show ?thesis
    using nr_invD(1,3) [OF inv] removeStaleReleaseIPs_id [OF inv] MaintainIPPool_total [OF inv, of E now]
    by blast
qed

theorem node_history_invariant_witness:
  "MaintainIPPool (np_env Map.empty) 5 np_new \<noteq> None"
proof -
  have "fst (op_PrepareIPAllocation (ops (np_env Map.empty)) w) \<noteq> Inr None" for w
    by (simp add: np_env_def np_ops_def)
  then show ?thesis
    using node_history_invariant [OF np_env_ok rtranclp.rtrancl_refl] unfolding np_new_def by blast
qed

text \<open>
  What the operator writes into the status of the resource is exactly: the addresses it has marked,
  each with the answer the agent has already given, if there is one, and otherwise as marked for
  release; it never invents an acknowledgement.
\<close>

theorem PopulateIPReleaseStatus_keeps_answers:
  assumes "nr_env_ok E" "(nr_step E)\<^sup>*\<^sup>* (newNetResource nm t0 w) n"
  shows "PopulateIPReleaseStatus node n =
    (set_ReleaseIPs (\<lambda>ip. if ipReleaseStatus n ip = None then None
       else if release_ips node ip \<in> {Some IPAMReadyForRelease, Some IPAMDoNotRelease}
       then release_ips node ip else Some IPAMMarkForRelease) node, n)"
  by (rule PopulateIPReleaseStatus_eq [OF nr_steps_inv [OF assms(2) newNetResource_inv assms(1)]])

theorem PopulateIPReleaseStatus_keeps_answers_witness:
  "release_ips (fst (PopulateIPReleaseStatus
     (np_resource 1 [] Map.empty [''10.0.0.2'' \<mapsto> IPAMReadyForRelease]) np_new)) = Map.empty"
  unfolding np_new_def
    PopulateIPReleaseStatus_keeps_answers [OF np_env_ok rtranclp.rtrancl_refl, where nm = "''node''"]
  by (simp add: newNetResource_def)

text \<open>
  The pool is written before the status: the calls of a synchronisation are writes of the
  specification, each with the addresses available now as its pool, followed by writes of the status
  only if the last of them was accepted; the release states written are the marks of the node, with
  the states marked, ready or refused.
\<close>

theorem syncToAPIServer_pool_first:
  assumes "nr_env_ok E" "(nr_step E)\<^sup>*\<^sup>* (newNetResource nm t0 w) n"
    and "syncToAPIServer E n = (res, n')"
  shows "\<exists>us ss ts. trace n' = trace n @ us @ ss @ ts \<and>
    (\<forall>e\<in>set us. \<exists>node ok. e = UpdateCall node ok \<and> Pool (SpecIPAM node) = Some (available n)) \<and>
    (\<forall>e\<in>set ss. \<exists>node ok. e = UpdateStatusCall node ok \<and>
        dom (release_ips node) = dom (ipReleaseStatus n) \<and>
        ran (release_ips node) \<subseteq> {IPAMMarkForRelease, IPAMReadyForRelease, IPAMDoNotRelease}) \<and>
    set ts \<subseteq> {Triggered RetrySyncToAPIServer} \<and>
    (ss \<noteq> [] \<longrightarrow> (\<exists>us' node. us = us' @ [UpdateCall node True]))"
  using syncToAPIServer_spec [OF nr_steps_inv [OF assms(2) newNetResource_inv assms(1)] assms(3)]
  unfolding spec_write_def status_write_def by blast

theorem syncToAPIServer_pool_first_witness:
  "\<exists>us ss ts. trace (snd (syncToAPIServer (np_env [''10.0.0.2'' \<mapsto> np_ip, ''10.0.0.3'' \<mapsto> np_ip]) np_acked)) =
       trace np_acked @ us @ ss @ ts \<and>
     (\<forall>e\<in>set us. \<exists>node ok. e = UpdateCall node ok \<and> Pool (SpecIPAM node) = Some (available np_acked)) \<and>
     (ss \<noteq> [] \<longrightarrow> us \<noteq> [])"
proof -
  let ?E = "np_env [''10.0.0.2'' \<mapsto> np_ip, ''10.0.0.3'' \<mapsto> np_ip]"
  obtain res n' where r: "syncToAPIServer ?E np_acked = (res, n')" by fastforce
  from syncToAPIServer_pool_first [OF np_env_ok np_steps r]
  show ?thesis unfolding r snd_conv by blast
qed

text \<open>
  After a recalculation that reached the cloud, the pool is what the cloud reported, the available
  count is the number of its IPv4 addresses outside a release, each subnet counts the used addresses
  that belong to it, and what is needed and in excess follows from them by the two formulas.
\<close>

theorem recalculate_counts:
  assumes "nr_env_ok E" "resource n = Some r"
    and "op_ResyncInterfacesAndIPs (ops E) (cloud n) = (Inr a, w)" "finite (dom a)"
    and "SpecENI r = Some eni" "AvailabilityZone eni \<noteq> []" "finite (dom (Used (StatusIPAM r)))"
    and "s = stats (recalculate E n)"
  shows "available (recalculate E n) = a \<and>
    AvailableIPs s = int (card {ip \<in> dom a. counts_as_v4 ip \<and> ipReleaseStatus n ip = None}) \<and>
    UsedIPs s = int (card {ip \<in> dom (Used (StatusIPAM r)). counts_as_v4 ip}) \<and>
    (\<forall>sid. subnet_count s sid = int (card {ip \<in> dom (Used (StatusIPAM r)).
        counts_as_v4 ip \<and> subnet_of (Used (StatusIPAM r)) ip = sid})) \<and>
    NeededIPs s = calculateNeededIPs (AvailableIPs s) (UsedIPs s) (getPreAllocate r) (getMinAllocate r)
       (getMaxAllocate E r w) (getMaxIPBurstableIPCount E w) \<and>
    (\<not> op_IsPrefixDelegated (ops E) w \<longrightarrow>
     ExcessIPs s = calculateExcessIPs (AvailableIPs s) (UsedIPs s) (getPreAllocate r) (getMinAllocate r)
       (getMaxAboveWatermark r) (getMaxIPBurstableIPCount E w)
       (int (card {ip \<in> dom a. counts_as_v4 ip \<and> ipReleaseStatus n ip \<noteq> None})))"
proof -
  have o: "iter_order (allocOrder E a) a" "iter_order (allocOrder E (Used (StatusIPAM r))) (Used (StatusIPAM r))"
    using assms(1,4,7) unfolding nr_env_ok_def by blast+
  have cnt: "int (length (filter P (allocOrder E (Used (StatusIPAM r))))) =
      int (card {ip \<in> dom (Used (StatusIPAM r)). P ip})" for P
    using o(2) by (simp add: iter_order_def distinct_card [symmetric])
  note st = recalculate_stats [OF assms(2,3) o(1), folded assms(8)]
  have "UsedIPs s = int (card {ip \<in> dom (Used (StatusIPAM r)). counts_as_v4 ip})"
    using st(6) assms(5,6) cnt by simp
  moreover have "subnet_count s sid = int (card {ip \<in> dom (Used (StatusIPAM r)).
        counts_as_v4 ip \<and> subnet_of (Used (StatusIPAM r)) ip = sid})" for sid
    unfolding st(7) using assms(5,6) cnt by simp
  ultimately show ?thesis using st by simp
qed

theorem recalculate_counts_witness:
  "UsedIPs (stats (recalculate (np_env Map.empty)
      (np_new\<lparr>resource := Some (np_resource 1 ''zoneA'' [''10.0.0.2'' \<mapsto> np_ip] Map.empty)\<rparr>))) = 1"
proof -
  let ?r = "np_resource 1 ''zoneA'' [''10.0.0.2'' \<mapsto> np_ip] Map.empty"
  have u: "Used (StatusIPAM ?r) = [''10.0.0.2'' \<mapsto> np_ip]" by (simp add: np_resource_def)
  have "UsedIPs (stats (recalculate (np_env Map.empty) (np_new\<lparr>resource := Some ?r\<rparr>))) =
      int (card {ip \<in> dom (Used (StatusIPAM ?r)). counts_as_v4 ip})"
    using recalculate_counts [OF np_env_ok _ _ _ _ _ _ refl, of "np_new\<lparr>resource := Some ?r\<rparr>" ?r Map.empty Map.empty "()"
        "the (SpecENI ?r)"]
    by (simp add: np_env_def np_ops_def np_resource_def)
  moreover have "{ip \<in> dom (Used (StatusIPAM ?r)). counts_as_v4 ip} = {''10.0.0.2''}"
    using np_v4(1) unfolding u by auto
  ultimately show ?thesis by simp
qed

text \<open>
  C39: A release in progress stops all allocation: as long as one IPv4 address of the pool is marked,
  the recalculation reports an excess, whatever the node needs, and the maintenance decides to release
  and not to allocate; so a release is not aborted by new demand, although the comment says so.
\<close>

theorem pending_release_blocks_allocation:
  assumes "nr_env_ok E" "resource n = Some r" "releaseExcessIPs E"
    and "op_ResyncInterfacesAndIPs (ops E) (cloud n) = (Inr a, w)" "finite (dom a)"
    and "ip \<in> dom a" "counts_as_v4 ip" "ipReleaseStatus n ip \<noteq> None" "getMaxIPBurstableIPCount E w = 0"
  shows "0 < ExcessIPs (stats (recalculate E n)) \<and>
    (\<exists>ra n'. determineMaintenanceAction E (recalculate E n) =
       Some (Inr (Some \<lparr>allocation = None, release = ra\<rparr>), n'))"
proof -
  have o: "iter_order (allocOrder E a) a" using assms(1,5) unfolding nr_env_ok_def by blast
  note st = recalculate_stats [OF assms(2,4) o]
  let ?R = "{x \<in> dom a. counts_as_v4 x \<and> ipReleaseStatus n x \<noteq> None}"
  have "finite ?R" "ip \<in> ?R" using assms(5-8) by auto
  then have "0 < int (card ?R)" by (metis card_gt_0_iff empty_iff of_nat_0_less_iff)
  then have ex: "0 < ExcessIPs (stats (recalculate E n))"
    unfolding st(5) calculateExcessIPs_def by simp
  have "getMaxIPBurstableIPCount E (cloud (recalculate E n)) = 0" using st(2) assms(9) by simp
  with ex assms(3) show ?thesis
    by (simp add: determineMaintenanceAction_def split: prod.split)
qed

text \<open>The concrete node uses three of four addresses, wants ten free ones, and one is marked.\<close>

definition np_busy :: "unit NetResource" where
  "np_busy = np_new\<lparr>resource := Some (np_resource 10 ''zoneA''
     [''10.0.0.3'' \<mapsto> np_ip, ''10.0.0.4'' \<mapsto> np_ip] Map.empty),
     ipReleaseStatus := [''10.0.0.2'' \<mapsto> IPAMMarkForRelease]\<rparr>"

theorem pending_release_blocks_allocation_witness:
  "\<exists>ra n'. determineMaintenanceAction
      (np_env [''10.0.0.2'' \<mapsto> np_ip, ''10.0.0.3'' \<mapsto> np_ip, ''10.0.0.4'' \<mapsto> np_ip])
      (recalculate (np_env [''10.0.0.2'' \<mapsto> np_ip, ''10.0.0.3'' \<mapsto> np_ip, ''10.0.0.4'' \<mapsto> np_ip]) np_busy) =
      Some (Inr (Some \<lparr>allocation = None, release = ra\<rparr>), n') \<and>
    0 < NeededIPs (stats
      (recalculate (np_env [''10.0.0.2'' \<mapsto> np_ip, ''10.0.0.3'' \<mapsto> np_ip, ''10.0.0.4'' \<mapsto> np_ip]) np_busy))"
proof -
  let ?a = "[''10.0.0.2'' \<mapsto> np_ip, ''10.0.0.3'' \<mapsto> np_ip, ''10.0.0.4'' \<mapsto> np_ip]"
  let ?r = "np_resource 10 ''zoneA'' [''10.0.0.3'' \<mapsto> np_ip, ''10.0.0.4'' \<mapsto> np_ip] Map.empty"
  have b: "resource np_busy = Some ?r" "ipReleaseStatus np_busy = [''10.0.0.2'' \<mapsto> IPAMMarkForRelease]"
    by (simp_all add: np_busy_def)
  have e: "releaseExcessIPs (np_env ?a)" "op_ResyncInterfacesAndIPs (ops (np_env ?a)) (cloud np_busy) = (Inr ?a, ())"
    "getMaxIPBurstableIPCount (np_env ?a) () = 0"
    by (simp_all add: np_env_def np_ops_def getMaxIPBurstableIPCount_def)
  have d: "determineMaintenanceAction (np_env ?a) (recalculate (np_env ?a) np_busy) =
      Some (Inr (Some \<lparr>allocation = None, release = ra\<rparr>), n') \<Longrightarrow> ?thesis" for ra n'
  proof -
    have o: "iter_order (allocOrder (np_env ?a) ?a) ?a" using np_env_ok [of ?a] unfolding nr_env_ok_def by simp
    note st = recalculate_stats [OF b(1) e(2) o]
    have "{ip \<in> dom ?a. counts_as_v4 ip \<and> ipReleaseStatus np_busy ip = None} = {''10.0.0.3'', ''10.0.0.4''}"
      using np_v4 unfolding b(2) by auto
    then have av: "AvailableIPs (stats (recalculate (np_env ?a) np_busy)) = 2" unfolding st(3) by simp
    have "iter_order (allocOrder (np_env ?a) (Used (StatusIPAM ?r))) (Used (StatusIPAM ?r))"
      using np_env_ok [of ?a] unfolding nr_env_ok_def by (simp add: np_resource_def)
    then have "int (length (filter counts_as_v4 (allocOrder (np_env ?a) (Used (StatusIPAM ?r))))) =
        int (card {ip \<in> dom (Used (StatusIPAM ?r)). counts_as_v4 ip})"
      by (simp add: iter_order_def distinct_card [symmetric])
    moreover have "{ip \<in> dom (Used (StatusIPAM ?r)). counts_as_v4 ip} = {''10.0.0.3'', ''10.0.0.4''}"
      using np_v4 by (auto simp: np_resource_def)
    ultimately have u: "UsedIPs (stats (recalculate (np_env ?a) np_busy)) = 2"
      unfolding st(6) by (simp add: np_resource_def)
    have "NeededIPs (stats (recalculate (np_env ?a) np_busy)) = 10"
      unfolding st(4) av u e(3)
      by (simp add: calculateNeededIPs_def go_int_id np_resource_def getPreAllocate_def getMinAllocate_def
          getMaxAllocate_def np_env_def np_ops_def Let_def)
    then show ?thesis if "determineMaintenanceAction (np_env ?a) (recalculate (np_env ?a) np_busy) =
      Some (Inr (Some \<lparr>allocation = None, release = ra\<rparr>), n')"
      using that by auto
  qed
  show ?thesis
    using pending_release_blocks_allocation [OF np_env_ok b(1) e(1,2) _ _ np_v4(1) _ e(3)] d b(2)
    by auto
qed

text \<open>
  Without an ENI specification that names a zone no address counts as used: a pool as large as the
  pre-allocation (and the minimum) is never extended, even if every address of it is taken.
\<close>

theorem recalculate_ignores_usage_without_zone:
  assumes "nr_env_ok E" "resource n = Some r"
    and "op_ResyncInterfacesAndIPs (ops E) (cloud n) = (Inr a, w)" "finite (dom a)"
    and "\<And>eni. SpecENI r = Some eni \<Longrightarrow> AvailabilityZone eni = []"
    and "\<And>ip. ip \<in> dom a \<Longrightarrow> counts_as_v4 ip \<and> ipReleaseStatus n ip = None"
    and "getPreAllocate r \<le> int (card (dom a))" "getMinAllocate r \<le> int (card (dom a))"
    and "card (dom a) < 2 ^ 60" "count (getPreAllocate r)" "count (getMinAllocate r)"
    and "count (getMaxAllocate E r w)" "count (getMaxIPBurstableIPCount E w)"
  shows "UsedIPs (stats (recalculate E n)) = 0 \<and> NeededIPs (stats (recalculate E n)) = 0"
proof -
  have o: "iter_order (allocOrder E a) a" using assms(1,4) unfolding nr_env_ok_def by blast
  note st = recalculate_stats [OF assms(2,3) o]
  have u: "UsedIPs (stats (recalculate E n)) = 0"
    using st(6) assms(5) by (simp split: option.split)
  have "{ip \<in> dom a. counts_as_v4 ip \<and> ipReleaseStatus n ip = None} = dom a" using assms(6) by blast
  then have av: "AvailableIPs (stats (recalculate E n)) = int (card (dom a))" using st(3) by simp
  have c: "count (int (card (dom a)))" "count 0" using assms(9) by (simp_all add: count_def)
  have "calculateNeededIPs (int (card (dom a))) 0 (getPreAllocate r) (getMinAllocate r)
      (getMaxAllocate E r w) (getMaxIPBurstableIPCount E w) = 0"
    using assms(7,8) c(1)
    by (simp add: needed_exact [OF c(1,2) assms(10-13)] Let_def max_def count_def)
  then show ?thesis using u av st(4) by simp
qed

theorem recalculate_ignores_usage_without_zone_witness:
  "NeededIPs (stats (recalculate (np_env [''10.0.0.2'' \<mapsto> np_ip])
     (np_new\<lparr>resource := Some (np_resource 1 [] [''10.0.0.2'' \<mapsto> np_ip] Map.empty)\<rparr>))) = 0"
  by (rule conjunct2 [OF recalculate_ignores_usage_without_zone [OF np_env_ok, where
        r = "np_resource 1 [] [''10.0.0.2'' \<mapsto> np_ip] Map.empty" and a = "[''10.0.0.2'' \<mapsto> np_ip]" and w = "()"]])
     (simp_all add: np_env_def np_ops_def np_resource_def np_new_def newNetResource_def np_v4 count_def
        getPreAllocate_def getMinAllocate_def getMaxAllocate_def getMaxIPBurstableIPCount_def Let_def split: if_splits)

end
