(* ===== verification/HandshakeSystem.thy ===== *)
theory HandshakeSystem
  imports AgentHandshake NodeProps
begin

text \<open>
  The release handshake as a whole: the agent's store (\<open>pkg/ipam/crd.go\<close>), the operator's node
  (\<open>pkg/ipam/net_resource.go\<close>) and the NetResourceSet object in the API server they exchange their
  states through, every operation of either side in any order. An accepted write replaces the
  release states of the object: the agent writes those of its copy; the operator writes what
  \<open>PopulateIPReleaseStatus\<close> makes of the current object, since a write based on an older version is
  refused with a conflict. Either side may look at the object as late as it likes.
\<close>

section \<open>The operations of the agent alone\<close>

inductive agent_local :: "crd_env \<Rightarrow> nodeStore \<Rightarrow> nodeStore \<Rightarrow> bool" for env where
  allocate: "i < length (allocators st) \<Longrightarrow> DeriveFamily a = family (allocators st ! i) \<Longrightarrow>
     crd_Allocate env i a own st = Some (r, st') \<Longrightarrow> agent_local env st st'"
| allocate_no_sync: "i < length (allocators st) \<Longrightarrow> DeriveFamily a = family (allocators st ! i) \<Longrightarrow>
     crd_AllocateWithoutSyncUpstream env i a own st = Some (r, st') \<Longrightarrow> agent_local env st st'"
| pick: "i < length (allocators st) \<Longrightarrow> crd_AllocateNext env i own st = Some (r, st') \<Longrightarrow>
     agent_local env st st'"
| pick_no_sync: "i < length (allocators st) \<Longrightarrow>
     crd_AllocateNextWithoutSyncUpstream env i own st = Some (r, st') \<Longrightarrow> agent_local env st st'"
| release: "i < length (allocators st) \<Longrightarrow> crd_Release i a st = (r, st') \<Longrightarrow> agent_local env st st'"
| ack: "ParseIP ip = Some a \<Longrightarrow> ip_string a = ip \<Longrightarrow>
     lastAllocator (DeriveFamily a) (allocators st) 0 None = Some i \<Longrightarrow>
     ackOne ip i st = Some st' \<Longrightarrow> agent_local env st st'"
| reset: "agent_local env st (snd (ResetMarkedForReleaseIPs st))"
| delete: "agent_local env st (deleteLocalNodeResource st)"
| restored: "agent_local env st (crd_RestoreFinished st)"
| trigger: "agent_local env st (trigger r st)"

lemma agent_local_step: "agent_local env st st' \<Longrightarrow> agent_step env st st'"
  by (induction rule: agent_local.induct) (auto intro: agent_step.intros)

text \<open>The agent has given up the addresses of a set: none is allocated, and its copy of the resource,
  if it has one, shows each as acknowledged.\<close>

definition withheld :: "string set \<Rightarrow> nodeStore \<Rightarrow> bool" where
  "withheld S st \<longleftrightarrow>
     (\<forall>ip\<in>S. (\<forall>i<length (allocators st). allocated (allocators st ! i) ip = None) \<and>
             (\<forall>n. ownNode st = Some n \<longrightarrow> acked n ip))"

lemma withheldD:
  assumes "withheld S st" "ip \<in> S"
  shows "i < length (allocators st) \<Longrightarrow> allocated (allocators st ! i) ip = None"
    "ownNode st = Some n \<Longrightarrow> acked n ip"
  using assms by (auto simp: withheld_def)

lemma recorded_withheld:
  assumes "withheld S st" "recorded i a st st'" "ownNode st = Some n"
    "\<not> isIPInReleaseHandshake n (ip_string a)"
  shows "withheld S st'"
  unfolding withheld_def
proof (intro ballI conjI allI impI)
  fix ip j assume ip: "ip \<in> S" and j: "j < length (allocators st')"
  have "acked n ip" using withheldD(2) [OF assms(1) ip assms(3)] .
  then have ne: "ip \<noteq> ip_string a"
    using assms(4) by (auto simp: acked_def isIPInReleaseHandshake_def handshake_status_def)
  have "ip \<notin> crd_allocd j st" using withheldD(1) [OF assms(1) ip, of j] assms(2) j
    by (auto simp: recorded_def)
  then have "ip \<notin> crd_allocd j st'" using assms(2) ne unfolding recorded_def by (cases "j = i") auto
  then show "allocated (allocators st' ! j) ip = None" by auto
next
  fix ip m assume "ip \<in> S" "ownNode st' = Some m"
  then show "acked m ip" using withheldD(2) [OF assms(1)] assms(2) by (simp add: recorded_def)
qed

lemma same_agent_withheld:
  "withheld S st \<Longrightarrow> allocators st' = allocators st \<Longrightarrow>
   (\<And>n'. ownNode st' = Some n' \<Longrightarrow> \<exists>n. ownNode st = Some n \<and> (\<forall>ip. acked n ip \<longrightarrow> acked n' ip)) \<Longrightarrow>
   withheld S st'"
  unfolding withheld_def by metis

lemma agent_local_withheld:
  assumes "agent_local env st st'" "agent_ok env st" "withheld S st"
  shows "withheld S st'"
  using assms
proof cases
  case (allocate i a own r)
  then show ?thesis
    using crd_Allocate_cases [OF allocate(1), of env a own] recorded_withheld [OF assms(3)] assms(3) by auto
next
  case (allocate_no_sync i a own r)
  then show ?thesis
    using crd_AllocateWithoutSyncUpstream_cases [OF allocate_no_sync(1), of env a own]
      recorded_withheld [OF assms(3)] assms(3) by auto
next
  case (pick i own r)
  have "store_ok env st" using assms(2) by (simp add: agent_ok_def)
  from crd_AllocateNext_cases [OF this pick(1), of own] show ?thesis
    using pick recorded_withheld [OF assms(3)] assms(3) by auto
next
  case (pick_no_sync i own r)
  have "store_ok env st" using assms(2) by (simp add: agent_ok_def)
  from crd_AllocateNextWithoutSyncUpstream_cases [OF this pick_no_sync(1), of own] show ?thesis
    using pick_no_sync recorded_withheld [OF assms(3)] assms(3) by auto
next
  case (release i a r)
  note f = release_shrinks [OF release(1,2)]
  have len: "length (allocators st') = length (allocators st)" using f by (metis length_map)
  have "allocated (allocators st' ! j) ip = None" if "allocated (allocators st ! j) ip = None" for j ip
    using f that by (metis domIff subset_iff)
  then show ?thesis using f len assms(3) unfolding withheld_def by metis
next
  case (ack ip a i)
  obtain n where n: "ownNode st = Some n" using ack(4) by (auto simp: ackOne_def split: option.splits)
  have i: "i < length (allocators st)" using lastAllocator_spec [OF ack(3)] by auto
  have st': "ownNode st' = Some (set_ReleaseIPs ((release_ips n)(ip \<mapsto>
      (if allocated (allocators st ! i) ip \<noteq> None then IPAMDoNotRelease else IPAMReadyForRelease))) n)"
      "allocators st' = allocators st"
    using ack(4) n by (auto simp: ackOne_Some)
  show ?thesis
    unfolding withheld_def
  proof (intro ballI conjI allI impI)
    fix x j assume "x \<in> S" "j < length (allocators st')"
    then show "allocated (allocators st' ! j) x = None" using withheldD(1) [OF assms(3)] st'(2) by simp
  next
    fix x m assume x: "x \<in> S" and m: "ownNode st' = Some m"
    have "allocated (allocators st ! i) x = None" "acked n x"
      using withheldD [OF assms(3) x] i n by auto
    then show "acked m x" using m st'(1) by (cases "x = ip") (auto simp: acked_def)
  qed
next
  case reset
  then show ?thesis
    by (intro same_agent_withheld [OF assms(3)])
       (auto simp: ResetMarkedForReleaseIPs_def Let_def acked_def split: option.splits if_splits)
next
  case delete
  then show ?thesis by (intro same_agent_withheld [OF assms(3)]) (auto simp: deleteLocalNodeResource_def)
next
  case restored
  then show ?thesis by (intro same_agent_withheld [OF assms(3)]) (auto simp: crd_RestoreFinished_def)
next
  case (trigger r)
  then show ?thesis by (intro same_agent_withheld [OF assms(3)]) auto
qed

section \<open>The system\<close>

record 'w system =
  agent :: nodeStore
  object :: NetResourceSet
  operator :: "'w NetResource"

inductive sys_step :: "crd_env \<Rightarrow> 'w nr_env \<Rightarrow> 'w system \<Rightarrow> 'w system \<Rightarrow> bool" for env E where
  agent_acts: "agent_local env (agent s) a' \<Longrightarrow> sys_step env E s (s\<lparr>agent := a'\<rparr>)"
| agent_sees: "sys_step env E s (s\<lparr>agent := storeResource (object s) (agent s)\<rparr>)"
| agent_evaluates:
    "sys_step env E s (s\<lparr>agent := evaluateHandshake (object s) (storeResource (object s) (agent s))\<rparr>)"
| agent_writes: "ownNode (agent s) = Some n \<Longrightarrow>
     sys_step env E s (s\<lparr>object := set_ReleaseIPs (release_ips n) (object s)\<rparr>)"
| operator_acts: "nr_step E (operator s) op' \<Longrightarrow> resource op' = resource (operator s) \<Longrightarrow>
     sys_step env E s (s\<lparr>operator := op'\<rparr>)"
| operator_sees:
    "sys_step env E s (s\<lparr>operator := snd (UpdatedResource E now (Some (object s)) (operator s))\<rparr>)"
| operator_writes:
    "sys_step env E s (s\<lparr>object := fst (PopulateIPReleaseStatus (object s) (operator s))\<rparr>)"
| object_changes: "release_ips obj = release_ips (object s) \<Longrightarrow> node_ok env obj \<Longrightarrow>
     sys_step env E s (s\<lparr>object := obj\<rparr>)"

definition sys_start :: "Family list \<Rightarrow> NetResourceSet \<Rightarrow> string \<Rightarrow> int \<Rightarrow> 'w \<Rightarrow> 'w system" where
  "sys_start fams obj nm now w =
     \<lparr>agent = fold addAllocator fams newNodeStore, object = obj, operator = newNetResource nm now w\<rparr>"

definition sys_inv :: "crd_env \<Rightarrow> 'w system \<Rightarrow> bool" where
  "sys_inv env s \<longleftrightarrow>
     agent_ok env (agent s) \<and> handshake_safe (agent s) \<and> nr_inv (operator s) \<and>
     node_ok env (object s) \<and> withheld {ip. acked (object s) ip} (agent s)"

lemma sys_invD:
  assumes "sys_inv env s"
  shows "agent_ok env (agent s)" "handshake_safe (agent s)" "nr_inv (operator s)"
    "node_ok env (object s)" "withheld {ip. acked (object s) ip} (agent s)"
  using assms by (simp_all add: sys_inv_def)

lemma fold_addAllocator:
  "ownNode (fold addAllocator fams st) = ownNode st \<and>
   allocators (fold addAllocator fams st) =
     allocators st @ map (\<lambda>fam. \<lparr>allocated = Map.empty, family = fam\<rparr>) fams"
  by (induction fams arbitrary: st) (simp_all add: addAllocator_def)

lemma sys_start_inv:
  assumes "env_ok env" "distinct fams" "node_ok env obj" "\<And>ip. \<not> acked obj ip"
  shows "sys_inv env (sys_start fams obj nm now w)"
proof -
  have fam: "map (family \<circ> (\<lambda>fam. \<lparr>allocated = Map.empty, family = fam\<rparr>)) fams = fams"
    by (simp add: comp_def)
  have "agent_ok env (fold addAllocator fams newNodeStore)"
    using assms(1,2) fam
    by (simp add: agent_ok_def store_ok_def fold_addAllocator newNodeStore_def allocator_ok_def)
  then show ?thesis
    using assms newNetResource_inv
    by (simp add: sys_inv_def sys_start_def handshake_safe_def withheld_def fold_addAllocator newNodeStore_def)
qed

text \<open>The agent takes over the object, or the object after the refusals.\<close>

lemma agent_takes_object:
  assumes "agent_ok env st" "node_ok env obj" "withheld {ip. acked obj ip} st"
    "ownNode st' = Some n'" "allocators st' = allocators st" "node_ok env n'" "acked n' = acked obj"
  shows "agent_ok env st' \<and> handshake_safe st' \<and> withheld {ip. acked obj ip} st'"
proof -
  have "agent_ok env st'"
    using assms(1,4,5,6) by (auto simp: agent_ok_def store_ok_def allocator_ok_def)
  moreover have "handshake_safe st'"
    using assms(3,4,5,7) by (auto simp: handshake_safe_def withheld_def)
  moreover have "withheld {ip. acked obj ip} st'"
    using assms(3,4,5,7) by (simp add: withheld_def)
  ultimately show ?thesis by blast
qed

lemma sys_step_inv:
  assumes "sys_step env E s s'" "sys_inv env s" "nr_env_ok E"
  shows "sys_inv env s'"
  using assms(1)
proof cases
  case (agent_acts a')
  note i = sys_invD [OF assms(2)]
  have "handshake_safe a' \<and> agent_ok env a'"
    by (rule agent_step_safe [OF agent_local_step [OF agent_acts(2)] i(2,1)])
  moreover have "withheld {ip. acked (object s) ip} a'"
    by (rule agent_local_withheld [OF agent_acts(2) i(1,5)])
  ultimately show ?thesis using i agent_acts(1) by (simp add: sys_inv_def)
next
  case agent_sees
  note i = sys_invD [OF assms(2)]
  show ?thesis
    using agent_takes_object [OF i(1,4,5), of "storeResource (object s) (agent s)"] i agent_sees
    by (simp add: sys_inv_def)
next
  case agent_evaluates
  note i = sys_invD [OF assms(2)]
  have "acked (set_ReleaseIPs (\<lambda>ip. if needsNack (object s) ip then Some IPAMDoNotRelease
      else release_ips (object s) ip) (object s)) = acked (object s)"
    by (auto simp: acked_def fun_eq_iff needsNack_def)
  then show ?thesis
    using agent_takes_object [OF i(1,4,5), of "evaluateHandshake (object s) (storeResource (object s) (agent s))"]
      i agent_evaluates
    by (simp add: sys_inv_def)
next
  case (agent_writes n)
  note i = sys_invD [OF assms(2)]
  have "withheld {ip. acked (set_ReleaseIPs (release_ips n) (object s)) ip} (agent s)"
    using i(2) agent_writes(2) by (auto simp: withheld_def handshake_safe_def acked_def)
  then show ?thesis using i agent_writes(1) by (simp add: sys_inv_def)
next
  case (operator_acts op')
  then show ?thesis
    using sys_invD [OF assms(2)] nr_step_inv [OF operator_acts(2) _ assms(3)] by (simp add: sys_inv_def)
next
  case (operator_sees now)
  then show ?thesis
    using sys_invD [OF assms(2)] UpdatedResource_inv by (simp add: sys_inv_def)
next
  case operator_writes
  note i = sys_invD [OF assms(2)]
  have "{ip. acked (fst (PopulateIPReleaseStatus (object s) (operator s))) ip} \<subseteq> {ip. acked (object s) ip}"
    unfolding PopulateIPReleaseStatus_eq [OF i(3)] by (auto simp: acked_def split: if_splits)
  then have "withheld {ip. acked (fst (PopulateIPReleaseStatus (object s) (operator s))) ip} (agent s)"
    using i(5) unfolding withheld_def by blast
  then show ?thesis
    using i operator_writes PopulateIPReleaseStatus_eq [OF i(3), of "object s"] by (simp add: sys_inv_def)
next
  case (object_changes obj)
  note i = sys_invD [OF assms(2)]
  have "acked obj = acked (object s)" using object_changes(2) by (simp add: acked_def fun_eq_iff)
  then show ?thesis using i object_changes by (simp add: sys_inv_def)
qed

lemma sys_steps_inv:
  "(sys_step env E)\<^sup>*\<^sup>* s s' \<Longrightarrow> sys_inv env s \<Longrightarrow> nr_env_ok E \<Longrightarrow> sys_inv env s'"
  by (induction rule: rtranclp_induct) (auto intro: sys_step_inv)

lemma agent_locals_withheld:
  assumes "(agent_local env)\<^sup>*\<^sup>* st st'" "agent_ok env st" "handshake_safe st" "withheld S st"
  shows "withheld S st'"
proof -
  have "agent_ok env st' \<and> handshake_safe st' \<and> withheld S st'"
    using assms
    by (induction rule: rtranclp_induct)
       (auto dest: agent_local_step agent_step_safe intro: agent_local_withheld)
  then show ?thesis by blast
qed

section \<open>A complete handshake\<close>

text \<open>The object is marked, acknowledged and read back; then the operator releases the address.\<close>

abbreviation hss_agent_env :: crd_env where
  "hss_agent_env \<equiv> hs_env IPAMCRD"

abbreviation hss_start :: "unit system" where
  "hss_start \<equiv> sys_start [IPv4] (np_obj Map.empty) ''node'' 0 ()"

lemma np_obj_set: "set_ReleaseIPs r (np_obj r0) = np_obj r" "release_ips (np_obj r) = r"
  by (simp_all add: set_ReleaseIPs_def np_resource_def)

lemma np_obj_ok: "node_ok hss_agent_env (np_obj r)"
  by (simp add: node_ok_def canonical_pool_def pool_map_def np_resource_def)

lemma np_obj_free: "\<not> acked (np_obj Map.empty) ip"
  by (simp add: acked_def np_obj_set)

lemma hss_run:
  "\<exists>s op' t. (sys_step hss_agent_env np_cloud)\<^sup>*\<^sup>* hss_start s \<and>
     MaintainIPPool np_cloud np_time (operator s) = Some (None, op') \<and>
     trace op' = trace (operator s) @ t \<and> ReleaseIPsCall np_action \<in> set t \<and>
     object s = np_obj [''10.0.0.2'' \<mapsto> IPAMReadyForRelease] \<and> length (allocators (agent s)) = 1"
proof -
  let ?mark = "[''10.0.0.2'' \<mapsto> IPAMMarkForRelease]"
  let ?ready = "[''10.0.0.2'' \<mapsto> IPAMReadyForRelease]"
  let ?step = "sys_step hss_agent_env np_cloud"
  define op1 where "op1 = snd (UpdatedResource np_cloud 1 (Some (np_obj Map.empty)) np_new)"
  define s1 where "s1 = hss_start\<lparr>operator := op1\<rparr>"
  have start: "operator hss_start = np_new" "object hss_start = np_obj Map.empty"
    "ownNode (agent hss_start) = None" "allocators (agent hss_start) = [\<lparr>allocated = Map.empty, family = IPv4\<rparr>]"
    by (simp_all add: sys_start_def np_new_def addAllocator_def newNodeStore_def)
  have r1: "?step hss_start s1"
    using sys_step.operator_sees [of hss_agent_env np_cloud hss_start 1] start
    unfolding s1_def op1_def by simp
  have op1: "resource op1 = Some (np_obj Map.empty)" "instanceRunning op1" "instanceStoppedRunning op1 = 0"
    "ipReleaseStatus op1 = Map.empty" "ipsMarkedForRelease op1 = Map.empty" "ExcessIPs (stats op1) = 1"
    unfolding op1_def using np_seen(1-6) [of np_new Map.empty] by (simp_all add: np_new_simps)
  obtain op2 where op2: "MaintainIPPool np_cloud np_time op1 = Some (None, op2)" "resource op2 = resource op1"
    "ipReleaseStatus op2 = ?mark" "ipsMarkedForRelease op2 = [''10.0.0.2'' \<mapsto> np_time]"
    "instanceStoppedRunning op2 = 0"
    using np_round(2) [OF op1(1-3,6)] op1 by (auto simp: nr_inv_def)
  define s2 where "s2 = s1\<lparr>operator := op2\<rparr>"
  have r2: "?step s1 s2"
    unfolding s2_def by (rule sys_step.operator_acts) (use op2 in \<open>auto intro: nr_step.maintained simp: s1_def\<close>)
  define s3 where "s3 = s2\<lparr>object := np_obj ?mark\<rparr>"
  have inv2: "nr_inv op2" using op2(2-4) op1(1) by (auto simp: nr_inv_def split: if_splits)
  have "fst (PopulateIPReleaseStatus (np_obj Map.empty) op2) = np_obj ?mark"
    unfolding PopulateIPReleaseStatus_eq [OF inv2] fst_conv op2(3) np_obj_set
    by (rule arg_cong [of _ _ np_obj]) (auto simp: fun_eq_iff)
  then have r3: "?step s2 s3"
    using sys_step.operator_writes [of hss_agent_env np_cloud s2] start
    by (simp add: s3_def s2_def s1_def)
  define a4 where "a4 = storeResource (np_obj ?mark) (agent hss_start)"
  define s4 where "s4 = s3\<lparr>agent := a4\<rparr>"
  have r4: "?step s3 s4"
    using sys_step.agent_sees [of hss_agent_env np_cloud s3]
    by (simp add: s4_def a4_def s3_def s2_def s1_def)
  have a4: "ownNode a4 = Some (np_obj ?mark)" "allocators a4 = [\<lparr>allocated = Map.empty, family = IPv4\<rparr>]"
    by (simp_all add: a4_def start)
  obtain a5 where a5: "ackOne ''10.0.0.2'' 0 a4 = Some a5" "ownNode a5 = Some (np_obj ?ready)"
    "allocators a5 = allocators a4"
    using ackOne_Some [OF a4(1), of "''10.0.0.2''" 0] a4(2) by (auto simp: np_obj_set)
  define s5 where "s5 = s4\<lparr>agent := a5\<rparr>"
  have "agent_local hss_agent_env a4 a5"
    by (rule agent_local.ack [OF _ _ _ a5(1), where a = "the (ParseIP ''10.0.0.2'')"])
       (simp_all add: a4(2) go_eval DeriveFamily_def)
  then have r5: "?step s4 s5"
    unfolding s5_def by (intro sys_step.agent_acts) (simp add: s4_def)
  define s6 where "s6 = s5\<lparr>object := np_obj ?ready\<rparr>"
  have r6: "?step s5 s6"
    using sys_step.agent_writes [of s5 "np_obj ?ready" hss_agent_env np_cloud] a5(2)
    by (simp add: s6_def s5_def s4_def s3_def np_obj_set)
  define op7 where "op7 = snd (UpdatedResource np_cloud 1 (Some (np_obj ?ready)) op2)"
  define s7 where "s7 = s6\<lparr>operator := op7\<rparr>"
  have r7: "?step s6 s7"
    using sys_step.operator_sees [of hss_agent_env np_cloud s6 1]
    by (simp add: s7_def op7_def s6_def s5_def s4_def s3_def s2_def)
  have op7: "resource op7 = Some (np_obj ?ready)" "instanceRunning op7" "instanceStoppedRunning op7 = 0"
    "ipReleaseStatus op7 = ?mark" "ipsMarkedForRelease op7 = [''10.0.0.2'' \<mapsto> np_time]"
    "ExcessIPs (stats op7) = 1"
    unfolding op7_def using np_seen(1-6) [of op2 ?ready] op2 by simp_all
  have inv7: "nr_inv op7" using op7(1,4,5) by (auto simp: nr_inv_def split: if_splits)
  obtain op' t where fin: "MaintainIPPool np_cloud np_time op7 = Some (None, op')" "trace op' = trace op7 @ t"
    "ReleaseIPsCall np_action \<in> set t"
    using np_round(1) [OF op7(1-3,6) inv7] op7(5) by auto
  have "?step\<^sup>*\<^sup>* hss_start s7"
    using r1 r2 r3 r4 r5 r6 r7 by (meson converse_rtranclp_into_rtranclp rtranclp.rtrancl_refl)
  moreover have "operator s7 = op7" "object s7 = np_obj ?ready" "length (allocators (agent s7)) = 1"
    by (simp_all add: s7_def s6_def s5_def a5(3) a4(2))
  ultimately show ?thesis using fin by metis
qed

section \<open>Properties\<close>

text \<open>
  C1: The two sides compose: in every interleaving of the agent, the operator and the object between
  them, an address the operator asks the cloud to release, and whose acknowledgement has not been
  withdrawn from the object, is allocated by no allocator of the agent, and no operation of the agent
  alone can allocate it afterwards.
\<close>

theorem released_never_allocated:
  assumes "env_ok env" "nr_env_ok E" "distinct fams" "node_ok env obj" "\<And>ip. \<not> acked obj ip"
    and "(sys_step env E)\<^sup>*\<^sup>* (sys_start fams obj nm t0 w) s"
    and "MaintainIPPool E now (operator s) = Some (e, op')" "trace op' = trace (operator s) @ t"
    and "ReleaseIPsCall ra \<in> set t" "ip \<in> set (IPsToRelease ra)"
    and "release_ips (object s) ip = Some IPAMReadyForRelease"
    and "(agent_local env)\<^sup>*\<^sup>* (agent s) a'"
  shows "(\<forall>i<length (allocators a'). allocated (allocators a' ! i) ip = None) \<and>
    (\<exists>r. resource (operator s) = Some r \<and> release_ips r ip = Some IPAMReadyForRelease)"
proof -
  have inv: "sys_inv env s"
    by (rule sys_steps_inv [OF assms(6) sys_start_inv [OF assms(1,3,4,5)] assms(2)])
  have "only_acknowledged E now (operator s) op'"
    using MaintainIPPool_spec [OF sys_invD(3) [OF inv] assms(2,7)] by blast
  then obtain r where r: "resource (operator s) = Some r" "releasable E now r (operator s) ip"
    using assms(8-10) by (auto simp: only_acknowledged_def)
  have "withheld {ip. acked (object s) ip} a'"
    by (rule agent_locals_withheld [OF assms(12) sys_invD(1) [OF inv] sys_invD(2) [OF inv] sys_invD(5) [OF inv]])
  moreover have "acked (object s) ip" using assms(11) by (simp add: acked_def)
  ultimately show ?thesis using r by (simp add: withheld_def releasable_def)
qed

theorem released_never_allocated_witness:
  "\<exists>s. (sys_step hss_agent_env np_cloud)\<^sup>*\<^sup>* hss_start s \<and>
     release_ips (object s) ''10.0.0.2'' = Some IPAMReadyForRelease \<and>
     length (allocators (agent s)) = 1 \<and> allocated (allocators (agent s) ! 0) ''10.0.0.2'' = None"
proof -
  obtain s op' t where run: "(sys_step hss_agent_env np_cloud)\<^sup>*\<^sup>* hss_start s"
    "MaintainIPPool np_cloud np_time (operator s) = Some (None, op')"
    "trace op' = trace (operator s) @ t" "ReleaseIPsCall np_action \<in> set t"
    and fin: "object s = np_obj [''10.0.0.2'' \<mapsto> IPAMReadyForRelease]" "length (allocators (agent s)) = 1"
    using hss_run by blast
  have d: "distinct [IPv4]" by simp
  have ip: "''10.0.0.2'' \<in> set (IPsToRelease np_action)" by (simp add: np_action_def)
  have ready: "release_ips (object s) ''10.0.0.2'' = Some IPAMReadyForRelease" by (simp add: fin(1) np_obj_set)
  have "allocated (allocators (agent s) ! 0) ''10.0.0.2'' = None"
    using released_never_allocated [OF hs_env_ok np_env_ok d np_obj_ok np_obj_free run ip ready
        rtranclp.rtrancl_refl] fin(2) by simp
  then show ?thesis using run(1) ready fin(2) by blast
qed

end
