(* ===== verification/Subnets.thy ===== *)
theory Subnets
  imports GoNet CIDRMath CIDRLists
begin

text \<open>
  Lending the addresses of a subnet to network interfaces that do not exist yet:
  \<open>pkg/bce/bcesync/borrowed_subnet.go\<close>, with the parts of \<open>pkg/bce/bcesync/subnet.go\<close> and
  \<open>pkg/nodeutils/subnet_error.go\<close> that search and choose subnets. The caches of the Kubernetes
  client are parameters; metrics and logging are left out. The lock of a subnet is held through
  every operation, so each is one function.
\<close>

section \<open>Subnets\<close>

record Subnet =
  SubnetName :: string
  SubnetSpecID :: string
  SubnetZone :: string
  SubnetCIDR :: string
  SubnetIPv6CIDR :: string
  SubnetVPCID :: string
  AvailableIPNum :: int
  Enable :: bool
  HasNoMoreIP :: bool
  SubnetReason :: string

record IPBorrowTask =
  TaskSubnetId :: string
  TaskEniID :: string
  IPNum :: int

record BorrowedSubnet =
  subnet :: Subnet
  tasks :: "string \<rightharpoonup> IPBorrowTask"
  SubnetId :: string
  BorrowedIPsCount :: int
  BorrowedAvailableIPsCount :: int

definition NewBorrowedSubnet :: "Subnet \<Rightarrow> BorrowedSubnet" where
  "NewBorrowedSubnet s = \<lparr>subnet = s, tasks = Map.empty, SubnetId = SubnetSpecID s,
     BorrowedIPsCount = 0, BorrowedAvailableIPsCount = AvailableIPNum s\<rparr>"

definition bs_update :: "Subnet \<Rightarrow> BorrowedSubnet \<Rightarrow> BorrowedSubnet" where
  "bs_update s bs = bs\<lparr>subnet := s, BorrowedAvailableIPsCount := AvailableIPNum s - BorrowedIPsCount bs\<rparr>"

section \<open>Lending\<close>

text \<open>\<open>_forceBorrowForENI\<close>: how many addresses are lent, and the new state.\<close>

definition forceBorrowForENI :: "string \<Rightarrow> int \<Rightarrow> BorrowedSubnet \<Rightarrow> int \<times> BorrowedSubnet" where
  "forceBorrowForENI eniID ipNum bs =
     (let avail = AvailableIPNum (subnet bs);
          bs1 = (case tasks bs eniID of
                   Some task \<Rightarrow> bs\<lparr>BorrowedIPsCount := BorrowedIPsCount bs - IPNum task\<rparr>
                 | None \<Rightarrow> bs);
          sbnAvailBorrowIP = avail - BorrowedIPsCount bs1;
          n = (if sbnAvailBorrowIP < ipNum then sbnAvailBorrowIP else ipNum);
          task' = (case tasks bs eniID of
                     Some task \<Rightarrow> task\<lparr>IPNum := n\<rparr>
                   | None \<Rightarrow> \<lparr>TaskSubnetId = SubnetId bs, TaskEniID = eniID, IPNum = n\<rparr>);
          count = BorrowedIPsCount bs1 + n
      in (n, bs1\<lparr>tasks := (tasks bs1)(eniID \<mapsto> task'), BorrowedIPsCount := count,
                 BorrowedAvailableIPsCount := avail - count\<rparr>))"

definition Borrow :: "string \<Rightarrow> int \<Rightarrow> BorrowedSubnet \<Rightarrow> int \<times> BorrowedSubnet" where
  "Borrow eniID ipNum bs =
     (if BorrowedAvailableIPsCount bs < ipNum then (0, bs) else forceBorrowForENI eniID ipNum bs)"

text \<open>The task is a copy of the entry of the map: the statements that change its number have no
  effect on the map.\<close>

definition Done :: "string \<Rightarrow> int \<Rightarrow> BorrowedSubnet \<Rightarrow> BorrowedSubnet" where
  "Done eniID ipNum bs =
     (case tasks bs eniID of
        None \<Rightarrow> bs
      | Some task \<Rightarrow>
          (let n = (if IPNum task < ipNum then IPNum task else ipNum)
           in bs\<lparr>BorrowedIPsCount := (if BorrowedIPsCount bs < n then 0 else BorrowedIPsCount bs - n)\<rparr>))"

definition Cancel :: "string \<Rightarrow> BorrowedSubnet \<Rightarrow> BorrowedSubnet" where
  "Cancel eniID bs =
     (case tasks bs eniID of
        None \<Rightarrow> bs
      | Some task \<Rightarrow>
          (let bs1 = bs\<lparr>tasks := (tasks bs)(eniID := None)\<rparr> in
           if BorrowedIPsCount bs < IPNum task
           then bs1\<lparr>BorrowedAvailableIPsCount := BorrowedAvailableIPsCount bs + BorrowedIPsCount bs,
                    BorrowedIPsCount := 0\<rparr>
           else bs1\<lparr>BorrowedAvailableIPsCount := BorrowedAvailableIPsCount bs + IPNum task,
                    BorrowedIPsCount := BorrowedIPsCount bs - IPNum task\<rparr>))"

definition CanBorrow :: "int \<Rightarrow> BorrowedSubnet \<Rightarrow> bool" where
  "CanBorrow ipNum bs \<longleftrightarrow>
     \<not> HasNoMoreIP (subnet bs) \<and> Enable (subnet bs) \<and> AvailableIPNum (subnet bs) \<ge> ipNum \<and>
     BorrowedAvailableIPsCount bs \<ge> ipNum"

definition GetBorrowedIPNum :: "string \<Rightarrow> BorrowedSubnet \<Rightarrow> int" where
  "GetBorrowedIPNum eniID bs = (case tasks bs eniID of Some t \<Rightarrow> IPNum t | None \<Rightarrow> 0)"

section \<open>All subnets\<close>

type_synonym bsm = "string \<rightharpoonup> BorrowedSubnet"

text \<open>\<open>lister\<close> is the cache of subnet objects.\<close>

definition GetSubnet :: "(string \<rightharpoonup> Subnet) \<Rightarrow> string \<Rightarrow> bsm \<Rightarrow> BorrowedSubnet option \<times> bsm" where
  "GetSubnet lister sbnID m =
     (case m sbnID of
        Some b \<Rightarrow> (Some b, m)
      | None \<Rightarrow>
          (case lister sbnID of
             Some s \<Rightarrow> (Some (NewBorrowedSubnet s), m(sbnID \<mapsto> NewBorrowedSubnet s))
           | None \<Rightarrow> (None, m)))"

record borrowENI =
  beName :: string
  beID :: string
  beSubnetID :: string
  BorrowIPCount :: int
  PrivateIPSet :: "(string \<times> string) list"

text \<open>\<open>ensured\<close> tells whether the object of the subnet exists or could be created.\<close>

definition ForceBorrowForENI ::
    "(string \<rightharpoonup> Subnet) \<Rightarrow> (string \<Rightarrow> bool) \<Rightarrow> borrowENI \<Rightarrow> bsm \<Rightarrow> bsm" where
  "ForceBorrowForENI lister ensured e m =
     (if BorrowIPCount e > 0 \<and> ensured (beSubnetID e)
      then (case GetSubnet lister (beSubnetID e) m of
              (None, m1) \<Rightarrow> m1
            | (Some b, m1) \<Rightarrow>
                m1(beSubnetID e \<mapsto> snd (forceBorrowForENI (beName e)
                     (max (BorrowIPCount e - int (length (PrivateIPSet e))) 0) b)))
      else m)"

definition updateSubnet :: "(string \<rightharpoonup> Subnet) \<Rightarrow> Subnet \<Rightarrow> bsm \<Rightarrow> bsm" where
  "updateSubnet lister s m =
     (case GetSubnet lister (SubnetName s) m of
        (Some b, m1) \<Rightarrow> m1(SubnetName s \<mapsto> bs_update s b)
      | (None, m1) \<Rightarrow> m1)"

text \<open>\<open>resyncBSM\<close>: a new map from the list of subnets, then the reservations of the interfaces. A
  subnet that is missing from the list is taken from the old map, which is replaced at the end; a
  subnet object is named by its identifier, so the next interface finds it in the new map.\<close>

definition resyncENI :: "(string \<rightharpoonup> Subnet) \<Rightarrow> bsm \<Rightarrow> borrowENI \<Rightarrow> bsm \<Rightarrow> bsm" where
  "resyncENI lister global e m =
     (if beSubnetID e = [] then m
      else (let found = (case m (beSubnetID e) of
                           Some b \<Rightarrow> Some (beSubnetID e, b)
                         | None \<Rightarrow> map_option (\<lambda>b. (SubnetSpecID (subnet b), b))
                                    (fst (GetSubnet lister (beSubnetID e) global)))
            in case found of
                 None \<Rightarrow> m
               | Some (k, b) \<Rightarrow>
                   (let ipCount = max (BorrowIPCount e - int (length (PrivateIPSet e))) 0
                    in if BorrowIPCount e > 0 \<and> ipCount > 0
                       then m(k \<mapsto> snd (forceBorrowForENI (beID e) ipCount b))
                       else m(k \<mapsto> b))))"

definition resyncBSM ::
    "(string \<rightharpoonup> Subnet) \<Rightarrow> Subnet list \<Rightarrow> borrowENI list \<Rightarrow> bsm \<Rightarrow> bsm" where
  "resyncBSM lister sbns enis global =
     fold (resyncENI lister global) enis
       (fold (\<lambda>s m. m(SubnetSpecID s \<mapsto> NewBorrowedSubnet s)) sbns Map.empty)"

section \<open>Choosing and searching subnets\<close>

fun contains_substring :: "string \<Rightarrow> string \<Rightarrow> bool" where
  "contains_substring [] sub = (sub = [])"
| "contains_substring (c # s) sub = (take (length sub) (c # s) = sub \<or> contains_substring s sub)"

definition FilterSubnetsByZone :: "BorrowedSubnet list \<Rightarrow> string \<Rightarrow> BorrowedSubnet list" where
  "FilterSubnetsByZone sbns zone = filter (\<lambda>b. contains_substring (SubnetZone (subnet b)) zone) sbns"

definition FilterSubnetsByIPCapacity ::
    "BorrowedSubnet list \<Rightarrow> int \<Rightarrow> BorrowedSubnet list \<times> string list" where
  "FilterSubnetsByIPCapacity sbns minIPs =
     (filter (CanBorrow minIPs) sbns,
      map (\<lambda>b. SubnetSpecID (subnet b)) (filter (\<lambda>b. \<not> CanBorrow minIPs b) sbns))"

definition FilterAvailableSubnet ::
    "BorrowedSubnet list \<Rightarrow> int \<Rightarrow> string \<Rightarrow> string + BorrowedSubnet list" where
  "FilterAvailableSubnet sbns minIPs zoneName =
     (let zs = FilterSubnetsByZone sbns zoneName in
      if zs = [] then Inl ''no subnets available in required zone''
      else (case FilterSubnetsByIPCapacity zs minIPs of
              (ok, insufficient) \<Rightarrow>
                if ok = [] \<and> insufficient \<noteq> [] then Inl ''insufficient IPs'' else Inr ok))"

definition IsInSubnet :: "Subnet \<Rightarrow> string \<Rightarrow> bool" where
  "IsInSubnet s ipStr =
     (case ParseIP ipStr of
        None \<Rightarrow> False
      | Some a \<Rightarrow>
          CIDRStringContainsIP (if to4 a \<noteq> None then SubnetCIDR s else SubnetIPv6CIDR s) ipStr)"

text \<open>\<open>ensure\<close> is \<open>EnsureSubnet\<close>; \<open>sbns\<close> is the list of the subnets of the VPC.\<close>

definition SearchSubnetID ::
    "(string \<rightharpoonup> Subnet) \<Rightarrow> Subnet list \<Rightarrow> string \<Rightarrow> string \<Rightarrow> string" where
  "SearchSubnetID ensure sbns defaultSbnID ipStr =
     (if defaultSbnID = [] then []
      else (case ensure defaultSbnID of
              None \<Rightarrow> defaultSbnID
            | Some s \<Rightarrow>
                if IsInSubnet s ipStr then defaultSbnID
                else (case List.find (\<lambda>x. IsInSubnet x ipStr) sbns of
                        Some x \<Rightarrow> SubnetName x | None \<Rightarrow> [])))"

text \<open>\<open>listSubnetsByIDs\<close>: the identifiers are sent in batches.\<close>

definition maxSubnetIDsPerRequest :: nat where "maxSubnetIDsPerRequest = 100"

function batches :: "'a list \<Rightarrow> 'a list list" where
  "batches ids =
     (if ids = [] then []
      else take maxSubnetIDsPerRequest ids # batches (drop maxSubnetIDsPerRequest ids))"
  by pat_completeness auto
termination
  by (relation "measure length") (simp_all add: maxSubnetIDsPerRequest_def)

declare batches.simps [simp del]

fun requestBatches :: "(string list \<Rightarrow> 'e + 'r list) \<Rightarrow> string list list \<Rightarrow> 'e + 'r list" where
  "requestBatches request [] = Inr []"
| "requestBatches request (b # bs) =
     (case request b of
        Inl e \<Rightarrow> Inl e
      | Inr r \<Rightarrow> (case requestBatches request bs of Inl e \<Rightarrow> Inl e | Inr rs \<Rightarrow> Inr (r @ rs)))"

definition listSubnetsByIDs :: "(string list \<Rightarrow> 'e + 'r list) \<Rightarrow> string list \<Rightarrow> 'e + 'r list" where
  "listSubnetsByIDs request ids = requestBatches request (batches ids)"

section \<open>The accounting\<close>

definition lent :: "BorrowedSubnet \<Rightarrow> int" where
  "lent bs = total IPNum (tasks bs)"

definition accounted :: "BorrowedSubnet \<Rightarrow> bool" where
  "accounted bs \<longleftrightarrow>
     finite (dom (tasks bs)) \<and> BorrowedIPsCount bs = lent bs \<and>
     BorrowedAvailableIPsCount bs = AvailableIPNum (subnet bs) - lent bs \<and>
     (\<forall>e t. tasks bs e = Some t \<longrightarrow> 0 \<le> IPNum t)"

lemma accountedD:
  assumes "accounted bs"
  shows "finite (dom (tasks bs))" "BorrowedIPsCount bs = lent bs"
    "BorrowedAvailableIPsCount bs = AvailableIPNum (subnet bs) - lent bs"
    "tasks bs e = Some t \<Longrightarrow> 0 \<le> IPNum t" "tasks bs e = Some t \<Longrightarrow> IPNum t \<le> lent bs"
    "0 \<le> lent bs" "0 \<le> GetBorrowedIPNum e bs"
proof -
  show f: "finite (dom (tasks bs))" "BorrowedIPsCount bs = lent bs"
    "BorrowedAvailableIPsCount bs = AvailableIPNum (subnet bs) - lent bs"
    "tasks bs e = Some t \<Longrightarrow> 0 \<le> IPNum t"
    using assms by (auto simp: accounted_def)
  show "tasks bs e = Some t \<Longrightarrow> IPNum t \<le> lent bs"
    unfolding lent_def by (rule total_ge [OF f(1)]) (use assms in \<open>auto simp: accounted_def\<close>)
  show "0 \<le> lent bs"
    unfolding lent_def by (rule total_nonneg) (use assms in \<open>auto simp: accounted_def\<close>)
  show "0 \<le> GetBorrowedIPNum e bs"
    using assms by (auto simp: accounted_def GetBorrowedIPNum_def split: option.split)
qed

lemma NewBorrowedSubnet_accounted: "accounted (NewBorrowedSubnet s)"
  by (simp add: accounted_def NewBorrowedSubnet_def lent_def)

text \<open>The exact effect of a forced loan: what is left over without the old loan bounds the new one.\<close>

lemma forceBorrow_spec:
  assumes "accounted bs" "forceBorrowForENI e n bs = (k, bs')"
  defines "left \<equiv> AvailableIPNum (subnet bs) - (lent bs - GetBorrowedIPNum e bs)"
  shows "k = min left n" "subnet bs' = subnet bs" "GetBorrowedIPNum e bs' = k"
    "e' \<noteq> e \<Longrightarrow> tasks bs' e' = tasks bs e'" "lent bs' = lent bs - GetBorrowedIPNum e bs + k"
    "0 \<le> k \<Longrightarrow> accounted bs'" "dom (tasks bs') = insert e (dom (tasks bs))"
proof -
  note a = accountedD [OF assms(1)]
  have count: "BorrowedIPsCount (case tasks bs e of
        Some task \<Rightarrow> bs\<lparr>BorrowedIPsCount := BorrowedIPsCount bs - IPNum task\<rparr> | None \<Rightarrow> bs) =
      lent bs - GetBorrowedIPNum e bs"
    by (simp add: a(2) GetBorrowedIPNum_def split: option.split)
  have k: "k = min left n" and bs': "tasks bs' = (tasks bs)(e \<mapsto> the (tasks bs' e))"
      "IPNum (the (tasks bs' e)) = k" "subnet bs' = subnet bs"
      "BorrowedIPsCount bs' = lent bs - GetBorrowedIPNum e bs + k"
      "BorrowedAvailableIPsCount bs' = AvailableIPNum (subnet bs) - (lent bs - GetBorrowedIPNum e bs + k)"
    using assms(2) count
    by (auto simp: forceBorrowForENI_def Let_def left_def min_def split: option.splits)
  show "k = min left n" "subnet bs' = subnet bs" using k bs' by simp_all
  show g: "GetBorrowedIPNum e bs' = k"
    unfolding GetBorrowedIPNum_def by (subst bs'(1)) (simp add: bs'(2))
  show "dom (tasks bs') = insert e (dom (tasks bs))" by (subst bs'(1)) simp
  show old: "e' \<noteq> e \<Longrightarrow> tasks bs' e' = tasks bs e'" by (subst bs'(1)) simp
  show l: "lent bs' = lent bs - GetBorrowedIPNum e bs + k"
    unfolding lent_def GetBorrowedIPNum_def
    by (subst bs'(1)) (simp add: total_update [OF a(1)] bs'(2) split: option.split)
  show "accounted bs'" if "0 \<le> k"
  proof -
    have "finite (dom (tasks bs'))" by (subst bs'(1)) (simp add: a(1))
    moreover have "0 \<le> IPNum t" if t: "tasks bs' x = Some t" for x t
    proof (cases "x = e")
      case True
      then show ?thesis using t bs'(2) \<open>0 \<le> k\<close> by simp
    next
      case False
      have "tasks bs x = Some t" using t False by (subst (asm) bs'(1)) simp
      then show ?thesis by (rule a(4))
    qed
    ultimately show ?thesis using bs'(3-5) l by (simp add: accounted_def)
  qed
qed

lemma Borrow_spec:
  assumes "accounted bs" "0 \<le> n" "Borrow e n bs = (k, bs')"
  shows "accounted bs' \<and> subnet bs' = subnet bs \<and>
    (if AvailableIPNum (subnet bs) - lent bs < n then k = 0 \<and> bs' = bs
     else k = n \<and> GetBorrowedIPNum e bs' = n \<and> lent bs' \<le> AvailableIPNum (subnet bs) \<and>
          (\<forall>e'. e' \<noteq> e \<longrightarrow> tasks bs' e' = tasks bs e'))"
proof (cases "AvailableIPNum (subnet bs) - lent bs < n")
  case True
  then show ?thesis using assms accountedD(3) [OF assms(1)] by (simp add: Borrow_def)
next
  case False
  then have f: "forceBorrowForENI e n bs = (k, bs')"
    using assms(3) accountedD(3) [OF assms(1)] by (simp add: Borrow_def)
  note sp = forceBorrow_spec [OF assms(1) f]
  have "0 \<le> GetBorrowedIPNum e bs" by (rule accountedD(7) [OF assms(1)])
  then have "k = n" using sp(1) False by simp
  then show ?thesis using sp False assms(2) \<open>0 \<le> GetBorrowedIPNum e bs\<close> by auto
qed

lemma Cancel_spec:
  assumes "accounted bs"
  shows "accounted (Cancel e bs)" "subnet (Cancel e bs) = subnet bs"
    "tasks (Cancel e bs) = (tasks bs)(e := None)"
proof -
  note a = accountedD [OF assms]
  have t: "tasks (Cancel e bs) = (tasks bs)(e := None)" "subnet (Cancel e bs) = subnet bs"
    by (auto simp: Cancel_def Let_def split: option.split)
  then show "tasks (Cancel e bs) = (tasks bs)(e := None)" "subnet (Cancel e bs) = subnet bs" by simp_all
  have l: "lent (Cancel e bs) = lent bs - GetBorrowedIPNum e bs"
    unfolding lent_def t(1) total_delete [OF a(1)] GetBorrowedIPNum_def
    by (simp split: option.split)
  show "accounted (Cancel e bs)"
  proof (cases "tasks bs e")
    case None
    then show ?thesis using assms by (simp add: Cancel_def)
  next
    case (Some task)
    then have "IPNum task \<le> lent bs" by (rule a(5))
    then have "BorrowedIPsCount (Cancel e bs) = lent bs - IPNum task"
      "BorrowedAvailableIPsCount (Cancel e bs) = AvailableIPNum (subnet bs) - lent bs + IPNum task"
      using Some a(2,3) by (simp_all add: Cancel_def Let_def)
    moreover have "finite (dom (tasks (Cancel e bs)))" using t(1) a(1) by simp
    moreover have "0 \<le> IPNum u" if "tasks (Cancel e bs) x = Some u" for x u
      using that t(1) a(4) by (auto split: if_splits)
    ultimately show ?thesis using l t(2) Some by (simp add: accounted_def GetBorrowedIPNum_def)
  qed
qed

lemma bs_update_accounted: "accounted bs \<Longrightarrow> accounted (bs_update s bs)"
  by (simp add: accounted_def bs_update_def lent_def)

section \<open>The contract: a ledger of loans\<close>

text \<open>The specification of a lending subnet: the number of available addresses and a map from
  interfaces to loans. A request is granted in full or refused.\<close>

type_synonym ledger = "int \<times> (string \<rightharpoonup> int)"

definition ledger_borrow :: "string \<Rightarrow> int \<Rightarrow> ledger \<Rightarrow> int \<times> ledger" where
  "ledger_borrow e n = (\<lambda>(a, L). if a - total id L < n then (0, a, L) else (n, a, L(e \<mapsto> n)))"

definition ledger_of :: "BorrowedSubnet \<Rightarrow> ledger" where
  "ledger_of bs = (AvailableIPNum (subnet bs), \<lambda>e. map_option IPNum (tasks bs e))"

datatype lending = LBorrow string int | LCancel string | LUpdate Subnet

fun lend :: "lending \<Rightarrow> BorrowedSubnet \<Rightarrow> int \<times> BorrowedSubnet" where
  "lend (LBorrow e n) bs = Borrow e n bs"
| "lend (LCancel e) bs = (0, Cancel e bs)"
| "lend (LUpdate s) bs = (0, bs_update s bs)"

fun ledger_step :: "lending \<Rightarrow> ledger \<Rightarrow> int \<times> ledger" where
  "ledger_step (LBorrow e n) l = ledger_borrow e n l"
| "ledger_step (LCancel e) (a, L) = (0, a, L(e := None))"
| "ledger_step (LUpdate s) (a, L) = (0, AvailableIPNum s, L)"

fun runs :: "('o \<Rightarrow> 's \<Rightarrow> 'r \<times> 's) \<Rightarrow> 'o list \<Rightarrow> 's \<Rightarrow> 'r list \<times> 's" where
  "runs step [] s = ([], s)"
| "runs step (x # xs) s =
     (case step x s of (r, s') \<Rightarrow> (case runs step xs s' of (rs, s'') \<Rightarrow> (r # rs, s'')))"

fun lending_ok :: "lending \<Rightarrow> bool" where
  "lending_ok (LBorrow e n) = (0 \<le> n)"
| "lending_ok _ = True"

lemma total_ledger: "total id (\<lambda>e. map_option IPNum (m e)) = total IPNum m"
proof -
  have "dom (\<lambda>e. map_option IPNum (m e)) = dom m" by (auto simp: dom_def)
  then show ?thesis unfolding total_def by (intro sum.cong) auto
qed

lemma lend_refines:
  assumes "accounted bs" "lending_ok x" "lend x bs = (r, bs')"
  shows "accounted bs' \<and> ledger_step x (ledger_of bs) = (r, ledger_of bs')"
proof (cases x)
  case (LBorrow e n)
  have b: "Borrow e n bs = (r, bs')" "0 \<le> n" using assms(2,3) LBorrow by simp_all
  note sp = Borrow_spec [OF assms(1) b(2,1)]
  have l: "total id (snd (ledger_of bs)) = lent bs"
    by (simp add: ledger_of_def total_ledger lent_def)
  show ?thesis
  proof (cases "AvailableIPNum (subnet bs) - lent bs < n")
    case True
    then show ?thesis using sp LBorrow l assms(1) by (simp add: ledger_borrow_def ledger_of_def)
  next
    case False
    have "map_option IPNum (tasks bs' x) = ((\<lambda>e. map_option IPNum (tasks bs e))(e \<mapsto> n)) x" for x
    proof (cases "x = e")
      case True
      have f: "forceBorrowForENI e n bs = (r, bs')"
        using False b(1) accountedD(3) [OF assms(1)] by (simp add: Borrow_def)
      have "e \<in> dom (tasks bs')" using forceBorrow_spec(7) [OF assms(1) f] by blast
      then show ?thesis using True sp False by (auto simp: GetBorrowedIPNum_def)
    next
      case ne: False
      then show ?thesis using sp False by simp
    qed
    then have "(\<lambda>e. map_option IPNum (tasks bs' e)) = (\<lambda>e. map_option IPNum (tasks bs e))(e \<mapsto> n)"
      by (rule ext)
    then show ?thesis using sp False LBorrow l by (simp add: ledger_borrow_def ledger_of_def)
  qed
next
  case (LCancel e)
  then show ?thesis
    using assms(3) Cancel_spec [OF assms(1), of e] by (auto simp: ledger_of_def fun_eq_iff)
next
  case (LUpdate s)
  then show ?thesis using assms(3) bs_update_accounted [OF assms(1)]
    by (auto simp: ledger_of_def bs_update_def)
qed

lemma lends_refine:
  assumes "accounted bs" "\<forall>x\<in>set xs. lending_ok x" "runs lend xs bs = (rs, bs')"
  shows "accounted bs' \<and> runs ledger_step xs (ledger_of bs) = (rs, ledger_of bs')"
  using assms
proof (induction xs arbitrary: bs rs bs')
  case Nil
  then show ?case by simp
next
  case (Cons x xs)
  obtain r b1 where x: "lend x bs = (r, b1)" by fastforce
  obtain rs1 b2 where xs: "runs lend xs b1 = (rs1, b2)" by fastforce
  have eq: "rs = r # rs1" "bs' = b2" using Cons.prems(3) x xs by simp_all
  have s: "accounted b1" "ledger_step x (ledger_of bs) = (r, ledger_of b1)"
    using lend_refines [OF Cons.prems(1) _ x] Cons.prems(2) by auto
  from Cons.IH [OF s(1) _ xs] Cons.prems(2) show ?case using s(2) eq by simp
qed

section \<open>Restoring the loans\<close>

definition within_available :: "bsm \<Rightarrow> bool" where
  "within_available m \<longleftrightarrow>
     (\<forall>k b. m k = Some b \<longrightarrow> accounted b \<and> lent b \<le> AvailableIPNum (subnet b))"

lemma new_subnets_within:
  assumes "\<forall>s\<in>set sbns. 0 \<le> AvailableIPNum s" "within_available m"
  shows "within_available (fold (\<lambda>s m. m(SubnetSpecID s \<mapsto> NewBorrowedSubnet s)) sbns m) \<and>
    dom (fold (\<lambda>s m. m(SubnetSpecID s \<mapsto> NewBorrowedSubnet s)) sbns m) = dom m \<union> SubnetSpecID ` set sbns"
  using assms
proof (induction sbns arbitrary: m)
  case Nil
  then show ?case by simp
next
  case (Cons s sbns)
  have "within_available (m(SubnetSpecID s \<mapsto> NewBorrowedSubnet s))"
    using Cons.prems NewBorrowedSubnet_accounted
    by (simp add: within_available_def) (simp add: NewBorrowedSubnet_def lent_def)
  from Cons.IH [OF _ this] Cons.prems(1) show ?case by auto
qed

lemma resyncENI_within:
  assumes "within_available m" "beSubnetID e \<noteq> [] \<longrightarrow> beSubnetID e \<in> dom m"
  shows "within_available (resyncENI lister global e m) \<and> dom (resyncENI lister global e m) = dom m"
proof (cases "beSubnetID e = []")
  case True
  then show ?thesis using assms(1) by (simp add: resyncENI_def)
next
  case False
  then obtain b where b: "m (beSubnetID e) = Some b" using assms(2) by auto
  let ?n = "max (BorrowIPCount e - int (length (PrivateIPSet e))) 0"
  obtain k b' where f: "forceBorrowForENI (beID e) ?n b = (k, b')" by fastforce
  have acc: "accounted b" "lent b \<le> AvailableIPNum (subnet b)"
    using assms(1) b by (auto simp: within_available_def)
  note sp = forceBorrow_spec [OF acc(1) f]
  have g: "0 \<le> GetBorrowedIPNum (beID e) b" by (rule accountedD(7) [OF acc(1)])
  then have "0 \<le> k" using sp(1) acc(2) by simp
  then have "accounted b'" "lent b' \<le> AvailableIPNum (subnet b')"
    using sp g acc(2) by auto
  then show ?thesis
    using False b f assms(1) by (auto simp: resyncENI_def Let_def within_available_def)
qed

lemma resyncENIs_within:
  assumes "within_available m" "\<forall>e\<in>set enis. beSubnetID e \<noteq> [] \<longrightarrow> beSubnetID e \<in> dom m"
  shows "within_available (fold (resyncENI lister global) enis m)"
  using assms
proof (induction enis arbitrary: m)
  case Nil
  then show ?case by simp
next
  case (Cons e enis)
  have r: "within_available (resyncENI lister global e m)" "dom (resyncENI lister global e m) = dom m"
    using resyncENI_within [OF Cons.prems(1), of e lister global] Cons.prems(2) by simp_all
  show ?case using Cons.IH [OF r(1)] Cons.prems(2) r(2) by simp
qed

section \<open>Batches\<close>

lemma batches_spec: "concat (batches ids) = ids" "\<forall>b\<in>set (batches ids). b \<noteq> [] \<and> length b \<le> 100"
proof (induction ids rule: batches.induct)
  case (1 ids)
  {
    case 1
    then show ?case using "1.IH"(1) by (subst batches.simps) (auto simp: append_take_drop_id)
  next
    case 2
    then show ?case using "1.IH"(2) by (subst batches.simps) (auto simp: maxSubnetIDsPerRequest_def)
  }
qed

lemma requestBatches_map:
  assumes "\<And>b. length b \<le> 100 \<Longrightarrow> request b = Inr (map f b)" "\<forall>b\<in>set bs. length b \<le> 100"
  shows "requestBatches request bs = Inr (map f (concat bs))"
  using assms(2) by (induction bs) (simp_all add: assms(1))

section \<open>Properties\<close>

definition sbn_demo :: "int \<Rightarrow> Subnet" where
  "sbn_demo n = \<lparr>SubnetName = ''sbn'', SubnetSpecID = ''sbn'', SubnetZone = ''zoneA'', SubnetCIDR = [],
     SubnetIPv6CIDR = [], SubnetVPCID = [], AvailableIPNum = n, Enable = True, HasNoMoreIP = False,
     SubnetReason = []\<rparr>"

text \<open>
  C40: Lending refines a ledger: any sequence of requests, cancellations and updates of the subnet gives
  the answers of the specification in which a request is granted in full if the available addresses
  less all current loans allow it, and is refused otherwise, and leaves the same loans.
\<close>

theorem Borrow_refines_ledger:
  assumes "\<forall>x\<in>set xs. lending_ok x" "runs lend xs (NewBorrowedSubnet s) = (rs, bs)"
  shows "runs ledger_step xs (AvailableIPNum s, Map.empty) = (rs, ledger_of bs) \<and>
    BorrowedIPsCount bs = lent bs \<and>
    BorrowedAvailableIPsCount bs = AvailableIPNum (subnet bs) - lent bs"
proof -
  have "ledger_of (NewBorrowedSubnet s) = (AvailableIPNum s, Map.empty)"
    by (simp add: ledger_of_def NewBorrowedSubnet_def fun_eq_iff)
  then show ?thesis
    using lends_refine [OF NewBorrowedSubnet_accounted assms] accountedD(2,3) by auto
qed

theorem Borrow_refines_ledger_witness:
  "\<exists>bs. runs ledger_step [LBorrow ''a'' 5, LBorrow ''b'' 6] (10, Map.empty) = ([5, 0], ledger_of bs)"
proof -
  have r: "runs lend [LBorrow ''a'' 5, LBorrow ''b'' 6] (NewBorrowedSubnet (sbn_demo 10)) =
      ([5, 0], snd (Borrow ''a'' 5 (NewBorrowedSubnet (sbn_demo 10))))"
    by (simp add: Borrow_def forceBorrowForENI_def NewBorrowedSubnet_def sbn_demo_def Let_def)
  have "AvailableIPNum (sbn_demo 10) = 10" by (simp add: sbn_demo_def)
  with Borrow_refines_ledger [OF _ r] show ?thesis by auto
qed

text \<open>
  A finished loan is not given back: \<open>Done\<close> lowers the total but not the loan of the interface, so
  the interface can take its addresses again, and the total no longer covers the loans.
\<close>

theorem Done_keeps_loan:
  assumes "accounted bs" "tasks bs e = Some t" "0 < n" "n \<le> IPNum t"
  shows "GetBorrowedIPNum e (Done e n bs) = IPNum t \<and>
    BorrowedIPsCount (Done e n bs) = lent (Done e n bs) - n"
proof -
  have "IPNum t \<le> lent bs" by (rule accountedD(5) [OF assms(1,2)])
  then show ?thesis
    using assms accountedD(2) [OF assms(1)]
    by (simp add: Done_def GetBorrowedIPNum_def lent_def)
qed

text \<open>The interface \<open>a\<close> has taken its five addresses, the subnet has five left, all five are lent to
  \<open>b\<close>, and \<open>a\<close> still counts five as its own: ten loans of five addresses.\<close>

theorem Done_keeps_loan_witness:
  "let bs = snd (Borrow ''b'' 5 (bs_update (sbn_demo 5)
              (Done ''a'' 5 (snd (Borrow ''a'' 5 (NewBorrowedSubnet (sbn_demo 10)))))))
   in GetBorrowedIPNum ''a'' bs + GetBorrowedIPNum ''b'' bs = 10 \<and> AvailableIPNum (subnet bs) = 5"
proof -
  define b1 where "b1 = snd (Borrow ''a'' 5 (NewBorrowedSubnet (sbn_demo 10)))"
  have acc: "accounted b1"
    using Borrow_spec [OF NewBorrowedSubnet_accounted, of 5 "''a''" "sbn_demo 10" "fst (Borrow ''a'' 5 (NewBorrowedSubnet (sbn_demo 10)))" b1]
    by (simp add: b1_def)
  have t: "tasks b1 ''a'' = Some \<lparr>TaskSubnetId = ''sbn'', TaskEniID = ''a'', IPNum = 5\<rparr>"
    "BorrowedIPsCount b1 = 5" "tasks b1 ''b'' = None" "SubnetId b1 = ''sbn''"
    by (simp_all add: b1_def Borrow_def forceBorrowForENI_def NewBorrowedSubnet_def sbn_demo_def Let_def)
  have "GetBorrowedIPNum ''a'' (Done ''a'' 5 b1) = 5"
    using Done_keeps_loan [OF acc t(1), of 5] by simp
  then show ?thesis
    using t unfolding b1_def [symmetric]
    by (simp add: Let_def Borrow_def forceBorrowForENI_def bs_update_def sbn_demo_def Done_def
        GetBorrowedIPNum_def)
qed

text \<open>
  After a restart the loans are restored within what is available: in the map built from the list of
  subnets and the interfaces of these subnets, no subnet lends more than it has, and its counters agree
  with its loans.
\<close>

theorem resyncBSM_within_available:
  assumes "\<forall>s\<in>set sbns. 0 \<le> AvailableIPNum s"
    and "\<forall>e\<in>set enis. beSubnetID e = [] \<or> beSubnetID e \<in> SubnetSpecID ` set sbns"
    and "resyncBSM lister sbns enis global k = Some b"
  shows "lent b \<le> AvailableIPNum (subnet b) \<and> BorrowedIPsCount b = lent b \<and>
    BorrowedAvailableIPsCount b = AvailableIPNum (subnet b) - lent b \<and> 0 \<le> GetBorrowedIPNum e b"
proof -
  have "within_available Map.empty" by (simp add: within_available_def)
  note new = new_subnets_within [OF assms(1) this]
  have "within_available (resyncBSM lister sbns enis global)"
    unfolding resyncBSM_def using new assms(2) by (intro resyncENIs_within) auto
  then have "accounted b" "lent b \<le> AvailableIPNum (subnet b)"
    using assms(3) by (auto simp: within_available_def)
  then show ?thesis using accountedD(2,3,7) [OF \<open>accounted b\<close>] by auto
qed

theorem resyncBSM_within_available_witness:
  "\<exists>b. resyncBSM Map.empty [sbn_demo 3]
      [\<lparr>beName = ''eni'', beID = ''eni'', beSubnetID = ''sbn'', BorrowIPCount = 8, PrivateIPSet = []\<rparr>]
      Map.empty ''sbn'' = Some b \<and> lent b \<le> 3"
proof -
  let ?e = "\<lparr>beName = ''eni'', beID = ''eni'', beSubnetID = ''sbn'', BorrowIPCount = 8, PrivateIPSet = []\<rparr>"
  let ?b = "snd (forceBorrowForENI ''eni'' 8 (NewBorrowedSubnet (sbn_demo 3)))"
  have r: "resyncBSM Map.empty [sbn_demo 3] [?e] Map.empty ''sbn'' = Some ?b"
    by (simp add: resyncBSM_def resyncENI_def sbn_demo_def)
  have "AvailableIPNum (subnet ?b) = 3"
    by (simp add: forceBorrowForENI_def NewBorrowedSubnet_def sbn_demo_def Let_def)
  with resyncBSM_within_available [OF _ _ r] r show ?thesis by (simp add: sbn_demo_def)
qed

text \<open>
  The subnets are requested in batches of at most 100 that together are exactly the identifiers in
  their order, so a cloud that answers every batch it accepts answers the whole list.
\<close>

theorem listSubnetsByIDs_complete:
  assumes "\<And>b. length b \<le> 100 \<Longrightarrow> request b = Inr (map f b)"
  shows "listSubnetsByIDs request ids = Inr (map f ids) \<and> concat (batches ids) = ids \<and>
    (\<forall>b\<in>set (batches ids). b \<noteq> [] \<and> length b \<le> 100)"
  using requestBatches_map [OF assms, of "batches ids"] batches_spec [of ids]
  by (simp add: listSubnetsByIDs_def)

theorem listSubnetsByIDs_complete_witness:
  "(listSubnetsByIDs (\<lambda>b. if length b \<le> 100 then Inr (map length b) else Inl ()) (replicate 250 ''x'')
     :: unit + nat list) = Inr (replicate 250 1)"
  using listSubnetsByIDs_complete [of "\<lambda>b. if length b \<le> 100 then Inr (map length b) else Inl ()" length
      "replicate 250 ''x''"]
  by (simp add: map_replicate_const)

end
