(* ===== verification/EniNode.thy ===== *)
theory EniNode
  imports NetResource Subnets "HOL-Library.List_Lexorder" "HOL-Library.Char_ord" "HOL-Library.AList"
begin

text \<open>
  The cloud side of a node: \<open>pkg/bce/vpceni/node_super.go\<close> with the interface iterations of
  \<open>node_bcc_eni.go\<close>. It implements the operations the pool of a node relies on
  (\<open>NetResourceOperations\<close>): reading the addresses of the network interfaces, choosing addresses
  to release, releasing them in batches with retries, allocating them in batches, and creating
  interfaces with a cooling-off period. The record \<open>bceNode\<close> is the Go struct
  \<open>bceNetworkResourceSet\<close>. The informers' caches, the Kubernetes and the cloud client and the
  implementation of the instance type (\<open>realNodeInf\<close>) are the parameters of \<open>eni_env\<close>; they act on
  a state \<open>world\<close> of their own. Quota and counters are far from the bounds of \<open>int\<close>. Metrics,
  events, node conditions and logging are left out.
\<close>

section \<open>Interfaces\<close>

record PrivateIP =
  PrivateIPAddress :: string
  ipPrimary :: bool
  ipSubnetID :: string

record ENI =
  eniName :: string
  eniID :: string
  eniSubnetID :: string
  eniType :: string
  eniUseMode :: string
  VPCVersion :: int
  CreationTimestamp :: int
  deleting :: bool
  finalizers :: "string list"
  IPv6PrimaryNote :: string
  IPv4Set :: "PrivateIP list"
  IPv6Set :: "PrivateIP list"
  VPCStatus :: string
  CCEStatus :: string

definition VPCENIStatusAttaching :: string where "VPCENIStatusAttaching = ''attaching''"
definition VPCENIStatusInuse :: string where "VPCENIStatusInuse = ''inuse''"
definition VPCENIStatusDetaching :: string where "VPCENIStatusDetaching = ''detaching''"
definition VPCENIStatusDeleted :: string where "VPCENIStatusDeleted = ''deleted''"
definition ENIStatusReadyOnNode :: string where "ENIStatusReadyOnNode = ''ReadyOnNode''"
definition ENIStatusUsingInPod :: string where "ENIStatusUsingInPod = ''UsingInPod''"
definition ENIMSGPCIERROR :: string where "ENIMSGPCIERROR = ''PCIError''"
definition ENIUseModeSecondaryIP :: string where "ENIUseModeSecondaryIP = ''Secondary''"
definition ENIUseModePrimaryIP :: string where "ENIUseModePrimaryIP = ''Primary''"
definition ENIUseModePrimaryWithSecondaryIP :: string where
  "ENIUseModePrimaryWithSecondaryIP = ''PrimaryWithSecondaryIP''"
definition ENIForBBC :: string where "ENIForBBC = ''bbc''"

definition IsSecondaryIPMode :: "string \<Rightarrow> bool" where
  "IsSecondaryIPMode m \<longleftrightarrow> m = ENIUseModeSecondaryIP \<or> m = ENIUseModePrimaryWithSecondaryIP"

section \<open>State and environment\<close>

record pendingIPMutation =
  present :: bool
  ipInfo :: AllocationIP

text \<open>Interfaces being created: those seen in the informer, and calls that have not returned.\<close>

record creatingEniSet =
  creatingENI :: "(string \<times> int) list"
  creatingENINums :: int

text \<open>The part of the node's custom resource the code reads.\<close>

record CloudNRS = NetResourceSet +
  nrsUseMode :: string
  PreAllocateENI :: int

text \<open>\<open>quota\<close> is what \<open>getENIQuota\<close> returns: the number of interfaces and of addresses per
  interface, absent while it is not known. \<open>bsm\<close> holds the subnets of \<open>GlobalBSM\<close>.\<close>

record 'w bceNode =
  k8sObj :: CloudNRS
  quota :: "(int \<times> int) option"
  creatingEni :: creatingEniSet
  pendingIPMutations :: "string \<rightharpoonup> pendingIPMutation"
  expiredVPCVersion :: "string \<rightharpoonup> int"
  availableIPsNumber :: int
  lastCreateInterfaceFailure :: "(int \<times> err) option"
  bsm :: bsm
  allocErrors :: "string \<rightharpoonup> StatusChange"
  world :: 'w

text \<open>\<open>listENIs\<close> are the interfaces of the node in the informer's cache, in the order of the list;
  \<open>byAge\<close> is the order \<open>sort.Slice\<close> leaves them in when it compares ages only (it is not stable).
  \<open>updateENI\<close> and \<open>updateStatusENI\<close> write an object, \<open>pollTick\<close> waits for the next tick of a poll
  and is False when the poll has timed out, \<open>retryWait\<close> waits before a retry and returns the error of
  a context that is done. \<open>realAllocate\<close>, \<open>realRelease\<close>, \<open>realCreate\<close> are \<open>realNodeInf\<close>;
  \<open>forceGet\<close> is \<open>forceGetENIFromIaaS\<close>, \<open>refreshSubnets\<close> is \<open>refreshAvailableSubnets\<close> and
  \<open>statENI\<close> the addresses the cloud reports for an interface.\<close>

record 'w eni_env =
  EnableIPv4 :: bool
  EnableIPv6 :: bool
  resyncInterval :: int
  listENIs :: "'w \<Rightarrow> err + ENI list"
  byAge :: "ENI list \<Rightarrow> ENI list"
  getENI :: "string \<Rightarrow> 'w \<Rightarrow> ENI option"
  subnetLister :: "string \<Rightarrow> 'w \<Rightarrow> Subnet option"
  updateENI :: "ENI \<Rightarrow> 'w \<Rightarrow> bool \<times> 'w"
  updateStatusENI :: "ENI \<Rightarrow> 'w \<Rightarrow> bool \<times> 'w"
  pollTick :: "'w \<Rightarrow> bool \<times> 'w"
  retryWait :: "'w \<Rightarrow> err option \<times> 'w"
  realAllocate :: "AllocationAction \<Rightarrow> int \<Rightarrow> int \<Rightarrow> 'w \<Rightarrow> (PrivateIP list \<times> PrivateIP list \<times> err option) \<times> 'w"
  realRelease :: "ReleaseAction \<Rightarrow> string list \<Rightarrow> string list \<Rightarrow> 'w \<Rightarrow> err option \<times> 'w"
  realCreate :: "AllocationAction option \<Rightarrow> 'w \<Rightarrow> (int \<times> string \<times> err option) \<times> 'w"
  forceGet :: "'w \<Rightarrow> (int \<times> string \<times> err option) \<times> 'w"
  refreshSubnets :: "'w \<Rightarrow> err option \<times> 'w"
  refreshCapacity :: "int \<Rightarrow> int \<Rightarrow> 'w \<Rightarrow> 'w"
  statENI :: "string \<Rightarrow> 'w \<Rightarrow> (err + string list) \<times> 'w"
  pendOrder :: "(string \<rightharpoonup> pendingIPMutation) \<Rightarrow> string list"

definition used :: "'w bceNode \<Rightarrow> AllocationMap" where
  "used n = Used (StatusIPAM (k8sObj n))"

section \<open>Visiting the interfaces\<close>

definition older :: "ENI \<Rightarrow> ENI \<Rightarrow> bool" where
  "older a b = (if CreationTimestamp a = CreationTimestamp b then eniName a > eniName b
                else CreationTimestamp a > CreationTimestamp b)"

fun insertENI :: "ENI \<Rightarrow> ENI list \<Rightarrow> ENI list" where
  "insertENI e [] = [e]"
| "insertENI e (x # xs) = (if older x e then x # insertENI e xs else e # x # xs)"

definition ready :: "ENI \<Rightarrow> bool" where
  "ready e \<longleftrightarrow> \<not> deleting e \<and> VPCStatus e \<noteq> VPCENIStatusAttaching \<and>
     VPCStatus e \<noteq> VPCENIStatusDetaching \<and> VPCStatus e \<noteq> VPCENIStatusDeleted \<and>
     CCEStatus e = ENIStatusReadyOnNode"

definition ForeachInstanceReadyOnNode ::
    "'w eni_env \<Rightarrow> (ENI \<Rightarrow> 's \<Rightarrow> (go_error option \<times> 's)) \<Rightarrow> 'w \<Rightarrow> 's \<Rightarrow> (go_error option \<times> 's)" where
  "ForeachInstanceReadyOnNode E fn w s =
     (case listENIs E w of
        Inl e \<Rightarrow> (Some (PlainError ''list ENIs failed''), s)
      | Inr enis \<Rightarrow> iterate fn (filter ready (foldr insertENI enis [])) s)"

definition ForeachInstanceWithAllEni ::
    "'w eni_env \<Rightarrow> (ENI \<Rightarrow> 's \<Rightarrow> (go_error option \<times> 's)) \<Rightarrow> 'w \<Rightarrow> 's \<Rightarrow> (go_error option \<times> 's)" where
  "ForeachInstanceWithAllEni E fn w s =
     (case listENIs E w of
        Inl e \<Rightarrow> (Some (PlainError ''list ENIs failed''), s)
      | Inr enis \<Rightarrow> iterate fn (filter (\<lambda>e. \<not> deleting e) (byAge E enis)) s)"

section \<open>Interfaces being created\<close>

definition addCreatingENI :: "string \<Rightarrow> int \<Rightarrow> creatingEniSet \<Rightarrow> creatingEniSet" where
  "addCreatingENI e t c = c\<lparr>creatingENI := AList.update e t (creatingENI c)\<rparr>"

definition removeCreatingENI :: "string \<Rightarrow> creatingEniSet \<Rightarrow> creatingEniSet" where
  "removeCreatingENI e c = c\<lparr>creatingENI := AList.delete e (creatingENI c)\<rparr>"

definition cleanExpiredCreatingENI ::
    "int \<Rightarrow> string list \<Rightarrow> int \<Rightarrow> creatingEniSet \<Rightarrow> creatingEniSet" where
  "cleanExpiredCreatingENI now ids duration c = c\<lparr>creatingENI :=
     filter (\<lambda>(e, t). \<not> (e \<notin> set ids \<and> now - t > duration)) (creatingENI c)\<rparr>"

definition creating_add :: "int \<Rightarrow> creatingEniSet \<Rightarrow> creatingEniSet" where
  "creating_add num c = c\<lparr>creatingENINums := creatingENINums c + num\<rparr>"

definition hasCreatingENI :: "creatingEniSet \<Rightarrow> bool" where
  "hasCreatingENI c \<longleftrightarrow> creatingENI c \<noteq> [] \<or> creatingENINums c > 0"

section \<open>Recent changes the informer may not show yet\<close>

definition rememberPendingReleasedIPs :: "string list \<Rightarrow> 'w bceNode \<Rightarrow> 'w bceNode" where
  "rememberPendingReleasedIPs ips n = n\<lparr>pendingIPMutations :=
     fold (\<lambda>ip m. if ip = [] then m
                  else m(ip \<mapsto> \<lparr>present = False, ipInfo = \<lparr>Owner = [], SubnetID = [], IsPrimary = False,
                                                           Resource = []\<rparr>\<rparr>))
       ips (pendingIPMutations n)\<rparr>"

definition pool_entry :: "string \<Rightarrow> PrivateIP \<Rightarrow> AllocationIP" where
  "pool_entry res a = \<lparr>Owner = [], SubnetID = ipSubnetID a, IsPrimary = False, Resource = res\<rparr>"

definition rememberPendingAllocatedIPs ::
    "string \<Rightarrow> PrivateIP list \<Rightarrow> 'w bceNode \<Rightarrow> 'w bceNode" where
  "rememberPendingAllocatedIPs res addrs n = n\<lparr>pendingIPMutations :=
     fold (\<lambda>a m. if PrivateIPAddress a = [] then m
                 else m(PrivateIPAddress a \<mapsto> \<lparr>present = True, ipInfo = pool_entry res a\<rparr>))
       addrs (pendingIPMutations n)\<rparr>"

definition applyPendingOne ::
    "string \<Rightarrow> AllocationMap \<times> (string \<rightharpoonup> pendingIPMutation) \<Rightarrow> AllocationMap \<times> (string \<rightharpoonup> pendingIPMutation)" where
  "applyPendingOne ip = (\<lambda>(pool, pend).
     case pend ip of
       None \<Rightarrow> (pool, pend)
     | Some m \<Rightarrow>
         if present m
         then (case pool ip of
                 Some cur \<Rightarrow>
                   if Resource cur = Resource (ipInfo m) \<and> SubnetID cur = SubnetID (ipInfo m)
                   then (pool, pend(ip := None))
                   else (pool(ip \<mapsto> ipInfo m), pend)
               | None \<Rightarrow> (pool(ip \<mapsto> ipInfo m), pend))
         else (if pool ip = None then (pool, pend(ip := None)) else (pool(ip := None), pend)))"

definition applyPendingIPMutations ::
    "'w eni_env \<Rightarrow> AllocationMap \<Rightarrow> 'w bceNode \<Rightarrow> AllocationMap \<times> 'w bceNode" where
  "applyPendingIPMutations E pool n =
     (case fold applyPendingOne (pendOrder E (pendingIPMutations n)) (pool, pendingIPMutations n) of
        (pool', pend') \<Rightarrow> (pool', n\<lparr>pendingIPMutations := pend'\<rparr>))"

section \<open>Limits\<close>

definition GetMaximumAllocatableIPv4 :: "'w bceNode \<Rightarrow> int" where
  "GetMaximumAllocatableIPv4 n =
     (case quota n of
        None \<Rightarrow> 0
      | Some (maxENI, maxIP) \<Rightarrow>
          if nrsUseMode (k8sObj n) = ENIUseModePrimaryIP then 0
          else if maxENI = 0 then maxIP - 1
          else (let m = maxENI * (maxIP - 1) in
                if MaxAllocate (SpecIPAM (k8sObj n)) > 0 then min (MaxAllocate (SpecIPAM (k8sObj n))) m
                else m))"

definition GetMinimumAllocatableIPv4 :: "'w bceNode \<Rightarrow> int" where
  "GetMinimumAllocatableIPv4 n =
     (if nrsUseMode (k8sObj n) = ENIUseModePrimaryIP then 0
      else if MinAllocate (SpecIPAM (k8sObj n)) = 0 then IPAMPreAllocation
      else MinAllocate (SpecIPAM (k8sObj n)))"

definition GetMaximumBurstableAllocatableIPv4 :: "'w bceNode \<Rightarrow> int" where
  "GetMaximumBurstableAllocatableIPv4 n =
     (case quota n of
        None \<Rightarrow> 0
      | Some (maxENI, maxIP) \<Rightarrow>
          if nrsUseMode (k8sObj n) = ENIUseModePrimaryIP then 0
          else (case SpecENI (k8sObj n) of
                  None \<Rightarrow> 0
                | Some s \<Rightarrow> if BurstableMehrfachENI s > 0
                            then min (maxIP - 1) (GetMaximumAllocatableIPv4 n) else 0))"

section \<open>Reading the addresses of the interfaces\<close>

definition FinalizerENI :: string where "FinalizerENI = ''eni-syncer''"

definition forceUpdateEniToInuse :: "'w eni_env \<Rightarrow> string \<Rightarrow> 'w \<Rightarrow> go_error option \<times> 'w" where
  "forceUpdateEniToInuse E nm w =
     (case getENI E nm w of
        None \<Rightarrow> (None, w)
      | Some e \<Rightarrow>
          (let e1 = (if \<not> deleting e \<and> finalizers e = [] then e\<lparr>finalizers := [FinalizerENI]\<rparr> else e)
           in case updateENI E e1 w of
                (False, w1) \<Rightarrow> (Some (PlainError ''failed to update primary ENI finalizers''), w1)
              | (True, w1) \<Rightarrow>
                  (case updateStatusENI E (e1\<lparr>VPCStatus := VPCENIStatusInuse\<rparr>) w1 of
                     (False, w2) \<Rightarrow> (Some (PlainError ''failed to update primary ENI status''), w2)
                   | (True, w2) \<Rightarrow> (None, w2))))"

record 'w resync =
  rsNode :: "'w bceNode"
  rsPool :: AllocationMap
  rsIDs :: "string list"
  rsENIs :: int
  rsIPs :: int
  rsUsed :: int
  rsCreating :: bool

text \<open>An IPv4 primary address manages the interface and stays out of the pool, unless the mode gives
  primary addresses to pods; an IPv6 primary address is in the pool.\<close>

definition addAllocationIP :: "ENI \<Rightarrow> bool \<Rightarrow> PrivateIP \<Rightarrow> 'w resync \<Rightarrow> 'w resync" where
  "addAllocationIP e isIPv6 a r =
     (if \<not> isIPv6 \<and> eniUseMode e \<noteq> ENIUseModePrimaryIP \<and> ipPrimary a then r
      else r\<lparr>rsIPs := (if isIPv6 then rsIPs r else rsIPs r + 1),
             rsPool := (rsPool r)(PrivateIPAddress a \<mapsto> pool_entry (eniName e) a)\<rparr>)"

definition resyncOne :: "'w eni_env \<Rightarrow> ENI \<Rightarrow> 'w resync \<Rightarrow> go_error option \<times> 'w resync" where
  "resyncOne E e r =
     (let r1 = r\<lparr>rsIDs := rsIDs r @ [eniName e]\<rparr>;
          forced = (if VPCStatus e \<noteq> VPCENIStatusInuse \<and>
                       (eniType e = ENIForBBC \<or> eniUseMode e = ENIUseModePrimaryWithSecondaryIP)
                    then forceUpdateEniToInuse E (eniName e) (world (rsNode r1))
                    else (None, world (rsNode r1)))
      in case forced of
           (Some err, w) \<Rightarrow> (Some err, r1\<lparr>rsNode := (rsNode r1)\<lparr>world := w\<rparr>\<rparr>)
         | (None, w) \<Rightarrow>
             (let r2 = r1\<lparr>rsNode := (rsNode r1)\<lparr>world := w\<rparr>\<rparr> in
              if VPCStatus e \<noteq> VPCENIStatusInuse \<or> CCEStatus e = ENIMSGPCIERROR \<or> CCEStatus e = []
              then (None, r2\<lparr>rsCreating := True, rsNode := (rsNode r2)\<lparr>creatingEni :=
                      addCreatingENI (eniName e) (CreationTimestamp e) (creatingEni (rsNode r2))\<rparr>\<rparr>)
              else if CCEStatus e \<noteq> ENIStatusReadyOnNode then (None, r2)
              else (let r3 = r2\<lparr>rsENIs := rsENIs r2 + 1,
                                rsUsed := (if CCEStatus e = ENIStatusUsingInPod then rsUsed r2 + 1
                                           else rsUsed r2),
                                rsNode := (rsNode r2)\<lparr>creatingEni :=
                                  removeCreatingENI (eniName e) (creatingEni (rsNode r2))\<rparr>\<rparr>
                    in (None, fold (addAllocationIP e True) (IPv6Set e)
                                (fold (addAllocationIP e False) (IPv4Set e) r3)))))"

text \<open>When the node has as many addresses as it can have, what is still lent to its interfaces is
  given back.\<close>

definition cancelLoan :: "'w eni_env \<Rightarrow> ENI \<Rightarrow> 'w bceNode \<Rightarrow> go_error option \<times> 'w bceNode" where
  "cancelLoan E e n =
     (None, case GetSubnet (\<lambda>s. subnetLister E s (world n)) (eniSubnetID e) (bsm n) of
              (None, m) \<Rightarrow> n\<lparr>bsm := m\<rparr>
            | (Some b, m) \<Rightarrow>
                n\<lparr>bsm := (if GetBorrowedIPNum (eniID e) b > 0 then m(eniSubnetID e \<mapsto> Cancel (eniID e) b)
                         else m)\<rparr>)"

text \<open>The result, whether an interface is created in the background, and the node.
  \<open>waitForENISynced\<close>, which waits for the informer for at most ten seconds, comes before.\<close>

definition ResyncInterfacesAndIPs ::
    "'w eni_env \<Rightarrow> int \<Rightarrow> 'w bceNode \<Rightarrow> (err option \<times> AllocationMap) \<times> bool \<times> 'w bceNode" where
  "ResyncInterfacesAndIPs E now n =
     (let r = snd (ForeachInstanceWithAllEni E (resyncOne E) (world n)
                \<lparr>rsNode = n, rsPool = Map.empty, rsIDs = [], rsENIs = 0, rsIPs = 0, rsUsed = 0,
                 rsCreating = False\<rparr>);
          n1 = (rsNode r)\<lparr>creatingEni := cleanExpiredCreatingENI now (rsIDs r) (resyncInterval E * 3)
                                          (creatingEni (rsNode r))\<rparr>;
          primary = (nrsUseMode (k8sObj n1) = ENIUseModePrimaryIP);
          spawn = (primary \<and> rsENIs r = rsUsed r \<and> \<not> rsCreating r);
          ips = (if primary then 0 else rsIPs r);
          enis = (if primary then rsENIs r else 0);
          (pool, n2) = (if primary then (rsPool r, n1) else applyPendingIPMutations E (rsPool r) n1)
      in case quota n2 of
           None \<Rightarrow> ((Some ''unable to get ENI quota'', pool), spawn, n2)
         | Some _ \<Rightarrow>
             (let n3 = n2\<lparr>world := refreshCapacity E enis ips (world n2), availableIPsNumber := ips\<rparr>
              in ((None, pool), spawn,
                  if ips \<ge> GetMaximumAllocatableIPv4 n3
                  then snd (ForeachInstanceReadyOnNode E (cancelLoan E) (world n3) n3) else n3)))"

section \<open>Writing an interface\<close>

text \<open>\<open>updateENIWithPoll\<close>: one attempt at once and one every half second for fifteen seconds, so at
  most 31. The result is the version that was replaced.\<close>

definition updateAttempts :: nat where "updateAttempts = 31"

fun pollUpdate ::
    "'w eni_env \<Rightarrow> string \<Rightarrow> (ENI \<Rightarrow> ENI) \<Rightarrow> nat \<Rightarrow> 'w \<Rightarrow> (err + int) \<times> 'w" where
  "pollUpdate E nm refresh 0 w = (Inl ''timed out waiting for the condition'', w)"
| "pollUpdate E nm refresh (Suc k) w =
     (case getENI E nm w of
        None \<Rightarrow> (Inl ''get eni failed'', w)
      | Some e \<Rightarrow>
          (case updateENI E (refresh (e\<lparr>VPCVersion := VPCVersion e + 1\<rparr>)) w of
             (True, w1) \<Rightarrow> (Inr (VPCVersion e), w1)
           | (False, w1) \<Rightarrow>
               (case pollTick E w1 of
                  (True, w2) \<Rightarrow> pollUpdate E nm refresh k w2
                | (False, w2) \<Rightarrow> (Inl ''timed out waiting for the condition'', w2))))"

definition updateENIWithPoll ::
    "'w eni_env \<Rightarrow> string \<Rightarrow> (ENI \<Rightarrow> ENI) \<Rightarrow> 'w bceNode \<Rightarrow> err option \<times> 'w bceNode" where
  "updateENIWithPoll E nm refresh n =
     (if nm = [] then (Some ''eni is nil or eni.Name is empty'', n)
      else (case pollUpdate E nm refresh updateAttempts (world n) of
              (Inl e, w) \<Rightarrow> (Some ''update eni failed'', n\<lparr>world := w\<rparr>)
            | (Inr v, w) \<Rightarrow>
                (None, n\<lparr>world := w, expiredVPCVersion := (expiredVPCVersion n)(nm \<mapsto> v)\<rparr>)))"

section \<open>Releasing addresses\<close>

definition BatchAddOrDeleteIPLimit :: nat where "BatchAddOrDeleteIPLimit = 10"

definition addresses :: "PrivateIP list \<Rightarrow> string set" where
  "addresses as = set (map PrivateIPAddress as)"

definition withoutIPs :: "string list \<Rightarrow> ENI \<Rightarrow> ENI" where
  "withoutIPs ips e = e\<lparr>IPv4Set := filter (\<lambda>a. PrivateIPAddress a \<notin> set ips) (IPv4Set e),
                       IPv6Set := filter (\<lambda>a. PrivateIPAddress a \<notin> set ips) (IPv6Set e)\<rparr>"

definition updateENIWithReleasedIPs ::
    "'w eni_env \<Rightarrow> string \<Rightarrow> string list \<Rightarrow> 'w bceNode \<Rightarrow> err option \<times> 'w bceNode" where
  "updateENIWithReleasedIPs E iface ips n =
     (if ips = [] then (None, n)
      else (case getENI E iface (world n) of
              None \<Rightarrow> (Some ''fail to get eni'', n)
            | Some e \<Rightarrow> updateENIWithPoll E (eniName e) (withoutIPs ips) n))"

text \<open>The addresses of a batch that the cached interface has, by family; what is not an address or
  not on the interface is passed over.\<close>

definition batch_v4 :: "ENI \<Rightarrow> string list \<Rightarrow> string list" where
  "batch_v4 e = filter (\<lambda>s. case ParseIP s of None \<Rightarrow> False
     | Some a \<Rightarrow> to4 a \<noteq> None \<and> s \<in> addresses (IPv4Set e))"

definition batch_v6 :: "ENI \<Rightarrow> string list \<Rightarrow> string list" where
  "batch_v6 e = filter (\<lambda>s. case ParseIP s of None \<Rightarrow> False
     | Some a \<Rightarrow> to4 a = None \<and> s \<in> addresses (IPv6Set e))"

text \<open>The error that the address is not there counts as success.\<close>

definition releaseFailed :: "err option \<Rightarrow> err option" where
  "releaseFailed r = (case r of None \<Rightarrow> None
     | Some e \<Rightarrow> if contains_substring e ''PrivateIpInvalid'' then None else Some e)"

definition attemptBatchRelease ::
    "'w eni_env \<Rightarrow> ReleaseAction \<Rightarrow> string list \<Rightarrow> ENI \<Rightarrow> 'w \<Rightarrow> err option \<times> 'w" where
  "attemptBatchRelease E ra ips e w =
     (if length ips > BatchAddOrDeleteIPLimit then (Some ''batch size exceeds maximum limit'', w)
      else (case (if batch_v4 e ips \<noteq> [] then realRelease E ra (batch_v4 e ips) [] w else (None, w)) of
              (r4, w1) \<Rightarrow>
                (case releaseFailed r4 of
                   Some err \<Rightarrow> (Some err, w1)
                 | None \<Rightarrow>
                     (case (if batch_v6 e ips \<noteq> [] then realRelease E ra [] (batch_v6 e ips) w1
                            else (None, w1)) of
                        (r6, w2) \<Rightarrow> (releaseFailed r6, w2)))))"

text \<open>\<open>ReasonForError\<close> of \<open>pkg/bce/api/cloud/error.go\<close>: the first text found in the message, whatever
  its case (for ASCII).\<close>

definition lower_char :: "char \<Rightarrow> char" where
  "lower_char c = (let k = of_char c in if 65 \<le> k \<and> k \<le> (90::nat) then char_of (k + 32) else c)"

definition caseInsensitiveContains :: "string \<Rightarrow> string \<Rightarrow> bool" where
  "caseInsensitiveContains s sub = contains_substring (map lower_char s) (map lower_char sub)"

datatype ErrorReason = Unknown | ENIPrivateIPNotFound | ENINotFound | SubnetHasNoMoreIP | RateLimit
  | PrivateIPInUse | VmMemoryCanNotAttachMoreIp | BBCENIPrivateIPNotFound
  | BBCENIPrivateIPExceedLimit | RouteRuleRepeated | QuotaLimitExceeded | NoSuchObject
  | RouteRuleExceedQuota | IPReserveNotFound

definition reasonTable :: "(string \<times> ErrorReason) list" where
  "reasonTable =
     [(''PrivateIPNotExistException'', ENIPrivateIPNotFound), (''EniIdException'', ENINotFound),
      (''SubnetHasNoMoreIpException'', SubnetHasNoMoreIP), (''RateLimit'', RateLimit),
      (''NoSuchObject'', NoSuchObject), (''IpReserve.IpReserveIdInvalid'', IPReserveNotFound),
      (''is invalid'', BBCENIPrivateIPNotFound),
      (''VmMemoryCanNotAttachMoreIpException'', VmMemoryCanNotAttachMoreIp),
      (''ExceedLimitException'', BBCENIPrivateIPExceedLimit), (''BadRequest'', BBCENIPrivateIPExceedLimit),
      (''PrivateIpInUseException'', PrivateIPInUse), (''RouteRuleRepeated'', RouteRuleRepeated),
      (''QuotaLimitExceeded'', QuotaLimitExceeded), (''LimitExceeded'', QuotaLimitExceeded),
      (''ErrorReasonNoSuchObject'', NoSuchObject), (''RouteRuleExceedQuota'', RouteRuleExceedQuota)]"

definition ReasonForError :: "err \<Rightarrow> ErrorReason" where
  "ReasonForError e = (case List.find (\<lambda>(t, r). caseInsensitiveContains e t) reasonTable of
     None \<Rightarrow> Unknown | Some (t, r) \<Rightarrow> r)"

definition isDefinitiveError :: "err \<Rightarrow> bool" where
  "isDefinitiveError e \<longleftrightarrow>
     ReasonForError e \<in> {ENIPrivateIPNotFound, RateLimit, QuotaLimitExceeded, BBCENIPrivateIPNotFound,
                         BBCENIPrivateIPExceedLimit} \<or>
     contains_substring e ''invalid parameter''"

text \<open>After an unclear error the cloud is asked which addresses the interface still has.\<close>

definition verifyReleasedIPs ::
    "'w eni_env \<Rightarrow> string \<Rightarrow> string list \<Rightarrow> 'w \<Rightarrow> (string list \<times> string list) \<times> 'w" where
  "verifyReleasedIPs E iface ips w =
     (case statENI E iface w of
        (Inl e, w1) \<Rightarrow> (([], ips), w1)
      | (Inr has, w1) \<Rightarrow> ((filter (\<lambda>i. i \<notin> set has) ips, filter (\<lambda>i. i \<in> set has) ips), w1))"

text \<open>\<open>releaseBatchIPsWithRetry\<close>: the loop may run for ever, so its result is an option. \<open>ok\<close> are the
  addresses already known to be released.\<close>

partial_function (option) releaseLoop ::
    "'w eni_env \<Rightarrow> ReleaseAction \<Rightarrow> ENI \<Rightarrow> string list \<Rightarrow> string list \<Rightarrow> 'w
     \<Rightarrow> ((string list \<times> err option) \<times> 'w) option" where
  "releaseLoop E ra e ok remaining w =
     (if remaining = [] then Some ((ok, None), w)
      else
        (let batch = take BatchAddOrDeleteIPLimit remaining;
             later = drop BatchAddOrDeleteIPLimit remaining
         in case attemptBatchRelease E ra batch e w of
              (None, w1) \<Rightarrow> releaseLoop E ra e (ok @ batch) later w1
            | (Some err, w1) \<Rightarrow>
                (if isDefinitiveError err then Some ((ok, Some err), w1)
                 else (case verifyReleasedIPs E (raInterfaceID ra) batch w1 of
                         ((verified, pending), w2) \<Rightarrow>
                           (if pending @ later = [] then Some ((ok @ verified, None), w2)
                            else (case retryWait E w2 of
                                    (Some err', w3) \<Rightarrow> Some ((ok @ verified, Some err'), w3)
                                  | (None, w3) \<Rightarrow>
                                      releaseLoop E ra e (ok @ verified) (pending @ later) w3))))))"

definition releaseBatchIPsWithRetry ::
    "'w eni_env \<Rightarrow> ReleaseAction \<Rightarrow> string list \<Rightarrow> 'w \<Rightarrow> ((string list \<times> err option) \<times> 'w) option" where
  "releaseBatchIPsWithRetry E ra ips w =
     (case getENI E (raInterfaceID ra) w of
        None \<Rightarrow> Some (([], Some ''eni not found''), w)
      | Some e \<Rightarrow> releaseLoop E ra e [] ips w)"

definition ReleaseIPs ::
    "'w eni_env \<Rightarrow> ReleaseAction option \<Rightarrow> 'w bceNode \<Rightarrow> ((string list \<times> err option) \<times> 'w bceNode) option" where
  "ReleaseIPs E ra n =
     (case ra of
        None \<Rightarrow> Some (([], None), n)
      | Some r \<Rightarrow>
          if IPsToRelease r = [] then Some (([], None), n)
          else (case releaseBatchIPsWithRetry E r (IPsToRelease r) (world n) of
                  None \<Rightarrow> None
                | Some ((ok, err), w) \<Rightarrow>
                    (let n1 = n\<lparr>world := w\<rparr> in
                     if ok = [] then Some ((ok, err), n1)
                     else (case updateENIWithReleasedIPs E (raInterfaceID r) ok n1 of
                             (Some e, n2) \<Rightarrow> Some (([], Some e), n2)
                           | (None, n2) \<Rightarrow> Some ((ok, err), rememberPendingReleasedIPs ok n2)))))"

section \<open>Choosing addresses to release\<close>

text \<open>An address can go when it is not a primary address, belongs to the subnet of its interface and
  is not in use.\<close>

definition freeOnENI :: "AllocationMap \<Rightarrow> ENI \<Rightarrow> PrivateIP \<Rightarrow> bool" where
  "freeOnENI us e a \<longleftrightarrow> \<not> ipPrimary a \<and> ipSubnetID a = eniSubnetID e \<and> us (PrivateIPAddress a) = None"

definition freeIPs :: "AllocationMap \<Rightarrow> ENI \<Rightarrow> PrivateIP list \<Rightarrow> string list" where
  "freeIPs us e as = map PrivateIPAddress (filter (freeOnENI us e) as)"

text \<open>How many addresses of each family go: with both families the larger set is reduced first, then
  the rest of the excess is shared.\<close>

definition freeCounts ::
    "bool \<Rightarrow> bool \<Rightarrow> int \<Rightarrow> nat \<Rightarrow> nat \<Rightarrow> nat \<Rightarrow> nat \<Rightarrow> int \<times> int" where
  "freeCounts v4 v6 excess total4 total6 free4 free6 =
     (if v6 \<and> v4
      then (let diff = int total6 - int total4;
                d6 = (if diff > 0 then diff else 0);
                d4 = (if diff > 0 then 0 else if diff < 0 then - diff else 0);
                rest = excess - d6 - d4;
                share = (if rest > 1 then (if rest mod 2 = 1 then rest - 1 else rest) div 2 else rest)
            in (min (int free4) (d4 + share), min (int free6) (d6 + share)))
      else if v6 then (0, min (int free6) excess)
      else if v4 then (min (int free4) excess, 0)
      else (0, 0))"

definition prepareReleaseOne ::
    "'w eni_env \<Rightarrow> AllocationMap \<Rightarrow> int \<Rightarrow> ENI \<Rightarrow> ReleaseAction \<Rightarrow> go_error option \<times> ReleaseAction" where
  "prepareReleaseOne E us excess e r =
     (None,
      if IPsToRelease r \<noteq> [] \<or> eniUseMode e = ENIUseModePrimaryIP then r
      else (let f4 = freeIPs us e (IPv4Set e);
                f6 = freeIPs us e (IPv6Set e);
                (c4, c6) = freeCounts (EnableIPv4 E) (EnableIPv6 E) excess
                  (length (IPv4Set e)) (length (IPv6Set e)) (length f4) (length f6)
            in if c4 \<le> 0 \<and> c6 \<le> 0 then r
               else \<lparr>raInterfaceID = eniID e, raPoolID = eniSubnetID e,
                     IPsToRelease = (if c4 > 0 \<and> f4 \<noteq> [] then take (nat c4) f4 else []) @
                                    (if c6 > 0 \<and> f6 \<noteq> [] then take (nat c6) f6 else [])\<rparr>))"

definition PrepareIPRelease :: "'w eni_env \<Rightarrow> int \<Rightarrow> 'w bceNode \<Rightarrow> ReleaseAction" where
  "PrepareIPRelease E excess n =
     snd (ForeachInstanceReadyOnNode E (prepareReleaseOne E (used n) excess) (world n)
            \<lparr>raInterfaceID = [], raPoolID = [], IPsToRelease = []\<rparr>)"

section \<open>Allocating addresses\<close>

definition appenUniqueElement :: "PrivateIP list \<Rightarrow> PrivateIP list \<Rightarrow> PrivateIP list" where
  "appenUniqueElement arr toadd =
     fold (\<lambda>a arr. if PrivateIPAddress a \<in> addresses arr then arr else arr @ [a]) toadd arr"

text \<open>How many addresses of each family are asked for: with both families the smaller set is filled up
  first.\<close>

definition allocateCounts :: "bool \<Rightarrow> bool \<Rightarrow> int \<Rightarrow> AllocationAction \<Rightarrow> nat \<Rightarrow> nat \<Rightarrow> int \<times> int" where
  "allocateCounts v4 v6 maxIP a total4 total6 =
     (let n4 = (if v4 then min (AvailableForAllocationIPv4 a) (maxIP - int total4) else 0);
          n6 = (if v6 then min (AvailableForAllocationIPv6 a) (maxIP - int total6) else 0);
          diff = int total6 - int total4
      in if v6 \<and> v4
         then (if diff > 0 then (min n4 diff, 0) else if diff < 0 then (0, min n6 (- diff)) else (n4, n6))
         else (n4, n6))"

definition appendAllocatedIPError :: "int \<Rightarrow> string \<Rightarrow> 'w bceNode \<Rightarrow> 'w bceNode" where
  "appendAllocatedIPError now e n = n\<lparr>allocErrors := (allocErrors n)(e \<mapsto>
     \<lparr>scCode = ''failed'', scMessage = ''allocate ips from eni failed'', scTime = now\<rparr>)\<rparr>"

definition borrowDone :: "'w eni_env \<Rightarrow> AllocationAction \<Rightarrow> nat \<Rightarrow> 'w bceNode \<Rightarrow> 'w bceNode" where
  "borrowDone E a k n =
     (case GetSubnet (\<lambda>s. subnetLister E s (world n)) (aaPoolID a) (bsm n) of
        (None, m) \<Rightarrow> n\<lparr>bsm := m\<rparr>
      | (Some b, m) \<Rightarrow> n\<lparr>bsm := m(aaPoolID a \<mapsto> Done (aaInterfaceID a) (int k) b)\<rparr>)"

text \<open>The batches. An error ends the loop only while nothing has been allocated; later the batch is
  given up and the loop goes on.\<close>

definition batchOf :: "int \<Rightarrow> int" where
  "batchOf k = min k (int BatchAddOrDeleteIPLimit)"

function allocateLoop ::
    "'w eni_env \<Rightarrow> int \<Rightarrow> AllocationAction \<Rightarrow> int \<Rightarrow> int \<Rightarrow> bool \<Rightarrow> PrivateIP list \<Rightarrow> PrivateIP list
     \<Rightarrow> 'w bceNode \<Rightarrow> (err + PrivateIP list \<times> PrivateIP list) \<times> 'w bceNode" where
  "allocateLoop E now a n4 n6 partial s4 s6 n =
     (if n4 > 0 \<or> n6 > 0
      then (case realAllocate E a (batchOf n4) (batchOf n6) (world n) of
              ((r4, r6, Some err), w) \<Rightarrow>
                (let n1 = appendAllocatedIPError now (aaInterfaceID a) (n\<lparr>world := w\<rparr>) in
                 if \<not> partial then (Inl err, n1)
                 else allocateLoop E now a (n4 - batchOf n4) (n6 - batchOf n6) partial s4 s6 n1)
            | ((r4, r6, None), w) \<Rightarrow>
                allocateLoop E now a (n4 - batchOf n4) (n6 - batchOf n6) True
                  (appenUniqueElement s4 r4) (appenUniqueElement s6 r6)
                  (borrowDone E a (length r4) (n\<lparr>world := w\<rparr>)))
      else (Inr (s4, s6), n))"
  by pat_completeness auto
termination
  by (relation "measure (\<lambda>(E, now, a, n4, n6, _). nat n4 + nat n6)")
    (auto simp: batchOf_def BatchAddOrDeleteIPLimit_def min_def)

declare allocateLoop.simps [simp del]

text \<open>\<open>allocateIPsSecondaryENIMode\<close> of \<open>node_bcc.go\<close>. \<open>batchAdd\<close> asks the cloud for a number of addresses
  of an interface (IPv6 when True); \<open>handleError\<close> is \<open>HandlerVPCError\<close>, which returns the error it is
  given.\<close>

definition newIPs :: "AllocationAction \<Rightarrow> string list \<Rightarrow> PrivateIP list" where
  "newIPs a = map (\<lambda>s. \<lparr>PrivateIPAddress = s, ipPrimary = False, ipSubnetID = aaPoolID a\<rparr>)"

definition bcc_allocateIPs ::
    "(string \<Rightarrow> int \<Rightarrow> bool \<Rightarrow> 'w \<Rightarrow> (err + string list) \<times> 'w) \<Rightarrow> (err \<Rightarrow> string \<Rightarrow> 'w \<Rightarrow> 'w)
     \<Rightarrow> AllocationAction \<Rightarrow> int \<Rightarrow> int \<Rightarrow> 'w \<Rightarrow> (PrivateIP list \<times> PrivateIP list \<times> err option) \<times> 'w" where
  "bcc_allocateIPs batchAdd handleError a n4 n6 w =
     (case (if n4 > 0 then batchAdd (aaInterfaceID a) n4 False w else (Inr [], w)) of
        (Inl e, w1) \<Rightarrow> (([], [], Some (''allocate ip to eni failed: '' @ e)), handleError e (aaPoolID a) w1)
      | (Inr ips4, w1) \<Rightarrow>
          (case (if n6 > 0 then batchAdd (aaInterfaceID a) n6 True w1 else (Inr [], w1)) of
             (Inl e, w2) \<Rightarrow>
               ((newIPs a ips4, [], Some (''allocate ipv6 to eni failed: '' @ e)), handleError e (aaPoolID a) w2)
           | (Inr ips6, w2) \<Rightarrow> ((newIPs a ips4, newIPs a ips6, None), w2)))"

text \<open>\<open>ElectENIIPv6PrimaryIP\<close> of \<open>pkg/bce/bcesync/eni.go\<close>: the search stops at the address of the
  annotation or at the first primary address, and only the latter counts as found.\<close>

fun searchPrimary :: "string \<Rightarrow> PrivateIP list \<Rightarrow> bool \<times> PrivateIP list" where
  "searchPrimary old [] = (False, [])"
| "searchPrimary old (a # as) =
     (if PrivateIPAddress a = old then (False, a\<lparr>ipPrimary := True\<rparr> # as)
      else if ipPrimary a then (True, a # as)
      else (case searchPrimary old as of (b, as') \<Rightarrow> (b, a # as')))"

definition ElectENIIPv6PrimaryIP :: "ENI \<Rightarrow> ENI" where
  "ElectENIIPv6PrimaryIP e =
     (if IPv6Set e = [] then e
      else (case searchPrimary (IPv6PrimaryNote e) (IPv6Set e) of
              (True, as) \<Rightarrow> e\<lparr>IPv6Set := as\<rparr>
            | (False, as) \<Rightarrow> e\<lparr>IPv6Set := (hd as)\<lparr>ipPrimary := True\<rparr> # tl as,
                               IPv6PrimaryNote := PrivateIPAddress (hd as)\<rparr>))"

definition recordAllocated :: "PrivateIP list \<Rightarrow> PrivateIP list \<Rightarrow> ENI \<Rightarrow> ENI" where
  "recordAllocated s4 s6 e = ElectENIIPv6PrimaryIP
     (e\<lparr>IPv4Set := appenUniqueElement (IPv4Set e) s4, IPv6Set := appenUniqueElement (IPv6Set e) s6\<rparr>)"

definition AllocateIPs ::
    "'w eni_env \<Rightarrow> int \<Rightarrow> AllocationAction \<Rightarrow> 'w bceNode \<Rightarrow> err option \<times> 'w bceNode" where
  "AllocateIPs E now a n =
     (case quota n of
        None \<Rightarrow> (Some ''eniQuota is nil, please check the node status'', n)
      | Some (maxENI, maxIP) \<Rightarrow>
          if \<not> IsSecondaryIPMode (nrsUseMode (k8sObj n)) then (None, n)
          else (case getENI E (aaInterfaceID a) (world n) of
                  None \<Rightarrow> (Some ''get eni failed'', n)
                | Some e \<Rightarrow>
                    (case allocateCounts (EnableIPv4 E) (EnableIPv6 E) maxIP a
                            (length (IPv4Set e)) (length (IPv6Set e)) of
                       (n4, n6) \<Rightarrow>
                         (case allocateLoop E now a n4 n6 False [] [] n of
                            (Inl err, n1) \<Rightarrow> (Some err, n1)
                          | (Inr (s4, s6), n1) \<Rightarrow>
                              if s4 = [] \<and> s6 = [] then (Some ''no ip has been allocated on eni'', n1)
                              else (case updateENIWithPoll E (eniName e) (recordAllocated s4 s6) n1 of
                                      (Some err, n2) \<Rightarrow> (Some err, n2)
                                    | (None, n2) \<Rightarrow>
                                        (None, rememberPendingAllocatedIPs (eniName e) s6
                                                 (rememberPendingAllocatedIPs (eniName e) s4 n2)))))))"

section \<open>Creating interfaces\<close>

text \<open>After an error that a retry cannot mend no interface is created for five minutes.\<close>

definition createInterfaceCooldownPeriod :: int where
  "createInterfaceCooldownPeriod = 5 * 60 * second"

definition isInCooldownPeriod :: "int \<Rightarrow> 'w bceNode \<Rightarrow> (int \<times> err) option" where
  "isInCooldownPeriod now n =
     (case lastCreateInterfaceFailure n of
        None \<Rightarrow> None
      | Some (t, e) \<Rightarrow>
          if now - t < createInterfaceCooldownPeriod then Some (createInterfaceCooldownPeriod - (now - t), e)
          else None)"

definition clearCooldown :: "'w bceNode \<Rightarrow> 'w bceNode" where
  "clearCooldown n = n\<lparr>lastCreateInterfaceFailure := None\<rparr>"

definition enterCooldown :: "int \<Rightarrow> err \<Rightarrow> 'w bceNode \<Rightarrow> 'w bceNode" where
  "enterCooldown now e n = n\<lparr>lastCreateInterfaceFailure := Some (now, e)\<rparr>"

definition errNoAvailableSubnet :: string where
  "errNoAvailableSubnet = ''no available subnet for ENI creation''"

definition isNonRetryableError :: "err \<Rightarrow> string \<Rightarrow> bool" where
  "isNonRetryableError e msg \<longleftrightarrow> ReasonForError e = SubnetHasNoMoreIP \<or> msg = errNoAvailableSubnet"

definition collectReady :: "ENI \<Rightarrow> string list \<Rightarrow> go_error option \<times> string list" where
  "collectReady e ids = (None, ids @ [eniName e])"

text \<open>The result: the number of interfaces, a message, an error, and how many additional interfaces are
  created in the background (see \<open>createAdditional\<close>). The call of \<open>realCreate\<close> counts as one
  interface being created while it runs.\<close>

definition CreateInterface ::
    "'w eni_env \<Rightarrow> int \<Rightarrow> AllocationAction option \<Rightarrow> 'w bceNode
     \<Rightarrow> (int \<times> string \<times> err option) \<times> int \<times> 'w bceNode" where
  "CreateInterface E now alloc n =
     (case isInCooldownPeriod now n of
        Some _ \<Rightarrow> ((0, [], Some ''in cooldown period after non-retryable error''), 0, n)
      | None \<Rightarrow>
          (let n1 = clearCooldown n in
           case quota n1 of
             None \<Rightarrow> ((0, [], Some ''eni quota is nil, please retry later''), 0, n1)
           | Some (maxENI, maxIP) \<Rightarrow>
               (let ids = snd (ForeachInstanceReadyOnNode E collectReady (world n1) []);
                    n2 = n1\<lparr>creatingEni := cleanExpiredCreatingENI now ids (resyncInterval E * 3)
                                             (creatingEni n1)\<rparr>;
                    ((k, msg, err), n3) =
                      (if ids = [] then (case forceGet E (world n2) of (r, w) \<Rightarrow> (r, n2\<lparr>world := w\<rparr>))
                       else ((0, [], None), n2))
                in if k > 0 then ((k, msg, err), 0, n3)
                   else if hasCreatingENI (creatingEni n3) then ((0, [], None), 0, n3)
                   else (case refreshSubnets E (world n3) of
                           (Some e, w) \<Rightarrow> ((0, ''refresh available subnet error'', Some e), 0, n3\<lparr>world := w\<rparr>)
                         | (None, w) \<Rightarrow>
                             (case realCreate E alloc w of
                                ((i, m, Some e), w1) \<Rightarrow>
                                  (let n4 = n3\<lparr>world := w1\<rparr> in
                                   ((0, m, Some e), 0,
                                    if isNonRetryableError e m then enterCooldown now e n4 else n4))
                              | ((i, m, None), w1) \<Rightarrow>
                                  (let more = max 0 (min maxENI (PreAllocateENI (k8sObj n3)) - int (length ids) - 1)
                                   in ((i + more, m, None), more, n3\<lparr>world := w1\<rparr>)))))))"

text \<open>One background creation: at most \<open>k\<close> attempts, at the times of \<open>ts\<close>.\<close>

fun createAdditional ::
    "'w eni_env \<Rightarrow> (nat \<Rightarrow> int) \<Rightarrow> AllocationAction option \<Rightarrow> nat \<Rightarrow> 'w bceNode \<Rightarrow> 'w bceNode" where
  "createAdditional E ts alloc 0 n = n"
| "createAdditional E ts alloc (Suc k) n =
     (case realCreate E alloc (world n) of
        ((i, m, None), w) \<Rightarrow> n\<lparr>world := w\<rparr>
      | ((i, m, Some e), w) \<Rightarrow>
          (if isNonRetryableError e m then enterCooldown (ts k) e (n\<lparr>world := w\<rparr>)
           else createAdditional E ts alloc k (n\<lparr>world := w\<rparr>)))"

section \<open>Which interface can take more addresses\<close>

text \<open>\<open>__prepareIPAllocation\<close> of \<open>node_bcc.go\<close>. The state of the iteration is the action and the
  number of interfaces seen.\<close>

definition availableCounts :: "bool \<Rightarrow> bool \<Rightarrow> int \<Rightarrow> nat \<Rightarrow> nat \<Rightarrow> int \<times> int" where
  "availableCounts v4 v6 limit total4 total6 =
     (if v4 \<and> v6
      then (let diff = int total6 - int total4 in
            if diff > 0 then (min (limit - int total4) diff, 0)
            else if diff < 0 then (0, min (limit - int total6) (- diff))
            else (max (limit - int total4) 0, max (limit - int total6) 0))
      else if v4 then (max (limit - int total4) 0, 0)
      else if v6 then (0, max (limit - int total6) 0)
      else (0, 0))"

definition prepareAllocationOne ::
    "'w eni_env \<Rightarrow> bool \<Rightarrow> int \<Rightarrow> ENI \<Rightarrow> AllocationAction \<times> int \<times> 'w bceNode
     \<Rightarrow> go_error option \<times> AllocationAction \<times> int \<times> 'w bceNode" where
  "prepareAllocationOne E checkSubnet limit e = (\<lambda>(a, seen, n).
     let s = (a, seen + 1, n) in
     if (AvailableForAllocationIPv4 a > 0 \<or> AvailableForAllocationIPv6 a > 0) \<and>
        aaPoolID a \<noteq> [] \<and> aaInterfaceID a \<noteq> [] then (None, s)
     else if eniUseMode e = ENIUseModePrimaryIP then (None, s)
     else if CCEStatus e \<noteq> ENIStatusReadyOnNode then (Some (PlainError ''can not prepare ip allocation''), s)
     else (case availableCounts (EnableIPv4 E) (EnableIPv6 E) limit (length (IPv4Set e)) (length (IPv6Set e)) of
             (a4, a6) \<Rightarrow>
               if a4 = 0 \<and> a6 = 0 then (None, s)
               else if \<not> checkSubnet
               then (None, a\<lparr>aaInterfaceID := eniID e, aaPoolID := eniSubnetID e,
                            AvailableForAllocationIPv4 := a4, AvailableForAllocationIPv6 := a6\<rparr>, seen + 1, n)
               else (case GetSubnet (\<lambda>x. subnetLister E x (world n)) (eniSubnetID e) (bsm n) of
                       (None, m) \<Rightarrow> (Some (PlainError ''get subnet by id failed''), a, seen + 1, n\<lparr>bsm := m\<rparr>)
                     | (Some b, m) \<Rightarrow>
                         (None, a\<lparr>AvailableForAllocationIPv4 :=
                                    (if GetBorrowedIPNum (eniID e) b > 0
                                     then min (GetBorrowedIPNum (eniID e) b) a4
                                     else min (BorrowedAvailableIPsCount b) a4),
                                 aaInterfaceID := eniID e, aaPoolID := SubnetName (subnet b),
                                 AvailableForAllocationIPv6 := a6\<rparr>, seen + 1, n\<lparr>bsm := m\<rparr>))))"

definition bcc_prepareIPAllocation ::
    "'w eni_env \<Rightarrow> bool \<Rightarrow> 'w bceNode \<Rightarrow> (err option \<times> AllocationAction) \<times> 'w bceNode" where
  "bcc_prepareIPAllocation E checkSubnet n =
     (let a0 = \<lparr>aaInterfaceID = [], aaPoolID = [], AvailableForAllocationIPv4 = 0,
                AvailableForAllocationIPv6 = 0, MaxIPsToAllocate = 0, AvailableInterfaces = 0\<rparr>
      in case quota n of
           None \<Rightarrow> ((Some ''eniQuota is nil, please retry later'', a0), n)
         | Some (maxENI, maxIP) \<Rightarrow>
             (case ForeachInstanceReadyOnNode E (prepareAllocationOne E checkSubnet maxIP) (world n) (a0, 0, n) of
                (err, a, seen, n1) \<Rightarrow>
                  ((map_option (\<lambda>_. ''can not prepare ip allocation'') err,
                    a\<lparr>AvailableInterfaces := max (maxENI - seen) 0\<rparr>), n1)))"

section \<open>Lending addresses to a new interface\<close>

text \<open>\<open>tryBorrowIPs\<close>: a burstable node reserves all the addresses a new interface can have. The result
  is the number to write in the object of the interface.\<close>

definition tryBorrowIPs :: "'w eni_env \<Rightarrow> ENI \<Rightarrow> 'w bceNode \<Rightarrow> (err + int) \<times> 'w bceNode" where
  "tryBorrowIPs E e n =
     (if (case SpecENI (k8sObj n) of None \<Rightarrow> 0 | Some s \<Rightarrow> BurstableMehrfachENI s) \<le> 0 then (Inr 0, n)
      else (case GetSubnet (\<lambda>x. subnetLister E x (world n)) (eniSubnetID e) (bsm n) of
              (None, m) \<Rightarrow> (Inl ''Failed to get borrow subnet'', n\<lparr>bsm := m\<rparr>)
            | (Some b, m) \<Rightarrow>
                (case quota n of
                   None \<Rightarrow> (Inl ''unable to get ENI quota'', n\<lparr>bsm := m\<rparr>)
                 | Some (maxENI, maxIP) \<Rightarrow>
                     (let most = GetMaximumAllocatableIPv4 n - availableIPsNumber n;
                          quotaIPs = maxIP - int (length (IPv4Set e));
                          want = (if most < quotaIPs then most + 1 else quotaIPs);
                          (got, b1) = Borrow (eniID e) want b
                      in if got \<noteq> want
                         then (Inl ''Failed to borrow ENI ips'', n\<lparr>bsm := m(eniSubnetID e \<mapsto> Cancel (eniName e) b1)\<rparr>)
                         else (Inr got, n\<lparr>bsm := m(eniSubnetID e \<mapsto> b1)\<rparr>)))))"

end
