(* ===== verification/EniOverlay.thy ===== *)
theory EniOverlay
  imports EniNode
begin

text \<open>
  What the cloud side of a node shows as its pool (\<open>pkg/bce/vpceni/node_super.go\<close>): the addresses of
  the interfaces in the informer's cache, corrected by the recent changes the cache may not show
  yet. The correction does not depend on the order in which the map of changes is visited; a
  released address stays out of the pool, an allocated one stays in it, until the cache agrees.
\<close>

section \<open>The correction\<close>

definition confirmed :: "AllocationMap \<Rightarrow> pendingIPMutation \<Rightarrow> string \<Rightarrow> bool" where
  "confirmed pool m ip =
     (if present m
      then (case pool ip of None \<Rightarrow> False
            | Some cur \<Rightarrow> Resource cur = Resource (ipInfo m) \<and> SubnetID cur = SubnetID (ipInfo m))
      else pool ip = None)"

definition overlay :: "AllocationMap \<Rightarrow> (string \<rightharpoonup> pendingIPMutation) \<Rightarrow> AllocationMap" where
  "overlay pool pend ip =
     (case pend ip of
        None \<Rightarrow> pool ip
      | Some m \<Rightarrow> if confirmed pool m ip then pool ip else if present m then Some (ipInfo m) else None)"

definition unconfirmed ::
    "AllocationMap \<Rightarrow> (string \<rightharpoonup> pendingIPMutation) \<Rightarrow> (string \<rightharpoonup> pendingIPMutation)" where
  "unconfirmed pool pend ip =
     (case pend ip of None \<Rightarrow> None | Some m \<Rightarrow> if confirmed pool m ip then None else Some m)"

lemma applyPendingOne_eq:
  "applyPendingOne ip (pool, pend) = (pool(ip := overlay pool pend ip), pend(ip := unconfirmed pool pend ip))"
  by (simp add: applyPendingOne_def overlay_def unconfirmed_def confirmed_def fun_eq_iff
      split: option.split)

lemma fold_applyPendingOne:
  assumes "distinct ks"
  shows "fold applyPendingOne ks (pool, pend) =
    ((\<lambda>ip. if ip \<in> set ks then overlay pool pend ip else pool ip),
     (\<lambda>ip. if ip \<in> set ks then unconfirmed pool pend ip else pend ip))"
  using assms
proof (induction ks arbitrary: pool pend)
  case Nil
  then show ?case by simp
next
  case (Cons k ks)
  have "overlay (pool(k := x)) (pend(k := y)) ip = overlay pool pend ip"
    "unconfirmed (pool(k := x)) (pend(k := y)) ip = unconfirmed pool pend ip" if "ip \<in> set ks" for x y ip
    using that Cons.prems by (auto simp: overlay_def unconfirmed_def confirmed_def split: option.split)
  with Cons show ?case by (auto simp: applyPendingOne_eq fun_eq_iff)
qed

lemma applyPending_eq:
  assumes "iter_order (pendOrder E (pendingIPMutations n)) (pendingIPMutations n)"
  shows "applyPendingIPMutations E pool n =
    (overlay pool (pendingIPMutations n), n\<lparr>pendingIPMutations := unconfirmed pool (pendingIPMutations n)\<rparr>)"
proof -
  let ?m = "pendingIPMutations n"
  have d: "distinct (pendOrder E ?m)" "set (pendOrder E ?m) = dom ?m" using assms by auto
  have "fold applyPendingOne (pendOrder E ?m) (pool, ?m) = (overlay pool ?m, unconfirmed pool ?m)"
    unfolding fold_applyPendingOne [OF d(1)] d(2)
    by (auto simp: fun_eq_iff dom_def overlay_def unconfirmed_def)
  then show ?thesis by (simp add: applyPendingIPMutations_def)
qed

section \<open>What is remembered\<close>

lemma remembered_released:
  "pendingIPMutations (rememberPendingReleasedIPs ips n) ip =
     (if ip \<in> set ips \<and> ip \<noteq> [] then Some \<lparr>present = False, ipInfo = \<lparr>Owner = [], SubnetID = [],
        IsPrimary = False, Resource = []\<rparr>\<rparr> else pendingIPMutations n ip)"
proof -
  have "fold (\<lambda>ip m. if ip = [] then m else m(ip \<mapsto> v)) ips m ip =
      (if ip \<in> set ips \<and> ip \<noteq> [] then Some v else m ip)" for v :: pendingIPMutation and m
    by (induction ips arbitrary: m) auto
  then show ?thesis by (simp add: rememberPendingReleasedIPs_def)
qed

lemma remembered_allocated:
  "pendingIPMutations (rememberPendingAllocatedIPs res as n) ip =
     (if ip \<in> addresses as \<and> ip \<noteq> []
      then Some \<lparr>present = True, ipInfo = pool_entry res (last (filter (\<lambda>a. PrivateIPAddress a = ip) as))\<rparr>
      else pendingIPMutations n ip)"
proof -
  have "fold (\<lambda>a m. if PrivateIPAddress a = [] then m
          else m(PrivateIPAddress a \<mapsto> \<lparr>present = True, ipInfo = pool_entry res a\<rparr>)) as m ip =
      (if ip \<in> addresses as \<and> ip \<noteq> []
       then Some \<lparr>present = True, ipInfo = pool_entry res (last (filter (\<lambda>a. PrivateIPAddress a = ip) as))\<rparr>
       else m ip)" for m
  proof (induction as arbitrary: m)
    case Nil
    then show ?case by (simp add: addresses_def)
  next
    case (Cons a as)
    show ?case
    proof (cases "ip \<in> addresses as")
      case True
      then have "filter (\<lambda>a. PrivateIPAddress a = ip) as \<noteq> []"
        by (auto simp: addresses_def filter_empty_conv)
      with True show ?thesis by (simp add: Cons.IH addresses_def)
    next
      case False
      then have "filter (\<lambda>a. PrivateIPAddress a = ip) as = []"
        by (auto simp: addresses_def filter_empty_conv)
      with False show ?thesis by (auto simp: Cons.IH addresses_def)
    qed
  qed
  then show ?thesis by (simp add: rememberPendingAllocatedIPs_def)
qed

lemma remember_fields [simp]:
  "world (rememberPendingReleasedIPs ips n) = world n" "k8sObj (rememberPendingReleasedIPs ips n) = k8sObj n"
  "quota (rememberPendingReleasedIPs ips n) = quota n"
  "world (rememberPendingAllocatedIPs res as n) = world n"
  "k8sObj (rememberPendingAllocatedIPs res as n) = k8sObj n"
  "quota (rememberPendingAllocatedIPs res as n) = quota n"
  by (simp_all add: rememberPendingReleasedIPs_def rememberPendingAllocatedIPs_def)

section \<open>A resynchronisation\<close>

text \<open>The addresses the informer's cache shows: \<open>shown\<close> is the pool \<open>ResyncInterfacesAndIPs\<close> collects
  before the correction.\<close>

definition resyncCollect :: "'w eni_env \<Rightarrow> 'w bceNode \<Rightarrow> 'w resync" where
  "resyncCollect E n = snd (ForeachInstanceWithAllEni E (resyncOne E) (world n)
     \<lparr>rsNode = n, rsPool = Map.empty, rsIDs = [], rsENIs = 0, rsIPs = 0, rsUsed = 0, rsCreating = False\<rparr>)"

abbreviation shown :: "'w eni_env \<Rightarrow> 'w bceNode \<Rightarrow> AllocationMap" where
  "shown E n \<equiv> rsPool (resyncCollect E n)"

lemma iterate_invariant:
  assumes "P s" "\<And>x s. x \<in> set xs \<Longrightarrow> P s \<Longrightarrow> P (snd (f x s))"
  shows "P (snd (iterate f xs s))"
  using assms
proof (induction xs arbitrary: s)
  case Nil
  then show ?case by simp
next
  case (Cons x xs)
  have "P (snd (f x s))" using Cons.prems by simp
  with Cons.IH [of "snd (f x s)"] Cons.prems(2) show ?case
    by (auto split: prod.split option.split)
qed

text \<open>What a resynchronisation leaves alone.\<close>

definition same_pending :: "'w bceNode \<Rightarrow> 'w bceNode \<Rightarrow> bool" where
  "same_pending n n' \<longleftrightarrow> pendingIPMutations n' = pendingIPMutations n \<and> k8sObj n' = k8sObj n \<and>
     quota n' = quota n"

lemma same_pending_refl [simp]: "same_pending n n"
  by (simp add: same_pending_def)

lemma same_pending_trans: "same_pending a b \<Longrightarrow> same_pending b c \<Longrightarrow> same_pending a c"
  by (simp add: same_pending_def)

lemma addAllocationIP_node [simp]: "rsNode (addAllocationIP e b a r) = rsNode r"
  by (simp add: addAllocationIP_def)

lemma fold_addAllocationIP_node [simp]: "rsNode (fold (addAllocationIP e b) as r) = rsNode r"
  by (induction as arbitrary: r) simp_all

lemma resyncOne_same: "same_pending (rsNode r) (rsNode (snd (resyncOne E e r)))"
  by (simp add: resyncOne_def Let_def same_pending_def split: option.split prod.split)

lemma resyncCollect_same: "same_pending n (rsNode (resyncCollect E n))"
proof -
  have "same_pending n (rsNode (snd (iterate (resyncOne E) xs r)))" if "same_pending n (rsNode r)" for xs r
    by (rule iterate_invariant [where P = "\<lambda>r. same_pending n (rsNode r)", OF that])
      (rule same_pending_trans [OF _ resyncOne_same])
  then show ?thesis
    by (simp add: resyncCollect_def ForeachInstanceWithAllEni_def same_pending_def split: sum.split)
qed

lemma cancelLoan_same: "same_pending n (snd (cancelLoan E e n))"
  by (simp add: cancelLoan_def same_pending_def split: option.split prod.split)

lemma cancelLoans_same: "same_pending n (snd (ForeachInstanceReadyOnNode E (cancelLoan E) w n))"
proof -
  have "same_pending n (snd (iterate (cancelLoan E) xs n))" for xs
    by (rule iterate_invariant [where P = "same_pending n"])
      (simp, rule same_pending_trans [OF _ cancelLoan_same])
  then show ?thesis
    by (simp add: ForeachInstanceReadyOnNode_def same_pending_def split: sum.split)
qed

text \<open>In a secondary address mode the pool is the corrected one and only what the cache does not show
  yet is still remembered.\<close>

lemma resync_eq:
  assumes "nrsUseMode (k8sObj n) \<noteq> ENIUseModePrimaryIP"
    "iter_order (pendOrder E (pendingIPMutations n)) (pendingIPMutations n)"
    "ResyncInterfacesAndIPs E now n = ((err, pool), spawn, n')"
  shows "pool = overlay (shown E n) (pendingIPMutations n)"
    "pendingIPMutations n' = unconfirmed (shown E n) (pendingIPMutations n)"
    "k8sObj n' = k8sObj n" "quota n' = quota n" "\<not> spawn"
proof -
  define r where "r = resyncCollect E n"
  define n1 where "n1 = (rsNode r)\<lparr>creatingEni := cleanExpiredCreatingENI now (rsIDs r)
      (resyncInterval E * 3) (creatingEni (rsNode r))\<rparr>"
  have n1: "pendingIPMutations n1 = pendingIPMutations n" "k8sObj n1 = k8sObj n" "quota n1 = quota n"
    using resyncCollect_same [of n E] by (simp_all add: n1_def r_def same_pending_def)
  define n2 where "n2 = n1\<lparr>pendingIPMutations := unconfirmed (rsPool r) (pendingIPMutations n)\<rparr>"
  have ap: "applyPendingIPMutations E (rsPool r) n1 = (overlay (rsPool r) (pendingIPMutations n), n2)"
    using applyPending_eq [of E n1 "rsPool r"] assms(2) n1(1) by (simp add: n2_def)
  have s: "same_pending n3 (if b then snd (ForeachInstanceReadyOnNode E (cancelLoan E) (world n3) n3) else n3)"
    for n3 b using cancelLoans_same [of n3 E "world n3"] by (simp add: same_pending_def)
  have n2: "pendingIPMutations n2 = unconfirmed (shown E n) (pendingIPMutations n)" "k8sObj n2 = k8sObj n"
    "quota n2 = quota n" using n1 by (simp_all add: n2_def r_def)
  have m: "nrsUseMode (k8sObj n1) \<noteq> ENIUseModePrimaryIP" using assms(1) n1(2) by simp
  have res: "ResyncInterfacesAndIPs E now n =
      (case quota n2 of
         None \<Rightarrow> ((Some ''unable to get ENI quota'', overlay (rsPool r) (pendingIPMutations n)), False, n2)
       | Some _ \<Rightarrow>
           (let n3 = n2\<lparr>world := refreshCapacity E 0 (rsIPs r) (world n2), availableIPsNumber := rsIPs r\<rparr>
            in ((None, overlay (rsPool r) (pendingIPMutations n)), False,
                if rsIPs r \<ge> GetMaximumAllocatableIPv4 n3
                then snd (ForeachInstanceReadyOnNode E (cancelLoan E) (world n3) n3) else n3)))"
    unfolding ResyncInterfacesAndIPs_def resyncCollect_def [symmetric] r_def [symmetric] Let_def
      n1_def [symmetric]
    using m ap by (cases "quota n2") simp_all
  have "pool = overlay (shown E n) (pendingIPMutations n) \<and> same_pending n2 n' \<and> \<not> spawn"
  proof (cases "quota n2")
    case None
    with res assms(3) show ?thesis by (auto simp: r_def same_pending_def)
  next
    case (Some q)
    define n3 where "n3 = n2\<lparr>world := refreshCapacity E 0 (rsIPs r) (world n2), availableIPsNumber := rsIPs r\<rparr>"
    have "same_pending n2 n3" by (simp add: n3_def same_pending_def)
    moreover have "n' = (if rsIPs r \<ge> GetMaximumAllocatableIPv4 n3
        then snd (ForeachInstanceReadyOnNode E (cancelLoan E) (world n3) n3) else n3)"
      "pool = overlay (rsPool r) (pendingIPMutations n)" "\<not> spawn"
      using res assms(3) Some by (simp_all add: n3_def Let_def)
    ultimately show ?thesis
      using s [of n3 "rsIPs r \<ge> GetMaximumAllocatableIPv4 n3"] by (simp add: r_def same_pending_def)
  qed
  then show "pool = overlay (shown E n) (pendingIPMutations n)"
    "pendingIPMutations n' = unconfirmed (shown E n) (pendingIPMutations n)"
    "k8sObj n' = k8sObj n" "quota n' = quota n" "\<not> spawn"
    using n2 by (simp_all add: same_pending_def)
qed

end
