(* ===== verification/EniProps.thy ===== *)
theory EniProps
  imports EniOverlay "HOL-Library.Multiset"
begin

text \<open>
  The properties of the cloud side of a node (\<open>pkg/bce/vpceni/node_super.go\<close>): releasing with retries,
  choosing what to release, allocating in batches, and the pool a node shows while the informer lags.
\<close>

section \<open>Releasing\<close>

abbreviation now_batch :: "string list \<Rightarrow> string list" where
  "now_batch \<equiv> take BatchAddOrDeleteIPLimit"

abbreviation later_batches :: "string list \<Rightarrow> string list" where
  "later_batches \<equiv> drop BatchAddOrDeleteIPLimit"

lemma releaseLoop_Nil [simp]: "releaseLoop E ra e ok [] w = Some ((ok, None), w)"
  by (subst releaseLoop.simps) simp

text \<open>The induction rule of the loop: one case per way an iteration goes on or ends.\<close>

lemma releaseLoop_induct [consumes 1, case_names finished released definitive verified stopped retry]:
  assumes run: "releaseLoop E ra e ok remaining w = Some y"
    and "\<And>ok w. P ok [] w ((ok, None), w)"
    and "\<And>ok rem w w1 y. rem \<noteq> [] \<Longrightarrow> attemptBatchRelease E ra (now_batch rem) e w = (None, w1) \<Longrightarrow>
      P (ok @ now_batch rem) (later_batches rem) w1 y \<Longrightarrow> P ok rem w y"
    and "\<And>ok rem w w1 err. rem \<noteq> [] \<Longrightarrow> attemptBatchRelease E ra (now_batch rem) e w = (Some err, w1) \<Longrightarrow>
      isDefinitiveError err \<Longrightarrow> P ok rem w ((ok, Some err), w1)"
    and "\<And>ok rem w w1 err v w2. rem \<noteq> [] \<Longrightarrow> attemptBatchRelease E ra (now_batch rem) e w = (Some err, w1) \<Longrightarrow>
      verifyReleasedIPs E (raInterfaceID ra) (now_batch rem) w1 = ((v, []), w2) \<Longrightarrow> later_batches rem = [] \<Longrightarrow>
      P ok rem w ((ok @ v, None), w2)"
    and "\<And>ok rem w w1 err v p w2 err' w3. rem \<noteq> [] \<Longrightarrow>
      attemptBatchRelease E ra (now_batch rem) e w = (Some err, w1) \<Longrightarrow>
      verifyReleasedIPs E (raInterfaceID ra) (now_batch rem) w1 = ((v, p), w2) \<Longrightarrow>
      retryWait E w2 = (Some err', w3) \<Longrightarrow> P ok rem w ((ok @ v, Some err'), w3)"
    and "\<And>ok rem w w1 err v p w2 w3 y. rem \<noteq> [] \<Longrightarrow>
      attemptBatchRelease E ra (now_batch rem) e w = (Some err, w1) \<Longrightarrow> \<not> isDefinitiveError err \<Longrightarrow>
      verifyReleasedIPs E (raInterfaceID ra) (now_batch rem) w1 = ((v, p), w2) \<Longrightarrow>
      retryWait E w2 = (None, w3) \<Longrightarrow> P (ok @ v) (p @ later_batches rem) w3 y \<Longrightarrow> P ok rem w y"
  shows "P ok remaining w y"
proof -
  have "E' = E \<longrightarrow> ra' = ra \<longrightarrow> e' = e \<longrightarrow> P ok remaining w y"
    if "releaseLoop E' ra' e' ok remaining w = Some y" for E' ra' e' ok remaining w y
  proof (rule releaseLoop.raw_induct
      [where P = "\<lambda>E' ra' e' ok rem w y. E' = E \<longrightarrow> ra' = ra \<longrightarrow> e' = e \<longrightarrow> P ok rem w y", OF _ that], intro impI)
    fix f E' ra' e' ok rem w y
    assume IH: "\<And>E' ra' e' ok rem w y. f E' ra' e' ok rem w = Some y \<Longrightarrow>
        E' = E \<longrightarrow> ra' = ra \<longrightarrow> e' = e \<longrightarrow> P ok rem w y"
      and [simp]: "E' = E" "ra' = ra" "e' = e"
      and body: "(if rem = [] then Some ((ok, None), w)
        else let batch = now_batch rem; later = later_batches rem
             in case attemptBatchRelease E' ra' batch e' w of
                  (None, w1) \<Rightarrow> f E' ra' e' (ok @ batch) later w1
                | (Some err, w1) \<Rightarrow>
                    if isDefinitiveError err then Some ((ok, Some err), w1)
                    else case verifyReleasedIPs E' (raInterfaceID ra') batch w1 of
                           ((verified, pending), w2) \<Rightarrow>
                             if pending @ later = [] then Some ((ok @ verified, None), w2)
                             else case retryWait E' w2 of
                                    (None, w3) \<Rightarrow> f E' ra' e' (ok @ verified) (pending @ later) w3
                                  | (Some err', w3) \<Rightarrow> Some ((ok @ verified, Some err'), w3)) = Some y"
    obtain r w1 where a: "attemptBatchRelease E ra (now_batch rem) e w = (r, w1)" by fastforce
    obtain v q w2 where v: "verifyReleasedIPs E (raInterfaceID ra) (now_batch rem) w1 = ((v, q), w2)"
      by (metis prod.exhaust)
    obtain c w3 where c: "retryWait E w2 = (c, w3)" by fastforce
    show "P ok rem w y"
    proof (cases "rem = []")
      case True
      with body assms(2) show ?thesis by auto
    next
      case False
      have b: "(case r of
           None \<Rightarrow> f E ra e (ok @ now_batch rem) (later_batches rem) w1
         | Some err \<Rightarrow>
             if isDefinitiveError err then Some ((ok, Some err), w1)
             else if q @ later_batches rem = [] then Some ((ok @ v, None), w2)
             else (case c of None \<Rightarrow> f E ra e (ok @ v) (q @ later_batches rem) w3
                   | Some err' \<Rightarrow> Some ((ok @ v, Some err'), w3))) = Some y"
        using body False a v c
        by (cases r) (simp_all only: Let_def if_False prod.case option.case \<open>E' = E\<close> \<open>ra' = ra\<close> \<open>e' = e\<close>)
      show ?thesis
      proof (cases r)
        case None
        with b IH assms(3) [OF False] a show ?thesis by simp
      next
        case (Some err)
        consider (d) "isDefinitiveError err" "y = ((ok, Some err), w1)"
          | (e) "q = []" "later_batches rem = []" "y = ((ok @ v, None), w2)"
          | (s) err' where "c = Some err'" "y = ((ok @ v, Some err'), w3)"
          | (n) "\<not> isDefinitiveError err" "c = None" "f E ra e (ok @ v) (q @ later_batches rem) w3 = Some y"
          using b Some by (auto simp del: drop_eq_Nil split: if_splits option.splits)
        then show ?thesis
        proof cases
          case d
          with assms(4) [OF False] a Some show ?thesis by simp
        next
          case e
          with assms(5) [OF False] a v Some show ?thesis by simp
        next
          case s
          with assms(6) [OF False] a v c Some show ?thesis by simp
        next
          case n
          with IH assms(7) [OF False] a v c Some show ?thesis by simp
        qed
      qed
    qed
  qed
  with run show ?thesis by blast
qed

text \<open>What is released is a part of what was asked for, all of it when there is no error.\<close>

lemma verifyReleasedIPs_parts:
  assumes "verifyReleasedIPs E i ips w = ((v, q), w')"
  shows "mset v + mset q = mset ips"
proof (cases "fst (statENI E i w)")
  case (Inl x)
  then obtain w1 where "statENI E i w = (Inl x, w1)" by (cases "statENI E i w") auto
  then show ?thesis using assms by (simp add: verifyReleasedIPs_def)
next
  case (Inr has)
  then obtain w1 where "statENI E i w = (Inr has, w1)" by (cases "statENI E i w") auto
  then have "v = filter (\<lambda>x. x \<notin> set has) ips" "q = filter (\<lambda>x. x \<in> set has) ips"
    using assms by (auto simp: verifyReleasedIPs_def)
  then show ?thesis
    using multiset_partition [of "mset ips" "\<lambda>x. x \<notin> set has"] by (simp flip: mset_filter)
qed

lemma batches_mset: "mset (now_batch xs) + mset (later_batches xs) = mset xs"
  by (metis append_take_drop_id mset_append)

lemma releaseLoop_parts:
  assumes "releaseLoop E ra e ok remaining w = Some y"
  shows "mset (fst (fst y)) \<subseteq># mset ok + mset remaining \<and>
    (snd (fst y) = None \<longrightarrow> mset (fst (fst y)) = mset ok + mset remaining)"
  using assms
proof (induction rule: releaseLoop_induct)
  case (released ok rem w w1 y)
  have "mset (ok @ now_batch rem) + mset (later_batches rem) = mset ok + mset rem"
    using batches_mset [of rem] by (simp add: add.assoc)
  with released.IH show ?case by metis
next
  case (verified ok rem w w1 err v w2)
  then have "mset v = mset rem"
    using verifyReleasedIPs_parts [OF verified(3)] batches_mset [of rem] by simp
  then show ?case by simp
next
  case (stopped ok rem w w1 err v p w2 err' w3)
  have "mset rem = mset v + (mset p + mset (later_batches rem))"
    using verifyReleasedIPs_parts [OF stopped(3)] batches_mset [of rem] by (simp flip: add.assoc)
  then show ?case by simp
next
  case (retry ok rem w w1 err v q w2 w3 y)
  have "mset (ok @ v) + mset (q @ later_batches rem) = mset ok + mset rem"
    using verifyReleasedIPs_parts [OF retry(4)] batches_mset [of rem]
    by (simp add: add.assoc) (metis add.assoc)
  with retry.IH show ?case by metis
qed simp_all

text \<open>The documented behaviour of the cloud: an accepted release, or the answer that the address is
  invalid, means that the interface has the addresses no more; what the cloud does not list is not
  there; and an address that is gone stays gone while the node only releases. \<open>gone i w ip\<close> tells that
  interface \<open>i\<close> does not have \<open>ip\<close> in the cloud's state \<open>w\<close>.\<close>

definition release_laws :: "'w eni_env \<Rightarrow> (string \<Rightarrow> 'w \<Rightarrow> string \<Rightarrow> bool) \<Rightarrow> bool" where
  "release_laws E gone \<longleftrightarrow>
     (\<forall>ra v4 v6 w r w'. realRelease E ra v4 v6 w = (r, w') \<longrightarrow> releaseFailed r = None \<longrightarrow>
        (\<forall>ip\<in>set v4 \<union> set v6. gone (raInterfaceID ra) w' ip)) \<and>
     (\<forall>i w has w' ip. statENI E i w = (Inr has, w') \<longrightarrow> ip \<notin> set has \<longrightarrow> gone i w' ip) \<and>
     (\<forall>ra v4 v6 w i ip. gone i w ip \<longrightarrow> gone i (snd (realRelease E ra v4 v6 w)) ip) \<and>
     (\<forall>j w i ip. gone i w ip \<longrightarrow> gone i (snd (statENI E j w)) ip) \<and>
     (\<forall>w i ip. gone i w ip \<longrightarrow> gone i (snd (retryWait E w)) ip) \<and>
     (\<forall>e w i ip. gone i w ip \<longrightarrow> gone i (snd (updateENI E e w)) ip) \<and>
     (\<forall>w i ip. gone i w ip \<longrightarrow> gone i (snd (pollTick E w)) ip)"

lemma release_lawsD:
  assumes "release_laws E gone"
  shows "realRelease E ra v4 v6 w = (r, w') \<Longrightarrow> releaseFailed r = None \<Longrightarrow> ip \<in> set v4 \<union> set v6 \<Longrightarrow>
      gone (raInterfaceID ra) w' ip"
    "statENI E i w = (Inr has, w') \<Longrightarrow> ip \<notin> set has \<Longrightarrow> gone i w' ip"
    "gone i w ip \<Longrightarrow> realRelease E ra v4 v6 w = (r, w') \<Longrightarrow> gone i w' ip"
    "gone i w ip \<Longrightarrow> statENI E j w = (sr, w') \<Longrightarrow> gone i w' ip"
    "gone i w ip \<Longrightarrow> retryWait E w = (c, w') \<Longrightarrow> gone i w' ip"
    "gone i w ip \<Longrightarrow> updateENI E e w = (b, w') \<Longrightarrow> gone i w' ip"
    "gone i w ip \<Longrightarrow> pollTick E w = (b, w') \<Longrightarrow> gone i w' ip"
proof -
  note l = assms [unfolded release_laws_def]
  show "realRelease E ra v4 v6 w = (r, w') \<Longrightarrow> releaseFailed r = None \<Longrightarrow> ip \<in> set v4 \<union> set v6 \<Longrightarrow>
      gone (raInterfaceID ra) w' ip"
    by (rule l [THEN conjunct1, rule_format])
  show "statENI E i w = (Inr has, w') \<Longrightarrow> ip \<notin> set has \<Longrightarrow> gone i w' ip"
    by (rule l [THEN conjunct2, THEN conjunct1, rule_format])
  show "gone i w ip \<Longrightarrow> realRelease E ra v4 v6 w = (r, w') \<Longrightarrow> gone i w' ip" using l by (metis snd_conv)
  show "gone i w ip \<Longrightarrow> statENI E j w = (sr, w') \<Longrightarrow> gone i w' ip" using l by (metis snd_conv)
  show "gone i w ip \<Longrightarrow> retryWait E w = (c, w') \<Longrightarrow> gone i w' ip" using l by (metis snd_conv)
  show "gone i w ip \<Longrightarrow> updateENI E e w = (b, w') \<Longrightarrow> gone i w' ip" using l by (metis snd_conv)
  show "gone i w ip \<Longrightarrow> pollTick E w = (b, w') \<Longrightarrow> gone i w' ip" using l by (metis snd_conv)
qed

text \<open>An address the cached interface does not have (or that is not one) is passed over.\<close>

definition passed_over :: "ENI \<Rightarrow> string \<Rightarrow> bool" where
  "passed_over e ip \<longleftrightarrow> batch_v4 e [ip] = [] \<and> batch_v6 e [ip] = []"

lemma passed_over_iff: "ip \<in> set ips \<Longrightarrow> passed_over e ip \<longleftrightarrow> ip \<notin> set (batch_v4 e ips) \<union> set (batch_v6 e ips)"
  by (auto simp: passed_over_def batch_v4_def batch_v6_def)

definition off :: "(string \<Rightarrow> 'w \<Rightarrow> string \<Rightarrow> bool) \<Rightarrow> ReleaseAction \<Rightarrow> ENI \<Rightarrow> 'w \<Rightarrow> string \<Rightarrow> bool" where
  "off gone ra e w ip \<longleftrightarrow> gone (raInterfaceID ra) w ip \<or> passed_over e ip"

lemma attempt_off:
  assumes laws: "release_laws E gone" and a: "attemptBatchRelease E ra ips e w = (r, w')"
  shows "off gone ra e w ip \<Longrightarrow> off gone ra e w' ip"
    "r = None \<Longrightarrow> ip \<in> set ips \<Longrightarrow> off gone ra e w' ip"
proof -
  obtain r4 w1 where r4: "(if batch_v4 e ips \<noteq> [] then realRelease E ra (batch_v4 e ips) [] w
      else (None, w)) = (r4, w1)" by fastforce
  obtain r6 w2 where r6: "(if batch_v6 e ips \<noteq> [] then realRelease E ra [] (batch_v6 e ips) w1
      else (None, w1)) = (r6, w2)" by fastforce
  have k4: "gone i w ip \<Longrightarrow> gone i w1 ip" for i
    using r4 release_lawsD(3) [OF laws] by (auto split: if_splits)
  have k6: "gone i w1 ip \<Longrightarrow> gone i w2 ip" for i
    using r6 release_lawsD(3) [OF laws] by (auto split: if_splits)
  have g4: "ip \<in> set (batch_v4 e ips) \<Longrightarrow> releaseFailed r4 = None \<Longrightarrow> gone (raInterfaceID ra) w1 ip"
    using r4 release_lawsD(1) [OF laws, of ra "batch_v4 e ips" "[]" w r4 w1 ip] by (auto split: if_splits)
  have g6: "ip \<in> set (batch_v6 e ips) \<Longrightarrow> releaseFailed r6 = None \<Longrightarrow> gone (raInterfaceID ra) w2 ip"
    using r6 release_lawsD(1) [OF laws, of ra "[]" "batch_v6 e ips" w1 r6 w2 ip] by (auto split: if_splits)
  note run = a [unfolded attemptBatchRelease_def, unfolded r4 r6 prod.case]
  have w': "w' = w \<and> r \<noteq> None \<or> w' = w1 \<and> r \<noteq> None \<or>
      w' = w2 \<and> releaseFailed r4 = None \<and> r = releaseFailed r6"
    using run by (auto split: if_splits option.splits)
  show "off gone ra e w ip \<Longrightarrow> off gone ra e w' ip"
    using w' k4 k6 by (auto simp: off_def)
  assume n: "r = None" and "ip \<in> set ips"
  with w' g4 g6 k6 passed_over_iff [of ip ips e] show "off gone ra e w' ip"
    by (auto simp: off_def)
qed

lemma verify_off:
  assumes laws: "release_laws E gone" and v: "verifyReleasedIPs E (raInterfaceID ra) ips w = ((v, q), w')"
  shows "off gone ra e w ip \<Longrightarrow> off gone ra e w' ip" "ip \<in> set v \<Longrightarrow> off gone ra e w' ip"
proof -
  obtain sr where sr: "statENI E (raInterfaceID ra) w = (sr, w')"
    using v by (auto simp: verifyReleasedIPs_def split: prod.splits sum.splits)
  show "off gone ra e w ip \<Longrightarrow> off gone ra e w' ip"
    using release_lawsD(4) [OF laws _ sr] by (auto simp: off_def)
  show "ip \<in> set v \<Longrightarrow> off gone ra e w' ip"
    using v sr release_lawsD(2) [OF laws]
    by (cases sr) (auto simp: verifyReleasedIPs_def off_def)
qed

lemma retry_off:
  assumes "release_laws E gone" "retryWait E w = (c, w')" "off gone ra e w ip"
  shows "off gone ra e w' ip"
  using assms release_lawsD(5) [OF assms(1) _ assms(2)] by (auto simp: off_def)

lemma write_off:
  assumes "release_laws E gone" "off gone ra e w ip"
  shows "updateENI E o1 w = (b, w') \<Longrightarrow> off gone ra e w' ip" "pollTick E w = (b, w') \<Longrightarrow> off gone ra e w' ip"
proof -
  assume "updateENI E o1 w = (b, w')"
  from release_lawsD(6) [OF assms(1) _ this] assms(2) show "off gone ra e w' ip" by (auto simp: off_def)
next
  assume "pollTick E w = (b, w')"
  from release_lawsD(7) [OF assms(1) _ this] assms(2) show "off gone ra e w' ip" by (auto simp: off_def)
qed

lemma releaseLoop_off:
  assumes "releaseLoop E ra e ok remaining w = Some y" "release_laws E gone"
    "\<forall>ip\<in>set ok. off gone ra e w ip"
  shows "\<forall>ip\<in>set (fst (fst y)). off gone ra e (snd y) ip"
  using assms(1,3)
proof (induction rule: releaseLoop_induct)
  case (released ok rem w w1 y)
  from released.prems have "\<forall>ip\<in>set (ok @ now_batch rem). off gone ra e w1 ip"
    using attempt_off [OF assms(2) released(2)] by auto
  with released.IH show ?case .
next
  case (definitive ok rem w w1 err)
  then show ?case using attempt_off(1) [OF assms(2)] by auto
next
  case (verified ok rem w w1 err v w2)
  then show ?case
    using attempt_off(1) [OF assms(2) verified(2)] verify_off [OF assms(2) verified(3)] by auto
next
  case (stopped ok rem w w1 err v p w2 err' w3)
  then show ?case
    using attempt_off(1) [OF assms(2) stopped(2)] verify_off [OF assms(2) stopped(3)]
      retry_off [OF assms(2) stopped(4)] by auto
next
  case (retry ok rem w w1 err v q w2 w3 y)
  have "\<forall>ip\<in>set (ok @ v). off gone ra e w3 ip"
    using retry.prems attempt_off(1) [OF assms(2) retry(2)] verify_off [OF assms(2) retry(4)]
      retry_off [OF assms(2) retry(5)] by auto
  with retry.IH show ?case .
qed simp_all

text \<open>Writing the object of the interface.\<close>

lemma pollUpdate_keeps:
  assumes "pollUpdate E nm f k w = (r, w')"
    and "\<And>w w' e b. P w \<Longrightarrow> updateENI E e w = (b, w') \<Longrightarrow> P w'"
    and "\<And>w w' b. P w \<Longrightarrow> pollTick E w = (b, w') \<Longrightarrow> P w'"
    and "P w"
  shows "P w'"
  using assms(1,4)
proof (induction k arbitrary: w)
  case 0
  then show ?case by simp
next
  case (Suc k)
  show ?case
  proof (cases "getENI E nm w")
    case None
    with Suc.prems show ?thesis by simp
  next
    case (Some e)
    obtain b w1 where u: "updateENI E (f (e\<lparr>VPCVersion := VPCVersion e + 1\<rparr>)) w = (b, w1)" by fastforce
    obtain t w2 where t: "pollTick E w1 = (t, w2)" by fastforce
    have "P w1" "P w2" using assms(2) [OF Suc.prems(2) u] assms(3) t by blast+
    with Suc.IH [of w2] Suc.prems(1) Some u t show ?thesis by (auto split: bool.splits)
  qed
qed

lemma updateENIWithPoll_world:
  assumes "updateENIWithPoll E nm f n = (r, n')"
    and "\<And>w w' e b. P w \<Longrightarrow> updateENI E e w = (b, w') \<Longrightarrow> P w'"
    and "\<And>w w' b. P w \<Longrightarrow> pollTick E w = (b, w') \<Longrightarrow> P w'"
    and "P (world n)"
  shows "P (world n')"
proof (cases "nm = []")
  case True
  with assms(1,4) show ?thesis by (simp add: updateENIWithPoll_def)
next
  case False
  obtain x w where p: "pollUpdate E nm f updateAttempts (world n) = (x, w)" by fastforce
  have "P w" using p assms(2-4) by (rule pollUpdate_keeps [where P = P])
  moreover have "world n' = w"
    using assms(1) False p by (cases x) (auto simp: updateENIWithPoll_def)
  ultimately show ?thesis by simp
qed

lemma updateENIWithPoll_fields:
  assumes "updateENIWithPoll E nm f n = (r, n')"
  shows "pendingIPMutations n' = pendingIPMutations n" "k8sObj n' = k8sObj n" "quota n' = quota n"
  using assms by (auto simp: updateENIWithPoll_def split: if_splits prod.splits sum.splits)

lemma updateENIWithReleasedIPs_cases:
  assumes "updateENIWithReleasedIPs E i ips n = (r, n')"
  shows "n' = n \<or> (\<exists>nm. updateENIWithPoll E nm (withoutIPs ips) n = (r, n'))"
  using assms by (auto simp: updateENIWithReleasedIPs_def split: if_splits option.splits)

text \<open>The ways \<open>ReleaseIPs\<close> ends.\<close>

lemma ReleaseIPs_cases:
  assumes "ReleaseIPs E (Some ra) n = Some ((ok, err), n')" "getENI E (raInterfaceID ra) (world n) = Some e"
  obtains (empty) "IPsToRelease ra = []" "ok = []" "err = None" "n' = n"
  | (none) w where "releaseLoop E ra e [] (IPsToRelease ra) (world n) = Some (([], err), w)"
      "ok = []" "n' = n\<lparr>world := w\<rparr>"
  | (failed) x ok' err' w where "releaseLoop E ra e [] (IPsToRelease ra) (world n) = Some ((ok', err'), w)"
      "updateENIWithReleasedIPs E (raInterfaceID ra) ok' (n\<lparr>world := w\<rparr>) = (Some x, n')"
      "ok = []" "err = Some x"
  | (some) n2 w where "releaseLoop E ra e [] (IPsToRelease ra) (world n) = Some ((ok, err), w)"
      "updateENIWithReleasedIPs E (raInterfaceID ra) ok (n\<lparr>world := w\<rparr>) = (None, n2)"
      "n' = rememberPendingReleasedIPs ok n2" "ok \<noteq> []"
proof (cases "IPsToRelease ra = []")
  case True
  with assms(1) empty show ?thesis by (simp add: ReleaseIPs_def)
next
  case False
  have run: "(case releaseLoop E ra e [] (IPsToRelease ra) (world n) of
      None \<Rightarrow> None
    | Some ((ok, err), w) \<Rightarrow>
        (if ok = [] then Some ((ok, err), n\<lparr>world := w\<rparr>)
         else (case updateENIWithReleasedIPs E (raInterfaceID ra) ok (n\<lparr>world := w\<rparr>) of
                 (Some e, n2) \<Rightarrow> Some (([], Some e), n2)
               | (None, n2) \<Rightarrow> Some ((ok, err), rememberPendingReleasedIPs ok n2)))) = Some ((ok, err), n')"
    using assms(1) [unfolded ReleaseIPs_def releaseBatchIPsWithRetry_def Let_def] assms(2) False by simp
  then obtain ok' err' w where l: "releaseLoop E ra e [] (IPsToRelease ra) (world n) = Some ((ok', err'), w)"
    by (auto split: option.splits)
  show ?thesis
  proof (cases "ok' = []")
    case True
    with run l none show ?thesis by simp
  next
    case nonempty: False
    obtain u n2 where u: "updateENIWithReleasedIPs E (raInterfaceID ra) ok' (n\<lparr>world := w\<rparr>) = (u, n2)"
      by fastforce
    show ?thesis
    proof (cases u)
      case None
      with run l nonempty u have "ok' = ok" "err' = err" "n' = rememberPendingReleasedIPs ok n2" by auto
      with l nonempty u None some [of w n2] show ?thesis by simp
    next
      case (Some x)
      with run l nonempty u have "ok = []" "err = Some x" "n' = n2" by auto
      with l u Some failed [of ok' err' w x] show ?thesis by simp
    qed
  qed
qed

text \<open>A deadline: the waits before a retry use up the time left, and no other call adds to it.\<close>

definition deadline :: "'w eni_env \<Rightarrow> ('w \<Rightarrow> nat) \<Rightarrow> bool" where
  "deadline E left \<longleftrightarrow>
     (\<forall>ra v4 v6 w. left (snd (realRelease E ra v4 v6 w)) \<le> left w) \<and>
     (\<forall>i w. left (snd (statENI E i w)) \<le> left w) \<and>
     (\<forall>w w'. retryWait E w = (None, w') \<longrightarrow> left w' < left w)"

lemma attempt_left:
  assumes "deadline E left" "attemptBatchRelease E ra ips e w = (r, w')"
  shows "left w' \<le> left w"
proof -
  obtain r4 w1 where r4: "(if batch_v4 e ips \<noteq> [] then realRelease E ra (batch_v4 e ips) [] w
      else (None, w)) = (r4, w1)" by fastforce
  obtain r6 w2 where r6: "(if batch_v6 e ips \<noteq> [] then realRelease E ra [] (batch_v6 e ips) w1
      else (None, w1)) = (r6, w2)" by fastforce
  have le: "left (snd (realRelease E ra v4 v6 w)) \<le> left w" for v4 v6 w
    using assms(1) by (simp add: deadline_def)
  have "left w1 \<le> left w" "left w2 \<le> left w1"
    using r4 r6 le [of "batch_v4 e ips" "[]" w] le [of "[]" "batch_v6 e ips" w1] by (auto split: if_splits)
  moreover have "w' = w \<or> w' = w1 \<or> w' = w2"
    using assms(2) [unfolded attemptBatchRelease_def, unfolded r4 r6 prod.case]
    by (auto split: if_splits option.splits)
  ultimately show ?thesis by auto
qed

lemma releaseLoop_returns:
  assumes "deadline E left"
  shows "\<exists>y. releaseLoop E ra e ok remaining w = Some y"
proof (induction "(left w, length remaining)" arbitrary: w remaining ok
    rule: wf_induct_rule [OF wf_lex_prod [OF wf_less wf_less]])
  case 1
  show ?case
  proof (cases "remaining = []")
    case True
    then show ?thesis by simp
  next
    case False
    obtain r w1 where a: "attemptBatchRelease E ra (now_batch remaining) e w = (r, w1)" by fastforce
    obtain v q w2 where v: "verifyReleasedIPs E (raInterfaceID ra) (now_batch remaining) w1 = ((v, q), w2)"
      by (metis prod.exhaust)
    obtain c w3 where c: "retryWait E w2 = (c, w3)" by fastforce
    have l1: "left w1 \<le> left w" by (rule attempt_left [OF assms a])
    obtain sr where "statENI E (raInterfaceID ra) w1 = (sr, w2)"
      using v by (auto simp: verifyReleasedIPs_def split: prod.splits sum.splits)
    then have l2: "left w2 \<le> left w1" using assms by (metis deadline_def snd_conv)
    have l3: "c = None \<Longrightarrow> left w3 < left w2" using assms c by (auto simp: deadline_def)
    have "length (later_batches remaining) < length remaining"
      using False by (cases remaining) (auto simp: BatchAddOrDeleteIPLimit_def)
    with l1 1 have ih1: "\<exists>y. releaseLoop E ra e (ok @ now_batch remaining) (later_batches remaining) w1 = Some y"
      by (cases "left w1 = left w") auto
    have ih2: "\<exists>y. releaseLoop E ra e (ok @ v) (q @ later_batches remaining) w3 = Some y" if "c = None"
      using 1 l1 l2 l3 that by auto
    show ?thesis
      using ih1 ih2 False a v c
      by (subst releaseLoop.simps) (simp add: Let_def split: option.split prod.split)
  qed
qed

section \<open>The pool while the informer lags\<close>

text \<open>A history of the node in which only resynchronisations happen, and anything in the world around
  it: the list holds, for every resynchronisation, what the cache showed and the pool it gave.\<close>

inductive resyncs ::
    "'w eni_env \<Rightarrow> 'w bceNode \<Rightarrow> (AllocationMap \<times> AllocationMap) list \<Rightarrow> 'w bceNode \<Rightarrow> bool"
  for E n where
  start: "resyncs E n [] n"
| around: "resyncs E n h n' \<Longrightarrow> resyncs E n h (n'\<lparr>world := w\<rparr>)"
| resync: "resyncs E n h n' \<Longrightarrow> iter_order (pendOrder E (pendingIPMutations n')) (pendingIPMutations n') \<Longrightarrow>
    ResyncInterfacesAndIPs E now n' = ((err, pool), spawn, n'') \<Longrightarrow>
    resyncs E n (h @ [(shown E n', pool)]) n''"

text \<open>A remembered change corrects every pool up to the first one whose cache confirms it.\<close>

definition corrected :: "pendingIPMutation \<Rightarrow> string \<Rightarrow> AllocationMap \<times> AllocationMap \<Rightarrow> bool" where
  "corrected m ip sp \<longleftrightarrow>
     (if present m
      then (\<exists>x. snd sp ip = Some x \<and> Resource x = Resource (ipInfo m) \<and> SubnetID x = SubnetID (ipInfo m))
      else snd sp ip = None)"

lemma resyncs_corrected:
  assumes "resyncs E n h n'" "nrsUseMode (k8sObj n) \<noteq> ENIUseModePrimaryIP"
    "pendingIPMutations n ip = Some m"
  shows "nrsUseMode (k8sObj n') \<noteq> ENIUseModePrimaryIP \<and>
    ((\<forall>j<length h. \<not> confirmed (fst (h ! j)) m ip) \<longrightarrow> pendingIPMutations n' ip = Some m) \<and>
    (\<forall>i<length h. (\<forall>j<i. \<not> confirmed (fst (h ! j)) m ip) \<longrightarrow> corrected m ip (h ! i))"
  using assms
proof (induction rule: resyncs.induct)
  case start
  then show ?case by simp
next
  case (around h n' w)
  then show ?case by simp
next
  case (resync h n' now err pool spawn n'')
  note IH = resync.IH [OF resync.prems]
  have mode: "nrsUseMode (k8sObj n') \<noteq> ENIUseModePrimaryIP" using IH by blast
  note eq = resync_eq [OF mode resync.hyps(2,3)]
  let ?l = "length h"
  have old: "(h @ [(shown E n', pool)]) ! j = h ! j" if "j < ?l" for j
    using that by (simp add: nth_append)
  have pend: "pendingIPMutations n' ip = Some m" if "\<forall>j<?l. \<not> confirmed (fst ((h @ [(shown E n', pool)]) ! j)) m ip"
    using that IH old by auto
  have new: "corrected m ip (shown E n', pool)" if "pendingIPMutations n' ip = Some m"
    using that by (auto simp: corrected_def eq(1) overlay_def confirmed_def split: option.split)
  have keep: "pendingIPMutations n'' ip = Some m"
    if "pendingIPMutations n' ip = Some m" "\<not> confirmed (shown E n') m ip"
    using that by (simp add: eq(2) unconfirmed_def)
  show ?case
  proof (intro conjI allI impI)
    show "nrsUseMode (k8sObj n'') \<noteq> ENIUseModePrimaryIP" using mode eq(3) by simp
    assume a: "\<forall>j<length (h @ [(shown E n', pool)]). \<not> confirmed (fst ((h @ [(shown E n', pool)]) ! j)) m ip"
    from a have "\<not> confirmed (shown E n') m ip" by (auto dest: spec [of _ ?l])
    with a pend keep show "pendingIPMutations n'' ip = Some m" by simp
  next
    fix i
    assume i: "i < length (h @ [(shown E n', pool)])"
      and a: "\<forall>j<i. \<not> confirmed (fst ((h @ [(shown E n', pool)]) ! j)) m ip"
    show "corrected m ip ((h @ [(shown E n', pool)]) ! i)"
    proof (cases "i = ?l")
      case True
      with a pend new show ?thesis by simp
    next
      case False
      with i have "i < ?l" by simp
      with a IH old show ?thesis by auto
    qed
  qed
qed

lemma released_withheld:
  assumes "ReleaseIPs E (Some ra) n = Some ((ok, err), n')" "getENI E (raInterfaceID ra) (world n) = Some e"
    "ip \<in> set ok" "ip \<noteq> []"
  shows "\<exists>m. pendingIPMutations n' ip = Some m \<and> \<not> present m" "k8sObj n' = k8sObj n"
proof -
  obtain n2 w where n': "n' = rememberPendingReleasedIPs ok n2"
    and u: "updateENIWithReleasedIPs E (raInterfaceID ra) ok (n\<lparr>world := w\<rparr>) = (None, n2)"
    using assms(3) by (cases rule: ReleaseIPs_cases [OF assms(1,2)]) auto
  show "\<exists>m. pendingIPMutations n' ip = Some m \<and> \<not> present m"
    using assms(3,4) by (simp add: n' remembered_released)
  show "k8sObj n' = k8sObj n"
    using updateENIWithReleasedIPs_cases [OF u] updateENIWithPoll_fields(2) n' by fastforce
qed

section \<open>Choosing what to release\<close>

lemma prepareRelease_chosen:
  assumes "IPsToRelease r = [] \<or> Q r"
    and "\<And>e c. e \<in> set es \<Longrightarrow> eniUseMode e \<noteq> ENIUseModePrimaryIP \<Longrightarrow>
      freeCounts (EnableIPv4 E) (EnableIPv6 E) excess (length (IPv4Set e)) (length (IPv6Set e))
        (length (freeIPs us e (IPv4Set e))) (length (freeIPs us e (IPv6Set e))) = c \<Longrightarrow>
      Q \<lparr>raInterfaceID = eniID e, raPoolID = eniSubnetID e,
         IPsToRelease = take (nat (fst c)) (freeIPs us e (IPv4Set e)) @
                        take (nat (snd c)) (freeIPs us e (IPv6Set e))\<rparr>"
  shows "IPsToRelease (snd (iterate (prepareReleaseOne E us excess) es r)) = [] \<or>
    Q (snd (iterate (prepareReleaseOne E us excess) es r))"
proof (rule iterate_invariant [where P = "\<lambda>r. IPsToRelease r = [] \<or> Q r", OF assms(1)])
  fix e r
  assume e: "e \<in> set es" and r: "IPsToRelease r = [] \<or> Q r"
  let ?c = "freeCounts (EnableIPv4 E) (EnableIPv6 E) excess (length (IPv4Set e)) (length (IPv6Set e))
      (length (freeIPs us e (IPv4Set e))) (length (freeIPs us e (IPv6Set e)))"
  have t: "(if c > 0 \<and> xs \<noteq> [] then take (nat c) xs else []) = take (nat c) xs" for c and xs :: "string list"
    by (cases "c > 0") auto
  show "IPsToRelease (snd (prepareReleaseOne E us excess e r)) = [] \<or> Q (snd (prepareReleaseOne E us excess e r))"
    using r assms(2) [OF e _ refl]
    by (cases ?c) (auto simp: prepareReleaseOne_def Let_def t simp del: take_eq_Nil)
qed

lemma freeCounts_bound:
  assumes "freeCounts v4 v6 excess t4 t6 f4 f6 = (c4, c6)"
  shows "max 0 c4 + max 0 c6 \<le> max 0 (if v4 \<and> v6 then excess + 1 else excess)"
    "c4 \<le> int f4" "c6 \<le> int f6"
proof -
  have "max 0 c4 + max 0 c6 \<le> max 0 (if v4 \<and> v6 then excess + 1 else excess) \<and> c4 \<le> int f4 \<and> c6 \<le> int f6"
  proof (cases "v4 \<and> v6")
    case True
    define d6 where "d6 = (if int t6 - int t4 > 0 then int t6 - int t4 else 0)"
    define d4 where "d4 = (if int t6 - int t4 > 0 then 0 else if int t6 - int t4 < 0 then - (int t6 - int t4) else 0)"
    define rest where "rest = excess - d6 - d4"
    define share where "share = (if rest > 1 then (if rest mod 2 = 1 then rest - 1 else rest) div 2 else rest)"
    have "freeCounts v4 v6 excess t4 t6 f4 f6 = (min (int f4) (d4 + share), min (int f6) (d6 + share))"
      by (simp only: freeCounts_def Let_def d6_def d4_def rest_def share_def True [THEN conjunct1]
          True [THEN conjunct2] simp_thms if_True)
    then have c: "c4 = min (int f4) (d4 + share)" "c6 = min (int f6) (d6 + share)"
      using assms by simp_all
    have d: "0 \<le> d4" "0 \<le> d6" "d4 = 0 \<or> d6 = 0" by (auto simp: d4_def d6_def)
    have sh: "share \<le> rest" "rest > 1 \<Longrightarrow> 2 * share \<le> rest" "rest \<le> 1 \<Longrightarrow> share = rest"
      unfolding share_def by auto
    have "max 0 (d4 + share) + max 0 (d6 + share) \<le> max 0 (excess + 1)"
      using d sh unfolding rest_def by (cases "excess - d6 - d4 > 1") (auto simp: max_def)
    moreover have "max 0 c4 \<le> max 0 (d4 + share)" "max 0 c6 \<le> max 0 (d6 + share)"
      "c4 \<le> int f4" "c6 \<le> int f6" unfolding c by auto
    ultimately show ?thesis using True by simp
  next
    case False
    then show ?thesis using assms by (cases v4; cases v6) (auto simp: freeCounts_def)
  qed
  then show "max 0 c4 + max 0 c6 \<le> max 0 (if v4 \<and> v6 then excess + 1 else excess)"
    "c4 \<le> int f4" "c6 \<le> int f6" by blast+
qed

lemma set_insertENI [simp]: "set (insertENI e xs) = insert e (set xs)"
  by (induction xs) auto

lemma set_sortedENIs [simp]: "set (foldr insertENI xs []) = set xs"
  by (induction xs) simp_all

section \<open>Allocating\<close>

definition same_node :: "'w bceNode \<Rightarrow> 'w bceNode \<Rightarrow> bool" where
  "same_node n n' \<longleftrightarrow> pendingIPMutations n' = pendingIPMutations n \<and> k8sObj n' = k8sObj n"

lemma appendAllocatedIPError_same [simp]:
  "same_node n (appendAllocatedIPError t e (n\<lparr>world := w\<rparr>))" "same_node n (borrowDone E a k (n\<lparr>world := w\<rparr>))"
  by (simp_all add: same_node_def appendAllocatedIPError_def borrowDone_def split: prod.split option.split)

lemma same_node_trans: "same_node a b \<Longrightarrow> same_node b c \<Longrightarrow> same_node a c"
  by (simp add: same_node_def)

lemma length_appenUniqueElement: "length (appenUniqueElement xs ys) \<le> length xs + length ys"
proof (induction ys arbitrary: xs)
  case Nil
  then show ?case by (simp add: appenUniqueElement_def)
next
  case (Cons y ys)
  have "appenUniqueElement xs (y # ys) =
      appenUniqueElement (if PrivateIPAddress y \<in> addresses xs then xs else xs @ [y]) ys"
    by (simp add: appenUniqueElement_def)
  with Cons [of xs] Cons [of "xs @ [y]"] show ?case by auto
qed

text \<open>The cloud never gives more addresses of a family than it is asked for.\<close>

definition gives_at_most :: "'w eni_env \<Rightarrow> bool" where
  "gives_at_most E \<longleftrightarrow> (\<forall>a n4 n6 w r4 r6 e w'. realAllocate E a n4 n6 w = ((r4, r6, e), w') \<longrightarrow>
     int (length r4) \<le> max 0 n4 \<and> int (length r6) \<le> max 0 n6)"

lemma allocateLoop_result:
  assumes "allocateLoop E now a n4 n6 partial s4 s6 n = (r, n')"
  shows "same_node n n'"
    "gives_at_most E \<Longrightarrow> r = Inr (t4, t6) \<Longrightarrow>
     int (length t4) \<le> int (length s4) + max 0 n4 \<and> int (length t6) \<le> int (length s6) + max 0 n6"
proof -
  have "same_node n n' \<and> (gives_at_most E \<longrightarrow> r = Inr (t4, t6) \<longrightarrow>
     int (length t4) \<le> int (length s4) + max 0 n4 \<and> int (length t6) \<le> int (length s6) + max 0 n6)"
    using assms
  proof (induction E now a n4 n6 partial s4 s6 n rule: allocateLoop.induct)
    case (1 E now a n4 n6 partial s4 s6 n)
    show ?case
    proof (cases "n4 > 0 \<or> n6 > 0")
      case False
      with 1(3) show ?thesis by (auto simp: allocateLoop.simps [of E now a n4 n6] same_node_def)
    next
      case True
      obtain r4 r6 e w where c: "realAllocate E a (batchOf n4) (batchOf n6) (world n) = ((r4, r6, e), w)"
        by (metis prod_cases3 prod.exhaust)
      have b: "max 0 (batchOf k) + max 0 (k - batchOf k) = max 0 k" for k
        by (auto simp: batchOf_def max_def min_def)
      show ?thesis
      proof (cases e)
        case (Some err)
        let ?n1 = "appendAllocatedIPError now (aaInterfaceID a) (n\<lparr>world := w\<rparr>)"
        show ?thesis
        proof (cases partial)
          case False
          with 1(3) True c Some show ?thesis by (auto simp: allocateLoop.simps [of E now a n4 n6])
        next
          case partial: True
          then have "allocateLoop E now a (n4 - batchOf n4) (n6 - batchOf n6) partial s4 s6 ?n1 = (r, n')"
            using 1(3) True c Some by (simp add: allocateLoop.simps [of E now a n4 n6])
          from 1(2) [OF True c [symmetric] refl refl Some refl _ this] partial
          have ih: "same_node ?n1 n' \<and> (gives_at_most E \<longrightarrow> r = Inr (t4, t6) \<longrightarrow>
              int (length t4) \<le> int (length s4) + max 0 (n4 - batchOf n4) \<and>
              int (length t6) \<le> int (length s6) + max 0 (n6 - batchOf n6))" by simp
          with b [of n4] b [of n6] show ?thesis
            using same_node_trans [OF appendAllocatedIPError_same(1)] by fastforce
        qed
      next
        case None
        let ?n1 = "borrowDone E a (length r4) (n\<lparr>world := w\<rparr>)"
        have "allocateLoop E now a (n4 - batchOf n4) (n6 - batchOf n6) True (appenUniqueElement s4 r4)
            (appenUniqueElement s6 r6) ?n1 = (r, n')"
          using 1(3) True c None by (simp add: allocateLoop.simps [of E now a n4 n6])
        from 1(1) [OF True c [symmetric] refl refl None this]
        have ih: "same_node ?n1 n' \<and> (gives_at_most E \<longrightarrow> r = Inr (t4, t6) \<longrightarrow>
            int (length t4) \<le> int (length (appenUniqueElement s4 r4)) + max 0 (n4 - batchOf n4) \<and>
            int (length t6) \<le> int (length (appenUniqueElement s6 r6)) + max 0 (n6 - batchOf n6))" by simp
        have g: "gives_at_most E \<Longrightarrow> int (length r4) \<le> max 0 (batchOf n4) \<and> int (length r6) \<le> max 0 (batchOf n6)"
          using c unfolding gives_at_most_def by blast
        have "same_node n n'"
          by (rule same_node_trans [OF appendAllocatedIPError_same(2) ih [THEN conjunct1]])
        with ih g b [of n4] b [of n6] length_appenUniqueElement [of s4 r4] length_appenUniqueElement [of s6 r6]
        show ?thesis by force
      qed
    qed
  qed
  then show "same_node n n'" "gives_at_most E \<Longrightarrow> r = Inr (t4, t6) \<Longrightarrow>
     int (length t4) \<le> int (length s4) + max 0 n4 \<and> int (length t6) \<le> int (length s6) + max 0 n6"
    by blast+
qed

text \<open>What is allocated in the end, before the object of the interface is written.\<close>

definition allocatedSets ::
    "'w eni_env \<Rightarrow> int \<Rightarrow> AllocationAction \<Rightarrow> 'w bceNode \<Rightarrow> (err + PrivateIP list \<times> PrivateIP list) \<times> 'w bceNode" where
  "allocatedSets E now a n =
     (case (quota n, getENI E (aaInterfaceID a) (world n)) of
        (Some (maxENI, maxIP), Some e) \<Rightarrow>
          (case allocateCounts (EnableIPv4 E) (EnableIPv6 E) maxIP a (length (IPv4Set e)) (length (IPv6Set e)) of
             (n4, n6) \<Rightarrow> allocateLoop E now a n4 n6 False [] [] n)
      | _ \<Rightarrow> (Inl [], n))"

lemma AllocateIPs_eq:
  assumes "IsSecondaryIPMode (nrsUseMode (k8sObj n))" "getENI E (aaInterfaceID a) (world n) = Some e"
    "quota n = Some q" "allocatedSets E now a n = (r, n1)"
  shows "AllocateIPs E now a n =
    (case r of
       Inl err \<Rightarrow> (Some err, n1)
     | Inr (s4, s6) \<Rightarrow>
         if s4 = [] \<and> s6 = [] then (Some ''no ip has been allocated on eni'', n1)
         else (case updateENIWithPoll E (eniName e) (recordAllocated s4 s6) n1 of
                 (Some err, n2) \<Rightarrow> (Some err, n2)
               | (None, n2) \<Rightarrow> (None, rememberPendingAllocatedIPs (eniName e) s6
                                       (rememberPendingAllocatedIPs (eniName e) s4 n2))))"
proof -
  obtain c4 c6 where c: "allocateCounts (EnableIPv4 E) (EnableIPv6 E) (snd q) a (length (IPv4Set e))
      (length (IPv6Set e)) = (c4, c6)" by fastforce
  have "allocateLoop E now a c4 c6 False [] [] n = (r, n1)"
    using assms c by (cases q) (simp add: allocatedSets_def)
  then show ?thesis using assms(1-3) c by (cases q) (simp add: AllocateIPs_def split: sum.split)
qed

lemma allocatedSets_same:
  assumes "allocatedSets E now a n = (r, n1)"
  shows "same_node n n1"
  using assms
  by (auto simp: allocatedSets_def split: option.splits prod.splits intro: allocateLoop_result(1))
    (simp_all add: same_node_def)

lemma allocated_remembered:
  assumes "IsSecondaryIPMode (nrsUseMode (k8sObj n))" "getENI E (aaInterfaceID a) (world n) = Some e"
    "quota n = Some q" "allocatedSets E now a n = (Inr (s4, s6), nl)" "AllocateIPs E now a n = (None, n1)"
    "ip \<in> addresses s4 \<union> addresses s6" "ip \<noteq> []"
  shows "\<exists>m. pendingIPMutations n1 ip = Some m \<and> present m \<and> Resource (ipInfo m) = eniName e"
    "k8sObj n1 = k8sObj n"
proof -
  have ne: "\<not> (s4 = [] \<and> s6 = [])" using assms(6) by (auto simp: addresses_def)
  obtain x n2 where u: "updateENIWithPoll E (eniName e) (recordAllocated s4 s6) nl = (x, n2)" by fastforce
  have "n1 = rememberPendingAllocatedIPs (eniName e) s6 (rememberPendingAllocatedIPs (eniName e) s4 n2)"
    using assms(5) AllocateIPs_eq [OF assms(1-4)] ne u by (cases x) auto
  then show "\<exists>m. pendingIPMutations n1 ip = Some m \<and> present m \<and> Resource (ipInfo m) = eniName e"
    "k8sObj n1 = k8sObj n"
    using assms(6,7) updateENIWithPoll_fields(2) [OF u] allocatedSets_same [OF assms(4)]
    by (auto simp: remembered_allocated pool_entry_def same_node_def)
qed

section \<open>A concrete node\<close>

text \<open>A node with one interface \<open>e\<close> with the addresses \<open>1.1.1.1\<close> and, for the management of the
  interface, \<open>1.1.1.9\<close>. The cache never changes; \<open>dCloud\<close> are the addresses the cloud has,
  \<open>dFail\<close> the number of calls that fail next and \<open>dTime\<close> the number of waits before the deadline.\<close>

record eni_demo =
  dENIs :: "ENI list"
  dCloud :: "string list"
  dFail :: nat
  dTime :: nat

definition demo_ip :: "string \<Rightarrow> bool \<Rightarrow> PrivateIP" where
  "demo_ip a p = \<lparr>PrivateIPAddress = a, ipPrimary = p, ipSubnetID = ''s''\<rparr>"

definition demo_eni :: "PrivateIP list \<Rightarrow> ENI" where
  "demo_eni v6 = \<lparr>eniName = ''e'', eniID = ''e'', eniSubnetID = ''s'', eniType = ''bcc'',
     eniUseMode = ENIUseModeSecondaryIP, VPCVersion = 1, CreationTimestamp = 0, deleting = False,
     finalizers = [], IPv6PrimaryNote = [], IPv4Set = [demo_ip ''1.1.1.9'' True, demo_ip ''1.1.1.1'' False],
     IPv6Set = v6, VPCStatus = VPCENIStatusInuse, CCEStatus = ENIStatusReadyOnNode\<rparr>"

definition demo_env :: "bool \<Rightarrow> eni_demo eni_env" where
  "demo_env v6 = \<lparr>EnableIPv4 = True, EnableIPv6 = v6, resyncInterval = 300 * second,
     listENIs = (\<lambda>w. Inr (dENIs w)), byAge = (\<lambda>es. es),
     getENI = (\<lambda>nm w. List.find (\<lambda>e. eniName e = nm) (dENIs w)), subnetLister = (\<lambda>s w. None),
     updateENI = (\<lambda>e w. (True, w)), updateStatusENI = (\<lambda>e w. (True, w)), pollTick = (\<lambda>w. (False, w)),
     retryWait = (\<lambda>w. case dTime w of 0 \<Rightarrow> (Some ''context deadline exceeded'', w)
                      | Suc t \<Rightarrow> (None, w\<lparr>dTime := t\<rparr>)),
     realAllocate = (\<lambda>a n4 n6 w. ((if n4 > 0 then [demo_ip ''1.1.1.2'' False] else [], [], None), w)),
     realRelease = (\<lambda>ra v4 v6 w. case dFail w of
                      0 \<Rightarrow> (None, w\<lparr>dCloud := filter (\<lambda>x. x \<notin> set v4 \<union> set v6) (dCloud w)\<rparr>)
                    | Suc k \<Rightarrow> (Some ''timeout'', w\<lparr>dFail := k\<rparr>)),
     realCreate = (\<lambda>a w. ((0, [], Some ''SubnetHasNoMoreIpException''), w)), forceGet = (\<lambda>w. ((0, [], None), w)),
     refreshSubnets = (\<lambda>w. (None, w)), refreshCapacity = (\<lambda>e i w. w),
     statENI = (\<lambda>i w. (Inr (dCloud w), w)),
     pendOrder = (\<lambda>m. filter (\<lambda>ip. m ip \<noteq> None) [''1.1.1.1'', ''1.1.1.2''])\<rparr>"

definition demo_k8s :: CloudNRS where
  "demo_k8s = \<lparr>nrsName = ''n'', ResourceVersion = [], OwnerReferences = [], Annotations = Map.empty,
     SpecIPAM = \<lparr>Pool = None, PodCIDRs = [], MinAllocate = 0, MaxAllocate = 0, PreAllocate = 0,
       MaxAboveWatermark = 0, PodCIDRAllocationThreshold = 0, PodCIDRReleaseThreshold = 0\<rparr>,
     SpecENI = None,
     StatusIPAM = \<lparr>Used = Map.empty, PodCIDRsStatus = Map.empty, VPCRouteCIDRs = Map.empty, OperatorError = [],
       ReleaseIPs = Map.empty, AvailableSubnetIDs = []\<rparr>,
     StatusENIs = [], PrivateCloud = None, nrsUseMode = ENIUseModeSecondaryIP, PreAllocateENI = 1\<rparr>"

definition demo_node :: "PrivateIP list \<Rightarrow> nat \<Rightarrow> nat \<Rightarrow> eni_demo bceNode" where
  "demo_node v6 fails time = \<lparr>k8sObj = demo_k8s, quota = Some (2, 8),
     creatingEni = \<lparr>creatingENI = [], creatingENINums = 0\<rparr>, pendingIPMutations = Map.empty,
     expiredVPCVersion = Map.empty, availableIPsNumber = 0, lastCreateInterfaceFailure = None,
     bsm = Map.empty, allocErrors = Map.empty,
     world = \<lparr>dENIs = [demo_eni v6], dCloud = [''1.1.1.9'', ''1.1.1.1''], dFail = fails, dTime = time\<rparr>\<rparr>"

lemmas demo_defs = demo_ip_def demo_eni_def demo_env_def demo_k8s_def demo_node_def

definition demo_release :: "string list \<Rightarrow> ReleaseAction" where
  "demo_release ips = \<lparr>raInterfaceID = ''e'', raPoolID = ''s'', IPsToRelease = ips\<rparr>"

lemma demo_laws: "release_laws (demo_env v6) (\<lambda>i w ip. ip \<notin> set (dCloud w))"
  unfolding release_laws_def demo_env_def
  by (auto simp: releaseFailed_def split: nat.splits if_splits)

lemma demo_deadline: "deadline (demo_env v6) dTime"
  unfolding deadline_def demo_env_def by (auto split: nat.splits)

lemma demo_parse [simp]: "ParseIP ''1.1.1.1'' = Some [0, 0, 0, 0, 0, 0, 0, 0, 0, 0, 255, 255, 1, 1, 1, 1]"
  by (simp add: go_eval)

lemma demo_batch [simp]:
  "batch_v4 (demo_eni v6) [''1.1.1.1''] = [''1.1.1.1'']" "batch_v6 (demo_eni v6) [''1.1.1.1''] = []"
  by (simp_all add: batch_v4_def batch_v6_def addresses_def demo_defs to4_def v4InV6Prefix_def replicate_numeral_eval)

lemma demo_release_run:
  "releaseLoop (demo_env v6) (demo_release [''1.1.1.1'']) (demo_eni v6') [] [''1.1.1.1'']
     \<lparr>dENIs = es, dCloud = [''1.1.1.9'', ''1.1.1.1''], dFail = 0, dTime = t\<rparr> =
   Some (([''1.1.1.1''], None), \<lparr>dENIs = es, dCloud = [''1.1.1.9''], dFail = 0, dTime = t\<rparr>)"
  by (subst releaseLoop.simps)
    (simp add: attemptBatchRelease_def BatchAddOrDeleteIPLimit_def releaseFailed_def demo_env_def)

lemma demo_update [simp]:
  "updateENIWithPoll (demo_env v6) ''e'' f (n\<lparr>world := \<lparr>dENIs = [demo_eni v6'], dCloud = c, dFail = k, dTime = t\<rparr>\<rparr>) =
   (None, n\<lparr>world := \<lparr>dENIs = [demo_eni v6'], dCloud = c, dFail = k, dTime = t\<rparr>,
            expiredVPCVersion := (expiredVPCVersion n)(''e'' \<mapsto> 1)\<rparr>)"
  by (simp add: updateENIWithPoll_def updateAttempts_def eval_nat_numeral demo_env_def demo_eni_def)

lemma demo_get [simp]:
  "getENI (demo_env v6) ''e'' \<lparr>dENIs = [demo_eni v6'], dCloud = c, dFail = k, dTime = t\<rparr> = Some (demo_eni v6')"
  "eniName (demo_eni v6') = ''e''" "raInterfaceID (demo_release ips) = ''e''"
  "IPsToRelease (demo_release ips) = ips"
  by (simp_all add: demo_env_def demo_eni_def demo_release_def)

lemma demo_world: "world (demo_node v6 k t) =
    \<lparr>dENIs = [demo_eni v6], dCloud = [''1.1.1.9'', ''1.1.1.1''], dFail = k, dTime = t\<rparr>"
  by (simp add: demo_node_def)

lemma demo_get_node: "getENI (demo_env v6) ''e'' (world (demo_node v6' k t)) = Some (demo_eni v6')"
  by (simp add: demo_world)

lemma demo_ReleaseIPs:
  obtains n' m where "ReleaseIPs (demo_env v6) (Some (demo_release [''1.1.1.1''])) (demo_node [] 0 t) =
      Some (([''1.1.1.1''], None), n')"
    "pendingIPMutations n' = [''1.1.1.1'' \<mapsto> m]"
    "dENIs (world n') = [demo_eni []]"
  by (simp add: ReleaseIPs_def releaseBatchIPsWithRetry_def demo_release_run Let_def demo_world
      updateENIWithReleasedIPs_def remembered_released)
    (simp add: rememberPendingReleasedIPs_def demo_node_def)

lemma demo_shown:
  assumes "dENIs (world n) = [demo_eni []]"
  shows "shown (demo_env v6) n = [''1.1.1.1'' \<mapsto> pool_entry ''e'' (demo_ip ''1.1.1.1'' False)]"
  using assms
  by (simp add: resyncCollect_def ForeachInstanceWithAllEni_def resyncOne_def Let_def demo_defs
      addAllocationIP_def removeCreatingENI_def VPCENIStatusInuse_def ENIStatusReadyOnNode_def
      ENIMSGPCIERROR_def ENIStatusUsingInPod_def ENIUseModeSecondaryIP_def ENIUseModePrimaryIP_def
      ENIUseModePrimaryWithSecondaryIP_def ENIForBBC_def)

section \<open>Properties\<close>



text \<open>
  Releasing addresses ends when the context has a deadline: then every wait before a retry
  uses up some of the time left, and \<open>ReleaseIPs\<close> returns whatever the cloud answers.
\<close>

theorem ReleaseIPs_returns:
  assumes "deadline E left"
  shows "\<exists>r. ReleaseIPs E ra n = Some r"
proof (cases ra)
  case None
  then show ?thesis by (simp add: ReleaseIPs_def)
next
  case (Some r)
  have "\<exists>y. releaseBatchIPsWithRetry E r (IPsToRelease r) (world n) = Some y"
    using releaseLoop_returns [OF assms] by (auto simp: releaseBatchIPsWithRetry_def split: option.split)
  then obtain ok err w where "releaseBatchIPsWithRetry E r (IPsToRelease r) (world n) = Some ((ok, err), w)"
    by auto
  then show ?thesis using Some by (simp add: ReleaseIPs_def Let_def split: option.split prod.split)
qed

theorem ReleaseIPs_returns_witness:
  "\<exists>r. ReleaseIPs (demo_env False) (Some (demo_release [''1.1.1.1''])) (demo_node [] 7 3) = Some r"
  by (rule ReleaseIPs_returns [OF demo_deadline])

text \<open>
  Without a deadline releasing may never return. The pool maintenance calls it with
  \<open>context.TODO()\<close>, which is never done; when the cloud keeps answering the release with an error that
  is not definitive (a time-out, say) and cannot be asked which addresses are left, the loop goes on
  for ever and the pool of the node is not maintained any more.
\<close>

theorem ReleaseIPs_never_returns:
  assumes "\<forall>ra v4 v6 w. fst (realRelease E ra v4 v6 w) = Some err"
    and "\<not> isDefinitiveError err" "\<not> contains_substring err ''PrivateIpInvalid''"
    and "\<forall>i w. is_err (fst (statENI E i w))" and "\<forall>w. fst (retryWait E w) = None"
    and "getENI E (raInterfaceID ra) (world n) = Some e"
    and "IPsToRelease ra \<noteq> []" "batch_v4 e (IPsToRelease ra) = IPsToRelease ra"
  shows "ReleaseIPs E (Some ra) n = None"
proof -
  have attempt: "\<exists>w1. attemptBatchRelease E ra ips e w = (Some err, w1)"
    if "length ips \<le> BatchAddOrDeleteIPLimit" "batch_v4 e ips \<noteq> []" for ips w
  proof -
    obtain w1 where "realRelease E ra (batch_v4 e ips) [] w = (Some err, w1)"
      using assms(1) by (metis prod.collapse)
    then show ?thesis using that assms(3) by (simp add: attemptBatchRelease_def releaseFailed_def)
  qed
  have batch: "batch_v4 e (now_batch rem) \<noteq> []" if "rem \<noteq> []" "batch_v4 e rem = rem" for rem
  proof -
    have "hd rem \<in> set (batch_v4 e rem)" using that by simp
    then show ?thesis using that(1) by (cases rem) (auto simp: batch_v4_def BatchAddOrDeleteIPLimit_def)
  qed
  have unknown: "q = ips" if "verifyReleasedIPs E (raInterfaceID ra) ips w = ((v, q), w')" for ips w v q w'
    using that assms(4) [rule_format, of "raInterfaceID ra" w]
    by (cases "statENI E (raInterfaceID ra) w"; cases "fst (statENI E (raInterfaceID ra) w)")
      (auto simp: verifyReleasedIPs_def)
  have "False" if "releaseLoop E ra e ok rem w = Some y" "rem \<noteq> []" "batch_v4 e rem = rem" for ok rem w y
    using that
  proof (induction rule: releaseLoop_induct)
    case (finished ok w)
    then show ?case by simp
  next
    case (released ok rem w w1 y)
    with attempt [of "now_batch rem" w] batch show ?case by auto
  next
    case (definitive ok rem w w1 err')
    with attempt [of "now_batch rem" w] batch assms(2) show ?case by auto
  next
    case (verified ok rem w w1 err' v w2)
    with unknown have "now_batch rem = []" by metis
    with verified show ?case by (simp add: BatchAddOrDeleteIPLimit_def)
  next
    case (stopped ok rem w w1 err1 v p w2 err2 w3)
    with assms(5) show ?case by (metis fst_conv option.distinct(1))
  next
    case (retry ok rem w w1 err1 v q w2 w3 y)
    have "q = now_batch rem" by (rule unknown [OF retry(4)])
    with retry show ?case by simp
  qed
  then have "releaseLoop E ra e [] (IPsToRelease ra) (world n) = None"
    using assms(7,8) by (metis not_None_eq)
  with assms(6,7) show ?thesis by (simp add: ReleaseIPs_def releaseBatchIPsWithRetry_def)
qed

theorem ReleaseIPs_never_returns_witness:
  "ReleaseIPs ((demo_env False)\<lparr>realRelease := (\<lambda>ra v4 v6 w. (Some ''timeout'', w)),
      statENI := (\<lambda>i w. (Inl ''timeout'', w)), retryWait := (\<lambda>w. (None, w))\<rparr>)
     (Some (demo_release [''1.1.1.1''])) (demo_node [] 0 0) = None"
proof (rule ReleaseIPs_never_returns [where err = "''timeout''" and e = "demo_eni []"])
  show "\<not> isDefinitiveError ''timeout''"
    by (simp add: isDefinitiveError_def ReasonForError_def reasonTable_def caseInsensitiveContains_def
        lower_char_def)
qed (simp_all add: demo_world demo_get)

text \<open>
  C19: An address \<open>ReleaseIPs\<close> reports as released stays out of the pool of the node while the
  informer's cache still shows it: in every history of resynchronisations after it, each pool up to
  and including the first one whose cache has lost the address is without it.
\<close>

theorem released_stays_out_of_pool:
  assumes "ReleaseIPs E (Some ra) n = Some ((ok, err), n1)" "getENI E (raInterfaceID ra) (world n) = Some e"
    and "ip \<in> set ok" "ip \<noteq> []" "nrsUseMode (k8sObj n) \<noteq> ENIUseModePrimaryIP"
    and "resyncs E n1 h n2" "i < length h" "\<forall>j<i. fst (h ! j) ip \<noteq> None"
  shows "snd (h ! i) ip = None"
proof -
  obtain m where m: "pendingIPMutations n1 ip = Some m" "\<not> present m"
    using released_withheld(1) [OF assms(1-4)] by blast
  have "nrsUseMode (k8sObj n1) \<noteq> ENIUseModePrimaryIP"
    using released_withheld(2) [OF assms(1-4)] assms(5) by simp
  with resyncs_corrected [OF assms(6) _ m(1)] assms(7,8) m(2)
  have "corrected m ip (h ! i)" by (auto simp: confirmed_def)
  with m(2) show ?thesis by (simp add: corrected_def)
qed

theorem released_stays_out_of_pool_witness:
  "\<exists>n1. ReleaseIPs (demo_env False) (Some (demo_release [''1.1.1.1''])) (demo_node [] 0 3) =
      Some (([''1.1.1.1''], None), n1) \<and> shown (demo_env False) n1 ''1.1.1.1'' \<noteq> None \<and>
    snd (fst (ResyncInterfacesAndIPs (demo_env False) 0 n1)) ''1.1.1.1'' = None"
proof -
  let ?E = "demo_env False"
  obtain n1 m where r: "ReleaseIPs ?E (Some (demo_release [''1.1.1.1''])) (demo_node [] 0 3) =
      Some (([''1.1.1.1''], None), n1)"
    and p: "pendingIPMutations n1 = [''1.1.1.1'' \<mapsto> m]"
    and w: "dENIs (world n1) = [demo_eni []]"
    by (rule demo_ReleaseIPs)
  have io: "iter_order (pendOrder ?E (pendingIPMutations n1)) (pendingIPMutations n1)"
    by (simp add: p iter_order_def demo_env_def)
  obtain x spawn n2 where "ResyncInterfacesAndIPs ?E 0 n1 = (x, spawn, n2)"
    by (rule prod_cases3)
  then obtain err pool where s: "ResyncInterfacesAndIPs ?E 0 n1 = ((err, pool), spawn, n2)"
    by (cases x) auto
  have "pool ''1.1.1.1'' = None"
    using released_stays_out_of_pool [OF r _ _ _ _ resyncs.resync [OF resyncs.start io s],
        of "demo_eni []" "''1.1.1.1''" 0]
    by (simp add: demo_get_node demo_node_def demo_k8s_def ENIUseModePrimaryIP_def ENIUseModeSecondaryIP_def)
  then show ?thesis using r s w by (auto simp: demo_shown)
qed


text \<open>
  C21: What the node chooses to release. All addresses chosen are on one interface that is ready and
  not in primary mode; none is a primary address, belongs to another subnet or is in use; and they
  are not more than the excess, but for one address when both families are enabled.
\<close>

theorem PrepareIPRelease_safe:
  assumes "IPsToRelease (PrepareIPRelease E excess n) \<noteq> []"
  shows "\<exists>enis e. listENIs E (world n) = Inr enis \<and> e \<in> set enis \<and> ready e \<and>
    eniUseMode e \<noteq> ENIUseModePrimaryIP \<and> raInterfaceID (PrepareIPRelease E excess n) = eniID e \<and>
    (\<forall>ip\<in>set (IPsToRelease (PrepareIPRelease E excess n)). used n ip = None \<and>
       (\<exists>a\<in>set (IPv4Set e) \<union> set (IPv6Set e). PrivateIPAddress a = ip \<and> \<not> ipPrimary a \<and>
          ipSubnetID a = eniSubnetID e)) \<and>
    int (length (IPsToRelease (PrepareIPRelease E excess n))) \<le>
      max 0 (if EnableIPv4 E \<and> EnableIPv6 E then excess + 1 else excess)"
proof -
  let ?r0 = "\<lparr>raInterfaceID = [], raPoolID = [], IPsToRelease = []\<rparr>"
  obtain enis where l: "listENIs E (world n) = Inr enis"
    using assms by (cases "listENIs E (world n)") (auto simp: PrepareIPRelease_def ForeachInstanceReadyOnNode_def)
  define es where "es = filter ready (foldr insertENI enis [])"
  define r where "r = PrepareIPRelease E excess n"
  have r: "r = snd (iterate (prepareReleaseOne E (used n) excess) es ?r0)"
    by (simp add: r_def PrepareIPRelease_def ForeachInstanceReadyOnNode_def l es_def)
  define Q where "Q r \<longleftrightarrow> (\<exists>e\<in>set enis. ready e \<and> eniUseMode e \<noteq> ENIUseModePrimaryIP \<and>
    raInterfaceID r = eniID e \<and>
    (\<forall>ip\<in>set (IPsToRelease r). used n ip = None \<and>
       (\<exists>a\<in>set (IPv4Set e) \<union> set (IPv6Set e). PrivateIPAddress a = ip \<and> \<not> ipPrimary a \<and>
          ipSubnetID a = eniSubnetID e)) \<and>
    int (length (IPsToRelease r)) \<le>
      max 0 (if EnableIPv4 E \<and> EnableIPv6 E then excess + 1 else excess))" for r :: ReleaseAction
  have "IPsToRelease r = [] \<or> Q r"
    unfolding r
  proof (rule prepareRelease_chosen)
    fix e c
    assume e: "e \<in> set es" "eniUseMode e \<noteq> ENIUseModePrimaryIP"
      and c: "freeCounts (EnableIPv4 E) (EnableIPv6 E) excess (length (IPv4Set e)) (length (IPv6Set e))
        (length (freeIPs (used n) e (IPv4Set e))) (length (freeIPs (used n) e (IPv6Set e))) = c"
    obtain c4 c6 where cc: "c = (c4, c6)" by fastforce
    note b = freeCounts_bound [OF c [unfolded cc]]
    have t: "int (length (take (nat k) xs)) \<le> max 0 k" for k and xs :: "string list" by simp
    have "set (take k (freeIPs (used n) e as)) \<subseteq> PrivateIPAddress ` {a \<in> set as. freeOnENI (used n) e a}" for k as
      using set_take_subset by (fastforce simp: freeIPs_def)
    then have sub: "\<exists>a\<in>set as. PrivateIPAddress a = ip \<and> freeOnENI (used n) e a"
      if "ip \<in> set (take k (freeIPs (used n) e as))" for k as ip using that by blast
    have len: "int (length (take (nat c4) (freeIPs (used n) e (IPv4Set e)) @
        take (nat c6) (freeIPs (used n) e (IPv6Set e)))) \<le>
      max 0 (if EnableIPv4 E \<and> EnableIPv6 E then excess + 1 else excess)"
      using b(1) t [of c4 "freeIPs (used n) e (IPv4Set e)"] t [of c6 "freeIPs (used n) e (IPv6Set e)"] by simp
    have each: "used n ip = None \<and> (\<exists>a\<in>set (IPv4Set e) \<union> set (IPv6Set e). PrivateIPAddress a = ip \<and>
          \<not> ipPrimary a \<and> ipSubnetID a = eniSubnetID e)"
      if "ip \<in> set (take (nat c4) (freeIPs (used n) e (IPv4Set e)) @
        take (nat c6) (freeIPs (used n) e (IPv6Set e)))" for ip
      using that sub [of ip "nat c4" "IPv4Set e"] sub [of ip "nat c6" "IPv6Set e"]
      by (auto simp: freeOnENI_def)
    have "e \<in> set enis" "ready e" using e(1) by (simp_all add: es_def)
    with e(2) each len show "Q \<lparr>raInterfaceID = eniID e, raPoolID = eniSubnetID e,
        IPsToRelease = take (nat (fst c)) (freeIPs (used n) e (IPv4Set e)) @
                       take (nat (snd c)) (freeIPs (used n) e (IPv6Set e))\<rparr>"
      unfolding Q_def by (intro bexI [of _ e] conjI) (simp_all add: cc)
  qed simp
  with assms l show ?thesis unfolding r_def [symmetric] Q_def by blast
qed

theorem PrepareIPRelease_safe_witness:
  "IPsToRelease (PrepareIPRelease (demo_env True) 1 (demo_node [demo_ip ''2::1'' False, demo_ip ''2::2'' False] 0 0)) =
     [''1.1.1.1'', ''2::1''] \<and>
   ready (demo_eni [demo_ip ''2::1'' False, demo_ip ''2::2'' False])"
proof -
  let ?v6 = "[demo_ip ''2::1'' False, demo_ip ''2::2'' False]"
  have r: "IPsToRelease (PrepareIPRelease (demo_env True) 1 (demo_node ?v6 0 0)) = [''1.1.1.1'', ''2::1'']"
    by (simp add: PrepareIPRelease_def ForeachInstanceReadyOnNode_def prepareReleaseOne_def Let_def demo_defs
        ready_def freeIPs_def freeOnENI_def freeCounts_def used_def VPCENIStatusInuse_def
        VPCENIStatusAttaching_def VPCENIStatusDetaching_def VPCENIStatusDeleted_def
        ENIUseModeSecondaryIP_def ENIUseModePrimaryIP_def)
  from PrepareIPRelease_safe [of "demo_env True" 1 "demo_node ?v6 0 0"] r
  show ?thesis by (auto simp: demo_env_def demo_node_def)
qed

text \<open>
  C22: An address \<open>AllocateIPs\<close> has recorded is in the pool of the node, on its interface, at once and
  in every resynchronisation up to the first one whose cache shows it there. (So an address whose
  interface is deleted before any resynchronisation has seen the address stays in the pool for ever.)
\<close>

theorem allocated_stays_in_pool:
  assumes "IsSecondaryIPMode (nrsUseMode (k8sObj n))" "getENI E (aaInterfaceID a) (world n) = Some e"
    and "quota n = Some q" "allocatedSets E now a n = (Inr (s4, s6), nl)" "AllocateIPs E now a n = (None, n1)"
    and "ip \<in> addresses s4 \<union> addresses s6" "ip \<noteq> []" "resyncs E n1 h n2" "i < length h"
    and "\<forall>j<i. \<forall>x. fst (h ! j) ip = Some x \<longrightarrow> Resource x \<noteq> eniName e"
  shows "\<exists>x. snd (h ! i) ip = Some x \<and> Resource x = eniName e"
proof -
  obtain m where m: "pendingIPMutations n1 ip = Some m" "present m" "Resource (ipInfo m) = eniName e"
    using allocated_remembered(1) [OF assms(1-7)] by blast
  have "nrsUseMode (k8sObj n1) \<noteq> ENIUseModePrimaryIP"
    using allocated_remembered(2) [OF assms(1-7)] assms(1)
    by (auto simp: IsSecondaryIPMode_def ENIUseModePrimaryIP_def ENIUseModeSecondaryIP_def
        ENIUseModePrimaryWithSecondaryIP_def)
  with resyncs_corrected [OF assms(8) _ m(1)] assms(9,10) m(2,3)
  have "corrected m ip (h ! i)" by (auto simp: confirmed_def split: option.splits)
  with m show ?thesis by (auto simp: corrected_def)
qed

definition demo_action :: AllocationAction where
  "demo_action = \<lparr>aaInterfaceID = ''e'', aaPoolID = ''s'', AvailableForAllocationIPv4 = 1,
     AvailableForAllocationIPv6 = 0, MaxIPsToAllocate = 1, AvailableInterfaces = 0\<rparr>"

lemma demo_allocated:
  "allocatedSets (demo_env False) 0 demo_action (demo_node [] 0 0) =
     (Inr ([demo_ip ''1.1.1.2'' False], []), demo_node [] 0 0)"
  by (simp add: allocatedSets_def demo_action_def demo_node_def demo_env_def demo_eni_def allocateCounts_def
      allocateLoop.simps batchOf_def BatchAddOrDeleteIPLimit_def appenUniqueElement_def addresses_def
      borrowDone_def GetSubnet_def)

theorem allocated_stays_in_pool_witness:
  "\<exists>n1. AllocateIPs (demo_env False) 0 demo_action (demo_node [] 0 0) = (None, n1) \<and>
     (\<exists>x. snd (fst (ResyncInterfacesAndIPs (demo_env False) 0 n1)) ''1.1.1.2'' = Some x \<and> Resource x = ''e'')"
proof -
  let ?E = "demo_env False"
  let ?n = "demo_node [] 0 0"
  have mode: "IsSecondaryIPMode (nrsUseMode (k8sObj ?n))"
    by (simp add: demo_node_def demo_k8s_def IsSecondaryIPMode_def)
  have q: "quota ?n = Some (2, 8)" by (simp add: demo_node_def)
  have g: "getENI ?E (aaInterfaceID demo_action) (world ?n) = Some (demo_eni [])"
    by (simp add: demo_action_def demo_get_node)
  have u: "updateENIWithPoll ?E ''e'' f ?n = (None, ?n\<lparr>expiredVPCVersion := [''e'' \<mapsto> 1]\<rparr>)" for f
    using demo_update [of False f "[]" "[''1.1.1.9'', ''1.1.1.1'']" 0 0 "?n"] by (simp add: demo_node_def)
  define n1 where "n1 = rememberPendingAllocatedIPs ''e'' []
    (rememberPendingAllocatedIPs ''e'' [demo_ip ''1.1.1.2'' False] (?n\<lparr>expiredVPCVersion := [''e'' \<mapsto> 1]\<rparr>))"
  have a: "AllocateIPs ?E 0 demo_action ?n = (None, n1)"
    using AllocateIPs_eq [OF mode g q demo_allocated] u by (simp add: n1_def)
  have "iter_order (pendOrder ?E (pendingIPMutations n1)) (pendingIPMutations n1)"
    by (simp add: n1_def rememberPendingAllocatedIPs_def demo_node_def demo_env_def iter_order_def demo_ip_def)
  note io = this
  obtain x spawn n2 where "ResyncInterfacesAndIPs ?E 0 n1 = (x, spawn, n2)" by (rule prod_cases3)
  then obtain err pool where s: "ResyncInterfacesAndIPs ?E 0 n1 = ((err, pool), spawn, n2)" by (cases x) auto
  have "\<exists>x. pool ''1.1.1.2'' = Some x \<and> Resource x = ''e''"
    using allocated_stays_in_pool [OF mode g q demo_allocated a _ _ resyncs.resync [OF resyncs.start io s],
        of "''1.1.1.2''" 0] by (simp add: addresses_def demo_ip_def)
  with a s show ?thesis by simp
qed

text \<open>
  C23: Allocating respects the quota of the interface. As long as the cloud never gives more addresses
  than it is asked for, the addresses allocated in all batches together do not take a family of the
  interface above the quota, and with both families the smaller set does not overtake the larger one,
  which itself does not grow.
\<close>

theorem AllocateIPs_within_quota:
  assumes "gives_at_most E" "quota n = Some (maxENI, maxIP)" "getENI E (aaInterfaceID a) (world n) = Some e"
    and "allocatedSets E now a n = (Inr (s4, s6), n1)"
  shows "int (length (IPv4Set e) + length s4) \<le> max (int (length (IPv4Set e))) maxIP \<and>
    int (length (IPv6Set e) + length s6) \<le> max (int (length (IPv6Set e))) maxIP \<and>
    (EnableIPv4 E \<and> EnableIPv6 E \<longrightarrow>
      (length (IPv4Set e) < length (IPv6Set e) \<longrightarrow>
         s6 = [] \<and> length (IPv4Set e) + length s4 \<le> length (IPv6Set e)) \<and>
      (length (IPv6Set e) < length (IPv4Set e) \<longrightarrow>
         s4 = [] \<and> length (IPv6Set e) + length s6 \<le> length (IPv4Set e)))"
proof -
  obtain c4 c6 where c: "allocateCounts (EnableIPv4 E) (EnableIPv6 E) maxIP a (length (IPv4Set e))
      (length (IPv6Set e)) = (c4, c6)" by fastforce
  have "allocateLoop E now a c4 c6 False [] [] n = (Inr (s4, s6), n1)"
    using assms(2-4) c by (simp add: allocatedSets_def)
  from allocateLoop_result(2) [OF this assms(1) refl]
  have l: "int (length s4) \<le> max 0 c4" "int (length s6) \<le> max 0 c6" by simp_all
  define t4 t6 where "t4 = int (length (IPv4Set e))" and "t6 = int (length (IPv6Set e))"
  have b: "c4 \<le> max 0 (maxIP - t4)" "c6 \<le> max 0 (maxIP - t6)"
    "EnableIPv4 E \<and> EnableIPv6 E \<Longrightarrow> t4 < t6 \<Longrightarrow> c6 = 0 \<and> c4 \<le> t6 - t4"
    "EnableIPv4 E \<and> EnableIPv6 E \<Longrightarrow> t6 < t4 \<Longrightarrow> c4 = 0 \<and> c6 \<le> t4 - t6"
    using c by (auto simp: allocateCounts_def Let_def t4_def t6_def max_def split: if_splits)
  have "t4 + int (length s4) \<le> max t4 maxIP" "t6 + int (length s6) \<le> max t6 maxIP"
    using l b(1,2) by linarith+
  moreover have "s6 = [] \<and> t4 + int (length s4) \<le> t6" if "EnableIPv4 E \<and> EnableIPv6 E" "t4 < t6"
    using b(3) [OF that] l that(2) by auto
  moreover have "s4 = [] \<and> t6 + int (length s6) \<le> t4" if "EnableIPv4 E \<and> EnableIPv6 E" "t6 < t4"
    using b(4) [OF that] l that(2) by auto
  ultimately show ?thesis unfolding t4_def t6_def by auto
qed

theorem AllocateIPs_within_quota_witness:
  "gives_at_most (demo_env False) \<and>
   fst (allocatedSets (demo_env False) 0 demo_action (demo_node [] 0 0)) = Inr ([demo_ip ''1.1.1.2'' False], []) \<and>
   int (length (IPv4Set (demo_eni [])) + 1) \<le> max (int (length (IPv4Set (demo_eni [])))) 8"
proof -
  have g: "gives_at_most (demo_env False)" by (simp add: gives_at_most_def demo_env_def)
  have q: "quota (demo_node [] 0 0) = Some (2, 8)" by (simp add: demo_node_def)
  have e: "getENI (demo_env False) (aaInterfaceID demo_action) (world (demo_node [] 0 0)) = Some (demo_eni [])"
    by (simp add: demo_action_def demo_get_node)
  from AllocateIPs_within_quota [OF g q e demo_allocated] g demo_allocated show ?thesis by simp
qed

text \<open>
  Addresses the cloud has given can be lost. On a BCC node with both families, when the cloud
  gives the IPv4 addresses of the first batch and refuses the IPv6 addresses, \<open>AllocateIPs\<close> returns
  the error and neither writes the object of the interface nor remembers the IPv4 addresses: they
  stay allocated on the interface in the cloud, out of the pool.
\<close>

theorem bcc_partial_allocation_lost:
  assumes "realAllocate E = bcc_allocateIPs batchAdd handleError"
    and "IsSecondaryIPMode (nrsUseMode (k8sObj n))" "quota n = Some (maxENI, maxIP)"
    and "getENI E (aaInterfaceID a) (world n) = Some e"
    and "allocateCounts (EnableIPv4 E) (EnableIPv6 E) maxIP a (length (IPv4Set e)) (length (IPv6Set e)) = (k, j)"
    and "k > 0" "j > 0"
    and "batchAdd (aaInterfaceID a) (batchOf k) False (world n) = (Inr ips, u)"
    and "batchAdd (aaInterfaceID a) (batchOf j) True u = (Inl err, v)"
  shows "\<exists>n'. AllocateIPs E now a n = (Some (''allocate ipv6 to eni failed: '' @ err), n') \<and>
    world n' = handleError err (aaPoolID a) v \<and> pendingIPMutations n' = pendingIPMutations n"
proof -
  have "batchOf k > 0" "batchOf j > 0"
    using assms(6,7) by (auto simp: batchOf_def BatchAddOrDeleteIPLimit_def)
  then have r: "realAllocate E a (batchOf k) (batchOf j) (world n) =
      ((newIPs a ips, [], Some (''allocate ipv6 to eni failed: '' @ err)), handleError err (aaPoolID a) v)"
    by (simp add: assms(1,8,9) bcc_allocateIPs_def)
  have "allocateLoop E now a k j False [] [] n =
      (Inl (''allocate ipv6 to eni failed: '' @ err),
       appendAllocatedIPError now (aaInterfaceID a) (n\<lparr>world := handleError err (aaPoolID a) v\<rparr>))"
    using assms(6) r by (simp add: allocateLoop.simps [of E now a k j])
  then have "allocatedSets E now a n = (Inl (''allocate ipv6 to eni failed: '' @ err),
       appendAllocatedIPError now (aaInterfaceID a) (n\<lparr>world := handleError err (aaPoolID a) v\<rparr>))"
    using assms(3-5) by (simp add: allocatedSets_def)
  from AllocateIPs_eq [OF assms(2,4,3) this] show ?thesis
    by (simp add: appendAllocatedIPError_def)
qed

theorem bcc_partial_allocation_lost_witness:
  "\<exists>n'. AllocateIPs ((demo_env True)\<lparr>realAllocate := bcc_allocateIPs
        (\<lambda>i k v6 w. if v6 then (Inl ''quota'', w) else (Inr [''1.1.1.2''], w\<lparr>dCloud := ''1.1.1.2'' # dCloud w\<rparr>))
        (\<lambda>e s w. w)\<rparr>) 0 (demo_action\<lparr>AvailableForAllocationIPv6 := 1\<rparr>)
      (demo_node [demo_ip ''2::1'' True, demo_ip ''2::2'' False] 0 0) =
    (Some ''allocate ipv6 to eni failed: quota'', n') \<and>
   ''1.1.1.2'' \<in> set (dCloud (world n')) \<and> pendingIPMutations n' ''1.1.1.2'' = None"
proof -
  let ?v6 = "[demo_ip ''2::1'' True, demo_ip ''2::2'' False]"
  let ?add = "\<lambda>(i::string) (k::int) v6 w. if v6 then (Inl ''quota'', w)
      else (Inr [''1.1.1.2''], w\<lparr>dCloud := ''1.1.1.2'' # dCloud w\<rparr>)"
  let ?E = "(demo_env True)\<lparr>realAllocate := bcc_allocateIPs ?add (\<lambda>e s w. w)\<rparr>"
  let ?a = "demo_action\<lparr>AvailableForAllocationIPv6 := 1\<rparr>"
  let ?n = "demo_node ?v6 0 0"
  have "\<exists>n'. AllocateIPs ?E 0 ?a ?n = (Some (''allocate ipv6 to eni failed: '' @ ''quota''), n') \<and>
      world n' = (world ?n)\<lparr>dCloud := ''1.1.1.2'' # dCloud (world ?n)\<rparr> \<and>
      pendingIPMutations n' = pendingIPMutations ?n"
    by (rule bcc_partial_allocation_lost [where batchAdd = ?add and handleError = "\<lambda>e s w. w" and
          maxENI = 2 and maxIP = 8 and e = "demo_eni ?v6" and k = 1 and j = 1 and ips = "[''1.1.1.2'']" and
          u = "(world ?n)\<lparr>dCloud := ''1.1.1.2'' # dCloud (world ?n)\<rparr>"])
      (simp_all add: demo_node_def demo_k8s_def IsSecondaryIPMode_def demo_action_def allocateCounts_def Let_def,
       simp_all add: demo_env_def demo_eni_def)
  then show ?thesis by (auto simp: demo_node_def)
qed

text \<open>
  The election of the primary IPv6 address of an interface can leave two. When the address
  elected before (the annotation) is not the first one of the set and none before it is primary, the
  search marks it but does not count it as found; the first address becomes primary as well and
  takes the annotation over.
\<close>

theorem ElectENIIPv6PrimaryIP_two_primaries:
  assumes "IPv6Set e = as @ b # bs" "as \<noteq> []" "PrivateIPAddress b = IPv6PrimaryNote e"
    and "\<forall>a\<in>set as. PrivateIPAddress a \<noteq> IPv6PrimaryNote e \<and> \<not> ipPrimary a"
  shows "IPv6Set (ElectENIIPv6PrimaryIP e) =
      (hd as)\<lparr>ipPrimary := True\<rparr> # tl as @ b\<lparr>ipPrimary := True\<rparr> # bs \<and>
    IPv6PrimaryNote (ElectENIIPv6PrimaryIP e) = PrivateIPAddress (hd as)"
proof -
  have "searchPrimary (IPv6PrimaryNote e) (as @ b # bs) = (False, as @ b\<lparr>ipPrimary := True\<rparr> # bs)"
    using assms(3,4) by (induction as) auto
  then show ?thesis
    using assms(1,2) by (cases as) (simp_all add: ElectENIIPv6PrimaryIP_def)
qed

theorem ElectENIIPv6PrimaryIP_two_primaries_witness:
  "map ipPrimary (IPv6Set (ElectENIIPv6PrimaryIP
     ((demo_eni [demo_ip ''2::1'' False, demo_ip ''2::2'' False])\<lparr>IPv6PrimaryNote := ''2::2''\<rparr>))) = [True, True]"
proof -
  let ?e = "(demo_eni [demo_ip ''2::1'' False, demo_ip ''2::2'' False])\<lparr>IPv6PrimaryNote := ''2::2''\<rparr>"
  have "IPv6Set ?e = [demo_ip ''2::1'' False] @ demo_ip ''2::2'' False # []" by (simp add: demo_eni_def)
  from ElectENIIPv6PrimaryIP_two_primaries [OF this] show ?thesis by (simp add: demo_ip_def)
qed

end
