(* ===== verification/EniMachine.thy ===== *)
theory EniMachine
  imports EniNode
begin

text \<open>
  The synchronisation of network interface objects with the cloud: \<open>pkg/bce/bcesync/eni.go\<close>, with
  the status logs of \<open>cce_eni_utils.go\<close>. An object of an interface carries the status the cloud last
  reported (\<open>VPCStatus\<close>) and the one the agent reports (\<open>CCEStatus\<close>); the operator's state machine
  attaches an available interface, deletes one that cannot be attached, and copies the interface
  when the cloud has it in use. The cloud, the API server and the informers' caches are the
  parameters of \<open>sync_env\<close>, acting on a state of their own; \<open>calls\<close> records what was asked of them.
  Events and logging are left out, and the cache of the synchroniser, which nothing here reads.
\<close>

section \<open>Objects\<close>

record ENIStatusChange =
  changeMessage :: string
  changeCCE :: string
  changeVPC :: string
  changeTime :: int

record OwnerReference =
  ownerAPIVersion :: string
  ownerKind :: string
  ownerUID :: string

record EniObject = ENI +
  InterfaceIndex :: int
  CCELog :: "ENIStatusChange list"
  VPCLog :: "ENIStatusChange list"
  eniSpecName :: string
  eniInstanceID :: string
  eniVpcID :: string
  eniZone :: string
  eniMac :: string
  eniDescription :: string
  eniSGs :: "string list"
  eniESGs :: "string list"
  eniNodeName :: string
  eniBorrow :: int
  OwnerReferences :: "OwnerReference list"
  instanceLabel :: "string option"
  externalENI :: "string option"

text \<open>An interface as the cloud reports it.\<close>

record vpcEni =
  vpcEniId :: string
  vpcName :: string
  vpcZone :: string
  vpcDescription :: string
  vpcInstanceId :: string
  vpcMac :: string
  vpcVpcId :: string
  vpcSubnetId :: string
  vpcStatus :: string
  vpcIPv4 :: "(string \<times> bool) list"
  vpcIPv6 :: "(string \<times> bool) list"
  vpcSGs :: "string list"
  vpcESGs :: "string list"
  vpcCreatedTime :: string

definition VPCENIStatusAvailable :: string where "VPCENIStatusAvailable = ''available''"
definition ENIStatusErrorOnNode :: string where "ENIStatusErrorOnNode = ''ErrorOnNode''"
definition ENIForBCC :: string where "ENIForBCC = ''bcc''"
definition ENIForHPC :: string where "ENIForHPC = ''rdma_roce''"
definition ENIForERI :: string where "ENIForERI = ''elastic_rdma''"
definition InstanceTypeExHPAS :: string where "InstanceTypeExHPAS = ''hpas''"
definition SchemeGroupVersion :: string where "SchemeGroupVersion = ''cce.baidubce.com/v2''"
definition NRSKindDefinition :: string where "NRSKindDefinition = ''NetResourceSet''"

section \<open>The status logs\<close>

definition AppendVPCStatus :: "int \<Rightarrow> string \<Rightarrow> 'a EniObject_scheme \<Rightarrow> 'a EniObject_scheme" where
  "AppendVPCStatus now st e =
     (if VPCStatus e = st then e
      else (let change = \<lparr>changeMessage = [], changeCCE = [], changeVPC = st, changeTime = now\<rparr>
            in e\<lparr>VPCStatus := st,
                 VPCLog := (if length (VPCLog e) < 20 then VPCLog e
                            else take 18 (drop 1 (VPCLog e))) @ [change]\<rparr>))"

definition AppendCCEENIStatus :: "int \<Rightarrow> string \<Rightarrow> 'a EniObject_scheme \<Rightarrow> 'a EniObject_scheme" where
  "AppendCCEENIStatus now st e =
     (if CCEStatus e = st \<and> st = ENIStatusReadyOnNode then e
      else (let st' = (if st \<noteq> ENIStatusReadyOnNode then ENIStatusErrorOnNode else st);
                change = \<lparr>changeMessage = st, changeCCE = st', changeVPC = [], changeTime = now\<rparr>
            in e\<lparr>CCEStatus := st',
                 CCELog := (if length (CCELog e) < 10 then CCELog e
                            else drop (length (CCELog e) - 9) (CCELog e)) @ [change]\<rparr>))"

section \<open>Environment and calls\<close>

text \<open>An error of the API server is a conflict when the object written is out of date; \<open>Delay\<close> asks the
  work queue to try again later.\<close>

datatype sync_err = SyncErr err | Conflict err | Delay string

fun errText :: "sync_err \<Rightarrow> err" where
  "errText (SyncErr e) = e"
| "errText (Conflict e) = e"
| "errText (Delay e) = e"

definition isConflict :: "sync_err \<Rightarrow> bool" where
  "isConflict e = (case e of Conflict _ \<Rightarrow> True | _ \<Rightarrow> False)"

definition isDelay :: "sync_err \<Rightarrow> bool" where
  "isDelay e = (case e of Delay _ \<Rightarrow> True | _ \<Rightarrow> False)"

text \<open>The two clients of the cloud differ in the way instances are named.\<close>

datatype cloudClient = BCE | HPAS

datatype eniCall = StatCall string "err + vpcEni" | AttachCall string string "err option"
  | DetachCall string string "err option" | DeleteCall string "err option"
  | ReleaseCall "string list" "err option" | CreateCall EniObject "sync_err option"
  | UpdateCall EniObject "sync_err option" | UpdateStatusCall EniObject "sync_err option"
  | DeleteObjectCall string "sync_err option"

text \<open>What is read of a NetResourceSet object here; \<open>nrsENIType\<close> is absent when it has no ENI
  specification.\<close>

record nrsInfo =
  nrsName :: string
  nrsUID :: string
  nrsDeleting :: bool
  nrsType :: string
  nrsENIType :: "string option"
  nrsInstanceID :: string
  nrsHPASID :: string
  nrsMode :: string

datatype nodeLookup = NodeFound | NodeNotFound | NodeError err

record 'w sync_env =
  ReleaseENIs :: bool
  HPASStanderd :: bool
  vpcRouteMode :: bool
  useENIMachine :: bool
  statCloud :: "cloudClient \<Rightarrow> string \<Rightarrow> 'w \<Rightarrow> (err + vpcEni) \<times> 'w"
  attachCloud :: "cloudClient \<Rightarrow> string \<Rightarrow> string \<Rightarrow> 'w \<Rightarrow> err option \<times> 'w"
  detachCloud :: "cloudClient \<Rightarrow> string \<Rightarrow> string \<Rightarrow> 'w \<Rightarrow> err option \<times> 'w"
  deleteCloud :: "cloudClient \<Rightarrow> string \<Rightarrow> 'w \<Rightarrow> err option \<times> 'w"
  deleteCloudIPs :: "bool \<Rightarrow> string \<Rightarrow> string list \<Rightarrow> 'w \<Rightarrow> err option \<times> 'w"
  listCloud :: "cloudClient \<Rightarrow> 'w \<Rightarrow> (err + vpcEni list) \<times> 'w"
  listERIs :: "cloudClient \<Rightarrow> 'w \<Rightarrow> (err + vpcEni list) \<times> 'w"
  eniLister :: "string \<Rightarrow> 'w \<Rightarrow> EniObject option"
  apiGet :: "string \<Rightarrow> 'w \<Rightarrow> sync_err + EniObject"
  apiCreate :: "EniObject \<Rightarrow> 'w \<Rightarrow> (EniObject \<times> sync_err option) \<times> 'w"
  apiUpdate :: "EniObject \<Rightarrow> 'w \<Rightarrow> (EniObject \<times> sync_err option) \<times> 'w"
  apiUpdateStatus :: "EniObject \<Rightarrow> 'w \<Rightarrow> (EniObject \<times> sync_err option) \<times> 'w"
  apiDelete :: "string \<Rightarrow> 'w \<Rightarrow> sync_err option \<times> 'w"
  nrsLister :: "string \<Rightarrow> 'w \<Rightarrow> nrsInfo option"
  GetByInstanceID :: "string \<Rightarrow> 'w \<Rightarrow> err + nrsInfo list"
  GetByHPASID :: "string \<Rightarrow> 'w \<Rightarrow> err + nrsInfo list"
  nodeLister :: "string \<Rightarrow> 'w \<Rightarrow> nodeLookup"
  ensureSubnet :: "string \<Rightarrow> string \<Rightarrow> 'w \<Rightarrow> Subnet option \<times> 'w"
  subnetsOfVPC :: "string \<Rightarrow> 'w \<Rightarrow> Subnet list"
  subnetCache :: "'w \<Rightarrow> string \<rightharpoonup> Subnet"

record 'w syncState =
  sWorld :: 'w
  sBSM :: bsm
  calls :: "eniCall list"

definition perform :: "('w \<Rightarrow> 'r \<times> 'w) \<Rightarrow> ('r \<Rightarrow> eniCall) \<Rightarrow> 'w syncState \<Rightarrow> 'r \<times> 'w syncState" where
  "perform f c s = (case f (sWorld s) of (r, w) \<Rightarrow> (r, s\<lparr>sWorld := w, calls := calls s @ [c r]\<rparr>))"

definition doUpdate :: "'w sync_env \<Rightarrow> EniObject \<Rightarrow> 'w syncState \<Rightarrow> (EniObject \<times> sync_err option) \<times> 'w syncState" where
  "doUpdate E e = perform (apiUpdate E e) (\<lambda>r. UpdateCall e (snd r))"

definition doUpdateStatus :: "'w sync_env \<Rightarrow> EniObject \<Rightarrow> 'w syncState \<Rightarrow> (EniObject \<times> sync_err option) \<times> 'w syncState" where
  "doUpdateStatus E e = perform (apiUpdateStatus E e) (\<lambda>r. UpdateStatusCall e (snd r))"

text \<open>The cloud says that the interface does not exist.\<close>

definition noSuchENI :: "err \<Rightarrow> bool" where
  "noSuchENI e \<longleftrightarrow> ReasonForError e = NoSuchObject \<or> ReasonForError e = ENINotFound"

definition equalFold :: "string \<Rightarrow> string \<Rightarrow> bool" where
  "equalFold a b \<longleftrightarrow> map lower_char a = map lower_char b"

section \<open>Reading an interface from the cloud\<close>

definition GetNrsTypeByInstanceID :: "'w sync_env \<Rightarrow> string \<Rightarrow> 'w \<Rightarrow> err + string" where
  "GetNrsTypeByInstanceID E i w =
     (case (if take 5 i = ''hpas-'' then GetByHPASID E i w else GetByInstanceID E i w) of
        Inl e \<Rightarrow> Inl e
      | Inr nrss \<Rightarrow>
          (case List.find (\<lambda>n. case nrsENIType n of None \<Rightarrow> False
                                 | Some t \<Rightarrow> t \<noteq> ENIForHPC \<and> t \<noteq> ENIForERI) nrss of
             None \<Rightarrow> Inr [] | Some n \<Rightarrow> Inr (the (nrsENIType n))))"

text \<open>\<open>getClientForENI\<close> of the remote synchroniser goes by the type of the instance's ENI
  specification, the one of the state machine by the type of the instance.\<close>

definition remoteClient :: "'w sync_env \<Rightarrow> string \<Rightarrow> 'w \<Rightarrow> cloudClient" where
  "remoteClient E nm w =
     (case eniLister E nm w of
        None \<Rightarrow> BCE
      | Some e \<Rightarrow> if GetNrsTypeByInstanceID E (eniInstanceID e) w = Inr InstanceTypeExHPAS then HPAS else BCE)"

definition getClientForENI :: "'w sync_env \<Rightarrow> EniObject \<Rightarrow> 'w \<Rightarrow> cloudClient" where
  "getClientForENI E e w =
     (case GetByInstanceID E (eniInstanceID e) w of
        Inl _ \<Rightarrow> BCE
      | Inr nrss \<Rightarrow> if \<exists>n\<in>set nrss. nrsENIType n \<noteq> None \<and> equalFold (nrsType n) InstanceTypeExHPAS
                    then HPAS else BCE)"

text \<open>The client returns an interface or an error, so the test for nil is left out.\<close>

definition remote_statENI :: "'w sync_env \<Rightarrow> string \<Rightarrow> 'w syncState \<Rightarrow> (err + vpcEni) \<times> 'w syncState" where
  "remote_statENI E nm s = perform (statCloud E (remoteClient E nm (sWorld s)) nm) (StatCall nm) s"

text \<open>\<open>SearchSubnetID\<close> creates the object of an unknown subnet.\<close>

definition searchSubnet :: "'w sync_env \<Rightarrow> string \<Rightarrow> string \<Rightarrow> string \<Rightarrow> 'w \<Rightarrow> string \<times> 'w" where
  "searchSubnet E vpc sbn ipStr w =
     (if sbn = [] then ([], w)
      else (case ensureSubnet E vpc sbn w of
              (s, w1) \<Rightarrow> (SearchSubnetID (\<lambda>_. s) (subnetsOfVPC E vpc w1) sbn ipStr, w1)))"

fun ToModelPrivateIP ::
    "'w sync_env \<Rightarrow> (string \<times> bool) list \<Rightarrow> string \<Rightarrow> string \<Rightarrow> 'w \<Rightarrow> PrivateIP list \<times> 'w" where
  "ToModelPrivateIP E [] vpc sbn w = ([], w)"
| "ToModelPrivateIP E ((addr, prim) # ips) vpc sbn w =
     (case searchSubnet E vpc sbn addr w of
        (sid, w1) \<Rightarrow>
          (case ToModelPrivateIP E ips vpc sbn w1 of
             (rest, w2) \<Rightarrow>
               (\<lparr>PrivateIPAddress = addr, ipPrimary = prim, ipSubnetID = sid\<rparr> # rest, w2)))"

definition electPrimary :: "EniObject \<Rightarrow> EniObject" where
  "electPrimary e = (let b = ElectENIIPv6PrimaryIP (ENI.truncate e)
     in e\<lparr>IPv6Set := IPv6Set b, IPv6PrimaryNote := IPv6PrimaryNote b\<rparr>)"

definition updateENISpecFromVPCENI ::
    "'w sync_env \<Rightarrow> vpcEni \<Rightarrow> EniObject \<Rightarrow> 'w syncState \<Rightarrow> EniObject \<times> 'w syncState" where
  "updateENISpecFromVPCENI E v e s =
     (case ToModelPrivateIP E (vpcIPv4 v) (vpcVpcId v) (vpcSubnetId v) (sWorld s) of
        (ips4, w1) \<Rightarrow>
          (case ToModelPrivateIP E (vpcIPv6 v) (vpcVpcId v) (vpcSubnetId v) w1 of
             (ips6, w2) \<Rightarrow>
               (electPrimary (e\<lparr>eniID := vpcEniId v, eniSpecName := vpcName v, eniMac := vpcMac v,
                    eniInstanceID := vpcInstanceId v, eniSGs := vpcSGs v, eniESGs := vpcESGs v,
                    eniDescription := vpcDescription v, eniVpcID := vpcVpcId v, eniZone := vpcZone v,
                    eniSubnetID := vpcSubnetId v, IPv4Set := ips4, IPv6Set := ips6\<rparr>),
                s\<lparr>sWorld := w2\<rparr>)))"

section \<open>The state machine\<close>

text \<open>The object the machine works on is the one \<open>handleENIUpdate\<close> holds until the machine replaces
  it by an answer of the API server: \<open>mNewObj\<close> is what \<open>handleENIUpdate\<close> still sees. \<open>isSync\<close> tells
  that the status need not be written.\<close>

record machine =
  mResource :: EniObject
  mNewObj :: EniObject
  isSync :: bool

definition ENIMaxCreateDuration :: int where "ENIMaxCreateDuration = 5 * 60 * second"

definition mutate :: "(EniObject \<Rightarrow> EniObject) \<Rightarrow> machine \<Rightarrow> machine" where
  "mutate f m = m\<lparr>mResource := f (mResource m), mNewObj := f (mNewObj m)\<rparr>"

text \<open>Roll back: the interface is deleted in the cloud, then its object.\<close>

definition deleteENI ::
    "'w sync_env \<Rightarrow> machine \<Rightarrow> 'w syncState \<Rightarrow> sync_err option \<times> machine \<times> 'w syncState" where
  "deleteENI E m s =
     (let e = mResource m; client = getClientForENI E e (sWorld s) in
      case perform (deleteCloud E client (eniID e)) (DeleteCall (eniID e)) s of
        (r, s1) \<Rightarrow>
          if (case r of None \<Rightarrow> False | Some err \<Rightarrow> \<not> noSuchENI err)
          then (Some (SyncErr ''failed to delete eni''), m, s1)
          else (case perform (apiDelete E (eniName e)) (DeleteObjectCall (eniName e)) s1 of
                  (Some err, s2) \<Rightarrow> (Some (SyncErr ''failed to delete eni crd resource''), m, s2)
                | (None, s2) \<Rightarrow> (None, m\<lparr>isSync := True\<rparr>, s2)))"

definition expired :: "int \<Rightarrow> EniObject \<Rightarrow> bool" where
  "expired now e \<longleftrightarrow> CreationTimestamp e + ENIMaxCreateDuration < now"

definition attachENI ::
    "'w sync_env \<Rightarrow> int \<Rightarrow> machine \<Rightarrow> 'w syncState \<Rightarrow> sync_err option \<times> machine \<times> 'w syncState" where
  "attachENI E now m s =
     (let e = mResource m in
      if expired now e then deleteENI E m s
      else (case perform (attachCloud E (getClientForENI E e (sWorld s)) (eniInstanceID e) (eniID e))
                    (AttachCall (eniInstanceID e) (eniID e)) s of
              (None, s1) \<Rightarrow> (None, m, s1)
            | (Some err, s1) \<Rightarrow>
                (case deleteENI E m s1 of
                   (_, m2, s2) \<Rightarrow>
                     (Some (SyncErr ''failed to attach eni to instance, will delete eni crd''), m2, s2))))"

definition attachingENI ::
    "'w sync_env \<Rightarrow> int \<Rightarrow> machine \<Rightarrow> 'w syncState \<Rightarrow> sync_err option \<times> machine \<times> 'w syncState" where
  "attachingENI E now m s = (if expired now (mResource m) then deleteENI E m s else (None, m, s))"

text \<open>\<open>handlePreOption\<close> compares the object with the cloud. True: the machine is done.\<close>

definition handlePreOption ::
    "'w sync_env \<Rightarrow> int \<Rightarrow> machine \<Rightarrow> 'w syncState \<Rightarrow> bool \<times> sync_err option \<times> machine \<times> 'w syncState" where
  "handlePreOption E now m s =
     (case remote_statENI E (eniName (mResource m)) s of
        (Inl err, s1) \<Rightarrow>
          if ReasonForError err = NoSuchObject then (False, deleteENI E m s1)
          else (False, Some (SyncErr ''eni state machine failed to refresh eni status''), m, s1)
      | (Inr v, s1) \<Rightarrow>
          if vpcStatus v = VPCENIStatusInuse
          then (case updateENISpecFromVPCENI E v (mResource m) s1 of
                  (e, s2) \<Rightarrow>
                    (case doUpdate E e s2 of
                       ((e1, Some err), s3) \<Rightarrow> (False, Some err, m\<lparr>mResource := e1, mNewObj := e\<rparr>, s3)
                     | ((e1, None), s3) \<Rightarrow>
                         (case doUpdateStatus E (AppendVPCStatus now (vpcStatus v) e1) s3 of
                            ((e2, Some err), s4) \<Rightarrow> (False, Some err, m\<lparr>mResource := e2, mNewObj := e\<rparr>, s4)
                          | ((e2, None), s4) \<Rightarrow>
                              (True, None, \<lparr>mResource = e2, mNewObj = e, isSync = True\<rparr>, s4))))
          else if VPCStatus (mResource m) \<noteq> vpcStatus v
          then (True, None, mutate (AppendVPCStatus now (vpcStatus v)) m, s1)
          else (False, None, m, s1))"

definition managedByMe :: "EniObject \<Rightarrow> bool" where
  "managedByMe e \<longleftrightarrow>
     (\<exists>o'\<in>set (OwnerReferences e). ownerAPIVersion o' = SchemeGroupVersion \<and> ownerKind o' = NRSKindDefinition)"

definition handleNonFinalStateMachine ::
    "'w sync_env \<Rightarrow> int \<Rightarrow> machine \<Rightarrow> 'w syncState \<Rightarrow> sync_err option \<times> machine \<times> 'w syncState" where
  "handleNonFinalStateMachine E now m0 s =
     (let m = m0\<lparr>isSync := False\<rparr> in
      if \<not> managedByMe (mResource m) then (None, m\<lparr>isSync := True\<rparr>, s)
      else (case handlePreOption E now m s of
              (done, Some err, m1, s1) \<Rightarrow> (Some err, m1, s1)
            | (True, None, m1, s1) \<Rightarrow> (None, m1, s1)
            | (False, None, m1, s1) \<Rightarrow>
                (case (if VPCStatus (mResource m1) = VPCENIStatusAvailable then attachENI E now m1 s1
                       else if VPCStatus (mResource m1) = VPCENIStatusAttaching then attachingENI E now m1 s1
                       else (None, m1, s1)) of
                   (Some err, m2, s2) \<Rightarrow> (Some err, m2, s2)
                 | (None, m2, s2) \<Rightarrow>
                     (Some (Delay ''ENI status is not final''), m2\<lparr>isSync := True\<rparr>, s2))))"

definition handleRdmaENI :: "int \<Rightarrow> machine \<Rightarrow> machine" where
  "handleRdmaENI now m =
     (if VPCStatus (mResource m) \<noteq> VPCENIStatusInuse
      then (mutate (AppendVPCStatus now VPCENIStatusInuse) m)\<lparr>isSync := False\<rparr> else m)"

definition start ::
    "'w sync_env \<Rightarrow> int \<Rightarrow> machine \<Rightarrow> 'w syncState \<Rightarrow> sync_err option \<times> machine \<times> 'w syncState" where
  "start E now m0 s =
     (let m = m0\<lparr>isSync := True\<rparr>; st = VPCStatus (mResource m) in
      if eniType (mResource m) = ENIForHPC then (None, handleRdmaENI now m, s)
      else if st = VPCENIStatusInuse \<or> st = VPCENIStatusDeleted then (None, m, s)
      else handleNonFinalStateMachine E now m s)"

section \<open>Finalizers\<close>

definition isCanRemoveENIFinalizer :: "'w sync_env \<Rightarrow> string \<Rightarrow> int \<Rightarrow> bool" where
  "isCanRemoveENIFinalizer E ty idx \<longleftrightarrow> ty = ENIForHPC \<or> \<not> ReleaseENIs E \<or> idx = -1"

definition mayRemoveFinalizer :: "'w sync_env \<Rightarrow> 'w \<Rightarrow> EniObject \<Rightarrow> bool" where
  "mayRemoveFinalizer E w e \<longleftrightarrow>
     (let can = isCanRemoveENIFinalizer E (eniType e) (InterfaceIndex e) in
      (case nrsLister E (eniNodeName e) w of
         None \<Rightarrow> can
       | Some n \<Rightarrow> nrsDeleting n \<and> can \<or>
           (OwnerReferences e \<noteq> [] \<and> nrsUID n \<noteq> ownerUID (hd (OwnerReferences e)))) \<or>
      VPCStatus e \<noteq> VPCENIStatusDeleted \<and> VPCStatus e \<noteq> VPCENIStatusInuse)"

definition mangeFinalizer :: "'w sync_env \<Rightarrow> 'w \<Rightarrow> EniObject \<Rightarrow> bool \<times> EniObject" where
  "mangeFinalizer E w e =
     (let (upd, e1) = (if \<not> deleting e \<and> finalizers e = []
                       then (eniType e = ENIForBBC \<or> eniUseMode e = ENIUseModePrimaryWithSecondaryIP,
                             e\<lparr>finalizers := [FinalizerENI]\<rparr>)
                       else (False, e))
      in if deleting e1 \<and> finalizers e1 \<noteq> [] \<and> mayRemoveFinalizer E w e1
         then (let fs = filter (\<lambda>f. f \<noteq> FinalizerENI) (finalizers e1)
               in (upd \<or> fs = [], e1\<lparr>finalizers := fs\<rparr>))
         else (upd, e1))"

section \<open>Handling an object\<close>

definition borrowOf :: "EniObject \<Rightarrow> borrowENI" where
  "borrowOf e = \<lparr>beName = eniName e, beID = eniID e, beSubnetID = eniSubnetID e,
     BorrowIPCount = eniBorrow e,
     PrivateIPSet = map (\<lambda>a. (PrivateIPAddress a, ipSubnetID a)) (IPv4Set e)\<rparr>"

definition forceBorrow :: "'w sync_env \<Rightarrow> EniObject \<Rightarrow> 'w syncState \<Rightarrow> 'w syncState" where
  "forceBorrow E e s =
     (if eniBorrow e > 0
      then (case ensureSubnet E (eniVpcID e) (eniSubnetID e) (sWorld s) of
              (r, w1) \<Rightarrow> s\<lparr>sWorld := w1,
                 sBSM := ForceBorrowForENI (subnetCache E w1) (\<lambda>_. r \<noteq> None) (borrowOf e) (sBSM s)\<rparr>)
      else s)"

text \<open>The status of an object, and an object with another's status.\<close>

definition status_of :: "EniObject \<Rightarrow> int \<times> string \<times> ENIStatusChange list \<times> string \<times> ENIStatusChange list" where
  "status_of e = (InterfaceIndex e, CCEStatus e, CCELog e, VPCStatus e, VPCLog e)"

definition with_status :: "EniObject \<Rightarrow> EniObject \<Rightarrow> EniObject" where
  "with_status st e = e\<lparr>InterfaceIndex := InterfaceIndex st, CCEStatus := CCEStatus st, CCELog := CCELog st,
     VPCStatus := VPCStatus st, VPCLog := VPCLog st\<rparr>"

definition handleENIUpdate ::
    "'w sync_env \<Rightarrow> int \<Rightarrow> EniObject \<Rightarrow> 'w syncState \<Rightarrow> sync_err option \<times> 'w syncState" where
  "handleENIUpdate E now obj0 s =
     (if VPCStatus obj0 = VPCENIStatusDeleted then (None, forceBorrow E obj0 s)
      else (case mangeFinalizer E (sWorld s) obj0 of
              (upd, e) \<Rightarrow>
                (case (if upd then doUpdate E e s else ((e, None), s)) of
                   ((_, Some err), s1) \<Rightarrow> (Some err, s1)
                 | ((newObj, None), s1) \<Rightarrow>
                     (if useENIMachine E
                      then (case start E now \<lparr>mResource = newObj, mNewObj = newObj, isSync = False\<rparr> s1 of
                              (Some err, m, s2) \<Rightarrow> (Some err, s2)
                            | (None, m, s2) \<Rightarrow>
                                if isSync m then (None, forceBorrow E (mNewObj m) s2)
                                else (case eniLister E (eniName (mNewObj m)) (sWorld s2) of
                                        None \<Rightarrow> (Some (SyncErr ''not found''), s2)
                                      | Some obj \<Rightarrow>
                                          if status_of (mResource m) = status_of obj0
                                          then (None, forceBorrow E (mNewObj m) s2)
                                          else (case doUpdateStatus E (with_status (mResource m) obj) s2 of
                                                  ((_, r), s3) \<Rightarrow> (r, forceBorrow E (mNewObj m) s3))))
                      else (case eniLister E (eniName newObj) (sWorld s1) of
                              None \<Rightarrow> (Some (SyncErr ''not found''), s1)
                            | Some obj \<Rightarrow> (None, forceBorrow E newObj s1))))))"

text \<open>\<open>Update\<close> tries three times with a fresh object while the write conflicts. After the last conflict it
  returns no error.\<close>

fun updateTries ::
    "'w sync_env \<Rightarrow> int \<Rightarrow> nat \<Rightarrow> EniObject \<Rightarrow> 'w syncState \<Rightarrow> sync_err option \<times> 'w syncState" where
  "updateTries E now 0 obj0 s = (None, s)"
| "updateTries E now (Suc n) obj0 s =
     (case handleENIUpdate E now obj0 s of
        (Some err, s1) \<Rightarrow>
          if isConflict err
          then (if n = 0 then (None, s1)
                else (case apiGet E (eniName obj0) (sWorld s1) of
                        Inl e \<Rightarrow> (Some e, s1)
                      | Inr fresh \<Rightarrow> updateTries E now n fresh s1))
          else (Some err, s1)
      | (None, s1) \<Rightarrow> (None, s1))"

definition eniSyncher_Update ::
    "'w sync_env \<Rightarrow> int \<Rightarrow> EniObject \<Rightarrow> 'w syncState \<Rightarrow> sync_err option \<times> 'w syncState" where
  "eniSyncher_Update E now = updateTries E now 3"

definition router_Update ::
    "'w sync_env \<Rightarrow> int \<Rightarrow> EniObject \<Rightarrow> 'w syncState \<Rightarrow> sync_err option \<times> 'w syncState" where
  "router_Update E now e s =
     (if eniType e = ENIForBBC \<or> (vpcRouteMode E \<and> eniType e = ENIForERI) then (None, s)
      else eniSyncher_Update E now e s)"

section \<open>Removing an interface\<close>

text \<open>The object comes from the informer's cache and is changed in place: what a step leaves in it is
  what the next step sees.\<close>

definition removeENI ::
    "'w sync_env \<Rightarrow> int \<Rightarrow> EniObject \<Rightarrow> 'w syncState \<Rightarrow> sync_err option \<times> EniObject \<times> 'w syncState" where
  "removeENI E now e s =
     (case perform (statCloud E BCE (eniName e)) (StatCall (eniName e)) s of
        (Inl err, s1) \<Rightarrow> (Some (SyncErr err), e, s1)
      | (Inr v, s1) \<Rightarrow>
          if vpcStatus v = VPCENIStatusInuse
          then (case GetNrsTypeByInstanceID E (eniInstanceID e) (sWorld s1) of
                  Inl err \<Rightarrow> (Some (SyncErr err), e, s1)
                | Inr ty \<Rightarrow>
                    (case perform (detachCloud E (if \<not> HPASStanderd E \<and> ty = InstanceTypeExHPAS then HPAS else BCE)
                                     (eniInstanceID e) (eniName e))
                            (DetachCall (eniInstanceID e) (eniName e)) s1 of
                       (Some err, s2) \<Rightarrow> (Some (SyncErr err), e, s2)
                     | (None, s2) \<Rightarrow>
                         (let e1 = AppendVPCStatus now VPCENIStatusDetaching e in
                          case doUpdateStatus E e1 s2 of ((_, r), s3) \<Rightarrow> (r, e1, s3))))
          else if vpcStatus v = VPCENIStatusDetaching
          then (Some (Delay ''ENI status is not can be deleted''), e, s1)
          else if vpcStatus v = VPCENIStatusAvailable
          then (case perform (deleteCloud E BCE (eniName e)) (DeleteCall (eniName e)) s1 of
                  (r, s2) \<Rightarrow>
                    if (case r of None \<Rightarrow> False | Some err \<Rightarrow> \<not> noSuchENI err)
                    then (map_option SyncErr r, e, s2)
                    else (let e1 = e\<lparr>InterfaceIndex := -1\<rparr> in
                          case doUpdateStatus E e1 s2 of ((_, u), s3) \<Rightarrow> (u, e1, s3)))
          else (None, e, s1))"

text \<open>\<open>deleteSecondaryIPs\<close> gives the addresses back ten at a time; what is gone already is skipped.\<close>

definition releasedAlready :: "err \<Rightarrow> bool" where
  "releasedAlready e \<longleftrightarrow> ReasonForError e \<in> {NoSuchObject, ENINotFound, ENIPrivateIPNotFound, BBCENIPrivateIPNotFound}"

function deleteSecondaryIPs ::
    "'w sync_env \<Rightarrow> EniObject \<Rightarrow> string list \<Rightarrow> 'w syncState \<Rightarrow> sync_err option \<times> 'w syncState" where
  "deleteSecondaryIPs E e ips s =
     (if ips = [] then (None, s)
      else (case perform (deleteCloudIPs E (eniType e = ENIForBBC) (eniInstanceID e)
                            (take BatchAddOrDeleteIPLimit ips))
                    (ReleaseCall (take BatchAddOrDeleteIPLimit ips)) s of
              (r, s1) \<Rightarrow>
                if (case r of None \<Rightarrow> True | Some err \<Rightarrow> releasedAlready err)
                then deleteSecondaryIPs E e (drop BatchAddOrDeleteIPLimit ips) s1
                else (map_option SyncErr r, s1)))"
  by pat_completeness auto
termination
  by (relation "measure (\<lambda>(E, e, ips, s). length ips)") (auto simp: BatchAddOrDeleteIPLimit_def)

declare deleteSecondaryIPs.simps [simp del]

definition releaseSecondaryIPsFromPrimaryENI ::
    "'w sync_env \<Rightarrow> EniObject \<Rightarrow> 'w syncState \<Rightarrow> sync_err option \<times> 'w syncState" where
  "releaseSecondaryIPsFromPrimaryENI E e s =
     (if eniUseMode e \<noteq> ENIUseModePrimaryWithSecondaryIP then (None, s)
      else deleteSecondaryIPs E e
             (map PrivateIPAddress (filter (\<lambda>a. \<not> ipPrimary a) (IPv4Set e))) s)"

text \<open>The handler of an object that is being deleted or is gone.\<close>

definition finishDelete :: "'w sync_env \<Rightarrow> EniObject \<Rightarrow> 'w syncState \<Rightarrow> sync_err option \<times> 'w syncState" where
  "finishDelete E e s =
     (case mangeFinalizer E (sWorld s) e of
        (True, e1) \<Rightarrow> (case doUpdate E e1 s of ((_, r), s1) \<Rightarrow> (r, s1))
      | (False, _) \<Rightarrow> (None, s))"

definition eniSyncher_Delete ::
    "'w sync_env \<Rightarrow> int \<Rightarrow> string \<Rightarrow> 'w syncState \<Rightarrow> sync_err option \<times> 'w syncState" where
  "eniSyncher_Delete E now nm s =
     (case eniLister E nm (sWorld s) of
        None \<Rightarrow> (None, s)
      | Some e \<Rightarrow>
          (case nodeLister E (eniNodeName e) (sWorld s) of
             NodeError _ \<Rightarrow> (Some (SyncErr ''get node with error''), s)
           | NodeFound \<Rightarrow> finishDelete E e s
           | NodeNotFound \<Rightarrow>
               (case (if ReleaseENIs E \<and> eniUseMode e \<noteq> ENIUseModePrimaryWithSecondaryIP \<and> eniType e \<noteq> ENIForHPC
                      then removeENI E now e s else (None, e, s)) of
                  (r, e1, s1) \<Rightarrow>
                    if (case r of None \<Rightarrow> False | Some err \<Rightarrow> \<not> noSuchENI (errText err))
                    then (r, s1)
                    else (case releaseSecondaryIPsFromPrimaryENI E e1 s1 of
                            (Some err, s2) \<Rightarrow> (Some err, s2)
                          | (None, s2) \<Rightarrow> finishDelete E e1 s2))))"

text \<open>What the work queue calls with the name of an object.\<close>

definition eniSyncHandler ::
    "'w sync_env \<Rightarrow> int \<Rightarrow> string \<Rightarrow> 'w syncState \<Rightarrow> sync_err option \<times> 'w syncState" where
  "eniSyncHandler E now nm s =
     (case eniLister E nm (sWorld s) of
        None \<Rightarrow> eniSyncher_Delete E now nm s
      | Some e \<Rightarrow> if deleting e then eniSyncher_Delete E now nm s else router_Update E now e s)"

end
