(* ===== verification/EniMachineProps.thy ===== *)
theory EniMachineProps
  imports EniMachine
begin

text \<open>
  What the synchronisation of an interface (\<open>pkg/bce/bcesync/eni.go\<close>) asks of the cloud and of the
  API server, in which order and on what grounds; what ends up in an object; and what the status
  logs hold.
\<close>

section \<open>Grounds for a call\<close>

text \<open>What a run has seen: the last answer about the interface, and whether a later deletion left
  nothing in the cloud.\<close>

type_synonym seen = "(err + vpcEni) option \<times> bool"

definition saysGone :: "(err + vpcEni) option \<Rightarrow> bool" where
  "saysGone r \<longleftrightarrow> (\<exists>err. r = Some (Inl err) \<and> ReasonForError err = NoSuchObject)"

definition saysStatus :: "string set \<Rightarrow> (err + vpcEni) option \<Rightarrow> bool" where
  "saysStatus S r \<longleftrightarrow> (\<exists>v. r = Some (Inr v) \<and> vpcStatus v \<in> S)"

fun tick :: "eniCall \<Rightarrow> seen \<Rightarrow> seen" where
  "tick (StatCall _ r) (st, d) = (Some r, False)"
| "tick (DeleteCall _ r) (st, d) = (st, case r of None \<Rightarrow> True | Some e \<Rightarrow> noSuchENI e)"
| "tick _ (st, d) = (st, d)"

text \<open>The grounds: the cloud has just said that the interface is gone or not used, before it is
  deleted; gone or available, before it is attached; in use, before it is detached; and its object is
  deleted only when nothing is left in the cloud.\<close>

fun allowed :: "seen \<Rightarrow> eniCall \<Rightarrow> bool" where
  "allowed (st, d) (DeleteCall _ _) =
     (saysGone st \<or> saysStatus {VPCENIStatusAvailable, VPCENIStatusAttaching} st)"
| "allowed (st, d) (AttachCall _ _ _) = (saysGone st \<or> saysStatus {VPCENIStatusAvailable} st)"
| "allowed (st, d) (DetachCall _ _ _) = saysStatus {VPCENIStatusInuse} st"
| "allowed (st, d) (DeleteObjectCall _ _) = d"
| "allowed _ _ = True"

fun justified :: "seen \<Rightarrow> eniCall list \<Rightarrow> bool" where
  "justified st [] = True"
| "justified st (c # cs) = (allowed st c \<and> justified (tick c st) cs)"

lemma justified_append:
  "justified st (xs @ ys) \<longleftrightarrow> justified st xs \<and> justified (fold tick xs st) ys"
  by (induction xs arbitrary: st) auto

text \<open>From \<open>s\<close> to \<open>s'\<close> all calls have grounds, and \<open>st'\<close> is what has been seen at the end.\<close>

definition obeys :: "seen \<Rightarrow> 'w syncState \<Rightarrow> 'w syncState \<Rightarrow> seen \<Rightarrow> bool" where
  "obeys st s s' st' \<longleftrightarrow>
     (\<exists>cs. calls s' = calls s @ cs \<and> justified st cs \<and> st' = fold tick cs st)"

lemma obeys_same: "calls s' = calls s \<Longrightarrow> obeys st s s' st"
  by (auto simp: obeys_def)

lemma obeys_trans:
  assumes "obeys st s s1 st1" "obeys st1 s1 s2 st2"
  shows "obeys st s s2 st2"
proof -
  from assms obtain xs ys where
    "calls s1 = calls s @ xs" "justified st xs" "st1 = fold tick xs st"
    "calls s2 = calls s1 @ ys" "justified st1 ys" "st2 = fold tick ys st1"
    by (auto simp: obeys_def)
  then show ?thesis
    unfolding obeys_def by (intro exI [of _ "xs @ ys"]) (simp add: justified_append)
qed

lemma obeys_perform:
  assumes "perform f c s = (r, s')" "allowed st (c r)"
  shows "obeys st s s' (tick (c r) st)"
proof -
  from assms(1) have "calls s' = calls s @ [c r]"
    by (auto simp: perform_def split: prod.splits)
  with assms(2) show ?thesis
    unfolding obeys_def by (intro exI [of _ "[c r]"]) simp
qed

definition obeying :: "seen \<Rightarrow> 'w syncState \<Rightarrow> 'w syncState \<Rightarrow> bool" where
  "obeying st s s' \<longleftrightarrow> (\<exists>st'. obeys st s s' st')"

lemma obeyingI: "obeys st s s' st' \<Longrightarrow> obeying st s s'"
  unfolding obeying_def by blast

lemma obeying_same: "calls s' = calls s \<Longrightarrow> obeying st s s'"
  by (rule obeyingI [OF obeys_same])

lemma obeying_then: "obeying st s s1 \<Longrightarrow> (\<And>st. obeying st s1 s2) \<Longrightarrow> obeying st s s2"
  unfolding obeying_def by (blast intro: obeys_trans)

text \<open>The calls a run has made.\<close>

definition made :: "'w syncState \<Rightarrow> 'w syncState \<Rightarrow> eniCall list" where
  "made s s' = drop (length (calls s)) (calls s')"

lemma obeying_made: "obeying st s s' \<Longrightarrow> justified st (made s s')"
  by (auto simp: obeying_def obeys_def made_def)

section \<open>The steps have grounds\<close>

text \<open>Steps that write an object leave what has been seen as it is.\<close>

lemma doUpdate_obeys: "doUpdate E e s = (r, s') \<Longrightarrow> obeys st s s' st"
  unfolding doUpdate_def by (drule obeys_perform [where st = st]) (cases st; simp)+

lemma doUpdateStatus_obeys: "doUpdateStatus E e s = (r, s') \<Longrightarrow> obeys st s s' st"
  unfolding doUpdateStatus_def by (drule obeys_perform [where st = st]) (cases st; simp)+

lemma stat_obeys:
  "perform (statCloud E c nm) (StatCall nm) s = (r, s') \<Longrightarrow> obeys st s s' (Some r, False)"
  by (drule obeys_perform [where st = st]) (cases st; simp)+

lemma forceBorrow_obeys: "obeys st s (forceBorrow E e s) st"
  by (rule obeys_same) (simp add: forceBorrow_def split: prod.split)

lemma updateENISpec_obeys: "updateENISpecFromVPCENI E v e s = (e', s') \<Longrightarrow> obeys st s s' st"
  by (rule obeys_same) (auto simp: updateENISpecFromVPCENI_def split: prod.splits)

lemma deleteENI_obeys:
  assumes "deleteENI E m s = (r, m', s')"
    and "saysGone st \<or> saysStatus {VPCENIStatusAvailable, VPCENIStatusAttaching} st"
  shows "\<exists>d'. obeys (st, d) s s' (st, d')"
proof -
  obtain r1 s1 where del: "perform (deleteCloud E (getClientForENI E (mResource m) (sWorld s)) (eniID (mResource m)))
      (DeleteCall (eniID (mResource m))) s = (r1, s1)"
    by fastforce
  from obeys_perform [OF del, of "(st, d)"] assms(2)
  have one: "obeys (st, d) s s1 (st, case r1 of None \<Rightarrow> True | Some e \<Rightarrow> noSuchENI e)" by simp
  show ?thesis
  proof (cases "case r1 of None \<Rightarrow> False | Some err \<Rightarrow> \<not> noSuchENI err")
    case True
    with assms(1) del one show ?thesis by (auto simp: deleteENI_def)
  next
    case False
    then have ok: "(case r1 of None \<Rightarrow> True | Some e \<Rightarrow> noSuchENI e)" by (auto split: option.splits)
    obtain r2 s2 where obj: "perform (apiDelete E (eniName (mResource m)))
        (DeleteObjectCall (eniName (mResource m))) s1 = (r2, s2)"
      by fastforce
    from obeys_perform [OF obj, of "(st, True)"]
    have "obeys (st, True) s1 s2 (st, True)" by simp
    with one ok have "obeys (st, d) s s2 (st, True)" by (auto intro: obeys_trans)
    moreover have "s' = s2"
      using assms(1) False by (auto simp: deleteENI_def del obj Let_def split: option.splits if_splits)
    ultimately show ?thesis by blast
  qed
qed

lemma attachENI_obeys:
  assumes "attachENI E now m s = (r, m', s')"
    and "saysGone st \<or> saysStatus {VPCENIStatusAvailable} st"
  shows "\<exists>d'. obeys (st, d) s s' (st, d')"
proof -
  from assms(2) have del: "saysGone st \<or> saysStatus {VPCENIStatusAvailable, VPCENIStatusAttaching} st"
    by (auto simp: saysStatus_def)
  show ?thesis
  proof (cases "expired now (mResource m)")
    case True
    with assms(1) deleteENI_obeys [OF _ del] show ?thesis by (auto simp: attachENI_def)
  next
    case False
    obtain r1 s1 where att: "perform (attachCloud E (getClientForENI E (mResource m) (sWorld s))
        (eniInstanceID (mResource m)) (eniID (mResource m)))
        (AttachCall (eniInstanceID (mResource m)) (eniID (mResource m))) s = (r1, s1)"
      by fastforce
    from obeys_perform [OF att, of "(st, d)"] assms(2)
    have one: "obeys (st, d) s s1 (st, d)" by simp
    show ?thesis
    proof (cases r1)
      case None
      with assms(1) False att one show ?thesis by (auto simp: attachENI_def)
    next
      case (Some err)
      obtain r2 m2 s2 where dl: "deleteENI E m s1 = (r2, m2, s2)" by (rule prod_cases3)
      from deleteENI_obeys [OF dl del] obtain d' where "obeys (st, d) s1 s2 (st, d')" by blast
      with one have "obeys (st, d) s s2 (st, d')" by (rule obeys_trans)
      moreover have "s' = s2" using assms(1) False Some by (simp add: attachENI_def att dl)
      ultimately show ?thesis by blast
    qed
  qed
qed

lemma attachingENI_obeys:
  assumes "attachingENI E now m s = (r, m', s')"
    and "saysGone st \<or> saysStatus {VPCENIStatusAvailable, VPCENIStatusAttaching} st"
  shows "\<exists>d'. obeys (st, d) s s' (st, d')"
  using assms deleteENI_obeys [of E m s r m' s' st d]
  by (auto simp: attachingENI_def obeys_same split: if_splits intro!: exI [of _ d])

text \<open>After the comparison with the cloud the object has the status the cloud reported, unless the
  interface is gone or the machine is done.\<close>

lemma handlePreOption_obeys:
  assumes "handlePreOption E now m s = (done', err, m', s')"
  shows "\<exists>st d. obeys st0 s s' (st, d) \<and>
    (\<not> done' \<and> err = None \<longrightarrow> mResource m' = mResource m \<and>
       (saysGone st \<or> saysStatus {VPCStatus (mResource m)} st))"
proof -
  obtain r s1 where stat: "remote_statENI E (eniName (mResource m)) s = (r, s1)" by fastforce
  from stat_obeys [OF stat [unfolded remote_statENI_def]] have one: "obeys st0 s s1 (Some r, False)" .
  show ?thesis
  proof (cases r)
    case (Inl e)
    show ?thesis
    proof (cases "ReasonForError e = NoSuchObject")
      case False
      with assms Inl one show ?thesis by (auto simp: handlePreOption_def stat)
    next
      case True
      obtain r2 m2 s2 where dl: "deleteENI E m s1 = (r2, m2, s2)" by (rule prod_cases3)
      have gone: "saysGone (Some r)" using Inl True by (simp add: saysGone_def)
      with deleteENI_obeys [OF dl] obtain d' where "obeys (Some r, False) s1 s2 (Some r, d')" by blast
      with one have "obeys st0 s s2 (Some r, d')" by (rule obeys_trans)
      moreover have "s' = s2" "m' = m2"
        using assms True by (simp_all add: handlePreOption_def stat Inl dl)
      moreover have "mResource m2 = mResource m"
        using dl by (auto simp: deleteENI_def Let_def split: prod.splits if_splits option.splits)
      ultimately show ?thesis using gone by blast
    qed
  next
    case (Inr v)
    show ?thesis
    proof (cases "vpcStatus v = VPCENIStatusInuse")
      case False
      have "s' = s1" "\<not> done' \<and> err = None \<longrightarrow> m' = m \<and> VPCStatus (mResource m) = vpcStatus v"
        using assms False by (auto simp: handlePreOption_def stat Inr split: if_splits)
      with one Inr show ?thesis by (auto simp: saysStatus_def)
    next
      case True
      obtain e s2 where spec: "updateENISpecFromVPCENI E v (mResource m) s1 = (e, s2)" by fastforce
      obtain e1 r3 s3 where up: "doUpdate E e s2 = ((e1, r3), s3)" by (metis prod.exhaust)
      obtain e2 r4 s4 where us: "doUpdateStatus E (AppendVPCStatus now (vpcStatus v) e1) s3 = ((e2, r4), s4)"
        by (metis prod.exhaust)
      have "obeys st0 s s3 (Some r, False)"
        using one updateENISpec_obeys [OF spec] doUpdate_obeys [OF up] by (blast intro: obeys_trans)
      moreover from this have "obeys st0 s s4 (Some r, False)"
        using doUpdateStatus_obeys [OF us] by (blast intro: obeys_trans)
      moreover have "(s' = s3 \<or> s' = s4) \<and> (done' \<or> err \<noteq> None)"
        using assms True
        by (cases r3; cases r4) (auto simp: handlePreOption_def stat Inr spec up us [unfolded True])
      ultimately show ?thesis by blast
    qed
  qed
qed

lemma handleNonFinal_obeys:
  assumes "handleNonFinalStateMachine E now m s = (r, m', s')"
  shows "obeying st s s'"
proof (cases "managedByMe (mResource m)")
  case False
  with assms show ?thesis by (auto simp: handleNonFinalStateMachine_def intro: obeying_same)
next
  case True
  define m1 where "m1 = m\<lparr>isSync := False\<rparr>"
  have mg: "managedByMe (mResource m1)" using True by (simp add: m1_def)
  obtain dn err m2 s1 where pre: "handlePreOption E now m1 s = (dn, err, m2, s1)"
    by (metis prod.exhaust)
  from handlePreOption_obeys [OF pre, of st] obtain x d where one: "obeys st s s1 (x, d)"
    and grounds: "\<not> dn \<and> err = None \<longrightarrow> mResource m2 = mResource m1 \<and>
      (saysGone x \<or> saysStatus {VPCStatus (mResource m1)} x)" by blast
  show ?thesis
  proof (cases "dn \<or> err \<noteq> None")
    case True
    with assms mg pre obeyingI [OF one] show ?thesis
      by (cases err; cases dn) (auto simp: handleNonFinalStateMachine_def m1_def [symmetric])
  next
    case False
    define act where "act = (if VPCStatus (mResource m2) = VPCENIStatusAvailable then attachENI E now m2 s1
      else if VPCStatus (mResource m2) = VPCENIStatusAttaching then attachingENI E now m2 s1 else (None, m2, s1))"
    obtain r3 m3 s3 where act3: "act = (r3, m3, s3)" by (rule prod_cases3)
    from grounds False have same: "mResource m2 = mResource m1"
      and says: "saysGone x \<or> saysStatus {VPCStatus (mResource m2)} x" by auto
    have "\<exists>d'. obeys (x, d) s1 s3 (x, d')"
    proof -
      consider "VPCStatus (mResource m2) = VPCENIStatusAvailable"
        | "VPCStatus (mResource m2) = VPCENIStatusAttaching" "VPCStatus (mResource m2) \<noteq> VPCENIStatusAvailable"
        | "act = (None, m2, s1)" unfolding act_def by (metis (full_types))
      then show ?thesis
      proof cases
        case 1
        with act3 says show ?thesis by (auto simp: act_def intro: attachENI_obeys)
      next
        case 2
        then have "saysGone x \<or> saysStatus {VPCENIStatusAvailable, VPCENIStatusAttaching} x"
          using says by (auto simp: saysStatus_def)
        with act3 2 show ?thesis by (auto simp: act_def intro: attachingENI_obeys)
      next
        case 3
        with act3 show ?thesis by (auto intro: obeys_same)
      qed
    qed
    then obtain d' where "obeys st s s3 (x, d')" using one by (blast intro: obeys_trans)
    moreover have "s' = s3"
      using assms mg False act3
      by (cases r3) (auto simp: handleNonFinalStateMachine_def m1_def [symmetric] pre act_def [symmetric])
    ultimately show ?thesis by (auto intro: obeyingI)
  qed
qed

lemma start_obeys: "start E now m s = (r, m', s') \<Longrightarrow> obeying st s s'"
  using handleNonFinal_obeys [of E now "m\<lparr>isSync := True\<rparr>" s r m' s' st]
  by (auto simp: start_def Let_def obeying_same split: if_splits)

text \<open>What follows a step does not matter for the step: every part of the handler obeys from whatever has
  been seen.\<close>

lemma doUpdate_obeying: "doUpdate E e s = (r, s') \<Longrightarrow> obeying st s s'"
  by (rule obeyingI [OF doUpdate_obeys])

lemma doUpdateStatus_obeying: "doUpdateStatus E e s = (r, s') \<Longrightarrow> obeying st s s'"
  by (rule obeyingI [OF doUpdateStatus_obeys])

lemma forceBorrow_obeying: "obeying st s s1 \<Longrightarrow> obeying st s (forceBorrow E e s1)"
  by (rule obeying_then [OF _ obeyingI [OF forceBorrow_obeys]])

lemma handleENIUpdate_obeys: "obeying st s (snd (handleENIUpdate E now e s))"
proof (cases "VPCStatus e = VPCENIStatusDeleted")
  case True
  then show ?thesis by (simp add: handleENIUpdate_def forceBorrow_obeying obeying_same)
next
  case False
  obtain upd e0 where fin: "mangeFinalizer E (sWorld s) e = (upd, e0)" by fastforce
  obtain newObj r1 s1 where first: "(if upd then doUpdate E e0 s else ((e0, None), s)) = ((newObj, r1), s1)"
    by (metis prod.exhaust)
  have one: "obeying st s s1" for st
    using first doUpdate_obeying [of E e0 s "(newObj, r1)" s1] by (cases upd) (simp_all add: obeying_same)
  obtain r2 m s2 where st: "start E now \<lparr>mResource = newObj, mNewObj = newObj, isSync = False\<rparr> s1 = (r2, m, s2)"
    by (rule prod_cases3)
  from obeying_then [OF one start_obeys [OF st]] have two: "obeying st s s2" .
  have sts: "obeying st s s3" if "doUpdateStatus E y s2 = (r, s3)" for y r s3
    using obeying_then [OF two doUpdateStatus_obeying [OF that]] .
  show ?thesis
  proof (cases r1)
    case (Some err)
    then show ?thesis using False one by (auto simp: handleENIUpdate_def fin first)
  next
    case None
    show ?thesis
      using False one two
      by (auto simp: handleENIUpdate_def fin first None st sts forceBorrow_obeying
          split: option.splits prod.splits)
  qed
qed

lemma updateTries_obeys: "obeying st s (snd (updateTries E now n e s))"
proof (induction n arbitrary: e s st)
  case 0
  then show ?case by (simp add: obeying_same)
next
  case (Suc n)
  obtain r s1 where h: "handleENIUpdate E now e s = (r, s1)" by fastforce
  with handleENIUpdate_obeys [of _ s E now e] have one: "obeying st s s1" for st by (metis snd_conv)
  show ?case
    using one obeying_then [OF one Suc.IH] by (auto simp: h split: option.splits sum.splits)
qed

lemma removeENI_obeys:
  assumes "removeENI E now e s = (r, e', s')"
  shows "obeying st s s'"
proof -
  obtain r1 s1 where stat: "perform (statCloud E BCE (eniName e)) (StatCall (eniName e)) s = (r1, s1)"
    by fastforce
  note one = stat_obeys [OF stat, of st]
  show ?thesis
  proof (cases r1)
    case (Inl err)
    with assms one show ?thesis by (auto simp: removeENI_def stat intro: obeyingI)
  next
    case (Inr v)
    consider "vpcStatus v = VPCENIStatusInuse"
      | "vpcStatus v = VPCENIStatusAvailable" "vpcStatus v \<noteq> VPCENIStatusInuse" "vpcStatus v \<noteq> VPCENIStatusDetaching"
      | "s' = s1"
      using assms by (auto simp: removeENI_def stat Inr split: if_splits)
    then show ?thesis
    proof cases
      case 1
      show ?thesis
      proof (cases "GetNrsTypeByInstanceID E (eniInstanceID e) (sWorld s1)")
        case (Inl err)
        with assms 1 one show ?thesis by (auto simp: removeENI_def stat \<open>r1 = Inr v\<close> intro: obeyingI)
      next
        case (Inr ty)
        define cl where "cl = (if \<not> HPASStanderd E \<and> ty = InstanceTypeExHPAS then HPAS else BCE)"
        obtain r2 s2 where det: "perform (detachCloud E cl (eniInstanceID e) (eniName e))
            (DetachCall (eniInstanceID e) (eniName e)) s1 = (r2, s2)" by fastforce
        have "obeys (Some r1, False) s1 s2 (Some r1, False)"
          using obeys_perform [OF det, of "(Some r1, False)"] 1 \<open>r1 = Inr v\<close> by (simp add: saysStatus_def)
        with one have two: "obeys st s s2 (Some r1, False)" by (rule obeys_trans)
        obtain r3 s3 where us: "doUpdateStatus E (AppendVPCStatus now VPCENIStatusDetaching e) s2 = (r3, s3)"
          by fastforce
        have "obeys st s s3 (Some r1, False)" using two doUpdateStatus_obeys [OF us] by (rule obeys_trans)
        moreover have "s' = s2 \<or> s' = s3"
          using assms 1 by (cases r2)
            (auto simp: removeENI_def stat \<open>r1 = Inr v\<close> Inr cl_def [symmetric] det us Let_def split: prod.splits)
        ultimately show ?thesis using two by (auto intro: obeyingI)
      qed
    next
      case 2
      obtain r2 s2 where del: "perform (deleteCloud E BCE (eniName e)) (DeleteCall (eniName e)) s1 = (r2, s2)"
        by fastforce
      have "obeys (Some r1, False) s1 s2 (tick (DeleteCall (eniName e) r2) (Some r1, False))"
        using obeys_perform [OF del, of "(Some r1, False)"] 2 Inr by (simp add: saysStatus_def)
      with one have two: "obeys st s s2 (tick (DeleteCall (eniName e) r2) (Some r1, False))" by (rule obeys_trans)
      obtain r3 s3 where us: "doUpdateStatus E (e\<lparr>InterfaceIndex := -1\<rparr>) s2 = (r3, s3)" by fastforce
      have "obeys st s s3 (tick (DeleteCall (eniName e) r2) (Some r1, False))"
        using two doUpdateStatus_obeys [OF us] by (rule obeys_trans)
      moreover have "s' = s2 \<or> s' = s3"
        using assms 2 by (auto simp: removeENI_def stat Inr del us Let_def split: prod.splits if_splits)
      ultimately show ?thesis using two by (auto intro: obeyingI)
    next
      case 3
      with one show ?thesis by (auto intro: obeyingI)
    qed
  qed
qed

lemma deleteSecondaryIPs_obeys: "obeying st s (snd (deleteSecondaryIPs E e ips s))"
proof (induction E e ips s arbitrary: st rule: deleteSecondaryIPs.induct)
  case (1 E e ips s)
  show ?case
  proof (cases "ips = []")
    case True
    then show ?thesis by (simp add: deleteSecondaryIPs.simps [of E e "[]"] obeying_same)
  next
    case False
    obtain r s1 where rel: "perform (deleteCloudIPs E (eniType e = ENIForBBC) (eniInstanceID e)
        (take BatchAddOrDeleteIPLimit ips)) (ReleaseCall (take BatchAddOrDeleteIPLimit ips)) s = (r, s1)"
      by fastforce
    have one: "obeying st s s1" for st
      using obeys_perform [OF rel, of st] by (cases st) (auto intro: obeyingI)
    have more: "obeying st s1 (snd (deleteSecondaryIPs E e (drop BatchAddOrDeleteIPLimit ips) s1))"
      if "case r of None \<Rightarrow> True | Some err \<Rightarrow> releasedAlready err" for st
      using "1.IH" [OF False rel [symmetric] that] .
    show ?thesis
      using one obeying_then [OF one more]
      by (simp add: deleteSecondaryIPs.simps [of E e ips] False rel)
  qed
qed

lemma finishDelete_obeys: "obeying st s (snd (finishDelete E e s))"
  by (auto simp: finishDelete_def obeying_same split: prod.splits bool.splits intro: doUpdate_obeying)

lemma eniSyncher_Delete_obeys: "obeying st s (snd (eniSyncher_Delete E now nm s))"
proof (cases "eniLister E nm (sWorld s)")
  case None
  then show ?thesis by (simp add: eniSyncher_Delete_def obeying_same)
next
  case (Some e)
  define rm where "rm = (if ReleaseENIs E \<and> eniUseMode e \<noteq> ENIUseModePrimaryWithSecondaryIP \<and> eniType e \<noteq> ENIForHPC
    then removeENI E now e s else (None, e, s))"
  obtain r e1 s1 where rm1: "rm = (r, e1, s1)" by (rule prod_cases3)
  have one: "obeying st s s1" for st
    using rm1 by (auto simp: rm_def obeying_same split: if_splits intro: removeENI_obeys)
  obtain r2 s2 where rel: "releaseSecondaryIPsFromPrimaryENI E e1 s1 = (r2, s2)" by fastforce
  have rel_obeys: "obeying st s1 s2" for st
    using deleteSecondaryIPs_obeys [of st s1 E e1] rel
    by (auto simp: releaseSecondaryIPsFromPrimaryENI_def obeying_same split: if_splits) (metis snd_conv)
  have two: "obeying st s s2" for st by (rule obeying_then [OF one rel_obeys])
  have three: "obeying st s (snd (finishDelete E e1 s2))" for st
    by (rule obeying_then [OF two finishDelete_obeys])
  show ?thesis
  proof (cases "nodeLister E (eniNodeName e) (sWorld s)")
    case NodeFound
    then show ?thesis by (simp add: eniSyncher_Delete_def Some finishDelete_obeys)
  next
    case (NodeError x)
    then show ?thesis by (simp add: eniSyncher_Delete_def Some obeying_same)
  next
    case NodeNotFound
    have "eniSyncher_Delete E now nm s =
        (if (case r of None \<Rightarrow> False | Some err \<Rightarrow> \<not> noSuchENI (errText err)) then (r, s1)
         else (case r2 of Some err \<Rightarrow> (Some err, s2) | None \<Rightarrow> finishDelete E e1 s2))"
      by (simp only: eniSyncher_Delete_def Some option.case NodeNotFound nodeLookup.case
          rm_def [symmetric] rm1 rel prod.case)
    with one two three show ?thesis by (simp split: option.split)
  qed
qed


section \<open>The object follows the cloud\<close>

lemma ToModelPrivateIP_addresses:
  "map PrivateIPAddress (fst (ToModelPrivateIP E ips vpc sbn w)) = map fst ips"
proof (induction ips arbitrary: w)
  case (Cons a ips)
  obtain addr prim where a: "a = (addr, prim)" by fastforce
  obtain sid w1 where sid: "searchSubnet E vpc sbn addr w = (sid, w1)" by fastforce
  from Cons.IH [of w1] show ?case by (simp add: a sid case_prod_beta)
qed simp

lemma searchPrimary_addresses:
  "searchPrimary old as = (b, as') \<Longrightarrow> map PrivateIPAddress as' = map PrivateIPAddress as"
  by (induction old as arbitrary: b as' rule: searchPrimary.induct) (auto split: if_splits prod.splits)

lemma searchPrimary_found: "searchPrimary old as = (True, as') \<Longrightarrow> \<exists>a\<in>set as'. ipPrimary a"
  by (induction old as arbitrary: as' rule: searchPrimary.induct) (auto split: if_splits prod.splits)

lemma electPrimary_addresses:
  "map PrivateIPAddress (IPv6Set (electPrimary e)) = map PrivateIPAddress (IPv6Set e)"
  "IPv4Set (electPrimary e) = IPv4Set e" "VPCStatus (electPrimary e) = VPCStatus e"
  "VPCLog (electPrimary e) = VPCLog e"
proof -
  obtain b as where sp: "searchPrimary (IPv6PrimaryNote e) (IPv6Set e) = (b, as)" by fastforce
  from searchPrimary_addresses [OF sp] have len: "map PrivateIPAddress as = map PrivateIPAddress (IPv6Set e)" .
  then show "map PrivateIPAddress (IPv6Set (electPrimary e)) = map PrivateIPAddress (IPv6Set e)"
    by (cases as; cases b)
      (auto simp: electPrimary_def ElectENIIPv6PrimaryIP_def ENI.truncate_def sp)
qed (simp_all add: electPrimary_def Let_def)

lemma electPrimary_elects: "IPv6Set e \<noteq> [] \<Longrightarrow> \<exists>a\<in>set (IPv6Set (electPrimary e)). ipPrimary a"
proof -
  assume ne: "IPv6Set e \<noteq> []"
  obtain b as where sp: "searchPrimary (IPv6PrimaryNote e) (IPv6Set e) = (b, as)" by fastforce
  from searchPrimary_addresses [OF sp] ne have "as \<noteq> []" by auto
  then show ?thesis
    using ne searchPrimary_found [of "IPv6PrimaryNote e" "IPv6Set e" as] sp
    by (cases as; cases b)
      (auto simp: electPrimary_def ElectENIIPv6PrimaryIP_def ENI.truncate_def)
qed

lemma updateENISpec_result:
  assumes "updateENISpecFromVPCENI E v e s = (e', s')"
  shows "map PrivateIPAddress (IPv4Set e') = map fst (vpcIPv4 v)"
    "map PrivateIPAddress (IPv6Set e') = map fst (vpcIPv6 v)"
    "vpcIPv6 v \<noteq> [] \<Longrightarrow> \<exists>a\<in>set (IPv6Set e'). ipPrimary a"
    "calls s' = calls s"
proof -
  obtain ips4 w1 where four: "ToModelPrivateIP E (vpcIPv4 v) (vpcVpcId v) (vpcSubnetId v) (sWorld s) = (ips4, w1)"
    by fastforce
  obtain ips6 w2 where six: "ToModelPrivateIP E (vpcIPv6 v) (vpcVpcId v) (vpcSubnetId v) w1 = (ips6, w2)"
    by fastforce
  from ToModelPrivateIP_addresses [of E "vpcIPv4 v" "vpcVpcId v" "vpcSubnetId v" "sWorld s"] four
  have addr4: "map PrivateIPAddress ips4 = map fst (vpcIPv4 v)" by simp
  from ToModelPrivateIP_addresses [of E "vpcIPv6 v" "vpcVpcId v" "vpcSubnetId v" w1] six
  have addr6: "map PrivateIPAddress ips6 = map fst (vpcIPv6 v)" by simp
  then have ne: "vpcIPv6 v \<noteq> [] \<Longrightarrow> ips6 \<noteq> []" by auto
  from assms addr4 addr6 show
    "map PrivateIPAddress (IPv4Set e') = map fst (vpcIPv4 v)"
    "map PrivateIPAddress (IPv6Set e') = map fst (vpcIPv6 v)"
    "calls s' = calls s"
    by (auto simp: updateENISpecFromVPCENI_def four six electPrimary_addresses)
  from assms ne show "\<exists>a\<in>set (IPv6Set e'). ipPrimary a" if "vpcIPv6 v \<noteq> []"
    using that by (auto simp: updateENISpecFromVPCENI_def four six intro!: electPrimary_elects)
qed

text \<open>The API server takes every write.\<close>

definition writes_succeed :: "'w sync_env \<Rightarrow> bool" where
  "writes_succeed E \<longleftrightarrow>
     (\<forall>e w. \<exists>w'. apiUpdate E e w = ((e, None), w')) \<and>
     (\<forall>e w. \<exists>w'. apiUpdateStatus E e w = ((e, None), w')) \<and>
     (\<forall>n w. \<exists>w'. apiDelete E n w = (None, w'))"

lemma doUpdate_succeeds:
  assumes "writes_succeed E"
  obtains s1 where "doUpdate E e s = ((e, None), s1)" "calls s1 = calls s @ [UpdateCall e None]"
proof -
  from assms obtain w' where "apiUpdate E e (sWorld s) = ((e, None), w')"
    unfolding writes_succeed_def by meson
  then show ?thesis by (intro that) (auto simp: doUpdate_def perform_def)
qed

lemma doUpdateStatus_succeeds:
  assumes "writes_succeed E"
  obtains s1 where "doUpdateStatus E e s = ((e, None), s1)" "calls s1 = calls s @ [UpdateStatusCall e None]"
proof -
  from assms obtain w' where "apiUpdateStatus E e (sWorld s) = ((e, None), w')"
    unfolding writes_succeed_def by meson
  then show ?thesis by (intro that) (auto simp: doUpdateStatus_def perform_def)
qed

text \<open>An object the machine works on: managed by a node and in a state that is not final.\<close>

definition working :: "EniObject \<Rightarrow> bool" where
  "working e \<longleftrightarrow> managedByMe e \<and> eniType e \<noteq> ENIForHPC \<and>
     VPCStatus e \<noteq> VPCENIStatusInuse \<and> VPCStatus e \<noteq> VPCENIStatusDeleted"

text \<open>
  An interface the cloud has in use is taken over in one step. If the object is managed and not in a
  final state, the cloud reports the interface in use and the API server takes the writes, then the
  machine ends without an error and without a retry; it has asked the cloud nothing but the status,
  has written the specification and then the status; the object has the addresses the cloud reports,
  in its order, one of the IPv6 addresses is primary, and its status is in use.
\<close>

theorem start_adopts_inuse:
  assumes "working (mResource m)" "writes_succeed E"
    and "statCloud E (remoteClient E (eniName (mResource m)) (sWorld s)) (eniName (mResource m)) (sWorld s) = (Inr v, w)"
    and "vpcStatus v = VPCENIStatusInuse"
  shows "\<exists>m' s' e. start E now m s = (None, m', s') \<and> isSync m' \<and>
    made s s' = [StatCall (eniName (mResource m)) (Inr v), UpdateCall e None,
                 UpdateStatusCall (mResource m') None] \<and>
    VPCStatus (mResource m') = VPCENIStatusInuse \<and>
    map PrivateIPAddress (IPv4Set (mResource m')) = map fst (vpcIPv4 v) \<and>
    map PrivateIPAddress (IPv6Set (mResource m')) = map fst (vpcIPv6 v) \<and>
    (vpcIPv6 v \<noteq> [] \<longrightarrow> (\<exists>a\<in>set (IPv6Set (mResource m')). ipPrimary a))"
proof -
  define m1 where "m1 = m\<lparr>isSync := False\<rparr>"
  have res: "mResource m1 = mResource m" by (simp add: m1_def)
  obtain s1 where stat: "remote_statENI E (eniName (mResource m1)) s = (Inr v, s1)"
    and c1: "calls s1 = calls s @ [StatCall (eniName (mResource m)) (Inr v)]"
    using assms(3) by (auto simp: remote_statENI_def perform_def m1_def)
  obtain e s2 where spec: "updateENISpecFromVPCENI E v (mResource m1) s1 = (e, s2)" by fastforce
  note sp = updateENISpec_result [OF spec]
  obtain s3 where up: "doUpdate E e s2 = ((e, None), s3)" and c3: "calls s3 = calls s2 @ [UpdateCall e None]"
    using doUpdate_succeeds [OF assms(2)] .
  define e2 where "e2 = AppendVPCStatus now (vpcStatus v) e"
  obtain s4 where us: "doUpdateStatus E e2 s3 = ((e2, None), s4)"
    and c4: "calls s4 = calls s3 @ [UpdateStatusCall e2 None]"
    using doUpdateStatus_succeeds [OF assms(2)] .
  have "handlePreOption E now m1 s = (True, None, \<lparr>mResource = e2, mNewObj = e, isSync = True\<rparr>, s4)"
    by (simp add: handlePreOption_def stat assms(4) spec up us e2_def [symmetric, unfolded assms(4)])
  then have "start E now m s = (None, \<lparr>mResource = e2, mNewObj = e, isSync = True\<rparr>, s4)"
    using assms(1) by (simp add: start_def handleNonFinalStateMachine_def working_def m1_def [symmetric] Let_def res)
  moreover have "made s s4 = [StatCall (eniName (mResource m)) (Inr v), UpdateCall e None, UpdateStatusCall e2 None]"
    by (simp add: made_def c4 c3 sp(4) c1)
  moreover have "VPCStatus e2 = VPCENIStatusInuse" "IPv4Set e2 = IPv4Set e" "IPv6Set e2 = IPv6Set e"
    by (simp_all add: e2_def AppendVPCStatus_def assms(4) Let_def)
  ultimately show ?thesis using sp by auto
qed

text \<open>An environment that accepts everything and always gives the same answer about an interface.\<close>

definition demo_sync :: "(err + vpcEni) \<Rightarrow> EniObject option \<Rightarrow> unit sync_env" where
  "demo_sync answer obj =
     \<lparr>ReleaseENIs = True, HPASStanderd = False, vpcRouteMode = False, useENIMachine = True,
      statCloud = (\<lambda>_ _ w. (answer, w)), attachCloud = (\<lambda>_ _ _ w. (None, w)),
      detachCloud = (\<lambda>_ _ _ w. (None, w)), deleteCloud = (\<lambda>_ _ w. (None, w)),
      deleteCloudIPs = (\<lambda>_ _ _ w. (None, w)), listCloud = (\<lambda>_ w. (map_sum id (\<lambda>v. [v]) answer, w)), listERIs = (\<lambda>_ w. (Inr [], w)),
      eniLister = (\<lambda>_ _. obj), apiGet = (\<lambda>_ _. Inl (SyncErr ''not found'')),
      apiCreate = (\<lambda>e w. ((e, None), w)), apiUpdate = (\<lambda>e w. ((e, None), w)),
      apiUpdateStatus = (\<lambda>e w. ((e, None), w)), apiDelete = (\<lambda>_ w. (None, w)),
      nrsLister = (\<lambda>_ _. None), GetByInstanceID = (\<lambda>_ _. Inr []), GetByHPASID = (\<lambda>_ _. Inr []),
      nodeLister = (\<lambda>_ _. NodeNotFound), ensureSubnet = (\<lambda>_ _ w. (None, w)),
      subnetsOfVPC = (\<lambda>_ _. []), subnetCache = (\<lambda>_ _. None)\<rparr>"

definition demo_object :: "string \<Rightarrow> bool \<Rightarrow> EniObject" where
  "demo_object st del =
     \<lparr>eniName = ''eni-a'', eniID = ''eni-a'', eniSubnetID = ''sbn'', eniType = ENIForBCC,
      eniUseMode = ENIUseModeSecondaryIP, VPCVersion = 1, CreationTimestamp = 0, deleting = del,
      finalizers = [FinalizerENI], IPv6PrimaryNote = [], IPv4Set = [], IPv6Set = [],
      VPCStatus = st, CCEStatus = [], InterfaceIndex = 0, CCELog = [], VPCLog = [],
      eniSpecName = ''c/a'', eniInstanceID = ''i-1'', eniVpcID = ''vpc'', eniZone = ''zoneA'',
      eniMac = ''m'', eniDescription = [], eniSGs = [], eniESGs = [], eniNodeName = ''n1'',
      eniBorrow = 0, OwnerReferences = [\<lparr>ownerAPIVersion = SchemeGroupVersion,
      ownerKind = NRSKindDefinition, ownerUID = ''u''\<rparr>], instanceLabel = None, externalENI = None\<rparr>"

definition demo_vpc :: "string \<Rightarrow> vpcEni" where
  "demo_vpc st =
     \<lparr>vpcEniId = ''eni-a'', vpcName = ''c/a'', vpcZone = ''zoneA'', vpcDescription = [],
      vpcInstanceId = ''i-1'', vpcMac = ''m'', vpcVpcId = ''vpc'', vpcSubnetId = ''sbn'', vpcStatus = st,
      vpcIPv4 = [(''10.0.0.1'', True), (''10.0.0.2'', False)], vpcIPv6 = [(''fd00::2'', False)],
      vpcSGs = [], vpcESGs = [], vpcCreatedTime = []\<rparr>"

definition demo_machine :: "string \<Rightarrow> machine" where
  "demo_machine st = \<lparr>mResource = demo_object st False, mNewObj = demo_object st False, isSync = False\<rparr>"

definition demo_sync_state :: "unit syncState" where
  "demo_sync_state = \<lparr>sWorld = (), sBSM = Map.empty, calls = []\<rparr>"

lemma demo_writes: "writes_succeed (demo_sync a b)"
  by (simp add: writes_succeed_def demo_sync_def)

lemma demo_working: "working (mResource (demo_machine VPCENIStatusAvailable))"
  by (simp add: working_def demo_machine_def demo_object_def managedByMe_def ENIForBCC_def ENIForHPC_def
      VPCENIStatusAvailable_def VPCENIStatusInuse_def VPCENIStatusDeleted_def)

lemma demo_stat: "statCloud (demo_sync a b) c n w = (a, w)"
  by (simp add: demo_sync_def)

theorem start_adopts_inuse_witness:
  "\<exists>m' s' e. start (demo_sync (Inr (demo_vpc VPCENIStatusInuse)) None) 0 (demo_machine VPCENIStatusAvailable)
      demo_sync_state = (None, m', s') \<and> isSync m' \<and>
    made demo_sync_state s' =
      [StatCall (eniName (mResource (demo_machine VPCENIStatusAvailable))) (Inr (demo_vpc VPCENIStatusInuse)),
       UpdateCall e None, UpdateStatusCall (mResource m') None] \<and>
    VPCStatus (mResource m') = VPCENIStatusInuse \<and>
    map PrivateIPAddress (IPv4Set (mResource m')) = map fst (vpcIPv4 (demo_vpc VPCENIStatusInuse)) \<and>
    map PrivateIPAddress (IPv6Set (mResource m')) = map fst (vpcIPv6 (demo_vpc VPCENIStatusInuse)) \<and>
    (vpcIPv6 (demo_vpc VPCENIStatusInuse) \<noteq> [] \<longrightarrow> (\<exists>a\<in>set (IPv6Set (mResource m')). ipPrimary a))"
  by (rule start_adopts_inuse [OF demo_working demo_writes demo_stat]) (simp add: demo_vpc_def)

section \<open>Interfaces that are gone, and interfaces left behind\<close>


lemma demo_deletes: "case fst (deleteCloud (demo_sync a b) c n w) of None \<Rightarrow> True | Some x \<Rightarrow> noSuchENI x"
  by (simp add: demo_sync_def)

lemma demo_noSuchObject: "ReasonForError ''NoSuchObject'' = NoSuchObject"
  by code_simp


text \<open>
  An interface can be left behind in the cloud. When the node of an object is gone while the cloud is
  still attaching the interface (it is not in use, not detaching and not available), the handler
  removes the finalizer from the object, which then disappears, and neither detaches nor deletes the
  interface, although the configuration asks for interfaces to be released with their node.
\<close>

theorem eniSyncHandler_leaves_attaching:
  assumes "eniLister E nm (sWorld s) = Some e" "deleting e" "finalizers e = [FinalizerENI]"
    and "nodeLister E (eniNodeName e) (sWorld s) = NodeNotFound" "ReleaseENIs E"
    and "eniUseMode e = ENIUseModeSecondaryIP" "eniType e \<noteq> ENIForHPC"
    and "VPCStatus e \<noteq> VPCENIStatusInuse" "VPCStatus e \<noteq> VPCENIStatusDeleted"
    and "statCloud E BCE (eniName e) (sWorld s) = (Inr v, w)"
    and "vpcStatus v \<notin> {VPCENIStatusInuse, VPCENIStatusDetaching, VPCENIStatusAvailable}"
    and "writes_succeed E"
  shows "\<exists>s'. eniSyncHandler E now nm s = (None, s') \<and>
    made s s' = [StatCall (eniName e) (Inr v), UpdateCall (e\<lparr>finalizers := []\<rparr>) None]"
proof -
  define s1 where "s1 = s\<lparr>sWorld := w, calls := calls s @ [StatCall (eniName e) (Inr v)]\<rparr>"
  have "perform (statCloud E BCE (eniName e)) (StatCall (eniName e)) s = (Inr v, s1)"
    by (simp add: perform_def assms(10) s1_def)
  then have rm: "removeENI E now e s = (None, e, s1)"
    using assms(11) by (simp add: removeENI_def)
  have mode: "ENIUseModeSecondaryIP \<noteq> ENIUseModePrimaryWithSecondaryIP"
    by (simp add: ENIUseModeSecondaryIP_def ENIUseModePrimaryWithSecondaryIP_def)
  have fin: "mangeFinalizer E (sWorld s1) e = (True, e\<lparr>finalizers := []\<rparr>)"
    using assms(2,3,8,9) by (simp add: mangeFinalizer_def mayRemoveFinalizer_def Let_def)
  obtain s2 where up: "doUpdate E (e\<lparr>finalizers := []\<rparr>) s1 = ((e\<lparr>finalizers := []\<rparr>, None), s2)"
    and c2: "calls s2 = calls s1 @ [UpdateCall (e\<lparr>finalizers := []\<rparr>) None]"
    using doUpdate_succeeds [OF assms(12)] .
  have "eniSyncHandler E now nm s = (None, s2)"
    using assms mode rm fin up
    by (simp add: eniSyncHandler_def eniSyncher_Delete_def releaseSecondaryIPsFromPrimaryENI_def finishDelete_def)
  then show ?thesis by (auto simp: made_def c2 s1_def)
qed

lemma demo_leaves:
  defines "E \<equiv> demo_sync (Inr (demo_vpc VPCENIStatusAttaching)) (Some (demo_object VPCENIStatusAttaching True))"
    and "e \<equiv> demo_object VPCENIStatusAttaching True"
  shows "eniLister E nm (sWorld demo_sync_state) = Some e" "deleting e" "finalizers e = [FinalizerENI]"
    "nodeLister E (eniNodeName e) (sWorld demo_sync_state) = NodeNotFound" "ReleaseENIs E"
    "eniUseMode e = ENIUseModeSecondaryIP" "eniType e \<noteq> ENIForHPC"
    "VPCStatus e \<noteq> VPCENIStatusInuse" "VPCStatus e \<noteq> VPCENIStatusDeleted"
    "statCloud E BCE (eniName e) (sWorld demo_sync_state) = (Inr (demo_vpc VPCENIStatusAttaching), ())"
    "vpcStatus (demo_vpc VPCENIStatusAttaching) \<notin> {VPCENIStatusInuse, VPCENIStatusDetaching, VPCENIStatusAvailable}"
    "writes_succeed E"
  unfolding E_def e_def
  by (simp_all add: demo_sync_def demo_object_def demo_vpc_def demo_sync_state_def writes_succeed_def
      ENIForBCC_def ENIForHPC_def VPCENIStatusInuse_def VPCENIStatusDeleted_def VPCENIStatusAttaching_def
      VPCENIStatusDetaching_def VPCENIStatusAvailable_def)

theorem eniSyncHandler_leaves_attaching_witness:
  "\<exists>s'. eniSyncHandler (demo_sync (Inr (demo_vpc VPCENIStatusAttaching)) (Some (demo_object VPCENIStatusAttaching True)))
      0 ''eni-a'' demo_sync_state = (None, s') \<and>
    made demo_sync_state s' =
      [StatCall (eniName (demo_object VPCENIStatusAttaching True)) (Inr (demo_vpc VPCENIStatusAttaching)),
       UpdateCall ((demo_object VPCENIStatusAttaching True)\<lparr>finalizers := []\<rparr>) None]"
  by (rule eniSyncHandler_leaves_attaching [OF demo_leaves])

section \<open>The status logs\<close>

datatype statusOp = AppendVPC int string | AppendCCE int string

fun applyStatus :: "statusOp \<Rightarrow> EniObject \<Rightarrow> EniObject" where
  "applyStatus (AppendVPC now st) = AppendVPCStatus now st"
| "applyStatus (AppendCCE now st) = AppendCCEENIStatus now st"

definition cceChange :: "ENIStatusChange \<Rightarrow> bool" where
  "cceChange c \<longleftrightarrow> changeCCE c \<in> {ENIStatusReadyOnNode, ENIStatusErrorOnNode} \<and>
     (changeCCE c = ENIStatusReadyOnNode \<longleftrightarrow> changeMessage c = ENIStatusReadyOnNode)"

definition status_typed :: "EniObject \<Rightarrow> bool" where
  "status_typed e \<longleftrightarrow>
     CCEStatus e \<in> {[], ''Pending'', ENIStatusReadyOnNode, ENIStatusErrorOnNode} \<and>
     length (CCELog e) \<le> 10 \<and> length (VPCLog e) \<le> 20 \<and> (\<forall>c\<in>set (CCELog e). cceChange c) \<and>
     (CCELog e \<noteq> [] \<longrightarrow> changeCCE (last (CCELog e)) = CCEStatus e) \<and>
     (VPCLog e \<noteq> [] \<longrightarrow> changeVPC (last (VPCLog e)) = VPCStatus e)"

lemma AppendVPCStatus_typed: "status_typed e \<Longrightarrow> status_typed (AppendVPCStatus now st e)"
  by (auto simp: status_typed_def AppendVPCStatus_def Let_def)

lemma AppendCCEENIStatus_typed:
  assumes "status_typed e"
  shows "status_typed (AppendCCEENIStatus now st e)"
proof (cases "CCEStatus e = st \<and> st = ENIStatusReadyOnNode")
  case True
  with assms show ?thesis by (simp add: AppendCCEENIStatus_def)
next
  case False
  define st' where "st' = (if st \<noteq> ENIStatusReadyOnNode then ENIStatusErrorOnNode else st)"
  define c where "c = \<lparr>changeMessage = st, changeCCE = st', changeVPC = [], changeTime = now\<rparr>"
  have "cceChange c"
    by (auto simp: cceChange_def c_def st'_def ENIStatusReadyOnNode_def ENIStatusErrorOnNode_def)
  moreover have "AppendCCEENIStatus now st e = e\<lparr>CCEStatus := st',
      CCELog := (if length (CCELog e) < 10 then CCELog e else drop (length (CCELog e) - 9) (CCELog e)) @ [c]\<rparr>"
    by (simp only: AppendCCEENIStatus_def if_not_P [OF False] st'_def c_def Let_def)
  ultimately show ?thesis
    using assms by (auto simp: status_typed_def st'_def c_def dest: in_set_dropD)
qed

text \<open>
  C26: What the status of an interface can be. Any sequence of status reports keeps an object well typed:
  the agent's status is the initial one, ready or error, whatever was reported; the logs have at most
  ten and twenty entries; each entry of the agent's log is ready exactly if ready was reported; and the
  last entry of a log is the current status. So the statuses the operator looks for, PCIError and
  UsingInPod, never occur.
\<close>

theorem status_reports_typed:
  assumes "status_typed e"
  shows "status_typed (fold applyStatus reports e) \<and>
    CCEStatus (fold applyStatus reports e) \<notin> {ENIMSGPCIERROR, ENIStatusUsingInPod}"
proof -
  have "status_typed (fold applyStatus reports e)"
    using assms
  proof (induction reports arbitrary: e)
    case (Cons a reports)
    then show ?case by (cases a) (auto intro: AppendVPCStatus_typed AppendCCEENIStatus_typed)
  qed simp
  then show ?thesis
    by (auto simp: status_typed_def ENIMSGPCIERROR_def ENIStatusUsingInPod_def ENIStatusReadyOnNode_def
        ENIStatusErrorOnNode_def)
qed

theorem status_reports_typed_witness:
  "status_typed (fold applyStatus [AppendVPC 1 VPCENIStatusAttaching, AppendCCE 2 ENIMSGPCIERROR,
      AppendCCE 3 ENIStatusUsingInPod] (demo_object VPCENIStatusAvailable False)) \<and>
    CCEStatus (fold applyStatus [AppendVPC 1 VPCENIStatusAttaching, AppendCCE 2 ENIMSGPCIERROR,
      AppendCCE 3 ENIStatusUsingInPod] (demo_object VPCENIStatusAvailable False))
      \<notin> {ENIMSGPCIERROR, ENIStatusUsingInPod}"
  by (rule status_reports_typed) (simp add: status_typed_def demo_object_def)

text \<open>A full log of the cloud's status forgets its oldest entry and its newest.\<close>

lemma AppendVPCStatus_forgets_newest:
  assumes "length (VPCLog e) = 20" "VPCStatus e \<noteq> st"
  shows "length (VPCLog (AppendVPCStatus now st e)) = 19"
    "VPCLog (AppendVPCStatus now st e) ! 17 = VPCLog e ! 18"
    "changeVPC (VPCLog (AppendVPCStatus now st e) ! 18) = st"
  using assms by (simp_all add: AppendVPCStatus_def Let_def nth_append)

text \<open>After the third conflict an update is given up without an error, so the work queue forgets it.\<close>

lemma eniSyncher_Update_forgets_conflicts:
  assumes "\<And>e s. \<exists>c s'. handleENIUpdate E now e s = (Some (Conflict c), s')"
    and "\<And>n w. \<exists>e. apiGet E n w = Inr e"
  shows "fst (eniSyncher_Update E now e s) = None"
proof -
  have "fst (updateTries E now n e s) = None" for n
  proof (induction n arbitrary: e s)
    case (Suc n)
    obtain c s' where h: "handleENIUpdate E now e s = (Some (Conflict c), s')" using assms(1) by blast
    obtain f where "apiGet E (eniName e) (sWorld s') = Inr f" using assms(2) by blast
    with Suc.IH show ?case by (simp add: h isConflict_def)
  qed simp
  then show ?thesis by (simp add: eniSyncher_Update_def)
qed

end
