(* ===== verification/EniSync.thy ===== *)
theory EniSync
  imports EniMachineProps
begin

text \<open>
  The synchronisation of the interface objects with the list of interfaces in the cloud at start-up:
  \<open>pkg/bce/bcesync/remote_eni_syncer.go\<close>, \<open>remote_eri_syncer.go\<close> and \<open>sync.go\<close>. An interface that has
  an object is compared with it, one that has none gets one. A call that dereferences a nil pointer
  has the result None.
\<close>

section \<open>The cache of a synchroniser\<close>

text \<open>\<open>SyncManager\<close>, with \<open>ingestKeywords\<close> as the parameter \<open>key\<close>; data without a key is ignored.\<close>

definition AddItems :: "('v \<Rightarrow> string) \<Rightarrow> 'v list \<Rightarrow> (string \<rightharpoonup> 'v) \<Rightarrow> (string \<rightharpoonup> 'v)" where
  "AddItems key vs pool = fold (\<lambda>v p. if key v = [] then p else p(key v \<mapsto> v)) vs pool"

text \<open>One round of \<open>Run\<close>: an error or an empty list leaves the cache as it is.\<close>

definition resyncPool :: "('v \<Rightarrow> string) \<Rightarrow> 'e + 'v list \<Rightarrow> (string \<rightharpoonup> 'v) \<Rightarrow> (string \<rightharpoonup> 'v)" where
  "resyncPool key r pool =
     (case r of Inl _ \<Rightarrow> pool
      | Inr vs \<Rightarrow> (let p = AddItems key vs Map.empty in if p = Map.empty then pool else p))"

section \<open>Comparing an object with the cloud\<close>

definition objectIPs :: "EniObject \<Rightarrow> string set" where
  "objectIPs e = PrivateIPAddress ` (set (IPv4Set e) \<union> set (IPv6Set e))"

definition cloudIPs :: "vpcEni \<Rightarrow> string set" where
  "cloudIPs v = fst ` (set (vpcIPv4 v) \<union> set (vpcIPv6 v))"

text \<open>The first component is the object in the cache, which is changed in place.\<close>

definition validateAndSyncENIIPs ::
    "'w sync_env \<Rightarrow> EniObject \<Rightarrow> vpcEni \<Rightarrow> 'w syncState \<Rightarrow> EniObject \<times> (sync_err + bool) \<times> 'w syncState" where
  "validateAndSyncENIIPs E existing v s =
     (let e1 = existing\<lparr>eniInstanceID := vpcInstanceId v\<rparr> in
      if objectIPs existing = cloudIPs v \<and> eniInstanceID existing = vpcInstanceId v
      then (existing, Inr False, s)
      else (case ToModelPrivateIP E (vpcIPv4 v) (vpcVpcId v) (vpcSubnetId v) (sWorld s) of
              (ips4, w1) \<Rightarrow>
                (case ToModelPrivateIP E (vpcIPv6 v) (vpcVpcId v) (vpcSubnetId v) w1 of
                   (ips6, w2) \<Rightarrow>
                     (case doUpdate E (e1\<lparr>IPv4Set := ips4, IPv6Set := ips6,
                                          instanceLabel := Some (vpcInstanceId v)\<rparr>) (s\<lparr>sWorld := w2\<rparr>) of
                        ((_, Some err), s1) \<Rightarrow> (e1, Inl err, s1)
                      | ((_, None), s1) \<Rightarrow> (e1, Inr True, s1)))))"

section \<open>Objects for unknown interfaces\<close>

definition GetEffectiveInstanceID :: "bool \<Rightarrow> nrsInfo \<Rightarrow> err + string" where
  "GetEffectiveInstanceID standard n =
     (if \<not> standard then Inr (nrsInstanceID n)
      else if (case nrsENIType n of None \<Rightarrow> False | Some t \<Rightarrow> equalFold t ENIForHPC) then Inr (nrsInstanceID n)
      else if equalFold (nrsType n) InstanceTypeExHPAS
      then (if nrsHPASID n = [] then Inl ''HPAS instance type requires HPASID, but HPASID is empty''
            else Inr (nrsHPASID n))
      else Inr (nrsInstanceID n))"

text \<open>The first node without RDMA. A node without ENI specification is a nil pointer.\<close>

fun firstNode :: "nrsInfo list \<Rightarrow> nrsInfo option option" where
  "firstNode [] = Some None"
| "firstNode (n # ns) =
     (case nrsENIType n of
        None \<Rightarrow> None
      | Some t \<Rightarrow> if t \<noteq> ENIForHPC \<and> t \<noteq> ENIForERI then Some (Some n) else firstNode ns)"

definition newExternalENI ::
    "'w sync_env \<Rightarrow> vpcEni \<Rightarrow> nrsInfo \<Rightarrow> string \<Rightarrow> 'w syncState \<Rightarrow> EniObject \<times> 'w syncState" where
  "newExternalENI E v n inst s =
     (case ToModelPrivateIP E (vpcIPv4 v) (vpcVpcId v) (vpcSubnetId v) (sWorld s) of
        (ips4, w1) \<Rightarrow>
          (case ToModelPrivateIP E (vpcIPv6 v) (vpcVpcId v) (vpcSubnetId v) w1 of
             (ips6, w2) \<Rightarrow>
               (electPrimary
                  \<lparr>eniName = vpcEniId v, eniID = vpcEniId v, eniSubnetID = vpcSubnetId v,
                   eniType = ENIForBCC, eniUseMode = nrsMode n, VPCVersion = 0, CreationTimestamp = 0,
                   deleting = False, finalizers = [], IPv6PrimaryNote = [], IPv4Set = ips4, IPv6Set = ips6,
                   VPCStatus = [], CCEStatus = [], InterfaceIndex = 0, CCELog = [], VPCLog = [],
                   eniSpecName = vpcName v, eniInstanceID = inst, eniVpcID = vpcVpcId v, eniZone = vpcZone v,
                   eniMac = vpcMac v, eniDescription = vpcDescription v, eniSGs = vpcSGs v, eniESGs = vpcESGs v,
                   eniNodeName = nrsName n, eniBorrow = 0,
                   OwnerReferences = [\<lparr>ownerAPIVersion = SchemeGroupVersion, ownerKind = NRSKindDefinition,
                                       ownerUID = nrsUID n\<rparr>],
                   instanceLabel = Some inst, externalENI = Some (vpcCreatedTime v)\<rparr>,
                s\<lparr>sWorld := w2\<rparr>)))"

text \<open>The result: whether there is an object now, and the object.\<close>

definition createExternalENI ::
    "'w sync_env \<Rightarrow> vpcEni \<Rightarrow> 'w syncState \<Rightarrow> ((bool \<times> EniObject option) \<times> 'w syncState) option" where
  "createExternalENI E v s =
     (case eniLister E (vpcEniId v) (sWorld s) of
        Some old \<Rightarrow> (case validateAndSyncENIIPs E old v s of (old', _, s1) \<Rightarrow> Some ((True, Some old'), s1))
      | None \<Rightarrow>
          if vpcStatus v = VPCENIStatusDetaching \<or> vpcStatus v = VPCENIStatusDeleted then Some ((False, None), s)
          else (case (if HPASStanderd E \<and> take 5 (vpcInstanceId v) = ''hpas-''
                      then GetByHPASID E (vpcInstanceId v) (sWorld s)
                      else GetByInstanceID E (vpcInstanceId v) (sWorld s)) of
                  Inl _ \<Rightarrow> Some ((False, None), s)
                | Inr nrss \<Rightarrow>
                    if nrss = [] then Some ((False, None), s)
                    else (case firstNode nrss of
                            None \<Rightarrow> None
                          | Some None \<Rightarrow> None
                          | Some (Some n) \<Rightarrow>
                              (case GetEffectiveInstanceID (HPASStanderd E) n of
                                 Inl _ \<Rightarrow> Some ((False, None), s)
                               | Inr eid \<Rightarrow>
                                   (case newExternalENI E v n (if eid = [] then vpcInstanceId v else eid) s of
                                      (e, s1) \<Rightarrow>
                                        (case perform (apiCreate E e) (\<lambda>r. CreateCall e (snd r)) s1 of
                                           ((e1, None), s2) \<Rightarrow> Some ((True, Some e1), s2)
                                         | ((_, Some _), s2) \<Rightarrow> Some ((False, None), s2)))))))"

section \<open>The whole list\<close>

fun syncLoop ::
    "'w sync_env \<Rightarrow> int \<Rightarrow> vpcEni list \<Rightarrow> 'w syncState \<Rightarrow> (sync_err option \<times> 'w syncState) option" where
  "syncLoop E now [] s = Some (None, s)"
| "syncLoop E now (v # vs) s =
     (case createExternalENI E v s of
        None \<Rightarrow> None
      | Some ((existed, obj), s1) \<Rightarrow>
          (case obj of
             Some e \<Rightarrow>
               if \<not> existed \<and> VPCStatus e \<noteq> vpcStatus v
               then (case doUpdateStatus E (AppendVPCStatus now (vpcStatus v) e) s1 of
                       ((_, Some err), s2) \<Rightarrow> Some (Some err, s2)
                     | ((_, None), s2) \<Rightarrow> syncLoop E now vs s2)
               else syncLoop E now vs s1
           | None \<Rightarrow> syncLoop E now vs s1))"

definition syncENI ::
    "'w sync_env \<Rightarrow> int \<Rightarrow> 'w syncState \<Rightarrow> ((sync_err + vpcEni list) \<times> 'w syncState) option" where
  "syncENI E now s =
     (case listCloud E (if HPASStanderd E then BCE else HPAS) (sWorld s) of
        (Inl e, w1) \<Rightarrow> Some (Inl (SyncErr e), s\<lparr>sWorld := w1\<rparr>)
      | (Inr vs, w1) \<Rightarrow>
          (case syncLoop E now vs (s\<lparr>sWorld := w1\<rparr>) of
             None \<Rightarrow> None
           | Some (Some e, s1) \<Rightarrow> Some (Inl e, s1)
           | Some (None, s1) \<Rightarrow> Some (Inr vs, s1)))"

section \<open>Elastic RDMA interfaces\<close>

text \<open>\<open>retry.RetryOnConflict\<close> with its default of five tries: only a conflict is tried again.\<close>

fun syncERITries :: "'w sync_env \<Rightarrow> nat \<Rightarrow> vpcEni \<Rightarrow> 'w syncState \<Rightarrow> 'w syncState" where
  "syncERITries E 0 v s = s"
| "syncERITries E (Suc n) v s =
     (case apiGet E (vpcEniId v) (sWorld s) of
        Inl e \<Rightarrow> if isConflict e then syncERITries E n v s else s
      | Inr latest \<Rightarrow>
          if eniInstanceID latest = vpcInstanceId v then s
          else (case doUpdate E (latest\<lparr>eniInstanceID := vpcInstanceId v,
                                        instanceLabel := Some (vpcInstanceId v)\<rparr>) s of
                  ((_, Some err), s1) \<Rightarrow> if isConflict err then syncERITries E n v s1 else s1
                | ((_, None), s1) \<Rightarrow> s1))"

definition validateAndSyncERIInstanceID :: "'w sync_env \<Rightarrow> vpcEni \<Rightarrow> 'w syncState \<Rightarrow> 'w syncState" where
  "validateAndSyncERIInstanceID E = syncERITries E 5"

definition syncERI :: "'w sync_env \<Rightarrow> 'w syncState \<Rightarrow> (err + vpcEni list) \<times> 'w syncState" where
  "syncERI E s =
     (case listERIs E (if HPASStanderd E then BCE else HPAS) (sWorld s) of
        (Inl e, w1) \<Rightarrow> (Inl e, s\<lparr>sWorld := w1\<rparr>)
      | (Inr vs, w1) \<Rightarrow> (Inr vs, fold (validateAndSyncERIInstanceID E) vs (s\<lparr>sWorld := w1\<rparr>)))"

section \<open>The objects agree with the cloud\<close>

text \<open>An object agrees with the cloud's interface: the same addresses and the same instance.\<close>

definition agrees :: "EniObject \<Rightarrow> vpcEni \<Rightarrow> bool" where
  "agrees e v \<longleftrightarrow> objectIPs e = cloudIPs v \<and> eniInstanceID e = vpcInstanceId v"

lemma addresses_agree:
  "map PrivateIPAddress (IPv4Set e) = map fst (vpcIPv4 v) \<Longrightarrow>
   map PrivateIPAddress (IPv6Set e) = map fst (vpcIPv6 v) \<Longrightarrow> objectIPs e = cloudIPs v"
  unfolding objectIPs_def cloudIPs_def image_Un by (metis list.set_map)

lemma validateAndSync_result:
  assumes "validateAndSyncENIIPs E e v s = (e1, r, s')"
  shows "(agrees e v \<and> r = Inr False \<and> s' = s) \<or>
    (\<exists>u err. agrees u v \<and> eniName u = eniName e \<and> calls s' = calls s @ [UpdateCall u err] \<and>
       (r = Inr True \<longleftrightarrow> err = None))"
proof (cases "agrees e v")
  case True
  with assms show ?thesis by (simp add: validateAndSyncENIIPs_def agrees_def)
next
  case False
  obtain ips4 w1 where four: "ToModelPrivateIP E (vpcIPv4 v) (vpcVpcId v) (vpcSubnetId v) (sWorld s) = (ips4, w1)"
    by fastforce
  obtain ips6 w2 where six: "ToModelPrivateIP E (vpcIPv6 v) (vpcVpcId v) (vpcSubnetId v) w1 = (ips6, w2)"
    by fastforce
  define u where "u = e\<lparr>eniInstanceID := vpcInstanceId v, IPv4Set := ips4, IPv6Set := ips6,
    instanceLabel := Some (vpcInstanceId v)\<rparr>"
  have "agrees u v"
    using ToModelPrivateIP_addresses [of E "vpcIPv4 v" "vpcVpcId v" "vpcSubnetId v" "sWorld s"] four
      ToModelPrivateIP_addresses [of E "vpcIPv6 v" "vpcVpcId v" "vpcSubnetId v" w1] six
    by (auto simp: agrees_def u_def intro!: addresses_agree)
  moreover obtain x err s2 where up: "doUpdate E u (s\<lparr>sWorld := w2\<rparr>) = ((x, err), s2)"
    by (metis prod.exhaust)
  moreover from up have "calls s2 = calls s @ [UpdateCall u err]"
    by (auto simp: doUpdate_def perform_def split: prod.splits)
  moreover have "s' = s2 \<and> (r = Inr True \<longleftrightarrow> err = None)"
    using assms up
    unfolding validateAndSyncENIIPs_def Let_def if_not_P [OF False [unfolded agrees_def]]
    by (cases err) (simp_all add: four six u_def, auto)
  ultimately show ?thesis by (auto simp: u_def)
qed

lemma createExternalENI_calls:
  assumes "createExternalENI E v s = Some ((existed, obj), s')"
  shows "\<exists>cs. calls s' = calls s @ cs \<and> (\<forall>e r. UpdateStatusCall e r \<notin> set cs) \<and> (existed \<or> obj = None) \<and>
    (\<forall>e. eniLister E (vpcEniId v) (sWorld s) = Some e \<longrightarrow> agrees e v \<or>
       (\<exists>u err. agrees u v \<and> eniName u = eniName e \<and> UpdateCall u err \<in> set cs))"
proof (cases "eniLister E (vpcEniId v) (sWorld s)")
  case (Some old)
  obtain e1 r s1 where vs: "validateAndSyncENIIPs E old v s = (e1, r, s1)" by (rule prod_cases3)
  with assms Some have "s' = s1" "existed" by (auto simp: createExternalENI_def)
  with validateAndSync_result [OF vs] Some show ?thesis
    by (elim disjE) (auto intro: exI [of _ "[]"])
next
  case None
  have new: "calls (snd (newExternalENI E v n i s)) = calls s" for n i
    by (simp add: newExternalENI_def split: prod.split)
  from assms None consider "s' = s" "\<not> existed" "obj = None"
    | n i e s1 e1 r where "newExternalENI E v n i s = (e, s1)"
        "perform (apiCreate E e) (\<lambda>r. CreateCall e (snd r)) s1 = ((e1, r), s')" "existed \<or> obj = None"
    unfolding createExternalENI_def option.case
    by (auto split: if_splits sum.splits option.splits prod.splits)
  then show ?thesis
  proof cases
    case 1
    with None show ?thesis by auto
  next
    case 2
    have "calls s' = calls s @ [CreateCall e r]"
      using 2(2) new [of n i] 2(1) by (auto simp: perform_def split: prod.splits)
    with 2(3) None show ?thesis by auto
  qed
qed

lemma syncLoop_calls:
  assumes "syncLoop E now vs s = Some (r, s')"
  shows "\<exists>cs. calls s' = calls s @ cs \<and> r = None \<and> (\<forall>e x. UpdateStatusCall e x \<notin> set cs) \<and>
    (\<forall>v\<in>set vs. \<forall>e. (\<forall>w. eniLister E (vpcEniId v) w = Some e) \<longrightarrow> agrees e v \<or>
       (\<exists>u err. agrees u v \<and> eniName u = eniName e \<and> UpdateCall u err \<in> set cs))"
  using assms
proof (induction vs arbitrary: s)
  case (Cons v vs)
  from Cons.prems obtain existed obj s1 where one: "createExternalENI E v s = Some ((existed, obj), s1)"
    by (auto split: option.splits)
  from createExternalENI_calls [OF one] obtain cs1 where
    c1: "calls s1 = calls s @ cs1" "\<forall>e x. UpdateStatusCall e x \<notin> set cs1" "existed \<or> obj = None"
    and v1: "\<forall>e. eniLister E (vpcEniId v) (sWorld s) = Some e \<longrightarrow> agrees e v \<or>
      (\<exists>u err. agrees u v \<and> eniName u = eniName e \<and> UpdateCall u err \<in> set cs1)" by blast
  from Cons.prems one c1(3) have "syncLoop E now vs s1 = Some (r, s')"
    by (auto split: option.splits if_splits prod.splits)
  from Cons.IH [OF this] obtain cs2 where
    c2: "calls s' = calls s1 @ cs2" "r = None" "\<forall>e x. UpdateStatusCall e x \<notin> set cs2"
    and v2: "\<forall>v\<in>set vs. \<forall>e. (\<forall>w. eniLister E (vpcEniId v) w = Some e) \<longrightarrow> agrees e v \<or>
      (\<exists>u err. agrees u v \<and> eniName u = eniName e \<and> UpdateCall u err \<in> set cs2)" by blast
  show ?case
    using c1(1,2) c2 v1 v2 by (intro exI [of _ "cs1 @ cs2"]) (simp, meson)
qed (auto intro: exI [of _ "[]"])

text \<open>
  The synchronisation at start-up brings the objects in line with the cloud. It fails only if the cloud
  cannot list the interfaces. Otherwise, for every interface of the list that has an object in the
  cache, either the object has the same addresses and the same instance, or an object with the same
  name, the addresses and the instance of the cloud has been written. It never writes a status: the
  code that would refresh the status of a new object is dead.
\<close>

theorem syncENI_follows_cloud:
  assumes "syncENI E now s = Some (r, s')"
  shows "(\<forall>e x. UpdateStatusCall e x \<notin> set (made s s')) \<and>
    (case r of
       Inl err \<Rightarrow> \<exists>e w. listCloud E (if HPASStanderd E then BCE else HPAS) (sWorld s) = (Inl e, w)
     | Inr vs \<Rightarrow> \<forall>v\<in>set vs. \<forall>e. (\<forall>w. eniLister E (vpcEniId v) w = Some e) \<longrightarrow>
         objectIPs e = cloudIPs v \<and> eniInstanceID e = vpcInstanceId v \<or>
         (\<exists>u err. UpdateCall u err \<in> set (made s s') \<and> eniName u = eniName e \<and>
            objectIPs u = cloudIPs v \<and> eniInstanceID u = vpcInstanceId v))"
proof -
  obtain l w1 where l: "listCloud E (if HPASStanderd E then BCE else HPAS) (sWorld s) = (l, w1)" by fastforce
  show ?thesis
  proof (cases l)
    case (Inl e)
    with assms l show ?thesis by (auto simp: syncENI_def made_def)
  next
    case (Inr vs)
    with assms l obtain r' s1 where loop: "syncLoop E now vs (s\<lparr>sWorld := w1\<rparr>) = Some (r', s1)"
      by (auto simp: syncENI_def split: option.splits)
    from syncLoop_calls [OF loop] obtain cs where cs: "calls s1 = calls s @ cs" "r' = None"
      "\<forall>e x. UpdateStatusCall e x \<notin> set cs"
      and vs: "\<forall>v\<in>set vs. \<forall>e. (\<forall>w. eniLister E (vpcEniId v) w = Some e) \<longrightarrow> agrees e v \<or>
        (\<exists>u err. agrees u v \<and> eniName u = eniName e \<and> UpdateCall u err \<in> set cs)" by auto
    from assms l Inr loop cs(2) have "r = Inr vs" "s' = s1" by (auto simp: syncENI_def)
    with cs vs show ?thesis by (simp add: made_def agrees_def) meson
  qed
qed

theorem syncENI_follows_cloud_witness:
  defines "E \<equiv> demo_sync (Inr (demo_vpc VPCENIStatusInuse)) (Some (demo_object VPCENIStatusInuse False))"
  defines "out \<equiv> the (syncENI E 0 demo_sync_state)"
  shows "(\<forall>e x. UpdateStatusCall e x \<notin> set (made demo_sync_state (snd out))) \<and>
    (case fst out of
       Inl err \<Rightarrow> \<exists>e w. listCloud E (if HPASStanderd E then BCE else HPAS) (sWorld demo_sync_state) = (Inl e, w)
     | Inr vs \<Rightarrow> \<forall>v\<in>set vs. \<forall>e. (\<forall>w. eniLister E (vpcEniId v) w = Some e) \<longrightarrow>
         objectIPs e = cloudIPs v \<and> eniInstanceID e = vpcInstanceId v \<or>
         (\<exists>u err. UpdateCall u err \<in> set (made demo_sync_state (snd out)) \<and> eniName u = eniName e \<and>
            objectIPs u = cloudIPs v \<and> eniInstanceID u = vpcInstanceId v))"
proof (rule syncENI_follows_cloud [where now = 0])
  show "syncENI E 0 demo_sync_state = Some (fst out, snd out)"
    unfolding out_def E_def
    by (simp add: syncENI_def demo_sync_def demo_sync_state_def createExternalENI_def
        split: prod.split option.split)
qed

text \<open>The synchronisation dereferences a nil pointer when all node objects of an instance are for RDMA, or
  one before the first other has no ENI specification.\<close>

lemma createExternalENI_panics:
  assumes "eniLister E (vpcEniId v) (sWorld s) = None"
    and "vpcStatus v \<noteq> VPCENIStatusDetaching" "vpcStatus v \<noteq> VPCENIStatusDeleted" "\<not> HPASStanderd E"
    and "GetByInstanceID E (vpcInstanceId v) (sWorld s) = Inr nrss" "nrss \<noteq> []"
    and "\<forall>n\<in>set nrss. nrsENIType n \<in> {Some ENIForHPC, Some ENIForERI}"
  shows "createExternalENI E v s = None"
proof -
  from assms(7) have "firstNode nrss = Some None" by (induction nrss) auto
  with assms show ?thesis by (simp add: createExternalENI_def)
qed

end
