(* ===== verification/ClientTokens.thy ===== *)
theory ClientTokens
  imports Prelude "HOL-Library.Multiset" "HOL-Library.List_Lexorder" "HOL-Library.Char_ord"
begin

text \<open>
  The tokens that make calls of the cloud idempotent (\<open>pkg/bce/utils/client_token.go\<close>): a call that is
  tried again carries the token of the first try, so that the cloud does not create a second
  interface or allocate the addresses twice; after a success the token is removed. \<open>uuid.New\<close> is a
  value given to the operation; the clock is given too. The hash of a key is a parameter.
\<close>

section \<open>The set of tokens\<close>

record clientTokenEntry =
  token :: string
  createdAt :: int

type_synonym ClientTokenSet = "string \<rightharpoonup> clientTokenEntry"

definition clientTokenTTL :: int where "clientTokenTTL = 600"

definition NewClientTokenSet :: ClientTokenSet where "NewClientTokenSet = Map.empty"

definition cleanupExpiredTokensLocked :: "int \<Rightarrow> ClientTokenSet \<Rightarrow> ClientTokenSet" where
  "cleanupExpiredTokensLocked now c =
     (\<lambda>k. case c k of None \<Rightarrow> None | Some e \<Rightarrow> if now - createdAt e \<ge> clientTokenTTL then None else Some e)"

definition GetOrCreateClientToken :: "int \<Rightarrow> string \<Rightarrow> string \<Rightarrow> ClientTokenSet \<Rightarrow> string \<times> ClientTokenSet" where
  "GetOrCreateClientToken now uuid key c =
     (let c1 = cleanupExpiredTokensLocked now c;
          new = (uuid, c1(key \<mapsto> \<lparr>token = uuid, createdAt = now\<rparr>))
      in case c1 key of
           Some e \<Rightarrow> if now - createdAt e < clientTokenTTL then (token e, c1) else new
         | None \<Rightarrow> new)"

definition RemoveClientToken :: "string \<Rightarrow> ClientTokenSet \<Rightarrow> ClientTokenSet" where
  "RemoveClientToken key c = c(key := None)"

section \<open>Keys\<close>

definition bracketed :: "string list \<Rightarrow> string" where
  "bracketed xs = ''['' @ concat (case xs of [] \<Rightarrow> [] | y # ys \<Rightarrow> y # map ((@) '' '') ys) @ '']''"

definition GenerateENIClientTokenKey ::
    "(string \<Rightarrow> string) \<Rightarrow> string \<Rightarrow> string \<Rightarrow> string list \<Rightarrow> string list \<Rightarrow> string" where
  "GenerateENIClientTokenKey sha instanceID subnetID sgs esgs =
     sha (instanceID @ ''-'' @ subnetID @ ''-'' @ bracketed (sort sgs) @ ''-'' @ bracketed (sort esgs))"

lemma sort_mset: "mset xs = mset ys \<Longrightarrow> sort xs = sort (ys :: 'a :: linorder list)"
  using sorted_list_of_multiset_mset [of xs] sorted_list_of_multiset_mset [of ys] by simp

text \<open>The order in which the security groups are listed does not matter.\<close>

lemma GenerateENIClientTokenKey_order:
  assumes "mset sgs = mset sgs'" "mset esgs = mset esgs'"
  shows "GenerateENIClientTokenKey sha i s sgs esgs = GenerateENIClientTokenKey sha i s sgs' esgs'"
  by (simp add: GenerateENIClientTokenKey_def sort_mset [OF assms(1)] sort_mset [OF assms(2)])

section \<open>Histories\<close>

text \<open>Calls of the set with their times; \<open>outputs\<close> are the tokens given out, each with its key.\<close>

datatype tokenCall = GetToken int string string | RemoveToken int string

fun callTime :: "tokenCall \<Rightarrow> int" where
  "callTime (GetToken now _ _) = now"
| "callTime (RemoveToken now _) = now"

fun tokenStep :: "tokenCall \<Rightarrow> ClientTokenSet \<Rightarrow> ClientTokenSet" where
  "tokenStep (GetToken now uuid key) c = snd (GetOrCreateClientToken now uuid key c)"
| "tokenStep (RemoveToken now key) c = RemoveClientToken key c"

definition tokensAfter :: "tokenCall list \<Rightarrow> ClientTokenSet" where
  "tokensAfter h = fold tokenStep h NewClientTokenSet"

fun uuids :: "tokenCall list \<Rightarrow> string list" where
  "uuids [] = []"
| "uuids (GetToken _ u _ # h) = u # uuids h"
| "uuids (RemoveToken _ _ # h) = uuids h"

lemma uuids_append: "uuids (g @ h) = uuids g @ uuids h"
  by (induction g rule: uuids.induct) auto

text \<open>An entry in the set was created by a call for its key, which nobody has removed since.\<close>

definition createdBy :: "tokenCall list \<Rightarrow> string \<Rightarrow> clientTokenEntry \<Rightarrow> bool" where
  "createdBy h key e \<longleftrightarrow>
     (\<exists>g g'. h = g @ GetToken (createdAt e) (token e) key # g' \<and> (\<forall>t. RemoveToken t key \<notin> set g'))"

lemma createdBy_snoc:
  assumes "createdBy h key e" "\<And>t. c \<noteq> RemoveToken t key"
  shows "createdBy (h @ [c]) key e"
proof -
  from assms(1) obtain g g' where "h = g @ GetToken (createdAt e) (token e) key # g'"
    "\<forall>t. RemoveToken t key \<notin> set g'" by (auto simp: createdBy_def)
  then have "h @ [c] = g @ GetToken (createdAt e) (token e) key # (g' @ [c])"
    "\<forall>t. RemoveToken t key \<notin> set (g' @ [c])" using assms(2) by auto
  then show ?thesis unfolding createdBy_def by blast
qed

lemma tokensAfter_created: "tokensAfter h key = Some e \<Longrightarrow> createdBy h key e"
proof (induction h arbitrary: key e rule: rev_induct)
  case Nil
  then show ?case by (simp add: tokensAfter_def NewClientTokenSet_def)
next
  case (snoc c h)
  have step: "tokensAfter (h @ [c]) = tokenStep c (tokensAfter h)" by (simp add: tokensAfter_def)
  show ?case
  proof (cases c)
    case (RemoveToken t k)
    with snoc.prems step have "key \<noteq> k" "tokensAfter h key = Some e"
      by (auto simp: RemoveClientToken_def split: if_splits)
    with snoc.IH RemoveToken show ?thesis by (auto intro: createdBy_snoc)
  next
    case (GetToken now u k)
    show ?thesis
    proof (cases "tokensAfter h key = Some e")
      case True
      with snoc.IH GetToken show ?thesis by (auto intro: createdBy_snoc)
    next
      case False
      with snoc.prems GetToken step have "key = k" "e = \<lparr>token = u, createdAt = now\<rparr>"
        by (auto simp: GetOrCreateClientToken_def cleanupExpiredTokensLocked_def Let_def
            split: option.splits if_splits)
      then have "h @ [c] = h @ GetToken (createdAt e) (token e) key # []" using GetToken by simp
      then show ?thesis unfolding createdBy_def by (intro exI [of _ h] exI [of _ "[]"]) simp
    qed
  qed
qed

text \<open>A token that is alive stays until it is removed or too old.\<close>

lemma tokenStep_keeps:
  assumes "c key = Some e" "callTime t - createdAt e < clientTokenTTL" "\<And>now. t \<noteq> RemoveToken now key"
  shows "tokenStep t c key = Some e"
  using assms
  by (cases t) (auto simp: GetOrCreateClientToken_def cleanupExpiredTokensLocked_def RemoveClientToken_def Let_def
      split: option.split)

lemma tokenSteps_keep:
  assumes "c key = Some e" "\<forall>t\<in>set h. callTime t - createdAt e < clientTokenTTL"
    and "\<forall>now. RemoveToken now key \<notin> set h"
  shows "fold tokenStep h c key = Some e"
  using assms
proof (induction h arbitrary: c)
  case (Cons t h)
  then have "tokenStep t c key = Some e" by (intro tokenStep_keeps) auto
  with Cons show ?case by simp
qed simp

lemma GetOrCreate_creates:
  "c key = None \<Longrightarrow> GetOrCreateClientToken now u key c =
     (u, (cleanupExpiredTokensLocked now c)(key \<mapsto> \<lparr>token = u, createdAt = now\<rparr>))"
  by (simp add: GetOrCreateClientToken_def cleanupExpiredTokensLocked_def Let_def)

lemma GetOrCreate_reuses:
  "c key = Some e \<Longrightarrow> now - createdAt e < clientTokenTTL \<Longrightarrow> fst (GetOrCreateClientToken now u key c) = token e"
  by (simp add: GetOrCreateClientToken_def cleanupExpiredTokensLocked_def Let_def)

lemma GetOrCreate_token:
  "fst (GetOrCreateClientToken now u key c) = u \<or>
   (\<exists>e. c key = Some e \<and> fst (GetOrCreateClientToken now u key c) = token e)"
  by (auto simp: GetOrCreateClientToken_def cleanupExpiredTokensLocked_def Let_def split: option.split)

text \<open>
  C28: A retry carries the token of the first try and nothing else does. After any history in which the
  identifiers are all different: (1) if the last calls \<open>h\<close> contain no removal of the key and all of
  them, and the retry, come less than ten minutes after the first try, which created the token, then
  the retry gets the same token; (2) if the token of a call is that of an earlier call \<open>GetToken t u
  key'\<close>, which created it, then the keys are the same and the key has not been removed in between.
\<close>

theorem client_tokens_idempotent:
  assumes "distinct (uuids (g @ GetToken t u key # h) @ [u'])"
  shows "(tokensAfter g key = None \<and> (\<forall>now. RemoveToken now key \<notin> set h) \<and>
          (\<forall>c\<in>set h. callTime c - t < clientTokenTTL) \<and> t' - t < clientTokenTTL \<longrightarrow>
            fst (GetOrCreateClientToken t u key (tokensAfter g)) = u \<and>
            fst (GetOrCreateClientToken t' u' key (tokensAfter (g @ GetToken t u key # h))) = u) \<and>
         (fst (GetOrCreateClientToken t' u' key' (tokensAfter (g @ GetToken t u key # h))) = u \<longrightarrow>
            key' = key \<and> (\<forall>now. RemoveToken now key \<notin> set h))"
proof (intro conjI impI)
  let ?c = "tokensAfter (g @ GetToken t u key # h)"
  have after: "?c = fold tokenStep h (tokenStep (GetToken t u key) (tokensAfter g))"
    by (simp add: tokensAfter_def)
  assume a: "tokensAfter g key = None \<and> (\<forall>now. RemoveToken now key \<notin> set h) \<and>
    (\<forall>c\<in>set h. callTime c - t < clientTokenTTL) \<and> t' - t < clientTokenTTL"
  note new = GetOrCreate_creates [of "tokensAfter g" key t u, OF conjunct1 [OF a]]
  then show "fst (GetOrCreateClientToken t u key (tokensAfter g)) = u" by simp
  have "tokenStep (GetToken t u key) (tokensAfter g) key = Some \<lparr>token = u, createdAt = t\<rparr>" by (simp add: new)
  then have "?c key = Some \<lparr>token = u, createdAt = t\<rparr>"
    unfolding after using a by (intro tokenSteps_keep) auto
  then show "fst (GetOrCreateClientToken t' u' key ?c) = u"
    using a GetOrCreate_reuses [of ?c key "\<lparr>token = u, createdAt = t\<rparr>" t' u'] by simp
next
  let ?H = "g @ GetToken t u key # h"
  assume out: "fst (GetOrCreateClientToken t' u' key' (tokensAfter ?H)) = u"
  have ne: "u' \<noteq> u" using assms by (auto simp: uuids_append)
  with out GetOrCreate_token [of t' u' key' "tokensAfter ?H"] obtain e where
    e: "tokensAfter ?H key' = Some e" "token e = u" by auto
  from tokensAfter_created [OF e(1)] obtain p q where
    pq: "?H = p @ GetToken (createdAt e) u key' # q" "\<forall>now. RemoveToken now key' \<notin> set q"
    by (auto simp: createdBy_def e(2))
  have d: "distinct (uuids ?H)" using assms by simp
  have "p = g"
  proof -
    from pq(1) consider r where "p = g @ GetToken t u key # r" "h = r @ GetToken (createdAt e) u key' # q"
      | "p = g" | r where "g = p @ GetToken (createdAt e) u key' # r"
      by (auto simp: append_eq_append_conv2 append_eq_Cons_conv Cons_eq_append_conv)
    then show ?thesis using d by cases (auto simp: uuids_append)
  qed
  with pq show "key' = key" "\<forall>now. RemoveToken now key \<notin> set h" by auto
qed

theorem client_tokens_idempotent_witness:
  "fst (GetOrCreateClientToken 5 ''u2'' ''k'' (tokensAfter [GetToken 1 ''u1'' ''k'', GetToken 2 ''u3'' ''x''])) = ''u1''"
proof -
  have d: "distinct (uuids ([] @ GetToken 1 ''u1'' ''k'' # [GetToken 2 ''u3'' ''x'']) @ [''u2''])" by simp
  have "tokensAfter [] ''k'' = None" by (simp add: tokensAfter_def NewClientTokenSet_def)
  then show ?thesis
    using client_tokens_idempotent [OF d, where t' = 5 and key' = "''k''"]
    by (simp add: clientTokenTTL_def)
qed

end
