(* ===== verification/PSTSPool.thy ===== *)
theory PSTSPool
  imports IPText "HOL-Library.List_Lexorder" "HOL-Library.Signed_Division"
begin

text \<open>
  The pool of reserved addresses of a subnet, from which the operator picks a candidate for a pod
  with a topology spread (\<open>pkg/endpoint/psts_local_pool.go\<close>): a ring over all ranges with a cursor, the
  addresses in use, and the addresses the cloud refused, which rest for a while. An index past the
  end of a slice is \<open>None\<close>. The clock is read once per operation, which holds the lock throughout.
  \<open>sort.Slice\<close> leaves the order of ranges with the same first address open; here it is the given one.
\<close>

section \<open>Addresses as numbers\<close>

definition ipv4ToInt :: "ip \<Rightarrow> 32 word option" where
  "ipv4ToInt a = map_option (\<lambda>b. push_bit 24 (ucast (b ! 0)) OR push_bit 16 (ucast (b ! 1)) OR
     push_bit 8 (ucast (b ! 2)) OR ucast (b ! 3)) (to4 a)"

definition intToIPv4 :: "32 word \<Rightarrow> ip" where
  "intToIPv4 n = v4InV6Prefix @ [ucast (drop_bit 24 n), ucast (drop_bit 16 n), ucast (drop_bit 8 n), ucast n]"

text \<open>A conversion that fails is a nil slice: \<open>SetBytes\<close> of it is zero, \<open>bytes.Compare\<close> takes it as empty.\<close>

definition to16_nil :: "ip \<Rightarrow> byte list" where
  "to16_nil a = (case to16 a of None \<Rightarrow> [] | Some b \<Rightarrow> b)"

definition bytes_int :: "byte list \<Rightarrow> int" where
  "bytes_int bs = foldl (\<lambda>acc b. acc * 256 + uint b) 0 bs"

fun int_bytes :: "nat \<Rightarrow> byte list" where
  "int_bytes n = (if n = 0 then [] else int_bytes (n div 256) @ [of_nat (n mod 256)])"

declare int_bytes.simps [simp del]

definition ipv6ToBigInt :: "ip \<Rightarrow> int" where
  "ipv6ToBigInt a = bytes_int (to16_nil a)"

definition bigIntToIPv6 :: "int \<Rightarrow> ip" where
  "bigIntToIPv6 n = (let bs = int_bytes (nat \<bar>n\<bar>) in replicate (16 - length bs) 0 @ bs)"

definition calculateIPCount :: "ip \<Rightarrow> ip \<Rightarrow> int option" where
  "calculateIPCount start end' =
     (if to4 start \<noteq> None
      then (case (ipv4ToInt start, ipv4ToInt end') of
              (Some s, Some e) \<Rightarrow> Some (uint (e - s + 1))
            | _ \<Rightarrow> None)
      else (let c = ipv6ToBigInt end' - ipv6ToBigInt start + 1 in
            Some (if - (2 ^ 63) \<le> c \<and> c < 2 ^ 63 then c else 2 ^ 63 - 1)))"

definition getIPAtIndexInRange :: "ip \<Rightarrow> int \<Rightarrow> ip" where
  "getIPAtIndexInRange start idx =
     (case ipv4ToInt start of
        Some s \<Rightarrow> intToIPv4 (s + word_of_int idx)
      | None \<Rightarrow> bigIntToIPv6 (ipv6ToBigInt start + idx))"

section \<open>The pool\<close>

record ipRange =
  startIP :: ip
  endIP :: ip
  rangeCount :: int

record ipCandidateCooldown =
  failureCount :: int
  unavailableUntil :: int

text \<open>Durations and times in nanoseconds.\<close>

definition candidateCooldownBase :: int where
  "candidateCooldownBase = 2 * 10 ^ 9"

definition candidateCooldownMax :: int where
  "candidateCooldownMax = 2 * 60 * 10 ^ 9"

record pstsLocalPool =
  poolSubnetID :: string
  poolFamily :: string
  ranges :: "ipRange list"
  poolID :: string
  pstsNamespace :: string
  pstsName :: string
  currentRangeIndex :: nat
  currentIndex :: int
  realOccupied :: "string set"
  candidateCooldown :: "string \<rightharpoonup> ipCandidateCooldown"

definition newExpectedPool :: "string \<Rightarrow> string \<Rightarrow> ipRange list \<Rightarrow> pstsLocalPool" where
  "newExpectedPool sbn fam rs =
     \<lparr>poolSubnetID = sbn, poolFamily = fam, ranges = rs, poolID = [], pstsNamespace = [], pstsName = [],
      currentRangeIndex = 0, currentIndex = 0, realOccupied = {}, candidateCooldown = Map.empty\<rparr>"

definition initPoolRuntime :: "string \<Rightarrow> string \<Rightarrow> string \<Rightarrow> pstsLocalPool \<Rightarrow> pstsLocalPool" where
  "initPoolRuntime pid ns name p =
     p\<lparr>poolID := pid, pstsNamespace := ns, pstsName := name,
       realOccupied := {}, candidateCooldown := Map.empty\<rparr>"

definition addRange :: "ip \<Rightarrow> ip \<Rightarrow> pstsLocalPool \<Rightarrow> pstsLocalPool option" where
  "addRange s e p = map_option (\<lambda>c. p\<lparr>ranges := ranges p @ [\<lparr>startIP = s, endIP = e, rangeCount = c\<rparr>]\<rparr>)
     (calculateIPCount s e)"

definition ipInIPRange :: "ip \<Rightarrow> ipRange \<Rightarrow> bool" where
  "ipInIPRange a r \<longleftrightarrow> bytes_compare (to16_nil a) (to16_nil (startIP r)) \<ge> 0 \<and>
     bytes_compare (to16_nil a) (to16_nil (endIP r)) \<le> 0"

definition isInAnyRange :: "pstsLocalPool \<Rightarrow> ip \<Rightarrow> bool" where
  "isInAnyRange p a \<longleftrightarrow> list_ex (ipInIPRange a) (ranges p)"

definition isInCooldown :: "int \<Rightarrow> pstsLocalPool \<Rightarrow> string \<Rightarrow> bool" where
  "isInCooldown now p s = (case candidateCooldown p s of None \<Rightarrow> False
                           | Some c \<Rightarrow> now < unavailableUntil c)"

section \<open>Picking a candidate\<close>

text \<open>The inner loop: the first \<open>i\<close> whose address is free, with \<open>left\<close> values of \<open>i\<close> still to try.\<close>

definition candidateIndex :: "pstsLocalPool \<Rightarrow> ipRange \<Rightarrow> int \<Rightarrow> int" where
  "candidateIndex p r i = go_int (currentIndex p + i) smod rangeCount r"

fun scanRange :: "int \<Rightarrow> pstsLocalPool \<Rightarrow> ipRange \<Rightarrow> nat \<Rightarrow> int option" where
  "scanRange now p r 0 = None"
| "scanRange now p r (Suc left) =
     (let i = rangeCount r - int (Suc left);
          s = ip_string (getIPAtIndexInRange (startIP r) (candidateIndex p r i))
      in if s \<in> realOccupied p \<or> isInCooldown now p s then scanRange now p r left else Some i)"

definition takeCandidate :: "pstsLocalPool \<Rightarrow> ipRange \<Rightarrow> int \<Rightarrow> pstsLocalPool \<times> ip" where
  "takeCandidate p r i =
     (let a = getIPAtIndexInRange (startIP r) (candidateIndex p r i); s = ip_string a;
          nextIndex = go_int (go_int (currentIndex p + i) + 1) smod rangeCount r
      in (p\<lparr>realOccupied := insert s (realOccupied p),
            candidateCooldown := (candidateCooldown p)(s := None),
            currentRangeIndex := (if nextIndex = 0 then (currentRangeIndex p + 1) mod length (ranges p)
                                  else currentRangeIndex p),
            currentIndex := nextIndex\<rparr>, a))"

fun rangesLoop :: "int \<Rightarrow> nat \<Rightarrow> pstsLocalPool \<Rightarrow> (pstsLocalPool \<times> (err + ip)) option" where
  "rangesLoop now 0 p = Some (p, Inl ''no available IP in any range'')"
| "rangesLoop now (Suc left) p =
     (if \<not> currentRangeIndex p < length (ranges p) then None
      else (let r = ranges p ! currentRangeIndex p in
        case scanRange now p r (nat (rangeCount r)) of
          Some i \<Rightarrow> (case takeCandidate p r i of (p', a) \<Rightarrow> Some (p', Inr a))
        | None \<Rightarrow> rangesLoop now left
            (p\<lparr>currentRangeIndex := (currentRangeIndex p + 1) mod length (ranges p), currentIndex := 0\<rparr>)))"

definition psts_allocateNext :: "int \<Rightarrow> pstsLocalPool \<Rightarrow> (pstsLocalPool \<times> (err + ip)) option" where
  "psts_allocateNext now p =
     (if ranges p = [] then Some (p, Inl ''no IP ranges configured in pool'')
      else rangesLoop now (length (ranges p)) p)"

text \<open>The function that \<open>allocateNext\<close> returns beside the address, and the method \<open>release\<close>.\<close>

definition releaseCandidate :: "string \<Rightarrow> pstsLocalPool \<Rightarrow> pstsLocalPool" where
  "releaseCandidate s p = p\<lparr>realOccupied := realOccupied p - {s}\<rparr>"

definition psts_release :: "ip \<Rightarrow> pstsLocalPool \<Rightarrow> pstsLocalPool" where
  "psts_release a p = releaseCandidate (ip_string a) p"

section \<open>Resting candidates\<close>

text \<open>The loop over \<open>i\<close>: what is left of it and the back-off so far.\<close>

fun cooldownLoop :: "nat \<Rightarrow> int \<Rightarrow> int" where
  "cooldownLoop 0 backoff = (if backoff > candidateCooldownMax then candidateCooldownMax else backoff)"
| "cooldownLoop (Suc left) backoff =
     (if backoff \<ge> candidateCooldownMax then candidateCooldownMax else cooldownLoop left (backoff * 2))"

definition computeCandidateCooldown :: "int \<Rightarrow> int" where
  "computeCandidateCooldown n =
     (if n \<le> 1 then candidateCooldownBase else cooldownLoop (nat (n - 1)) candidateCooldownBase)"

text \<open>Failures, back-off and end of the rest; \<open>None\<close> where the last result of the code is false.\<close>

definition markUnavailable :: "int \<Rightarrow> ip \<Rightarrow> pstsLocalPool \<Rightarrow> pstsLocalPool \<times> (int \<times> int \<times> int) option" where
  "markUnavailable now a p =
     (if a = [] \<or> \<not> isInAnyRange p a then (p, None)
      else (let s = ip_string a;
                n = (case candidateCooldown p s of None \<Rightarrow> 0 | Some c \<Rightarrow> failureCount c) + 1;
                backoff = computeCandidateCooldown n
            in (p\<lparr>candidateCooldown := (candidateCooldown p)
                    (s \<mapsto> \<lparr>failureCount = n, unavailableUntil = now + backoff\<rparr>)\<rparr>,
                Some (n, backoff, now + backoff))))"

definition pool_resetCooldown :: "ip \<Rightarrow> pstsLocalPool \<Rightarrow> pstsLocalPool" where
  "pool_resetCooldown a p =
     (if a = [] then p else p\<lparr>candidateCooldown := (candidateCooldown p)(ip_string a := None)\<rparr>)"

definition markOccupied :: "ip \<Rightarrow> pstsLocalPool \<Rightarrow> pstsLocalPool \<times> bool" where
  "markOccupied a p =
     (if a = [] \<or> \<not> isInAnyRange p a then (p, False)
      else (p\<lparr>realOccupied := insert (ip_string a) (realOccupied p),
              candidateCooldown := (candidateCooldown p)(ip_string a := None)\<rparr>, True))"

section \<open>New ranges\<close>

definition rangesEqual :: "ipRange list \<Rightarrow> ipRange list \<Rightarrow> bool" where
  "rangesEqual as bs \<longleftrightarrow> length as = length bs \<and>
     list_all (\<lambda>(a, b). ip_equal (startIP a) (startIP b) \<and> ip_equal (endIP a) (endIP b)) (zip as bs)"

definition sortRanges :: "ipRange list \<Rightarrow> ipRange list" where
  "sortRanges rs = sort_key (\<lambda>r. to16_nil (startIP r)) rs"

definition pruneCooldown :: "pstsLocalPool \<Rightarrow> pstsLocalPool" where
  "pruneCooldown p = p\<lparr>candidateCooldown := (\<lambda>s.
     case ParseIP s of None \<Rightarrow> None
     | Some a \<Rightarrow> if isInAnyRange p a then candidateCooldown p s else None)\<rparr>"

text \<open>The index of the first range that satisfies the condition.\<close>

definition firstRange :: "(ipRange \<Rightarrow> bool) \<Rightarrow> ipRange list \<Rightarrow> nat option" where
  "firstRange P rs = List.find (\<lambda>i. P (rs ! i)) [0..<length rs]"

definition setCursor :: "nat \<Rightarrow> int \<Rightarrow> pstsLocalPool \<Rightarrow> pstsLocalPool" where
  "setCursor i k p = p\<lparr>currentRangeIndex := i, currentIndex := k\<rparr>"

definition adjustCursor :: "ipRange list \<Rightarrow> nat \<Rightarrow> int \<Rightarrow> pstsLocalPool \<Rightarrow> pstsLocalPool option" where
  "adjustCursor oldRanges oldRangeIndex oldIndex p =
     (if oldRangeIndex \<ge> length oldRanges then Some (setCursor 0 0 p)
      else (let oldRange = oldRanges ! oldRangeIndex;
                cursorIP = getIPAtIndexInRange (startIP oldRange) oldIndex
            in case firstRange (ipInIPRange cursorIP) (ranges p) of
                 Some i \<Rightarrow> map_option (\<lambda>c. setCursor i (c - 1) p)
                             (calculateIPCount (startIP (ranges p ! i)) cursorIP)
               | None \<Rightarrow> (case firstRange (\<lambda>r. bytes_compare (to16_nil (startIP r))
                                              (to16_nil (startIP oldRange)) > 0) (ranges p) of
                   Some i \<Rightarrow> Some (setCursor i 0 p)
                 | None \<Rightarrow> Some (setCursor 0 0 p))))"

definition updateRanges :: "ipRange list \<Rightarrow> pstsLocalPool \<Rightarrow> pstsLocalPool option" where
  "updateRanges newRanges p =
     adjustCursor (ranges p) (currentRangeIndex p) (currentIndex p)
       (pruneCooldown (p\<lparr>ranges := sortRanges newRanges\<rparr>))"

section \<open>Addresses and their numbers\<close>

lemma bytes_int_Nil [simp]: "bytes_int [] = 0"
  by (simp add: bytes_int_def)

lemma bytes_int_foldl: "foldl (\<lambda>acc b. acc * 256 + uint b) n bs = n * 256 ^ length bs + bytes_int (bs :: byte list)"
proof (induction bs arbitrary: n)
  case (Cons b bs)
  from Cons [of "n * 256 + uint b"] Cons [of "uint b"] show ?case
    by (simp add: bytes_int_def algebra_simps)
qed (simp add: bytes_int_def)

lemma bytes_int_Cons: "bytes_int (b # bs) = uint b * 256 ^ length bs + bytes_int bs"
  using bytes_int_foldl [of "uint b" bs] by (simp add: bytes_int_def)

lemma bytes_int_append: "bytes_int (as @ bs) = bytes_int as * 256 ^ length bs + bytes_int bs"
  using bytes_int_foldl [of "bytes_int as" bs] by (simp add: bytes_int_def)

lemma bytes_int_replicate [simp]: "bytes_int (replicate k 0) = 0"
  by (induction k) (simp_all add: bytes_int_Cons)

lemma uint_byte_le: "uint (b :: byte) \<le> 255"
  using uint_bounded [of b] by simp

lemma bytes_int_bounds: "0 \<le> bytes_int bs \<and> bytes_int bs < 256 ^ length bs"
proof (induction bs)
  case (Cons b bs)
  have "uint b * 256 ^ length bs \<le> 255 * 256 ^ length bs"
    using uint_byte_le [of b] by (intro mult_right_mono) auto
  moreover have "(256 :: int) ^ length (b # bs) = 255 * 256 ^ length bs + 256 ^ length bs" by simp
  moreover have "0 \<le> uint b * 256 ^ length bs" by simp
  ultimately show ?case using Cons unfolding bytes_int_Cons by linarith
qed simp

lemma bytes_int_less:
  assumes "length as = length bs" "a < b"
  shows "bytes_int (a # as) < bytes_int (b # bs)"
proof -
  from assms(2) have "uint a < uint b" by (simp add: word_less_def)
  then have "(uint a + 1) * 256 ^ length as \<le> uint b * 256 ^ length as"
    by (intro mult_right_mono) auto
  moreover have "(uint a + 1) * 256 ^ length as = uint a * 256 ^ length as + 256 ^ length as"
    by (simp add: algebra_simps)
  ultimately show ?thesis
    using bytes_int_bounds [of as] bytes_int_bounds [of bs] unfolding bytes_int_Cons assms(1) by linarith
qed

lemma bytes_compare_int:
  "length as = length bs \<Longrightarrow> bytes_compare as bs = sgn (bytes_int as - bytes_int bs)"
proof (induction as bs rule: bytes_compare.induct)
  case (4 a as b bs)
  consider "a < b" | "b < a" | "a = b" by fastforce
  then show ?case
  proof cases
    assume "a < b"
    with 4 bytes_int_less [of as bs a b] show ?thesis by simp
  next
    assume "b < a"
    with 4 bytes_int_less [of bs as b a] show ?thesis by (simp add: not_less_iff_gr_or_eq)
  next
    assume "a = b"
    with 4 show ?thesis by (simp add: bytes_int_Cons)
  qed
qed simp_all

lemma bytes_int_inject:
  assumes "length as = length bs" "bytes_int as = bytes_int bs"
  shows "as = bs"
proof -
  have "bytes_compare as bs = 0" using assms by (simp add: bytes_compare_int)
  with assms(1) show ?thesis
    by (induction as bs rule: bytes_compare.induct) (auto split: if_splits)
qed

lemma bytes_int_int_bytes: "bytes_int (int_bytes n) = int n"
proof (induction n rule: less_induct)
  case (less n)
  show ?case
  proof (cases "n = 0")
    case False
    then have "bytes_int (int_bytes (n div 256)) = int (n div 256)" by (intro less) simp
    with False show ?thesis
      by (simp add: int_bytes.simps [of n] bytes_int_append bytes_int_Cons uint_nat unat_of_nat
          take_bit_eq_mod zdiv_int zmod_int)
  qed (simp add: int_bytes.simps)
qed

lemma length_int_bytes: "n < 256 ^ k \<Longrightarrow> length (int_bytes n) \<le> k"
proof (induction k arbitrary: n)
  case 0
  then show ?case by (simp add: int_bytes.simps)
next
  case (Suc k)
  then have "n div 256 < 256 ^ k" by (simp add: less_mult_imp_div_less mult.commute)
  from Suc.IH [OF this] show ?case by (simp add: int_bytes.simps [of n])
qed

lemma bigIntToIPv6:
  assumes "0 \<le> n" "n < 256 ^ 16"
  shows "length (bigIntToIPv6 n) = 16" "bytes_int (bigIntToIPv6 n) = n"
proof -
  have "nat n < 256 ^ 16" using assms by (simp add: nat_less_iff)
  then have "length (int_bytes (nat n)) \<le> 16" by (rule length_int_bytes)
  with assms show "length (bigIntToIPv6 n) = 16" "bytes_int (bigIntToIPv6 n) = n"
    by (simp_all add: bigIntToIPv6_def Let_def bytes_int_append bytes_int_int_bytes)
qed

section \<open>Positions in a range\<close>

text \<open>Both families are numbers below \<open>2 ^ 128\<close>, an IPv4 address as its mapped form.\<close>

definition psts_range_ok :: "ipRange \<Rightarrow> bool" where
  "psts_range_ok r \<longleftrightarrow> to16 (startIP r) \<noteq> None \<and> to16 (endIP r) \<noteq> None \<and>
     (to4 (startIP r) = None \<longleftrightarrow> to4 (endIP r) = None) \<and>
     ipv6ToBigInt (startIP r) \<le> ipv6ToBigInt (endIP r) \<and>
     calculateIPCount (startIP r) (endIP r) = Some (rangeCount r) \<and>
     rangeCount r = ipv6ToBigInt (endIP r) - ipv6ToBigInt (startIP r) + 1 \<and> rangeCount r \<le> 2 ^ 62"

lemma length_to16_nil: "to16 a \<noteq> None \<Longrightarrow> length (to16_nil a) = 16"
  by (auto simp: to16_nil_def to16_def v4InV6Prefix_def split: if_splits)

lemma to16_to4: "to4 a = Some b \<Longrightarrow> to16 a = Some (v4InV6Prefix @ b) \<and> length b = 4"
  by (auto simp: to4_def to16_def split: if_splits) (metis append_take_drop_id)

lemma bytes_int_prefix: "bytes_int v4InV6Prefix = 0xffff"
  by (simp add: v4InV6Prefix_def bytes_int_append bytes_int_Cons)

lemma four_bytes:
  fixes m :: int
  assumes "0 \<le> m" "m < 2 ^ 32"
  shows "m div 16777216 mod 256 * 16777216 + m div 65536 mod 256 * 65536 + m div 256 mod 256 * 256
    + m mod 256 = m"
proof -
  define a where "a = m div 256"
  define b where "b = a div 256"
  define c where "c = b div 256"
  have b: "b = m div (256 * 256)" unfolding b_def a_def by (rule zdiv_zmult2_eq [symmetric]) simp
  have c: "c = m div (256 * 256 * 256)" unfolding c_def b by (rule zdiv_zmult2_eq [symmetric]) simp
  have d: "m div 256 = a" "m div 65536 = b" "m div 16777216 = c" by (simp_all add: a_def b c)
  have "0 \<le> c" "c < 256" using assms by (simp_all add: c)
  then have "c mod 256 = c" by simp
  moreover have "m = a * 256 + m mod 256" "a = b * 256 + a mod 256" "b = c * 256 + b mod 256"
    by (simp_all add: a_def b_def c_def)
  ultimately show ?thesis unfolding d by linarith
qed

lemma intToIPv4_number:
  "length (intToIPv4 n) = 16" "bytes_int (intToIPv4 n) = 0xffff * 2 ^ 32 + uint n"
proof -
  show "length (intToIPv4 n) = 16" by (simp add: intToIPv4_def v4InV6Prefix_def)
  have u: "uint (ucast (drop_bit k n) :: byte) = uint n div 2 ^ k mod 256" for k
    unfolding unsigned_ucast_eq unsigned_drop_bit_eq
    using uint_bounded [of n] by (simp add: take_bit_eq_mod drop_bit_eq_div)
  have u24: "uint (ucast (drop_bit 24 n) :: byte) = uint n div 16777216 mod 256" by (subst u) simp
  have u16: "uint (ucast (drop_bit 16 n) :: byte) = uint n div 65536 mod 256" by (subst u) simp
  have u8: "uint (ucast (drop_bit 8 n) :: byte) = uint n div 256 mod 256" by (subst u) simp
  have u0: "uint (ucast n :: byte) = uint n mod 256"
    unfolding unsigned_ucast_eq by (simp add: take_bit_eq_mod)
  have "uint n < 2 ^ 32" using uint_bounded [of n] by simp
  then have "uint n div 16777216 mod 256 * 16777216 + uint n div 65536 mod 256 * 65536 +
      uint n div 256 mod 256 * 256 + uint n mod 256 = uint n" by (intro four_bytes) simp_all
  moreover have "bytes_int [ucast (drop_bit 24 n) :: byte, ucast (drop_bit 16 n), ucast (drop_bit 8 n), ucast n] =
      uint n div 16777216 mod 256 * 16777216 + uint n div 65536 mod 256 * 65536 +
      uint n div 256 mod 256 * 256 + uint n mod 256"
    using u0 by (simp only: bytes_int_Cons bytes_int_Nil u24 u16 u8 list.size) (simp only: u0, simp)
  ultimately show "bytes_int (intToIPv4 n) = 0xffff * 2 ^ 32 + uint n"
    by (simp only: intToIPv4_def bytes_int_append bytes_int_prefix) simp
qed

lemma ipv4ToInt_number:
  assumes "ipv4ToInt a = Some s"
  shows "to16_nil a = intToIPv4 s" "ipv6ToBigInt a = 0xffff * 2 ^ 32 + uint s"
proof -
  from assms obtain b where b: "to4 a = Some b" by (auto simp: ipv4ToInt_def)
  note t = to16_to4 [OF b]
  define n :: "32 word" where "n = word_of_int (bytes_int b)"
  have "bytes_int b < 2 ^ 32" using bytes_int_bounds [of b] t by simp
  then have "uint n = bytes_int b" using bytes_int_bounds [of b] by (simp add: n_def uint_word_of_int)
  then have "bytes_int (intToIPv4 n) = bytes_int (v4InV6Prefix @ b)"
    using t by (simp add: intToIPv4_number bytes_int_append bytes_int_prefix)
  then have eq: "v4InV6Prefix @ b = intToIPv4 n"
    using t by (intro bytes_int_inject) (simp_all add: intToIPv4_number v4InV6Prefix_def)
  then have "b = drop 12 (uint32ToIP n)" using t
    by (simp add: intToIPv4_def uint32ToIP_def v4InV6Prefix_def)
  then have "s = n"
    using assms b ipToUint32_uint32ToIP [of n] to4_uint32ToIP [of n]
    by (simp add: ipv4ToInt_def ipToUint32_def)
  with eq t show "to16_nil a = intToIPv4 s" by (simp add: to16_nil_def)
  then show "ipv6ToBigInt a = 0xffff * 2 ^ 32 + uint s"
    by (simp add: ipv6ToBigInt_def intToIPv4_number)
qed

lemma ipv4ToInt_None: "ipv4ToInt a = None \<longleftrightarrow> to4 a = None"
  by (simp add: ipv4ToInt_def)

lemma ipv6ToBigInt_bounds: "0 \<le> ipv6ToBigInt a \<and> ipv6ToBigInt a < 256 ^ 16"
proof -
  have "length (to16_nil a) \<le> 16"
    by (auto simp: to16_nil_def to16_def v4InV6Prefix_def)
  then have "(256 :: int) ^ length (to16_nil a) \<le> 256 ^ 16" by (intro power_increasing) auto
  then show ?thesis using bytes_int_bounds [of "to16_nil a"] by (simp add: ipv6ToBigInt_def)
qed

lemma getIPAtIndex_number:
  assumes "psts_range_ok r" "0 \<le> k" "k < rangeCount r"
  shows "length (getIPAtIndexInRange (startIP r) k) = 16"
    "ipv6ToBigInt (getIPAtIndexInRange (startIP r) k) = ipv6ToBigInt (startIP r) + k"
proof -
  have "length (getIPAtIndexInRange (startIP r) k) = 16 \<and>
    bytes_int (getIPAtIndexInRange (startIP r) k) = ipv6ToBigInt (startIP r) + k"
  proof (cases "ipv4ToInt (startIP r)")
    case None
    have "ipv6ToBigInt (startIP r) + k < 256 ^ 16"
      using assms ipv6ToBigInt_bounds [of "endIP r"] by (simp add: psts_range_ok_def)
    with None assms ipv6ToBigInt_bounds [of "startIP r"] show ?thesis
      by (simp add: getIPAtIndexInRange_def bigIntToIPv6)
  next
    case (Some s)
    then have "ipv4ToInt (endIP r) \<noteq> None"
      using assms(1) ipv4ToInt_None [of "startIP r"] ipv4ToInt_None [of "endIP r"] by (simp add: psts_range_ok_def)
    then obtain e where e: "ipv4ToInt (endIP r) = Some e" by blast
    have "uint s + k \<le> uint e"
      using assms ipv4ToInt_number(2) [OF Some] ipv4ToInt_number(2) [OF e] by (simp add: psts_range_ok_def)
    moreover have "uint e < 2 ^ 32" using uint_bounded [of e] by simp
    moreover have "k < 2 ^ 32" using calculation unsigned_greater_eq [of s, where 'a = int] by linarith
    ultimately have "uint (s + word_of_int k) = uint s + k"
      using assms(2) by (simp add: uint_word_ariths uint_word_of_int)
    with Some show ?thesis
      by (simp add: getIPAtIndexInRange_def intToIPv4_number ipv4ToInt_number(2) [OF Some])
  qed
  then show "length (getIPAtIndexInRange (startIP r) k) = 16"
    "ipv6ToBigInt (getIPAtIndexInRange (startIP r) k) = ipv6ToBigInt (startIP r) + k"
    by (simp_all add: ipv6ToBigInt_def to16_nil_def to16_def)
qed

lemma ipInIPRange_number:
  assumes "psts_range_ok r" "to16 a \<noteq> None"
  shows "ipInIPRange a r \<longleftrightarrow>
    ipv6ToBigInt (startIP r) \<le> ipv6ToBigInt a \<and> ipv6ToBigInt a \<le> ipv6ToBigInt (endIP r)"
  using assms by (auto simp: ipInIPRange_def bytes_compare_int length_to16_nil psts_range_ok_def
      ipv6ToBigInt_def sgn_if split: if_splits)

section \<open>Every free address is found\<close>

definition taken :: "int \<Rightarrow> pstsLocalPool \<Rightarrow> string \<Rightarrow> bool" where
  "taken now p s \<longleftrightarrow> s \<in> realOccupied p \<or> isInCooldown now p s"

text \<open>The specification: the addresses of the ranges that are neither in use nor resting.\<close>

definition free_addresses :: "int \<Rightarrow> pstsLocalPool \<Rightarrow> string set" where
  "free_addresses now p = {ip_string a |a. to16 a \<noteq> None \<and> isInAnyRange p a \<and> \<not> taken now p (ip_string a)}"

definition pool_ok :: "pstsLocalPool \<Rightarrow> bool" where
  "pool_ok p \<longleftrightarrow> (\<forall>r\<in>set (ranges p). psts_range_ok r) \<and>
     (ranges p \<noteq> [] \<longrightarrow> currentRangeIndex p < length (ranges p) \<and>
        currentIndex p < rangeCount (ranges p ! currentRangeIndex p)) \<and>
     0 \<le> currentIndex p \<and> currentIndex p < 2 ^ 62"

lemma ip_string_to16:
  assumes "to16 a \<noteq> None"
  shows "ip_string (to16_nil a) = ip_string a"
proof (cases "length a = 4")
  case True
  then show ?thesis by (auto simp: ip_string_def to16_nil_def to16_def to4_def v4InV6Prefix_def)
next
  case False
  with assms have "to16_nil a = a" by (auto simp: to16_nil_def to16_def split: if_splits)
  then show ?thesis by simp
qed

lemma ip_string_number:
  assumes "to16 a \<noteq> None" "to16 b \<noteq> None" "ipv6ToBigInt a = ipv6ToBigInt b"
  shows "ip_string a = ip_string b"
proof -
  have "to16_nil a = to16_nil b"
    using assms length_to16_nil by (intro bytes_int_inject) (simp_all add: ipv6ToBigInt_def)
  then show ?thesis using ip_string_to16 [OF assms(1)] ip_string_to16 [OF assms(2)] by simp
qed

definition candidateText :: "ipRange \<Rightarrow> int \<Rightarrow> string" where
  "candidateText r k = ip_string (getIPAtIndexInRange (startIP r) k)"

lemma getIPAtIndex_in_range:
  assumes "psts_range_ok r" "0 \<le> k" "k < rangeCount r"
  shows "to16 (getIPAtIndexInRange (startIP r) k) \<noteq> None" "ipInIPRange (getIPAtIndexInRange (startIP r) k) r"
proof -
  note n = getIPAtIndex_number [OF assms]
  from n(1) show v: "to16 (getIPAtIndexInRange (startIP r) k) \<noteq> None" by (simp add: to16_def)
  show "ipInIPRange (getIPAtIndexInRange (startIP r) k) r"
    using ipInIPRange_number [OF assms(1) v] n(2) assms by (simp add: psts_range_ok_def)
qed

lemma range_candidates:
  assumes "psts_range_ok r" "to16 a \<noteq> None" "ipInIPRange a r"
  obtains k where "0 \<le> k" "k < rangeCount r" "ip_string a = candidateText r k"
proof -
  define k where "k = ipv6ToBigInt a - ipv6ToBigInt (startIP r)"
  have k: "0 \<le> k" "k < rangeCount r"
    using ipInIPRange_number [OF assms(1,2)] assms(1,3) by (auto simp: k_def psts_range_ok_def)
  have "ip_string a = candidateText r k"
    unfolding candidateText_def
    using assms(1) k by (intro ip_string_number) (simp_all add: assms getIPAtIndex_in_range getIPAtIndex_number k_def)
  with k that show thesis by blast
qed

lemma free_addresses_iff:
  assumes "pool_ok p"
  shows "s \<in> free_addresses now p \<longleftrightarrow>
    (\<exists>r\<in>set (ranges p). \<exists>k. 0 \<le> k \<and> k < rangeCount r \<and> s = candidateText r k \<and> \<not> taken now p s)"
proof
  assume "s \<in> free_addresses now p"
  then obtain a r where a: "s = ip_string a" "to16 a \<noteq> None" "r \<in> set (ranges p)" "ipInIPRange a r"
    "\<not> taken now p s" by (auto simp: free_addresses_def isInAnyRange_def list_ex_iff)
  then have "psts_range_ok r" using assms by (simp add: pool_ok_def)
  from range_candidates [OF this a(2,4)] a show
    "\<exists>r\<in>set (ranges p). \<exists>k. 0 \<le> k \<and> k < rangeCount r \<and> s = candidateText r k \<and> \<not> taken now p s"
    by metis
next
  assume "\<exists>r\<in>set (ranges p). \<exists>k. 0 \<le> k \<and> k < rangeCount r \<and> s = candidateText r k \<and> \<not> taken now p s"
  then obtain r k where r: "r \<in> set (ranges p)" "0 \<le> k" "k < rangeCount r" "s = candidateText r k"
    "\<not> taken now p s" by blast
  then have "psts_range_ok r" using assms by (simp add: pool_ok_def)
  from getIPAtIndex_in_range [OF this r(2,3)] r show "s \<in> free_addresses now p"
    by (auto simp: free_addresses_def isInAnyRange_def list_ex_iff candidateText_def)
qed

lemma smod_nonneg: "0 \<le> a \<Longrightarrow> 0 \<le> b \<Longrightarrow> a smod b = a mod (b :: int)"
  by (cases "a = 0") (simp_all add: smod_int_alt_def)

lemma candidateIndex_mod:
  assumes "pool_ok p" "psts_range_ok r" "0 \<le> i" "i < rangeCount r"
  shows "candidateIndex p r i = (currentIndex p + i) mod rangeCount r"
    "0 \<le> candidateIndex p r i" "candidateIndex p r i < rangeCount r"
proof -
  have "go_int (currentIndex p + i) = currentIndex p + i"
    using assms by (intro go_int_id) (auto simp: pool_ok_def psts_range_ok_def)
  with assms show eq: "candidateIndex p r i = (currentIndex p + i) mod rangeCount r"
    by (simp add: candidateIndex_def smod_nonneg pool_ok_def)
  from assms show "0 \<le> candidateIndex p r i" "candidateIndex p r i < rangeCount r"
    by (simp_all add: eq)
qed

lemma candidateIndex_onto:
  assumes "pool_ok p" "psts_range_ok r" "0 \<le> k" "k < rangeCount r"
  shows "\<exists>i. 0 \<le> i \<and> i < rangeCount r \<and> candidateIndex p r i = k"
proof -
  define i where "i = (k - currentIndex p) mod rangeCount r"
  have i: "0 \<le> i" "i < rangeCount r" using assms(3,4) by (simp_all add: i_def)
  have "(currentIndex p + i) mod rangeCount r = k mod rangeCount r"
    by (simp add: i_def mod_simps)
  then have "candidateIndex p r i = k"
    using candidateIndex_mod(1) [OF assms(1,2) i] assms(3,4) by simp
  with i show ?thesis by blast
qed

lemma scanRange_Some:
  assumes "scanRange now p r left = Some i" "int left \<le> rangeCount r"
  shows "0 \<le> i \<and> i < rangeCount r \<and> \<not> taken now p (candidateText r (candidateIndex p r i))"
  using assms by (induction now p r left rule: scanRange.induct)
    (auto simp: taken_def candidateText_def Let_def split: if_splits)

lemma scanRange_None:
  assumes "scanRange now p r left = None" "rangeCount r - int left \<le> i" "i < rangeCount r"
  shows "taken now p (candidateText r (candidateIndex p r i))"
  using assms
proof (induction now p r left rule: scanRange.induct)
  case (2 now p r left)
  show ?case
  proof (cases "i = rangeCount r - int (Suc left)")
    case True
    with 2(2) show ?thesis by (auto simp: taken_def candidateText_def Let_def split: if_splits)
  next
    case False
    with 2 show ?thesis by (auto simp: Let_def split: if_splits)
  qed
qed simp

definition exhausted :: "int \<Rightarrow> pstsLocalPool \<Rightarrow> ipRange \<Rightarrow> bool" where
  "exhausted now p r \<longleftrightarrow> (\<forall>k. 0 \<le> k \<and> k < rangeCount r \<longrightarrow> taken now p (candidateText r k))"

definition picked :: "int \<Rightarrow> pstsLocalPool \<Rightarrow> pstsLocalPool \<Rightarrow> ip \<Rightarrow> bool" where
  "picked now p p' a \<longleftrightarrow> to16 a \<noteq> None \<and> isInAnyRange p a \<and> \<not> taken now p (ip_string a) \<and> pool_ok p' \<and>
     (\<exists>c k. p' = p\<lparr>realOccupied := insert (ip_string a) (realOccupied p),
                   candidateCooldown := (candidateCooldown p)(ip_string a := None),
                   currentRangeIndex := c, currentIndex := k\<rparr>)"

lemma scanRange_exhausted:
  assumes "pool_ok p" "psts_range_ok r" "scanRange now p r (nat (rangeCount r)) = None"
  shows "exhausted now p r"
  unfolding exhausted_def
proof (intro allI impI)
  fix k assume k: "0 \<le> k \<and> k < rangeCount r"
  then obtain i where i: "0 \<le> i" "i < rangeCount r" "candidateIndex p r i = k"
    using candidateIndex_onto [OF assms(1,2)] by blast
  with scanRange_None [OF assms(3), of i] k show "taken now p (candidateText r k)" by simp
qed

lemma takeCandidate_picked:
  assumes ok: "pool_ok p" "ranges p \<noteq> []" "r = ranges p ! currentRangeIndex p" and scan: "scanRange now p r (nat (rangeCount r)) = Some i"
    and take: "takeCandidate p r i = (p', a)"
  shows "picked now p p' a"
proof -
  have r_in: "r \<in> set (ranges p)" using ok by (simp add: pool_ok_def)
  then have r: "psts_range_ok r" using ok(1) by (simp add: pool_ok_def)
  have all_pos: "\<forall>r\<in>set (ranges p). 0 < rangeCount r" using ok(1) by (auto simp: pool_ok_def psts_range_ok_def)
  then have pos: "0 < rangeCount r" using r_in by (simp add: psts_range_ok_def)
  from scanRange_Some [OF scan] pos
  have i: "0 \<le> i" "i < rangeCount r" "\<not> taken now p (candidateText r (candidateIndex p r i))" by simp_all
  note k = candidateIndex_mod [OF ok(1) r i(1,2)]
  have a: "a = getIPAtIndexInRange (startIP r) (candidateIndex p r i)"
    using take by (simp add: takeCandidate_def Let_def)
  define nxt where "nxt = go_int (go_int (currentIndex p + i) + 1) smod rangeCount r"
  have b: "0 \<le> currentIndex p" "currentIndex p < 2 ^ 62" "rangeCount r \<le> 2 ^ 62"
    using ok(1) r by (auto simp: pool_ok_def psts_range_ok_def)
  then have g: "go_int (currentIndex p + i) = currentIndex p + i"
    using i by (intro go_int_id) auto
  then have "go_int (go_int (currentIndex p + i) + 1) = currentIndex p + i + 1"
    using b i by (simp only: g, intro go_int_id) auto
  then have "nxt = (currentIndex p + i + 1) mod rangeCount r"
    using b i by (simp add: nxt_def smod_nonneg)
  then have n: "0 \<le> nxt" "nxt < rangeCount r" using pos by simp_all
  have p': "p' = p\<lparr>realOccupied := insert (ip_string a) (realOccupied p),
      candidateCooldown := (candidateCooldown p)(ip_string a := None),
      currentRangeIndex := (if nxt = 0 then (currentRangeIndex p + 1) mod length (ranges p) else currentRangeIndex p),
      currentIndex := nxt\<rparr>"
    using take by (auto simp: takeCandidate_def Let_def a nxt_def)
  have "pool_ok p'" using ok(1,2) n b all_pos by (auto simp: pool_ok_def p' ok(3) [symmetric])
  moreover have "to16 a \<noteq> None" "isInAnyRange p a"
    using getIPAtIndex_in_range [OF r k(2,3)] r_in by (auto simp: a isInAnyRange_def list_ex_iff)
  moreover have "\<not> taken now p (ip_string a)" using i(3) by (simp add: a candidateText_def)
  ultimately show ?thesis using p' unfolding picked_def by blast
qed

text \<open>The cursor alone moves when a range has nothing to offer.\<close>

lemma picked_cursor:
  "picked now (p\<lparr>currentRangeIndex := c, currentIndex := k\<rparr>) p' a \<Longrightarrow> picked now p p' a"
  by (auto simp: picked_def isInAnyRange_def taken_def isInCooldown_def)

lemma taken_cursor [simp]:
  "taken now (p\<lparr>currentRangeIndex := c, currentIndex := k\<rparr>) = taken now p"
  by (auto simp: taken_def isInCooldown_def fun_eq_iff)

lemma exhausted_cursor [simp]:
  "exhausted now (p\<lparr>currentRangeIndex := c, currentIndex := k\<rparr>) = exhausted now p"
  by (simp add: exhausted_def fun_eq_iff)

definition loop_result :: "int \<Rightarrow> nat \<Rightarrow> pstsLocalPool \<Rightarrow> pstsLocalPool \<times> (err + ip) \<Rightarrow> bool" where
  "loop_result now n p res =
     (case res of
        (p', Inr a) \<Rightarrow> picked now p p' a
      | (p', Inl e) \<Rightarrow> pool_ok p' \<and> (\<exists>c k. p' = p\<lparr>currentRangeIndex := c, currentIndex := k\<rparr>) \<and>
          (\<forall>j<n. exhausted now p (ranges p ! ((currentRangeIndex p + j) mod length (ranges p)))))"

lemma rangesLoop_result:
  assumes "pool_ok p" "ranges p \<noteq> []"
  shows "\<exists>res. rangesLoop now n p = Some res \<and> loop_result now n p res"
  using assms
proof (induction n arbitrary: p)
  case 0
  have "\<exists>c k. p = p\<lparr>currentRangeIndex := c, currentIndex := k\<rparr>"
    by (rule exI [of _ "currentRangeIndex p"], rule exI [of _ "currentIndex p"]) simp
  with 0 show ?case by (simp add: loop_result_def)
next
  case (Suc n)
  define L where "L = length (ranges p)"
  have c: "currentRangeIndex p < L" using Suc.prems by (simp add: pool_ok_def L_def)
  define r where "r = ranges p ! currentRangeIndex p"
  have r: "r \<in> set (ranges p)" using c by (simp add: r_def L_def)
  then have r_ok: "psts_range_ok r" using Suc.prems by (simp add: pool_ok_def)
  show ?case
  proof (cases "scanRange now p r (nat (rangeCount r))")
    case (Some i)
    obtain p' a where t: "takeCandidate p r i = (p', a)" by fastforce
    with takeCandidate_picked [OF Suc.prems r_def Some] c Some show ?thesis
      by (simp add: loop_result_def r_def [symmetric] L_def Let_def)
  next
    case None
    define p2 where "p2 = p\<lparr>currentRangeIndex := (currentRangeIndex p + 1) mod L, currentIndex := 0\<rparr>"
    have "\<forall>r\<in>set (ranges p). 0 < rangeCount r" using Suc.prems(1) by (auto simp: pool_ok_def psts_range_ok_def)
    then have p2: "pool_ok p2" "ranges p2 = ranges p" "ranges p2 \<noteq> []"
      using Suc.prems c by (auto simp: p2_def pool_ok_def L_def)
    from Suc.IH [OF p2(1,3)] obtain res where res: "rangesLoop now n p2 = Some res" "loop_result now n p2 res"
      by blast
    have ex: "exhausted now p r" by (rule scanRange_exhausted [OF Suc.prems(1) r_ok None])
    have step: "rangesLoop now (Suc n) p = Some res"
      using c None res(1) by (simp add: r_def [symmetric] L_def [symmetric] p2_def Let_def)
    have "loop_result now (Suc n) p res"
    proof (cases res)
      case (Pair p' x)
      show ?thesis
      proof (cases x)
        case (Inr a)
        with Pair res(2) show ?thesis by (auto simp: loop_result_def p2_def intro: picked_cursor)
      next
        case (Inl e)
        have "exhausted now p (ranges p ! ((currentRangeIndex p + j) mod L))" if "j < Suc n" for j
        proof (cases j)
          case 0
          with ex c show ?thesis by (simp add: r_def)
        next
          case (Suc j')
          have "exhausted now p (ranges p ! (((currentRangeIndex p + 1) mod L + j') mod L))"
            using Suc that res(2) Pair Inl by (simp add: loop_result_def p2_def L_def [symmetric])
          moreover have "((currentRangeIndex p + 1) mod L + j') mod L = (currentRangeIndex p + j) mod L"
            using Suc by (simp add: mod_simps)
          ultimately show ?thesis by simp
        qed
        with Pair Inl res(2) show ?thesis by (auto simp: loop_result_def p2_def L_def [symmetric])
      qed
    qed
    with step show ?thesis by blast
  qed
qed

section \<open>The other operations\<close>

lemma range_v4:
  assumes "psts_range_ok r" "to4 (startIP r) \<noteq> None" "to16 a \<noteq> None" "ipInIPRange a r"
  shows "to4 a \<noteq> None"
proof -
  obtain s where s: "ipv4ToInt (startIP r) = Some s" using assms(2) by (auto simp: ipv4ToInt_def)
  obtain e where e: "ipv4ToInt (endIP r) = Some e" using assms(1,2) by (auto simp: ipv4ToInt_def psts_range_ok_def)
  note n = ipInIPRange_number [OF assms(1,3), THEN iffD1, OF assms(4)]
  define m where "m = ipv6ToBigInt a - 0xffff * 2 ^ 32"
  have m: "uint s \<le> m" "m \<le> uint e" using n ipv4ToInt_number(2) [OF s] ipv4ToInt_number(2) [OF e] by (simp_all add: m_def)
  define w :: "32 word" where "w = word_of_int m"
  have "0 \<le> m" using m(1) unsigned_greater_eq [of s, where 'a = int] by linarith
  moreover have "m < 2 ^ 32" using m(2) uint_bounded [of e] by simp
  ultimately have w: "uint w = m" by (simp add: w_def uint_word_of_int)
  have "bytes_int (to16_nil a) = bytes_int (intToIPv4 w)"
    by (simp add: intToIPv4_number w m_def ipv6ToBigInt_def)
  then have "to16_nil a = intToIPv4 w"
    using assms(3) length_to16_nil intToIPv4_number by (intro bytes_int_inject) simp_all
  then show ?thesis
    by (auto simp: to16_nil_def to16_def to4_def intToIPv4_def v4InV6Prefix_def split: if_splits)
qed

lemma calculateIPCount_number:
  assumes "psts_range_ok r" "to16 a \<noteq> None" "ipInIPRange a r"
  shows "calculateIPCount (startIP r) a = Some (ipv6ToBigInt a - ipv6ToBigInt (startIP r) + 1)"
proof -
  note n = ipInIPRange_number [OF assms(1,2), THEN iffD1, OF assms(3)]
  show ?thesis
  proof (cases "ipv4ToInt (startIP r)")
    case None
    have "ipv6ToBigInt a - ipv6ToBigInt (startIP r) + 1 \<le> 2 ^ 62"
      using assms(1) n by (simp add: psts_range_ok_def)
    moreover have "0 \<le> ipv6ToBigInt a - ipv6ToBigInt (startIP r) + 1" using n by simp
    ultimately show ?thesis using None by (simp add: calculateIPCount_def ipv4ToInt_None Let_def)
  next
    case (Some s)
    then have "ipv4ToInt (endIP r) \<noteq> None"
      using assms(1) ipv4ToInt_None [of "startIP r"] ipv4ToInt_None [of "endIP r"] by (simp add: psts_range_ok_def)
    then obtain e where e: "ipv4ToInt (endIP r) = Some e" by blast
    note se = ipv4ToInt_number(2) [OF Some] ipv4ToInt_number(2) [OF e]
    define m where "m = ipv6ToBigInt a - 0xffff * 2 ^ 32"
    have m: "uint s \<le> m" "m \<le> uint e" using n se by (simp_all add: m_def)
    have "to4 a \<noteq> None"
      using range_v4 [OF assms(1) _ assms(2,3)] Some ipv4ToInt_None [of "startIP r"] by simp
    then obtain x where x: "ipv4ToInt a = Some x" by (auto simp: ipv4ToInt_def)
    then have "uint x = m" using ipv4ToInt_number(2) [OF x] by (simp add: m_def)
    have "to4 (startIP r) \<noteq> None" using Some ipv4ToInt_None [of "startIP r"] by simp
    then have "uint (e - s + 1) = uint e - uint s + 1"
      using assms(1) Some e se by (simp add: psts_range_ok_def calculateIPCount_def)
    then have "uint e - uint s + 1 < 2 ^ 32" using uint_bounded [of "e - s + 1"] by simp
    then have "uint (x - s + 1) = uint x - uint s + 1"
      using m \<open>uint x = m\<close> by (simp add: uint_word_ariths mod_simps)
    then show ?thesis using Some x \<open>uint x = m\<close> se ipv4ToInt_None [of "startIP r"]
      by (simp add: calculateIPCount_def m_def)
  qed
qed

lemma firstRange_Some: "firstRange P rs = Some i \<Longrightarrow> i < length rs \<and> P (rs ! i)"
  by (auto simp: firstRange_def find_Some_iff)

lemma firstRange_None: "firstRange P rs = None \<Longrightarrow> r \<in> set rs \<Longrightarrow> \<not> P r"
  by (auto simp: firstRange_def find_None_iff in_set_conv_nth)

lemma pool_ok_cursor:
  assumes "\<forall>r\<in>set (ranges p). psts_range_ok r" "ranges p \<noteq> [] \<longrightarrow> i < length (ranges p) \<and> k < rangeCount (ranges p ! i)"
    "0 \<le> k" "ranges p = [] \<longrightarrow> k = 0"
  shows "pool_ok (setCursor i k p)"
proof -
  have "k < 2 ^ 62"
  proof (cases "ranges p = []")
    case False
    then have "psts_range_ok (ranges p ! i)" using assms(1,2) by simp
    then show ?thesis using assms(2) False by (simp add: psts_range_ok_def)
  qed (use assms(4) in simp)
  with assms show ?thesis by (simp add: pool_ok_def setCursor_def)
qed

text \<open>The cursor points at the same address after the ranges have changed, as long as one of them
  contains it.\<close>

lemma updateRanges_ok:
  assumes "pool_ok p" "\<forall>r\<in>set rs. psts_range_ok r"
  shows "\<exists>i k. updateRanges rs p = Some (setCursor i k (pruneCooldown (p\<lparr>ranges := sortRanges rs\<rparr>))) \<and>
    pool_ok (setCursor i k (pruneCooldown (p\<lparr>ranges := sortRanges rs\<rparr>))) \<and>
    (ranges p \<noteq> [] \<and> (\<exists>r\<in>set rs. ipInIPRange
        (getIPAtIndexInRange (startIP (ranges p ! currentRangeIndex p)) (currentIndex p)) r) \<longrightarrow>
     ipv6ToBigInt (getIPAtIndexInRange (startIP (sortRanges rs ! i)) k) =
     ipv6ToBigInt (getIPAtIndexInRange (startIP (ranges p ! currentRangeIndex p)) (currentIndex p)))"
proof -
  define q where "q = pruneCooldown (p\<lparr>ranges := sortRanges rs\<rparr>)"
  have q: "ranges q = sortRanges rs" "\<forall>r\<in>set (ranges q). psts_range_ok r"
    using assms(2) by (simp_all add: q_def pruneCooldown_def sortRanges_def)
  have pos: "r \<in> set (ranges q) \<Longrightarrow> 0 < rangeCount r" for r using q(2) by (auto simp: psts_range_ok_def)
  have start: "pool_ok (setCursor i 0 q)" if "ranges q \<noteq> [] \<Longrightarrow> i < length (ranges q)" for i
    using that pos q(2) by (intro pool_ok_cursor) simp_all
  show ?thesis
  proof (cases "ranges p = []")
    case True
    then show ?thesis using start [of 0] by (auto simp: updateRanges_def adjustCursor_def q_def [symmetric])
  next
    case False
    define old where "old = ranges p ! currentRangeIndex p"
    define cur where "cur = getIPAtIndexInRange (startIP old) (currentIndex p)"
    have c: "currentRangeIndex p < length (ranges p)" "psts_range_ok old" "0 \<le> currentIndex p" "currentIndex p < rangeCount old"
      using assms(1) False by (auto simp: pool_ok_def old_def)
    have cur: "to16 cur \<noteq> None" unfolding cur_def by (rule getIPAtIndex_in_range(1) [OF c(2-4)])
    show ?thesis
    proof (cases "firstRange (ipInIPRange cur) (ranges q)")
      case (Some i)
      note i = firstRange_Some [OF Some]
      then have ok: "psts_range_ok (ranges q ! i)" using q(2) by simp
      define k where "k = ipv6ToBigInt cur - ipv6ToBigInt (startIP (ranges q ! i))"
      have k: "0 \<le> k" "k < rangeCount (ranges q ! i)"
        using ipInIPRange_number [OF ok cur] i ok by (auto simp: k_def psts_range_ok_def)
      have "calculateIPCount (startIP (ranges q ! i)) cur = Some (k + 1)"
        using calculateIPCount_number [OF ok cur] i by (simp add: k_def)
      then have "updateRanges rs p = Some (setCursor i k q)"
        using c Some by (simp add: updateRanges_def adjustCursor_def q_def [symmetric] old_def [symmetric] cur_def [symmetric] Let_def)
      moreover have "pool_ok (setCursor i k q)" using k i q(2) by (intro pool_ok_cursor) auto
      moreover have "ipv6ToBigInt (getIPAtIndexInRange (startIP (sortRanges rs ! i)) k) = ipv6ToBigInt cur"
        using getIPAtIndex_number(2) [OF ok k] by (simp add: k_def q(1) [symmetric])
      ultimately show ?thesis unfolding q_def [symmetric] cur_def old_def by blast
    next
      case None
      have no: "\<not> (\<exists>r\<in>set rs. ipInIPRange cur r)"
        using firstRange_None [OF None] q(1) by (auto simp: sortRanges_def)
      show ?thesis
      proof (cases "firstRange (\<lambda>r. bytes_compare (to16_nil (startIP r)) (to16_nil (startIP old)) > 0) (ranges q)")
        case (Some i)
        have "updateRanges rs p = Some (setCursor i 0 q)"
          using c None Some by (simp add: updateRanges_def adjustCursor_def q_def [symmetric] old_def [symmetric] cur_def [symmetric] Let_def)
        with start [of i] firstRange_Some [OF Some] no show ?thesis
          unfolding q_def [symmetric] cur_def [symmetric] old_def [symmetric] by blast
      next
        case none: None
        have "updateRanges rs p = Some (setCursor 0 0 q)"
          using c None none by (simp add: updateRanges_def adjustCursor_def q_def [symmetric] old_def [symmetric] cur_def [symmetric] Let_def)
        with start [of 0] no show ?thesis
          unfolding q_def [symmetric] cur_def [symmetric] old_def [symmetric] by auto
      qed
    qed
  qed
qed

lemma pool_ok_frame:
  "ranges q = ranges p \<Longrightarrow> currentRangeIndex q = currentRangeIndex p \<Longrightarrow> currentIndex q = currentIndex p
   \<Longrightarrow> pool_ok p \<Longrightarrow> pool_ok q"
  by (simp add: pool_ok_def)

lemma pool_ok_ops [inv_intros]:
  assumes "pool_ok p"
  shows "pool_ok (releaseCandidate s p)" "pool_ok (psts_release a p)" "pool_ok (fst (markUnavailable now a p))"
    "pool_ok (pool_resetCooldown a p)" "pool_ok (fst (markOccupied a p))" "pool_ok (initPoolRuntime i n m p)"
  using assms
  by (auto intro!: pool_ok_frame [OF _ _ _ assms]
      simp: releaseCandidate_def psts_release_def markUnavailable_def pool_resetCooldown_def
        markOccupied_def initPoolRuntime_def Let_def)

section \<open>The rest of a refused candidate\<close>

lemma cooldownLoop_min: "0 < b \<Longrightarrow> cooldownLoop n b = min candidateCooldownMax (b * 2 ^ n)"
proof (induction n b rule: cooldownLoop.induct)
  case (2 n b)
  have "(1 :: int) \<le> 2 ^ Suc n" by (rule one_le_power) simp
  then have le: "b * 1 \<le> b * 2 ^ Suc n" using 2(2) by (intro mult_left_mono) simp_all
  show ?case
  proof (cases "candidateCooldownMax \<le> b")
    case True
    with le have "candidateCooldownMax \<le> b * 2 ^ Suc n" by linarith
    with True show ?thesis by simp
  qed (use 2 in \<open>simp add: mult.assoc\<close>)
qed (simp add: min_def)

text \<open>The rest doubles with every failure, from two seconds to two minutes.\<close>

lemma computeCandidateCooldown_doubles:
  "computeCandidateCooldown (1 + int n) = min candidateCooldownMax (candidateCooldownBase * 2 ^ n)"
proof (cases n)
  case (Suc m)
  then have "nat (1 + int n - 1) = n" "\<not> 1 + int n \<le> 1" by simp_all
  then show ?thesis by (simp only: computeCandidateCooldown_def if_False) (simp add: cooldownLoop_min candidateCooldownBase_def)
qed (simp add: computeCandidateCooldown_def candidateCooldownBase_def candidateCooldownMax_def)

section \<open>The ring\<close>

lemma psts_allocateNext_cases [consumes 1, case_names err picked]:
  assumes "pool_ok p"
  obtains p' e c k where "psts_allocateNext now p = Some (p', Inl e)" "free_addresses now p = {}" "pool_ok p'"
      "p' = p\<lparr>currentRangeIndex := c, currentIndex := k\<rparr>"
    | p' a where "psts_allocateNext now p = Some (p', Inr a)" "picked now p p' a"
proof (cases "ranges p = []")
  case True
  then have "psts_allocateNext now p = Some (p, Inl ''no IP ranges configured in pool'')" "free_addresses now p = {}"
    by (simp_all add: psts_allocateNext_def free_addresses_def isInAnyRange_def)
  from that(1) [OF this assms, of "currentIndex p" "currentRangeIndex p"] show ?thesis by simp
next
  case False
  define L where "L = length (ranges p)"
  obtain p' x where res: "rangesLoop now L p = Some (p', x)" "loop_result now L p (p', x)"
    using rangesLoop_result [OF assms False] by (metis surj_pair)
  have alloc: "psts_allocateNext now p = Some (p', x)"
    using res(1) False by (simp add: psts_allocateNext_def L_def)
  show ?thesis
  proof (cases x)
    case (Inr a)
    with res(2) have "picked now p p' a" by (simp add: loop_result_def)
    with alloc Inr that(2) show ?thesis by blast
  next
    case (Inl e)
    have "free_addresses now p = {}"
    proof (rule ccontr)
      assume "free_addresses now p \<noteq> {}"
      then obtain s where "s \<in> free_addresses now p" by blast
      then obtain r k where r: "r \<in> set (ranges p)" "0 \<le> k" "k < rangeCount r" "\<not> taken now p (candidateText r k)"
        unfolding free_addresses_iff [OF assms] by metis
      then obtain m where m: "m < L" "r = ranges p ! m" by (auto simp: in_set_conv_nth L_def)
      define j where "j = (m + (L - currentRangeIndex p)) mod L"
      have c: "currentRangeIndex p < L" using assms False by (simp add: pool_ok_def L_def)
      then have "(currentRangeIndex p + j) mod L = (m + L) mod L" by (simp add: j_def mod_simps)
      with m have "(currentRangeIndex p + j) mod L = m" by simp
      moreover have "j < L" using c by (simp add: j_def)
      moreover have "\<forall>j<L. exhausted now p (ranges p ! ((currentRangeIndex p + j) mod L))"
        using res(2) Inl unfolding loop_result_def L_def by simp
      ultimately have "exhausted now p r" using m(2) by metis
      with r show False by (simp add: exhausted_def)
    qed
    with alloc Inl res(2) that(1) show ?thesis by (auto simp: loop_result_def)
  qed
qed

text \<open>
  C34: An allocation from the pool of reserved addresses finds a free address whenever there is one. If
  the ranges hold an address that is neither in use nor resting after a refusal, the call returns such
  an address, marks exactly that one as used and forgets its rest; otherwise it reports an error and
  changes nothing but its cursor. It never leaves the ranges, whatever the cursor was.
\<close>

theorem psts_allocateNext_correct:
  assumes "pool_ok p"
  shows "case psts_allocateNext now p of
      None \<Rightarrow> False
    | Some (p', Inr a) \<Rightarrow> ip_string a \<in> free_addresses now p \<and> pool_ok p' \<and>
        realOccupied p' = insert (ip_string a) (realOccupied p) \<and>
        candidateCooldown p' = (candidateCooldown p)(ip_string a := None) \<and> ranges p' = ranges p
    | Some (p', Inl e) \<Rightarrow> free_addresses now p = {} \<and> pool_ok p' \<and>
        realOccupied p' = realOccupied p \<and> candidateCooldown p' = candidateCooldown p \<and> ranges p' = ranges p"
  using assms
proof (cases rule: psts_allocateNext_cases [where now = now])
  case (picked p' a)
  then show ?thesis by (auto simp: picked_def free_addresses_def)
qed auto

definition demo_range :: ipRange where
  "demo_range = \<lparr>startIP = [10, 0, 0, 1], endIP = [10, 0, 0, 2], rangeCount = 2\<rparr>"

definition demo_psts_pool :: pstsLocalPool where
  "demo_psts_pool = (initPoolRuntime ''id'' ''ns'' ''p'' (newExpectedPool ''sbn'' ''4'' [demo_range]))
     \<lparr>realOccupied := {''10.0.0.1''}\<rparr>"

lemma demo_pool_ok: "pool_ok demo_psts_pool"
  by (simp add: pool_ok_def demo_psts_pool_def initPoolRuntime_def newExpectedPool_def demo_range_def psts_range_ok_def
      to16_def to4_def calculateIPCount_def ipv4ToInt_def ipv6ToBigInt_def to16_nil_def v4InV6Prefix_def
      bytes_int_append bytes_int_Cons)

theorem psts_allocateNext_correct_witness:
  "case psts_allocateNext 0 demo_psts_pool of
      None \<Rightarrow> False
    | Some (p', Inr a) \<Rightarrow> ip_string a \<in> free_addresses 0 demo_psts_pool \<and> pool_ok p' \<and>
        realOccupied p' = insert (ip_string a) (realOccupied demo_psts_pool) \<and>
        candidateCooldown p' = (candidateCooldown demo_psts_pool)(ip_string a := None) \<and> ranges p' = ranges demo_psts_pool
    | Some (p', Inl e) \<Rightarrow> free_addresses 0 demo_psts_pool = {} \<and> pool_ok p' \<and>
        realOccupied p' = realOccupied demo_psts_pool \<and> candidateCooldown p' = candidateCooldown demo_psts_pool \<and>
        ranges p' = ranges demo_psts_pool"
  by (rule psts_allocateNext_correct [OF demo_pool_ok])

end
