(* ===== verification/EndpointTypes.thy ===== *)
theory EndpointTypes
  imports GoNet
begin

text \<open>
  The endpoint object of a pod (\<open>CCEEndpoint\<close>), through which agent and operator agree on the addresses
  of a pod with a topology spread, and the functions both use on it (\<open>pkg/endpoint/endpoint_utils.go\<close>,
  the finalizer in \<open>pkg/k8s/labels.go\<close>). A nil dereference is \<open>None\<close>. Fields the endpoint code does not
  read or write are left out.
\<close>

section \<open>Data\<close>

type_synonym ipFamily = string

definition IPv4Family :: ipFamily where "IPv4Family = ''4''"
definition IPv6Family :: ipFamily where "IPv6Family = ''6''"

record AddressPair =
  apFamily :: ipFamily
  apIP :: string
  apInterface :: string
  apSubnet :: string
  apCIDRs :: "string list"
  apGateway :: string

record EndpointIdentifiers =
  K8sNamespace :: string
  K8sPodName :: string
  ContainerID :: string
  K8sObjectID :: string
  PodName :: string
  Netns :: string

datatype IPAllocType = IPAllocTypeNil | IPAllocTypeRDMA | IPAllocTypeElastic | IPAllocTypeFixed
  | IPAllocTypeENIPrimary

datatype ReleaseStrategy = ReleaseStrategyNil | ReleaseStrategyTTL | ReleaseStrategyNever

record IPAllocation =
  AllocType :: IPAllocType
  AllocReleaseStrategy :: ReleaseStrategy
  TTLSecondsAfterDeleted :: "int option"
  PSTSName :: string
  NodeName :: string

record EndpointSpec =
  specIdentifiers :: "EndpointIdentifiers option"
  specIPAllocation :: "IPAllocation option"

datatype EndpointState = EndpointStateNone | EndpointStateRestoring | EndpointStateInvalid
  | EndpointStateIPAllocated | EndpointStatePodDeleted | EndpointStateOther string

datatype ChangeCode = CodeOk | CodeFailed

text \<open>The time stamp of a log entry is a text with the precision of a second.\<close>

record EndpointStatusChange =
  ChangeCode :: ChangeCode
  ChangeState :: EndpointState
  ChangeTimestamp :: string
  ChangeMessage :: string

record EndpointNetworking =
  Addressing :: "AddressPair list"
  NodeIP :: string
  IPs :: string

record EndpointStatus =
  statusIdentifiers :: "EndpointIdentifiers option"
  statusLog :: "EndpointStatusChange list"
  Networking :: "EndpointNetworking option"
  statusSelector :: "string list"
  State :: EndpointState

record CCEEndpoint =
  epNamespace :: string
  epName :: string
  epResourceVersion :: string
  epFinalizers :: "string list"
  epOwnerUID :: "string list"
  epDeleting :: bool
  epSpec :: EndpointSpec
  epStatus :: EndpointStatus

section \<open>Functions of both sides\<close>

definition IsPSTSEndpoint :: "CCEEndpoint \<Rightarrow> bool" where
  "IsPSTSEndpoint ep =
     (case specIPAllocation (epSpec ep) of None \<Rightarrow> False | Some a \<Rightarrow> PSTSName a \<noteq> [])"

definition epAddressing :: "CCEEndpoint \<Rightarrow> AddressPair list" where
  "epAddressing ep = (case Networking (epStatus ep) of None \<Rightarrow> [] | Some n \<Rightarrow> Addressing n)"

definition IsSameContainerID :: "CCEEndpoint option \<Rightarrow> string \<Rightarrow> bool" where
  "IsSameContainerID ep containerID =
     (case ep of None \<Rightarrow> False
      | Some ep \<Rightarrow> (case specIdentifiers (epSpec ep) of None \<Rightarrow> False | Some i \<Rightarrow> ContainerID i = containerID))"

text \<open>The external identifiers are dereferenced without a check.\<close>

definition GetPodNameFromCEP :: "CCEEndpoint \<Rightarrow> (string \<times> string) option" where
  "GetPodNameFromCEP ep =
     (case specIdentifiers (epSpec ep) of
        None \<Rightarrow> None
      | Some i \<Rightarrow> if K8sPodName i \<noteq> [] then Some (epNamespace ep, K8sPodName i)
                else Some (epNamespace ep, epName ep))"

definition AppendEndpointStatusWithMessage ::
    "string \<Rightarrow> EndpointState \<Rightarrow> ChangeCode \<Rightarrow> string \<Rightarrow> EndpointStatus \<Rightarrow> EndpointStatus \<times> bool" where
  "AppendEndpointStatusWithMessage stamp state code message s =
     (let update = (State s \<noteq> state);
          newLog = \<lparr>ChangeCode = code, ChangeState = state, ChangeTimestamp = stamp, ChangeMessage = message\<rparr>;
          s1 = s\<lparr>State := state\<rparr>
      in if statusLog s = [] then (s1\<lparr>statusLog := [newLog]\<rparr>, update)
         else (let long = length (statusLog s) > 8;
                   log = (if long then drop 5 (statusLog s) else statusLog s);
                   update1 = (update \<or> long)
               in if ChangeState (last log) \<noteq> state \<or> ChangeCode (last log) \<noteq> code
                  then (s1\<lparr>statusLog := log @ [newLog]\<rparr>, update1)
                  else (s1\<lparr>statusLog := butlast log @ [newLog]\<rparr>, True)))"

definition AppendEndpointStatus ::
    "string \<Rightarrow> EndpointState \<Rightarrow> ChangeCode \<Rightarrow> EndpointStatus \<Rightarrow> EndpointStatus \<times> bool" where
  "AppendEndpointStatus stamp state code s = AppendEndpointStatusWithMessage stamp state code [] s"

text \<open>The finalizer that keeps an endpoint until its addresses are released.\<close>

definition RemoteIPFinalizer :: string where
  "RemoteIPFinalizer = ''RemoteIPFinalizer''"

definition FinalizerAddRemoteIP :: "CCEEndpoint \<Rightarrow> CCEEndpoint" where
  "FinalizerAddRemoteIP ep =
     (if RemoteIPFinalizer \<in> set (epFinalizers ep) then ep
      else ep\<lparr>epFinalizers := epFinalizers ep @ [RemoteIPFinalizer]\<rparr>)"

definition FinalizerRemoveRemoteIP :: "CCEEndpoint \<Rightarrow> CCEEndpoint \<times> bool" where
  "FinalizerRemoveRemoteIP ep =
     (ep\<lparr>epFinalizers := filter (\<lambda>f. f \<noteq> RemoteIPFinalizer) (epFinalizers ep)\<rparr>,
      RemoteIPFinalizer \<in> set (epFinalizers ep))"

text \<open>\<open>ToIPsString\<close> dereferences every entry; an entry of the list may be a nil pointer.\<close>

definition ToIPsString :: "AddressPair option list \<Rightarrow> string option" where
  "ToIPsString ps = (if None \<in> set ps then None else Some (join '','' (map (\<lambda>p. apIP (the p)) ps)))"

section \<open>Facts\<close>

lemma epAddressing_networking: "Networking (epStatus ep) = Some n \<Longrightarrow> epAddressing ep = Addressing n"
  by (simp add: epAddressing_def)

text \<open>The log stays short, and its last entry is the state that was set.\<close>

lemma AppendEndpointStatus_log:
  fixes s :: EndpointStatus
  assumes "AppendEndpointStatusWithMessage stamp state code message s = (s', b)"
  shows "State s' = state" "statusLog s' \<noteq> []" "ChangeState (last (statusLog s')) = state"
    "ChangeCode (last (statusLog s')) = code" "length (statusLog s) \<le> 9 \<Longrightarrow> length (statusLog s') \<le> 9"
    "Networking s' = Networking s" "statusIdentifiers s' = statusIdentifiers s"
  using assms by (auto simp: AppendEndpointStatusWithMessage_def Let_def split: if_splits)

lemma ToIPsString_Some: "ToIPsString (map Some ps) = Some (join '','' (map apIP ps))"
  by (auto simp: ToIPsString_def comp_def)

end
