(* ===== verification/PSTSAllocator.thy ===== *)
theory PSTSAllocator
  imports PSTSPool EndpointTypes EniNode
begin

text \<open>
  The operator's pools of reserved addresses (\<open>pkg/endpoint/endpoint_indexer.go\<close>) and the allocation of an
  address to a pod with a topology spread (\<open>pkg/endpoint/operator_psts_manager_provider.go\<close>). A pool is
  found by its text \<open>getPSTSPoolID\<close>; the functions that give a candidate back are pairs of pool and
  address text. The cloud is the parameter \<open>ps_AllocateIP\<close> on a state \<open>'w\<close>, from which the clock is read;
  it may change the action it is given. The orders in which the runtime visits the maps of the annotation
  are parameters. Pools are not exchanged while an allocation is under way.
\<close>

section \<open>Data\<close>

record CustomAllocation =
  RangeCount :: nat
  CIDRCount :: nat

text \<open>The lengths of the lists \<open>Range\<close> and \<open>CIDRs\<close> of a subnet's entry; the annotation is empty if missing.\<close>

record IPStrategy =
  StrategyType :: IPAllocType
  StrategyTTL :: "int option"

record PSTS =
  pstsNS :: string
  pstsN :: string
  pstsReserveAnnotation :: string
  pstsSubnets :: "string \<rightharpoonup> CustomAllocation list"
  pstsStrategy :: "IPStrategy option"
  pstsAvailable :: "string list"

record DirectIPAction =
  daNodeName :: string
  daOwner :: string
  daClientToken :: string
  daSubnetID :: string
  daAddressing :: "AddressPair list"
  daInterface :: string
  daSelector :: "string list"

type_synonym localPool = "string \<rightharpoonup> pstsLocalPool"
type_synonym expectedPoolMap = "(string \<times> pstsLocalPool) list"

text \<open>\<open>ps_unmarshal\<close> is the JSON reader: the reserved CIDRs of every subnet. \<open>ps_md5\<close> is the hash in hex.\<close>

record 'w psts_env =
  ps_unmarshal :: "string \<Rightarrow> err + (string \<rightharpoonup> (string \<rightharpoonup> string))"
  ps_subnetOrder :: "(string \<rightharpoonup> (string \<rightharpoonup> string)) \<Rightarrow> string list"
  ps_cidrOrder :: "(string \<rightharpoonup> string) \<Rightarrow> string list"
  ps_EnableIPv6 :: bool
  ps_ClusterID :: string
  ps_md5 :: "string \<Rightarrow> string"
  ps_clock :: "'w \<Rightarrow> int"
  ps_AllocateIP :: "DirectIPAction \<Rightarrow> 'w \<Rightarrow> (err option \<times> DirectIPAction) \<times> 'w"
  ps_FilterAvailableSubnetIds :: "string list \<Rightarrow> int \<Rightarrow> 'w \<Rightarrow> string list"

section \<open>The pools of a topology spread\<close>

definition lengthPrefixed :: "string \<Rightarrow> string" where
  "lengthPrefixed s = dec_string (length s) @ '':'' @ s"

definition getPSTSPoolID :: "string \<Rightarrow> string \<Rightarrow> string \<Rightarrow> string \<Rightarrow> string" where
  "getPSTSPoolID ns nm sbn fam =
     ''psts|ns:'' @ lengthPrefixed ns @ ''|name:'' @ lengthPrefixed nm @
     ''|subnet:'' @ lengthPrefixed sbn @ ''|family:'' @ lengthPrefixed fam"

text \<open>The loop indexes the mask with the bytes of the address.\<close>

definition lastIPInCIDR :: "ipnet \<Rightarrow> ip option" where
  "lastIPInCIDR n =
     (let a = (case to4 (IP n) of Some b \<Rightarrow> b | None \<Rightarrow> to16_nil (IP n)) in
      if length (Mask n) < length a then None
      else Some (map2 (\<lambda>x m. x OR NOT m) a (Mask n)))"

definition parseCIDRToIPRange :: "string \<Rightarrow> (err + (string \<times> ipRange)) option" where
  "parseCIDRToIPRange cidr =
     (case ParseCIDR cidr of
        None \<Rightarrow> Some (Inl ''invalid CIDR'')
      | Some (a, n) \<Rightarrow>
          (let fam = (if to4 a = None then IPv6Family else IPv4Family) in
           case lastIPInCIDR n of
             None \<Rightarrow> None
           | Some l \<Rightarrow> map_option (\<lambda>c. Inr (fam, \<lparr>startIP = IP n, endIP = l, rangeCount = c\<rparr>))
                         (calculateIPCount (IP n) l)))"

fun rangesByFamily ::
    "string list \<Rightarrow> (string \<rightharpoonup> ipRange list) \<Rightarrow> (err + (string \<rightharpoonup> ipRange list)) option" where
  "rangesByFamily [] acc = Some (Inr acc)"
| "rangesByFamily (c # cs) acc =
     (case parseCIDRToIPRange c of
        None \<Rightarrow> None
      | Some (Inl e) \<Rightarrow> Some (Inl e)
      | Some (Inr (fam, r)) \<Rightarrow>
          rangesByFamily cs (acc(fam \<mapsto> (case acc fam of None \<Rightarrow> [] | Some rs \<Rightarrow> rs) @ [r])))"

text \<open>The two families are the only keys. The expected pools are an association list: the order in which
  a loop visits them does not matter, as their names differ.\<close>

definition addExpected ::
    "string \<Rightarrow> string \<Rightarrow> string \<Rightarrow> (string \<rightharpoonup> ipRange list) \<Rightarrow> string \<Rightarrow> expectedPoolMap \<Rightarrow> expectedPoolMap" where
  "addExpected ns nm sbn byFam fam exp =
     (case byFam fam of None \<Rightarrow> exp
      | Some rs \<Rightarrow> AList.update (getPSTSPoolID ns nm sbn fam) (newExpectedPool sbn fam rs) exp)"

definition buildExpectedPoolsForSubnet ::
    "'w psts_env \<Rightarrow> PSTS \<Rightarrow> string \<Rightarrow> (string \<rightharpoonup> string) \<Rightarrow> expectedPoolMap
     \<Rightarrow> (err + expectedPoolMap) option" where
  "buildExpectedPoolsForSubnet E psts sbn reserves exp =
     (case rangesByFamily (ps_cidrOrder E reserves) Map.empty of
        None \<Rightarrow> None
      | Some (Inl e) \<Rightarrow> Some (Inl e)
      | Some (Inr byFam) \<Rightarrow>
          Some (Inr (fold (addExpected (pstsNS psts) (pstsN psts) sbn byFam) [IPv4Family, IPv6Family] exp)))"

fun expectedLoop ::
    "'w psts_env \<Rightarrow> PSTS \<Rightarrow> (string \<rightharpoonup> (string \<rightharpoonup> string)) \<Rightarrow> string list \<Rightarrow> expectedPoolMap
     \<Rightarrow> (err + expectedPoolMap) option" where
  "expectedLoop E psts info [] exp = Some (Inr exp)"
| "expectedLoop E psts info (s # ss) exp =
     (case info s of None \<Rightarrow> expectedLoop E psts info ss exp
      | Some reserves \<Rightarrow>
          (case buildExpectedPoolsForSubnet E psts s reserves exp of
             None \<Rightarrow> None
           | Some (Inl e) \<Rightarrow> Some (Inl e)
           | Some (Inr exp') \<Rightarrow> expectedLoop E psts info ss exp'))"

definition buildExpectedPoolsFromAnnotation :: "'w psts_env \<Rightarrow> PSTS \<Rightarrow> (err + expectedPoolMap) option" where
  "buildExpectedPoolsFromAnnotation E psts =
     (if pstsReserveAnnotation psts = [] then Some (Inr [])
      else case ps_unmarshal E (pstsReserveAnnotation psts) of
        Inl e \<Rightarrow> Some (Inl e)
      | Inr info \<Rightarrow> expectedLoop E psts info (ps_subnetOrder E info) [])"

definition ownedBy :: "PSTS \<Rightarrow> pstsLocalPool \<Rightarrow> bool" where
  "ownedBy psts p \<longleftrightarrow> pstsNamespace p = pstsNS psts \<and> pstsName p = pstsN psts"

definition dropStale :: "PSTS \<Rightarrow> expectedPoolMap \<Rightarrow> localPool \<Rightarrow> localPool" where
  "dropStale psts exp lp = (\<lambda>pid. case lp pid of None \<Rightarrow> None
     | Some p \<Rightarrow> if ownedBy psts p \<and> map_of exp pid = None then None else Some p)"

definition syncPool :: "PSTS \<Rightarrow> string \<Rightarrow> pstsLocalPool \<Rightarrow> pstsLocalPool option \<Rightarrow> pstsLocalPool option" where
  "syncPool psts pid want have_opt =
     (case have_opt of
        None \<Rightarrow> Some (initPoolRuntime pid (pstsNS psts) (pstsN psts) (want\<lparr>ranges := sortRanges (ranges want)\<rparr>))
      | Some p \<Rightarrow> if rangesEqual (ranges p) (ranges want) then Some p else updateRanges (ranges want) p)"

fun syncExpected :: "PSTS \<Rightarrow> expectedPoolMap \<Rightarrow> localPool \<Rightarrow> localPool option" where
  "syncExpected psts [] lp = Some lp"
| "syncExpected psts ((pid, want) # exp) lp =
     (case syncPool psts pid want (lp pid) of None \<Rightarrow> None
      | Some p \<Rightarrow> syncExpected psts exp (lp(pid \<mapsto> p)))"

definition updatePSTS :: "'w psts_env \<Rightarrow> PSTS \<Rightarrow> localPool \<Rightarrow> localPool option" where
  "updatePSTS E psts lp =
     (case buildExpectedPoolsFromAnnotation E psts of
        None \<Rightarrow> None
      | Some (Inl e) \<Rightarrow> Some lp
      | Some (Inr exp) \<Rightarrow> syncExpected psts exp (dropStale psts exp lp))"

definition deletePSTS :: "PSTS \<Rightarrow> localPool \<Rightarrow> localPool" where
  "deletePSTS psts lp = (\<lambda>pid. case lp pid of None \<Rightarrow> None | Some p \<Rightarrow> if ownedBy psts p then None else Some p)"

section \<open>Addresses of endpoints\<close>

text \<open>\<open>net.ParseIP\<close> of a text that is no address is nil, whose text is \<open><nil>\<close>.\<close>

definition parse_nil :: "string \<Rightarrow> ip" where
  "parse_nil s = (case ParseIP s of None \<Rightarrow> [] | Some a \<Rightarrow> a)"

definition onPool :: "string \<Rightarrow> (pstsLocalPool \<Rightarrow> pstsLocalPool) \<Rightarrow> localPool \<Rightarrow> localPool" where
  "onPool pid f lp = (case lp pid of None \<Rightarrow> lp | Some p \<Rightarrow> lp(pid \<mapsto> f p))"

definition releaseLocalIPs :: "string \<Rightarrow> string \<Rightarrow> AddressPair \<Rightarrow> localPool \<Rightarrow> localPool" where
  "releaseLocalIPs ns nm addr lp =
     onPool (getPSTSPoolID ns nm (apSubnet addr) (apFamily addr)) (psts_release (parse_nil (apIP addr))) lp"

definition deleteEndpointAddress :: "CCEEndpoint \<Rightarrow> localPool \<Rightarrow> localPool" where
  "deleteEndpointAddress cep lp =
     (case (Networking (epStatus cep), specIPAllocation (epSpec cep)) of
        (Some net, Some al) \<Rightarrow>
          if PSTSName al = [] then lp
          else fold (\<lambda>addr lp. if apIP addr = [] then lp
                               else releaseLocalIPs (epNamespace cep) (PSTSName al) addr lp) (Addressing net) lp
      | _ \<Rightarrow> lp)"

text \<open>The loop over the addresses of one endpoint; the numbers of the result are only logged.\<close>

fun restoreAddresses :: "string \<Rightarrow> string \<Rightarrow> AddressPair list \<Rightarrow> localPool \<Rightarrow> localPool" where
  "restoreAddresses ns nm [] lp = lp"
| "restoreAddresses ns nm (addr # addrs) lp =
     (if apIP addr = [] \<or> apSubnet addr = [] then restoreAddresses ns nm addrs lp
      else (let pid = getPSTSPoolID ns nm (apSubnet addr) (apFamily addr) in
        case (lp pid, ParseIP (apIP addr)) of
          (Some p, Some a) \<Rightarrow> restoreAddresses ns nm addrs (lp(pid \<mapsto> fst (markOccupied a p)))
        | _ \<Rightarrow> restoreAddresses ns nm addrs lp))"

definition restoreEndpoint :: "CCEEndpoint \<Rightarrow> localPool \<Rightarrow> localPool" where
  "restoreEndpoint cep lp =
     (case specIPAllocation (epSpec cep) of
        None \<Rightarrow> lp
      | Some al \<Rightarrow> if PSTSName al = [] then lp
          else restoreAddresses (epNamespace cep) (PSTSName al) (epAddressing cep) lp)"

definition restoreOccupiedFromCEPs :: "CCEEndpoint list \<Rightarrow> localPool \<Rightarrow> localPool" where
  "restoreOccupiedFromCEPs ceps lp = fold restoreEndpoint ceps lp"

section \<open>Candidates from the pools\<close>

text \<open>The loop over one pool: at most \<open>num\<close> addresses.\<close>

fun takeFromPool :: "int \<Rightarrow> nat \<Rightarrow> pstsLocalPool \<Rightarrow> (pstsLocalPool \<times> ip list) option" where
  "takeFromPool now 0 p = Some (p, [])"
| "takeFromPool now (Suc num) p =
     (case psts_allocateNext now p of
        None \<Rightarrow> None
      | Some (p', Inl e) \<Rightarrow> Some (p', [])
      | Some (p', Inr a) \<Rightarrow> map_option (\<lambda>(p'', as). (p'', a # as)) (takeFromPool now num p'))"

type_synonym releaseFunc = "string \<times> string"

text \<open>The result: the candidates of every subnet, in the order of the subnets, and what gives them back.\<close>

fun allocateFromLocalPool ::
    "int \<Rightarrow> PSTS \<Rightarrow> ipFamily \<Rightarrow> nat \<Rightarrow> string list \<Rightarrow> localPool
     \<Rightarrow> (localPool \<times> (string \<times> ip list) list \<times> releaseFunc list) option" where
  "allocateFromLocalPool now psts fam num [] lp = Some (lp, [], [])"
| "allocateFromLocalPool now psts fam num (sbn # sbns) lp =
     (let pid = getPSTSPoolID (pstsNS psts) (pstsN psts) sbn fam in
      case lp pid of
        None \<Rightarrow> allocateFromLocalPool now psts fam num sbns lp
      | Some p \<Rightarrow>
          (case takeFromPool now num p of
             None \<Rightarrow> None
           | Some (p', as) \<Rightarrow>
               (let lp' = lp(pid \<mapsto> p'); here = (if as = [] then [] else [(sbn, as)]);
                    rel = map (\<lambda>a. (pid, ip_string a)) as
                in if num \<le> length as then Some (lp', here, rel)
                   else map_option (\<lambda>(lp'', more, rel'). (lp'', here @ more, rel @ rel'))
                          (allocateFromLocalPool now psts fam (num - length as) sbns lp'))))"

text \<open>With one address asked for, the map of candidates has one entry at most.\<close>

definition pickPair :: "ipFamily \<Rightarrow> (string \<times> ip list) list \<Rightarrow> AddressPair option" where
  "pickPair fam cands =
     (case cands of
        (sbn, a # as) # _ \<Rightarrow> Some \<lparr>apFamily = fam, apIP = ip_string a, apInterface = [], apSubnet = sbn,
                                  apCIDRs = [], apGateway = []\<rparr>
      | _ \<Rightarrow> None)"

definition local_allocateNext ::
    "'w psts_env \<Rightarrow> int \<Rightarrow> PSTS \<Rightarrow> string list \<Rightarrow> localPool
     \<Rightarrow> (localPool \<times> AddressPair option \<times> AddressPair option \<times> releaseFunc list) option" where
  "local_allocateNext E now psts sbns lp =
     (case allocateFromLocalPool now psts IPv4Family 1 sbns lp of
        None \<Rightarrow> None
      | Some (lp1, cands4, rel4) \<Rightarrow>
          (if cands4 = [] then Some (lp1, None, None, [])
           else if \<not> ps_EnableIPv6 E then Some (lp1, pickPair IPv4Family cands4, None, rel4)
           else (case allocateFromLocalPool now psts IPv6Family 1 sbns lp1 of
                   None \<Rightarrow> None
                 | Some (lp2, cands6, rel6) \<Rightarrow>
                     (if cands6 = [] then Some (lp2, pickPair IPv4Family cands4, None, rel4)
                      else Some (lp2, pickPair IPv4Family cands4, pickPair IPv6Family cands6, rel4 @ rel6)))))"

definition releaseAllFuncs :: "releaseFunc list \<Rightarrow> localPool \<Rightarrow> localPool" where
  "releaseAllFuncs rel lp = fold (\<lambda>(pid, s). onPool pid (releaseCandidate s)) rel lp"

section \<open>The allocation of a pod's address\<close>

definition hasCustomAllocationForSubnet :: "PSTS \<Rightarrow> string \<Rightarrow> bool" where
  "hasCustomAllocationForSubnet psts sbn =
     (case pstsSubnets psts sbn of None \<Rightarrow> False
      | Some rs \<Rightarrow> list_ex (\<lambda>r. RangeCount r > 0 \<or> CIDRCount r > 0) rs)"

definition separateSubnetsByRange :: "PSTS \<Rightarrow> string list \<Rightarrow> string list \<times> string list" where
  "separateSubnetsByRange psts sbns =
     (filter (hasCustomAllocationForSubnet psts) sbns, filter (\<lambda>s. \<not> hasCustomAllocationForSubnet psts s) sbns)"

definition filterOutSubnetByName :: "string list \<Rightarrow> string \<Rightarrow> string list" where
  "filterOutSubnetByName sbns s = filter (\<lambda>x. x \<noteq> s) sbns"

definition generatePSTSAllocateClientToken ::
    "'w psts_env \<Rightarrow> string \<Rightarrow> string \<Rightarrow> string \<Rightarrow> string \<Rightarrow> AddressPair list \<Rightarrow> string" where
  "generatePSTSAllocateClientToken E own nm lifecycle sbn addrs =
     (if own = [] \<or> nm = [] \<or> sbn = [] then []
      else ''psts-alloc-'' @ ps_md5 E
        (''psts-alloc-'' @ ps_ClusterID E @ ''-'' @ own @ ''-'' @ nm @ ''-'' @ sbn @
         (if lifecycle \<noteq> [] then ''|'' @ lifecycle else []) @ concat (map (\<lambda>a. ''|'' @ apIP a) addrs)))"

definition pstsAllocationLifecycleID :: "CCEEndpoint \<Rightarrow> err + string" where
  "pstsAllocationLifecycleID ep =
     (case specIdentifiers (epSpec ep) of
        None \<Rightarrow> Inl ''missing external identifiers for PSTS endpoint''
      | Some i \<Rightarrow> if ContainerID i = [] then Inl ''missing container-id for PSTS endpoint'' else Inr (ContainerID i))"

text \<open>On the text of the error; the text of a \<open>BceServiceError\<close> holds its code and its message.\<close>

definition IsErrorPSTSCrossSubnetCandidateConflict :: "err \<Rightarrow> bool" where
  "IsErrorPSTSCrossSubnetCandidateConflict e \<longleftrightarrow>
     caseInsensitiveContains e ''Code: BadRequest'' \<and>
     caseInsensitiveContains e ''Bad request parameters or illegal request.''"

definition isIPConflictError :: "err \<Rightarrow> bool" where
  "isIPConflictError e \<longleftrightarrow> ReasonForError e = PrivateIPInUse \<or> IsErrorPSTSCrossSubnetCandidateConflict e"

text \<open>The pool of an address pair, where the code goes on with one.\<close>

definition onPairPool ::
    "PSTS \<Rightarrow> (ip \<Rightarrow> pstsLocalPool \<Rightarrow> pstsLocalPool) \<Rightarrow> AddressPair option \<Rightarrow> localPool \<Rightarrow> localPool" where
  "onPairPool psts f addr_opt lp =
     (case addr_opt of None \<Rightarrow> lp
      | Some addr \<Rightarrow>
          if apIP addr = [] \<or> apSubnet addr = [] then lp
          else (case ParseIP (apIP addr) of None \<Rightarrow> lp
            | Some a \<Rightarrow> onPool (getPSTSPoolID (pstsNS psts) (pstsN psts) (apSubnet addr) (apFamily addr)) (f a) lp))"

definition markCandidateUnavailable :: "int \<Rightarrow> PSTS \<Rightarrow> AddressPair option \<Rightarrow> localPool \<Rightarrow> localPool" where
  "markCandidateUnavailable now psts = onPairPool psts (\<lambda>a p. fst (markUnavailable now a p))"

definition resetCandidateCooldown :: "PSTS \<Rightarrow> AddressPair option \<Rightarrow> localPool \<Rightarrow> localPool" where
  "resetCandidateCooldown psts = onPairPool psts pool_resetCooldown"

definition maxVPCConflictRetries :: nat where
  "maxVPCConflictRetries = 10"

text \<open>The action with which a candidate is tried.\<close>

definition trialAction ::
    "'w psts_env \<Rightarrow> PSTS \<Rightarrow> string \<Rightarrow> DirectIPAction \<Rightarrow> AddressPair \<Rightarrow> AddressPair option \<Rightarrow> DirectIPAction" where
  "trialAction E psts lifecycle act a4 a6 =
     (let addrs = a4 # (case a6 of None \<Rightarrow> [] | Some a \<Rightarrow> [a]) in
      act\<lparr>daAddressing := addrs, daSubnetID := apSubnet a4, daInterface := apInterface a4,
          daClientToken := generatePSTSAllocateClientToken E (daOwner act) (pstsN psts) lifecycle (apSubnet a4) addrs\<rparr>)"

text \<open>What the loop does with the answer of the cloud: the next round, or its result. A successful result is
  the action and what would give the addresses back.\<close>

datatype trialNext = TrialDone "err + (DirectIPAction \<times> releaseFunc list) option" | TrialAgain nat "string list"

definition afterTrial ::
    "int \<Rightarrow> PSTS \<Rightarrow> nat \<Rightarrow> string list \<Rightarrow> AddressPair \<Rightarrow> AddressPair option \<Rightarrow> releaseFunc list
     \<Rightarrow> err option \<times> DirectIPAction \<Rightarrow> localPool \<Rightarrow> trialNext \<times> localPool" where
  "afterTrial now psts conflicts sbns a4 a6 rel answer lp =
     (case answer of
        (None, act') \<Rightarrow>
          (TrialDone (Inr (Some (act', rel))),
           resetCandidateCooldown psts a6 (resetCandidateCooldown psts (Some a4) lp))
      | (Some e, act') \<Rightarrow>
          (if isIPConflictError e
           then (let lp' = releaseAllFuncs rel
                       (markCandidateUnavailable now psts a6 (markCandidateUnavailable now psts (Some a4) lp))
                 in (if Suc conflicts \<ge> maxVPCConflictRetries then TrialDone (Inl ''vpc ip conflict'')
                     else TrialAgain (Suc conflicts) sbns, lp'))
           else if ReasonForError e = SubnetHasNoMoreIP
           then (let left = filterOutSubnetByName sbns (apSubnet a4) in
                 (if left = [] then TrialDone (Inr None) else TrialAgain conflicts left, releaseAllFuncs rel lp))
           else (TrialDone (Inl e), releaseAllFuncs rel lp)))"

text \<open>The candidates are from the subnets that were asked.\<close>

lemma allocateFromLocalPool_subnets:
  "allocateFromLocalPool now psts fam num sbns lp = Some (lp', cands, rel) \<Longrightarrow> fst ` set cands \<subseteq> set sbns"
  by (induction now psts fam num sbns lp arbitrary: lp' cands rel rule: allocateFromLocalPool.induct)
    (fastforce split: option.splits prod.splits if_splits simp: Let_def)+

lemma local_allocateNext_subnet:
  assumes "local_allocateNext E now psts sbns lp = Some (lp', Some a4, a6, rel)"
  shows "apSubnet a4 \<in> set sbns"
proof -
  obtain lp1 cands4 rel4 where c: "allocateFromLocalPool now psts IPv4Family 1 sbns lp = Some (lp1, cands4, rel4)"
    "pickPair IPv4Family cands4 = Some a4"
    using assms by (auto simp: local_allocateNext_def split: option.splits prod.splits if_splits)
  then obtain sbn as rest where "cands4 = (sbn, as) # rest" "apSubnet a4 = sbn"
    by (auto simp: pickPair_def split: list.splits)
  with allocateFromLocalPool_subnets [OF c(1)] show ?thesis by auto
qed

lemma filterOut_shorter: "s \<in> set sbns \<Longrightarrow> length (filterOutSubnetByName sbns s) < length sbns"
  by (auto simp: filterOutSubnetByName_def intro: length_filter_less)

text \<open>The loop ends: every round that goes on has one conflict more, of at most ten, or one subnet less.\<close>

function tryAllocateLoop ::
    "'w psts_env \<Rightarrow> PSTS \<Rightarrow> string \<Rightarrow> DirectIPAction \<Rightarrow> nat \<Rightarrow> string list \<Rightarrow> localPool \<Rightarrow> 'w
     \<Rightarrow> ((err + (DirectIPAction \<times> releaseFunc list) option) \<times> localPool \<times> 'w) option" where
  "tryAllocateLoop E psts lifecycle act conflicts sbns lp w =
     (case local_allocateNext E (ps_clock E w) psts sbns lp of
        None \<Rightarrow> None
      | Some (lp1, None, _, _) \<Rightarrow> Some (Inr None, lp1, w)
      | Some (lp1, Some a4, a6, rel) \<Rightarrow>
          (case ps_AllocateIP E (trialAction E psts lifecycle act a4 a6) w of
             (answer, w1) \<Rightarrow>
               (case afterTrial (ps_clock E w1) psts conflicts sbns a4 a6 rel answer lp1 of
                  (TrialDone r, lp2) \<Rightarrow> Some (r, lp2, w1)
                | (TrialAgain conflicts' sbns', lp2) \<Rightarrow>
                    tryAllocateLoop E psts lifecycle act conflicts' sbns' lp2 w1)))"
  by pat_completeness auto

lemma afterTrial_progress:
  assumes "afterTrial now psts conflicts sbns a4 a6 rel answer lp = (TrialAgain conflicts' sbns', lp')"
    "apSubnet a4 \<in> set sbns"
  shows "maxVPCConflictRetries - conflicts' + length sbns' < maxVPCConflictRetries - conflicts + length sbns"
  using assms filterOut_shorter [OF assms(2)]
  by (auto simp: afterTrial_def Let_def split: option.splits prod.splits if_splits)

termination tryAllocateLoop
  by (relation "measure (\<lambda>(E, psts, lifecycle, act, conflicts, sbns, lp, w).
      maxVPCConflictRetries - conflicts + length sbns)")
    (simp, clarsimp, metis afterTrial_progress local_allocateNext_subnet)

declare tryAllocateLoop.simps [simp del]

definition tryAllocateFromRangeSubnets ::
    "'w psts_env \<Rightarrow> PSTS \<Rightarrow> string list \<Rightarrow> DirectIPAction \<Rightarrow> string \<Rightarrow> localPool \<Rightarrow> 'w
     \<Rightarrow> ((err + (DirectIPAction \<times> releaseFunc list) option) \<times> localPool \<times> 'w) option" where
  "tryAllocateFromRangeSubnets E psts sbns act lifecycle lp w = tryAllocateLoop E psts lifecycle act 0 sbns lp w"

text \<open>The new values behind the pointers \<open>action\<close> and \<open>status\<close> are returned.\<close>

definition setAddresses :: "DirectIPAction \<Rightarrow> EndpointStatus \<Rightarrow> EndpointStatus" where
  "setAddresses act s =
     s\<lparr>Networking := map_option (\<lambda>n. n\<lparr>Addressing := daAddressing act\<rparr>) (Networking s),
       statusSelector := daSelector act\<rparr>"

definition allocateFromNoRangeSubnets ::
    "'w psts_env \<Rightarrow> string \<Rightarrow> string list \<Rightarrow> DirectIPAction \<Rightarrow> EndpointStatus \<Rightarrow> string \<Rightarrow> 'w
     \<Rightarrow> (err option \<times> EndpointStatus) \<times> 'w" where
  "allocateFromNoRangeSubnets E nm sbns act s lifecycle w =
     (case sbns of
        [] \<Rightarrow> ((Some ''no available subnets for IP allocation'', s), w)
      | sbn # _ \<Rightarrow>
          (case ps_AllocateIP E (act\<lparr>daSubnetID := sbn, daClientToken :=
                  generatePSTSAllocateClientToken E (daOwner act) nm lifecycle sbn []\<rparr>) w of
             ((Some e, _), w') \<Rightarrow> ((Some e, s), w')
           | ((None, act'), w') \<Rightarrow> ((None, setAddresses act' s), w')))"

definition filterAvailableSubnet :: "'w psts_env \<Rightarrow> PSTS \<Rightarrow> 'w \<Rightarrow> err + string list" where
  "filterAvailableSubnet E psts w =
     (let sbns = ps_FilterAvailableSubnetIds E (pstsAvailable psts) 1 w in
      if sbns = [] then Inl ''no available subnet'' else Inr sbns)"

text \<open>The deferred release of \<open>allocateNewIP\<close> never runs: what it would give back is only collected on the
  path that returns nil.\<close>

definition allocateNewIP ::
    "'w psts_env \<Rightarrow> PSTS \<Rightarrow> DirectIPAction \<Rightarrow> EndpointStatus \<Rightarrow> string \<Rightarrow> localPool \<Rightarrow> 'w
     \<Rightarrow> ((err option \<times> EndpointStatus) \<times> localPool \<times> 'w) option" where
  "allocateNewIP E psts act s lifecycle lp w =
     (case filterAvailableSubnet E psts w of
        Inl e \<Rightarrow> Some ((Some e, s), lp, w)
      | Inr sbns \<Rightarrow>
          (let (rangeSbns, noRangeSbns) = separateSubnetsByRange psts sbns;
               fallback = (\<lambda>lp w.
                 if noRangeSbns = [] then ((Some ''PSTS IP pool exhausted'', s), lp, w)
                 else (let (r, w') = allocateFromNoRangeSubnets E (pstsN psts) noRangeSbns act s lifecycle w
                       in (r, lp, w')))
           in if rangeSbns = [] then Some (fallback lp w)
              else (case tryAllocateFromRangeSubnets E psts rangeSbns act lifecycle lp w of
                      None \<Rightarrow> None
                    | Some (Inl e, lp', w') \<Rightarrow> Some ((Some e, s), lp', w')
                    | Some (Inr (Some (act', rel)), lp', w') \<Rightarrow> Some ((None, setAddresses act' s), lp', w')
                    | Some (Inr None, lp', w') \<Rightarrow> Some (fallback lp' w'))))"

definition reuseExistingIP ::
    "'w psts_env \<Rightarrow> DirectIPAction \<Rightarrow> EndpointStatus \<Rightarrow> AddressPair list \<Rightarrow> string \<Rightarrow> string \<Rightarrow> 'w
     \<Rightarrow> (err option \<times> EndpointStatus) \<times> 'w" where
  "reuseExistingIP E act s addrs nm lifecycle w =
     (let a = hd addrs in
      case ps_AllocateIP E (act\<lparr>daAddressing := addrs, daSubnetID := apSubnet a, daInterface := apInterface a,
             daClientToken := generatePSTSAllocateClientToken E (daOwner act) nm lifecycle (apSubnet a) addrs\<rparr>) w of
        ((Some e, _), w') \<Rightarrow> ((Some e, s), w')
      | ((None, act'), w') \<Rightarrow> ((None, setAddresses act' s), w'))"

section \<open>Nothing is leaked\<close>

definition pools_ok :: "localPool \<Rightarrow> bool" where
  "pools_ok lp \<longleftrightarrow> (\<forall>pid p. lp pid = Some p \<longrightarrow> pool_ok p)"

definition occ :: "localPool \<Rightarrow> string \<Rightarrow> string set" where
  "occ lp pid = (case lp pid of None \<Rightarrow> {} | Some p \<Rightarrow> realOccupied p)"

text \<open>\<open>rel\<close> is exactly what \<open>lp'\<close> holds more than \<open>lp\<close>.\<close>

definition heldBy :: "releaseFunc list \<Rightarrow> localPool \<Rightarrow> localPool \<Rightarrow> bool" where
  "heldBy rel lp lp' \<longleftrightarrow>
     (\<forall>pid s. (pid, s) \<in> set rel \<longrightarrow> s \<notin> occ lp pid \<and> lp pid \<noteq> None) \<and> dom lp' = dom lp \<and>
     (\<forall>pid. occ lp' pid = occ lp pid \<union> {s. (pid, s) \<in> set rel})"

lemma held_Nil: "heldBy [] lp lp' \<longleftrightarrow> dom lp' = dom lp \<and> occ lp' = occ lp"
  by (auto simp: heldBy_def fun_eq_iff)

lemma occ_update: "occ (lp(pid \<mapsto> p)) = (occ lp)(pid := realOccupied p)"
  by (simp add: occ_def fun_eq_iff)

lemma occ_onPool:
  "occ (onPool pid f lp) =
     (case lp pid of None \<Rightarrow> occ lp | Some p \<Rightarrow> (occ lp)(pid := realOccupied (f p)))"
  by (simp add: onPool_def occ_update split: option.split)

lemma occ_onPool_same: "(\<And>p. realOccupied (f p) = realOccupied p) \<Longrightarrow> occ (onPool pid f lp) = occ lp"
  by (auto simp: occ_onPool occ_def fun_eq_iff split: option.split)

lemma dom_onPool [simp]: "dom (onPool pid f lp) = dom lp"
  by (auto simp: onPool_def split: option.splits)

lemma pools_ok_onPool: "pools_ok lp \<Longrightarrow> (\<And>p. pool_ok p \<Longrightarrow> pool_ok (f p)) \<Longrightarrow> pools_ok (onPool pid f lp)"
  by (auto simp: pools_ok_def onPool_def split: option.splits if_splits)

lemma releaseAll_occ:
  "occ (releaseAllFuncs rel lp) pid = occ lp pid - {s. (pid, s) \<in> set rel} \<and> dom (releaseAllFuncs rel lp) = dom lp"
proof (induction rel arbitrary: lp)
  case (Cons r rel)
  obtain q t where r: "r = (q, t)" by fastforce
  have "occ (onPool q (releaseCandidate t) lp) pid = occ lp pid - {s. (pid, s) = (q, t)}"
    by (auto simp: occ_onPool releaseCandidate_def occ_def split: option.split)
  with Cons [of "onPool q (releaseCandidate t) lp"] show ?case
    by (auto simp: releaseAllFuncs_def r)
qed (simp add: releaseAllFuncs_def)

lemma releaseAll_ok: "pools_ok lp \<Longrightarrow> pools_ok (releaseAllFuncs rel lp)"
proof (induction rel arbitrary: lp)
  case (Cons r rel)
  then show ?case
    by (cases r) (simp add: releaseAllFuncs_def pools_ok_onPool pool_ok_ops)
qed (simp add: releaseAllFuncs_def)

lemma held_released:
  assumes "heldBy rel lp lp'" "occ lp'' = occ lp'" "dom lp'' = dom lp'"
  shows "heldBy [] lp (releaseAllFuncs rel lp'')"
  using assms releaseAll_occ [of rel lp''] by (fastforce simp: held_Nil heldBy_def fun_eq_iff)

lemma onPairPool_same:
  assumes "\<And>a p. realOccupied (f a p) = realOccupied p" "\<And>a p. pool_ok p \<Longrightarrow> pool_ok (f a p)"
  shows "occ (onPairPool psts f addr lp) = occ lp" "dom (onPairPool psts f addr lp) = dom lp"
    "pools_ok lp \<Longrightarrow> pools_ok (onPairPool psts f addr lp)"
  using assms by (auto simp: onPairPool_def occ_onPool_same intro!: pools_ok_onPool split: option.split)

lemma mark_same [simp]:
  "occ (markCandidateUnavailable now psts addr lp) = occ lp"
  "dom (markCandidateUnavailable now psts addr lp) = dom lp"
  "pools_ok lp \<Longrightarrow> pools_ok (markCandidateUnavailable now psts addr lp)"
proof -
  have "realOccupied (fst (markUnavailable now a p)) = realOccupied p" for a p
    by (simp add: markUnavailable_def Let_def)
  note same = onPairPool_same [where f = "\<lambda>a p. fst (markUnavailable now a p)", OF this pool_ok_ops(3)]
  show "occ (markCandidateUnavailable now psts addr lp) = occ lp"
    "dom (markCandidateUnavailable now psts addr lp) = dom lp"
    "pools_ok lp \<Longrightarrow> pools_ok (markCandidateUnavailable now psts addr lp)"
    unfolding markCandidateUnavailable_def by (rule same; assumption)+
qed

lemma reset_same [simp]:
  "occ (resetCandidateCooldown psts addr lp) = occ lp"
  "dom (resetCandidateCooldown psts addr lp) = dom lp"
  "pools_ok lp \<Longrightarrow> pools_ok (resetCandidateCooldown psts addr lp)"
proof -
  have "realOccupied (pool_resetCooldown a p) = realOccupied p" for a p
    by (simp add: pool_resetCooldown_def)
  note same = onPairPool_same [where f = pool_resetCooldown, OF this pool_ok_ops(4)]
  show "occ (resetCandidateCooldown psts addr lp) = occ lp"
    "dom (resetCandidateCooldown psts addr lp) = dom lp"
    "pools_ok lp \<Longrightarrow> pools_ok (resetCandidateCooldown psts addr lp)"
    unfolding resetCandidateCooldown_def by (rule same; assumption)+
qed

text \<open>What one candidate changes.\<close>

definition selects :: "int \<Rightarrow> PSTS \<Rightarrow> ipFamily \<Rightarrow> string list \<Rightarrow> localPool \<Rightarrow> localPool
    \<Rightarrow> (string \<times> ip list) list \<Rightarrow> releaseFunc list \<Rightarrow> bool" where
  "selects now psts fam sbns lp lp' cands rel \<longleftrightarrow>
     heldBy rel lp lp' \<and> pools_ok lp' \<and>
     (cands = [] \<and> rel = [] \<or>
      (\<exists>sbn a p p'. cands = [(sbn, [a])] \<and> sbn \<in> set sbns \<and>
         rel = [(getPSTSPoolID (pstsNS psts) (pstsN psts) sbn fam, ip_string a)] \<and>
         lp (getPSTSPoolID (pstsNS psts) (pstsN psts) sbn fam) = Some p \<and>
         lp' (getPSTSPoolID (pstsNS psts) (pstsN psts) sbn fam) = Some p' \<and>
         ip_string a \<in> free_addresses now p))"

lemma free_addresses_cursor [simp]:
  "free_addresses now (p\<lparr>currentRangeIndex := c, currentIndex := k\<rparr>) = free_addresses now p"
  by (simp add: free_addresses_def isInAnyRange_def)

lemma takeFromPool_one:
  assumes "pool_ok p"
  shows "\<exists>p' as. takeFromPool now 1 p = Some (p', as) \<and> pool_ok p' \<and>
    (as = [] \<and> realOccupied p' = realOccupied p \<and> free_addresses now p' = {} \<and>
       candidateCooldown p' = candidateCooldown p \<and> ranges p' = ranges p \<or>
     (\<exists>a. as = [a] \<and> picked now p p' a))"
  using assms
proof (cases rule: psts_allocateNext_cases [where now = now])
  case (picked p' a)
  then show ?thesis by (auto simp: numeral_eq_Suc picked_def)
qed auto

lemma picked_occ: "picked now p p' a \<Longrightarrow> realOccupied p' = insert (ip_string a) (realOccupied p) \<and>
    ip_string a \<notin> realOccupied p \<and> ip_string a \<in> free_addresses now p"
  by (auto simp: picked_def taken_def free_addresses_def)

lemma allocateFromLocalPool_selects:
  assumes "pools_ok lp"
  shows "\<exists>lp' cands rel. allocateFromLocalPool now psts fam 1 sbns lp = Some (lp', cands, rel) \<and>
    selects now psts fam sbns lp lp' cands rel"
  using assms
proof (induction sbns arbitrary: lp)
  case Nil
  then show ?case by (simp add: selects_def held_Nil)
next
  case (Cons sbn sbns)
  define pid where "pid = getPSTSPoolID (pstsNS psts) (pstsN psts) sbn fam"
  show ?case
  proof (cases "lp pid")
    case None
    with Cons show ?thesis by (fastforce simp: pid_def selects_def)
  next
    case (Some p)
    then have "pool_ok p" using Cons.prems by (simp add: pools_ok_def)
    from takeFromPool_one [OF this, of now] obtain p' as where t:
      "takeFromPool now 1 p = Some (p', as)" "pool_ok p'"
      "as = [] \<and> realOccupied p' = realOccupied p \<and> free_addresses now p' = {} \<and>
         candidateCooldown p' = candidateCooldown p \<and> ranges p' = ranges p \<or> (\<exists>a. as = [a] \<and> picked now p p' a)" by blast
    have ok: "pools_ok (lp(pid \<mapsto> p'))" using Cons.prems t(2) by (simp add: pools_ok_def)
    from t(3) show ?thesis
    proof (elim disjE exE conjE)
      assume no: "as = []" "realOccupied p' = realOccupied p" "free_addresses now p' = {}"
      from Cons.IH [OF ok] obtain lp2 cands rel where ih:
        "allocateFromLocalPool now psts fam 1 sbns (lp(pid \<mapsto> p')) = Some (lp2, cands, rel)"
        "selects now psts fam sbns (lp(pid \<mapsto> p')) lp2 cands rel" by blast
      have same: "occ (lp(pid \<mapsto> p')) = occ lp" "dom (lp(pid \<mapsto> p')) = dom lp"
        using Some no by (auto simp: occ_update occ_def fun_eq_iff)
      have alloc: "allocateFromLocalPool now psts fam 1 (sbn # sbns) lp = Some (lp2, cands, rel)"
        using Some t(1) no ih(1) by (simp add: pid_def)
      have "heldBy rel lp lp2" using ih(2) same unfolding selects_def heldBy_def by (auto simp: domIff)
      moreover have "cands = [] \<and> rel = [] \<or> (\<exists>s a q q'. cands = [(s, [a])] \<and> s \<in> set (sbn # sbns) \<and>
          rel = [(getPSTSPoolID (pstsNS psts) (pstsN psts) s fam, ip_string a)] \<and>
          lp (getPSTSPoolID (pstsNS psts) (pstsN psts) s fam) = Some q \<and>
          lp2 (getPSTSPoolID (pstsNS psts) (pstsN psts) s fam) = Some q' \<and> ip_string a \<in> free_addresses now q)"
        using ih(2) no(3) unfolding selects_def by (auto split: if_splits)
      ultimately show ?thesis using alloc ih(2) unfolding selects_def by blast
    next
      fix a assume a: "as = [a]" "picked now p p' a"
      have "heldBy [(pid, ip_string a)] lp (lp(pid \<mapsto> p'))"
        using picked_occ [OF a(2)] Some by (auto simp: heldBy_def occ_update occ_def)
      with a ok t(1) Some picked_occ [OF a(2)] show ?thesis
        by (fastforce simp: selects_def pid_def Let_def)
    qed
  qed
qed

definition pairFuncs :: "PSTS \<Rightarrow> AddressPair option \<Rightarrow> releaseFunc list" where
  "pairFuncs psts addr_opt =
     (case addr_opt of None \<Rightarrow> []
      | Some a \<Rightarrow> [(getPSTSPoolID (pstsNS psts) (pstsN psts) (apSubnet a) (apFamily a), apIP a)])"

lemma held_trans: "heldBy rel lp lp1 \<Longrightarrow> heldBy rel' lp1 lp2 \<Longrightarrow> heldBy (rel @ rel') lp lp2"
  by (auto simp: heldBy_def domIff set_eq_iff)

lemma selects_pick:
  assumes "selects now psts fam sbns lp lp' cands rel"
  shows "cands = [] \<Longrightarrow> rel = [] \<and> pickPair fam cands = None"
    "cands \<noteq> [] \<Longrightarrow> \<exists>a. pickPair fam cands = Some a \<and> rel = pairFuncs psts (Some a) \<and>
       apSubnet a \<in> set sbns \<and> apFamily a = fam"
  using assms by (auto simp: selects_def pickPair_def pairFuncs_def)

lemma local_allocateNext_held:
  assumes "pools_ok lp"
  shows "\<exists>lp' a4 a6. local_allocateNext E now psts sbns lp = Some (lp', a4, a6, pairFuncs psts a4 @ pairFuncs psts a6) \<and>
    pools_ok lp' \<and> heldBy (pairFuncs psts a4 @ pairFuncs psts a6) lp lp' \<and> (a4 = None \<longrightarrow> a6 = None)"
proof -
  obtain lp1 cands4 rel4 where l4: "allocateFromLocalPool now psts IPv4Family 1 sbns lp = Some (lp1, cands4, rel4)"
    "selects now psts IPv4Family sbns lp lp1 cands4 rel4"
    using allocateFromLocalPool_selects [OF assms] by blast
  note p4 = selects_pick [OF l4(2)]
  have ok1: "pools_ok lp1" "heldBy rel4 lp lp1" using l4(2) by (simp_all add: selects_def)
  show ?thesis
  proof (cases "cands4 = [] \<or> \<not> ps_EnableIPv6 E")
    case True
    have "rel4 = pairFuncs psts (pickPair IPv4Family cands4)"
      using p4 by (cases "cands4 = []") (auto simp: pairFuncs_def)
    moreover have "pairFuncs psts None = []" by (simp add: pairFuncs_def)
    ultimately show ?thesis using True l4(1) ok1 p4(1)
      by (intro exI [of _ lp1] exI [of _ "pickPair IPv4Family cands4"] exI [of _ None])
        (auto simp: local_allocateNext_def)
  next
    case False
    then obtain a where a: "pickPair IPv4Family cands4 = Some a" "rel4 = pairFuncs psts (Some a)" using p4(2) by blast
    obtain lp2 cands6 rel6 where l6: "allocateFromLocalPool now psts IPv6Family 1 sbns lp1 = Some (lp2, cands6, rel6)"
      "selects now psts IPv6Family sbns lp1 lp2 cands6 rel6"
      using allocateFromLocalPool_selects [OF ok1(1)] by blast
    note p6 = selects_pick [OF l6(2)]
    have rel6: "rel6 = pairFuncs psts (pickPair IPv6Family cands6)"
      using p6 by (cases "cands6 = []") (auto simp: pairFuncs_def)
    have "pools_ok lp2" "heldBy rel6 lp1 lp2" using l6(2) by (simp_all add: selects_def)
    with held_trans [OF ok1(2) this(2)] False l4(1) l6(1) a rel6 p6(1) show ?thesis
      by (intro exI [of _ lp2] exI [of _ "Some a"] exI [of _ "pickPair IPv6Family cands6"])
        (auto simp: local_allocateNext_def)
  qed
qed

text \<open>The result of the loop: an accepted trial, or no trace in the pools.\<close>

definition trial_outcome ::
    "'w psts_env \<Rightarrow> PSTS \<Rightarrow> string \<Rightarrow> DirectIPAction \<Rightarrow> string list \<Rightarrow> localPool
     \<Rightarrow> err + (DirectIPAction \<times> releaseFunc list) option \<Rightarrow> localPool \<Rightarrow> bool" where
  "trial_outcome E psts lifecycle act sbns lp r lp' =
     (case r of
        Inr (Some (act', rel)) \<Rightarrow>
          heldBy rel lp lp' \<and>
          (\<exists>a4 a6 w1 w2. apSubnet a4 \<in> set sbns \<and> rel = pairFuncs psts (Some a4) @ pairFuncs psts a6 \<and>
             ps_AllocateIP E (trialAction E psts lifecycle act a4 a6) w1 = ((None, act'), w2))
      | _ \<Rightarrow> heldBy [] lp lp')"

lemma trial_outcome_mono:
  "heldBy [] lp lp1 \<Longrightarrow> set sbns' \<subseteq> set sbns \<Longrightarrow> trial_outcome E psts lifecycle act sbns' lp1 r lp'
   \<Longrightarrow> trial_outcome E psts lifecycle act sbns lp r lp'"
  using held_trans [of "[]" lp lp1]
  by (auto simp: trial_outcome_def split: sum.splits option.splits prod.splits)

lemma afterTrial_outcome:
  assumes "afterTrial now psts conflicts sbns a4 a6 rel answer lp1 = (nxt, lp2)" "heldBy rel lp lp1" "pools_ok lp1"
  shows "pools_ok lp2" "case nxt of TrialAgain c left \<Rightarrow> heldBy [] lp lp2 \<and> set left \<subseteq> set sbns
      | TrialDone (Inr (Some (act', rel'))) \<Rightarrow> heldBy rel' lp lp2 \<and> rel' = rel \<and> answer = (None, act')
      | TrialDone _ \<Rightarrow> heldBy [] lp lp2"
proof -
  have rel: "heldBy [] lp (releaseAllFuncs rel lp'')" if "occ lp'' = occ lp1" "dom lp'' = dom lp1" for lp''
    using held_released [OF assms(2) that] .
  have done_ok: "heldBy rel lp (resetCandidateCooldown psts a6 (resetCandidateCooldown psts (Some a4) lp1))"
    using assms(2) by (simp add: heldBy_def)
  have "pools_ok lp2 \<and> (case nxt of TrialAgain c left \<Rightarrow> heldBy [] lp lp2 \<and> set left \<subseteq> set sbns
      | TrialDone (Inr (Some (act', rel'))) \<Rightarrow> heldBy rel' lp lp2 \<and> rel' = rel \<and> answer = (None, act')
      | TrialDone _ \<Rightarrow> heldBy [] lp lp2)"
    using assms rel done_ok
    by (auto simp: afterTrial_def Let_def filterOutSubnetByName_def releaseAll_ok split: option.splits prod.splits if_splits)
  then show "pools_ok lp2" "case nxt of TrialAgain c left \<Rightarrow> heldBy [] lp lp2 \<and> set left \<subseteq> set sbns
      | TrialDone (Inr (Some (act', rel'))) \<Rightarrow> heldBy rel' lp lp2 \<and> rel' = rel \<and> answer = (None, act')
      | TrialDone _ \<Rightarrow> heldBy [] lp lp2" by simp_all
qed

lemma tryAllocateLoop_outcome:
  assumes "pools_ok lp"
  shows "\<exists>r lp' w'. tryAllocateLoop E psts lifecycle act conflicts sbns lp w = Some (r, lp', w') \<and> pools_ok lp' \<and>
    trial_outcome E psts lifecycle act sbns lp r lp'"
  using assms
proof (induction E psts lifecycle act conflicts sbns lp w rule: tryAllocateLoop.induct)
  case (1 E psts lifecycle act conflicts sbns lp w)
  obtain lp1 a4_opt a6 where sel:
    "local_allocateNext E (ps_clock E w) psts sbns lp =
       Some (lp1, a4_opt, a6, pairFuncs psts a4_opt @ pairFuncs psts a6)"
    "pools_ok lp1" "heldBy (pairFuncs psts a4_opt @ pairFuncs psts a6) lp lp1" "a4_opt = None \<longrightarrow> a6 = None"
    using local_allocateNext_held [OF "1.prems"] by metis
  show ?case
  proof (cases a4_opt)
    case None
    with sel show ?thesis by (simp add: tryAllocateLoop.simps [of E] trial_outcome_def pairFuncs_def)
  next
    case (Some a4)
    define rel where "rel = pairFuncs psts (Some a4) @ pairFuncs psts a6"
    have sub: "apSubnet a4 \<in> set sbns" using local_allocateNext_subnet sel(1) Some by blast
    obtain answer w1 where cloud: "ps_AllocateIP E (trialAction E psts lifecycle act a4 a6) w = (answer, w1)"
      by fastforce
    obtain nxt lp2 where after: "afterTrial (ps_clock E w1) psts conflicts sbns a4 a6 rel answer lp1 = (nxt, lp2)"
      by fastforce
    have held: "heldBy rel lp lp1" using sel(3) Some by (simp add: rel_def)
    note out = afterTrial_outcome [OF after held sel(2)]
    show ?thesis
    proof (cases nxt)
      case (TrialDone r)
      have "tryAllocateLoop E psts lifecycle act conflicts sbns lp w = Some (r, lp2, w1)"
        using sel(1) Some cloud after TrialDone by (simp add: tryAllocateLoop.simps [of E] rel_def)
      moreover have "trial_outcome E psts lifecycle act sbns lp r lp2"
        using out(2) TrialDone cloud sub
        by (auto simp: trial_outcome_def rel_def split: sum.splits option.splits prod.splits) 
      ultimately show ?thesis using out(1) by blast
    next
      case (TrialAgain c left)
      have step: "tryAllocateLoop E psts lifecycle act conflicts sbns lp w =
          tryAllocateLoop E psts lifecycle act c left lp2 w1"
        using sel(1) Some cloud after TrialAgain
        by (simp add: tryAllocateLoop.simps [of E psts lifecycle act conflicts] rel_def)
      have "\<exists>r lp' w'. tryAllocateLoop E psts lifecycle act c left lp2 w1 = Some (r, lp', w') \<and> pools_ok lp' \<and>
          trial_outcome E psts lifecycle act left lp2 r lp'"
        using "1.IH" [OF sel(1) [unfolded Some] refl refl refl refl cloud [symmetric]
            after [symmetric, unfolded rel_def] TrialAgain out(1)] .
      then show ?thesis using out(2) TrialAgain step trial_outcome_mono [of lp lp2 left sbns] by fastforce
    qed
  qed
qed

section \<open>Refusals do not add up\<close>

text \<open>Pools of IPv4 addresses in which every resting address rests for its first refusal.\<close>

definition first_rest :: "pstsLocalPool \<Rightarrow> bool" where
  "first_rest p \<longleftrightarrow> (\<forall>r\<in>set (ranges p). to4 (startIP r) \<noteq> None) \<and>
     (\<forall>s c. candidateCooldown p s = Some c \<longrightarrow> failureCount c = 1)"

definition first_rests :: "localPool \<Rightarrow> bool" where
  "first_rests lp \<longleftrightarrow> (\<forall>pid p. lp pid = Some p \<longrightarrow> first_rest p)"

lemma first_rests_update: "first_rests lp \<Longrightarrow> first_rest p \<Longrightarrow> first_rests (lp(pid \<mapsto> p))"
  by (simp add: first_rests_def)

lemma picked_first_rest:
  assumes "pool_ok p" "first_rest p" "picked now p p' a"
  shows "first_rest p'" "candidateCooldown p' (ip_string a) = None" "to4 a \<noteq> None"
proof -
  show "first_rest p'" "candidateCooldown p' (ip_string a) = None"
    using assms by (auto simp: picked_def first_rest_def split: if_splits)
  obtain r where "r \<in> set (ranges p)" "ipInIPRange a r" "to16 a \<noteq> None"
    using assms(3) by (auto simp: picked_def isInAnyRange_def list_ex_iff)
  with range_v4 [of r a] assms show "to4 a \<noteq> None" by (auto simp: pool_ok_def first_rest_def)
qed

lemma allocateFromLocalPool_first_rests:
  assumes "pools_ok lp" "first_rests lp" "allocateFromLocalPool now psts fam 1 sbns lp = Some (lp', cands, rel)"
  shows "first_rests lp' \<and> (\<forall>sbn a. cands = [(sbn, [a])] \<longrightarrow> to4 a \<noteq> None \<and>
     (\<exists>p. lp' (getPSTSPoolID (pstsNS psts) (pstsN psts) sbn fam) = Some p \<and>
          candidateCooldown p (ip_string a) = None))"
  using assms
proof (induction sbns arbitrary: lp)
  case (Cons sbn sbns)
  define pid where "pid = getPSTSPoolID (pstsNS psts) (pstsN psts) sbn fam"
  show ?case
  proof (cases "lp pid")
    case None
    with Cons show ?thesis by (simp add: pid_def)
  next
    case (Some p)
    then have p: "pool_ok p" "first_rest p" using Cons.prems by (simp_all add: pools_ok_def first_rests_def)
    from takeFromPool_one [OF p(1), of now] obtain p' as where t:
      "takeFromPool now 1 p = Some (p', as)" "pool_ok p'"
      "as = [] \<and> realOccupied p' = realOccupied p \<and> free_addresses now p' = {} \<and>
         candidateCooldown p' = candidateCooldown p \<and> ranges p' = ranges p \<or> (\<exists>a. as = [a] \<and> picked now p p' a)"
      by blast
    have ok: "pools_ok (lp(pid \<mapsto> p'))" using Cons.prems t(2) by (simp add: pools_ok_def)
    show ?thesis
    proof (cases "as = []")
      case True
      then have "first_rest p'" using t(3) p(2) by (simp add: first_rest_def)
      then have "first_rests (lp(pid \<mapsto> p'))" using Cons.prems(2) by (rule first_rests_update [rotated])
      moreover have "allocateFromLocalPool now psts fam 1 sbns (lp(pid \<mapsto> p')) = Some (lp', cands, rel)"
        using Cons.prems(3) Some t(1) True
        by (cases "allocateFromLocalPool now psts fam 1 sbns (lp(pid \<mapsto> p'))") (auto simp: pid_def)
      ultimately show ?thesis by (rule Cons.IH [OF ok])
    next
      case False
      then obtain a where a: "as = [a]" "picked now p p' a" using t(3) by blast
      note r = picked_first_rest [OF p a(2)]
      have l: "lp' = lp(pid \<mapsto> p')" and c: "cands = [(sbn, [a])]"
        using Cons.prems(3) Some t(1) a(1) by (auto simp: pid_def Let_def)
      have "first_rests lp'" unfolding l by (rule first_rests_update [OF Cons.prems(2) r(1)])
      moreover have "lp' pid = Some p'" by (simp add: l)
      ultimately show ?thesis using r(2,3) c by (simp add: pid_def)
    qed
  qed
qed simp

lemma ParseIP_candidate:
  assumes "to4 a \<noteq> None"
  obtains a' where "ParseIP (ip_string a) = Some a'" "ip_string a' = ip_string a" "a' \<noteq> []"
proof -
  obtain b where b: "to4 a = Some b" using assms by blast
  have len: "length b = 4" using to16_to4 [OF b] by simp
  have ne: "a \<noteq> []" using b by (auto simp: to4_def)
  have "ip_string a = ipv4_string b" using b ne by (simp add: ip_string_def)
  moreover have "ip_string (v4InV6Prefix @ b) = ipv4_string b"
    using len by (simp add: ip_string_def to4_def v4InV6Prefix_def)
  ultimately show thesis using that [of "v4InV6Prefix @ b"] ParseIP_ipv4_string [OF len] by (simp add: v4InV6Prefix_def)
qed

lemma local_allocateNext_first_rests:
  assumes "pools_ok lp" "first_rests lp" "\<not> ps_EnableIPv6 E"
    "local_allocateNext E now psts sbns lp = Some (lp', a4_opt, a6_opt, rel)"
  shows "first_rests lp'" "a6_opt = None"
    "a4_opt = Some a4 \<Longrightarrow> \<exists>a p. apIP a4 = ip_string a \<and> to4 a \<noteq> None \<and>
       lp' (getPSTSPoolID (pstsNS psts) (pstsN psts) (apSubnet a4) (apFamily a4)) = Some p \<and>
       candidateCooldown p (ip_string a) = None"
proof -
  obtain lp1 cands rel4 where l: "allocateFromLocalPool now psts IPv4Family 1 sbns lp = Some (lp1, cands, rel4)"
    "selects now psts IPv4Family sbns lp lp1 cands rel4"
    using allocateFromLocalPool_selects [OF assms(1)] by blast
  note f = allocateFromLocalPool_first_rests [OF assms(1,2) l(1)]
  have eq: "lp' = lp1" "a6_opt = None" "a4_opt = pickPair IPv4Family cands"
    using assms(3,4) l(1) by (auto simp: local_allocateNext_def pickPair_def split: if_splits)
  then show "first_rests lp'" "a6_opt = None" using f by simp_all
  show "\<exists>a p. apIP a4 = ip_string a \<and> to4 a \<noteq> None \<and>
       lp' (getPSTSPoolID (pstsNS psts) (pstsN psts) (apSubnet a4) (apFamily a4)) = Some p \<and>
       candidateCooldown p (ip_string a) = None" if "a4_opt = Some a4"
  proof -
    have "cands \<noteq> []" using that eq(3) by (auto simp: pickPair_def)
    then obtain sbn a where "cands = [(sbn, [a])]" using l(2) by (auto simp: selects_def)
    with f that eq show ?thesis by (auto simp: pickPair_def)
  qed
qed

lemma mark_first_rests:
  assumes "first_rests lp" "apIP addr = ip_string a" "to4 a \<noteq> None"
    "lp (getPSTSPoolID (pstsNS psts) (pstsN psts) (apSubnet addr) (apFamily addr)) = Some p"
    "candidateCooldown p (ip_string a) = None"
  shows "first_rests (markCandidateUnavailable now psts (Some addr) lp)"
proof -
  obtain a' where a': "ParseIP (ip_string a) = Some a'" "ip_string a' = ip_string a" "a' \<noteq> []"
    using ParseIP_candidate [OF assms(3)] .
  have "first_rest (fst (markUnavailable now a' p))"
    using assms(1,4,5) a' by (auto simp: first_rests_def first_rest_def markUnavailable_def Let_def)
  with assms a' show ?thesis
    by (auto simp: markCandidateUnavailable_def onPairPool_def onPool_def intro: first_rests_update)
qed

lemma releaseAll_first_rests: "first_rests lp \<Longrightarrow> first_rests (releaseAllFuncs rel lp)"
proof (induction rel arbitrary: lp)
  case (Cons r rel)
  have "first_rests (onPool q (releaseCandidate t) lp)" for q t
    using Cons.prems by (auto simp: first_rests_def first_rest_def onPool_def releaseCandidate_def split: option.splits)
  with Cons show ?case by (cases r) (simp add: releaseAllFuncs_def)
qed (simp add: releaseAllFuncs_def)

lemma reset_first_rests: "first_rests lp \<Longrightarrow> first_rests (resetCandidateCooldown psts addr lp)"
  by (auto simp: first_rests_def first_rest_def resetCandidateCooldown_def onPairPool_def onPool_def
      pool_resetCooldown_def split: option.splits if_splits)

lemma tryAllocateLoop_first_rests:
  assumes "pools_ok lp" "first_rests lp" "\<not> ps_EnableIPv6 E"
    "tryAllocateLoop E psts lifecycle act conflicts sbns lp w = Some (r, lp', w')"
  shows "first_rests lp'"
  using assms
proof (induction E psts lifecycle act conflicts sbns lp w rule: tryAllocateLoop.induct)
  case (1 E psts lifecycle act conflicts sbns lp w)
  obtain lp1 a4_opt a6 rel where sel:
    "local_allocateNext E (ps_clock E w) psts sbns lp = Some (lp1, a4_opt, a6, rel)" "pools_ok lp1"
    using local_allocateNext_held [OF "1.prems"(1)] by metis
  note f = local_allocateNext_first_rests [OF "1.prems"(1-3) sel(1)]
  show ?case
  proof (cases a4_opt)
    case None
    with sel "1.prems"(4) f(1) show ?thesis by (simp add: tryAllocateLoop.simps [of E])
  next
    case (Some a4)
    obtain answer w1 where cloud: "ps_AllocateIP E (trialAction E psts lifecycle act a4 a6) w = (answer, w1)"
      by fastforce
    obtain nxt lp2 where after: "afterTrial (ps_clock E w1) psts conflicts sbns a4 a6 rel answer lp1 = (nxt, lp2)"
      by fastforce
    have mark: "first_rests (markCandidateUnavailable now psts (Some a4) lp1)" for now
      using mark_first_rests [OF f(1)] f(3) [OF Some] by blast
    have none: "markCandidateUnavailable now psts None l = l" "resetCandidateCooldown psts None l = l" for now l
      by (simp_all add: markCandidateUnavailable_def resetCandidateCooldown_def onPairPool_def)
    have lp2: "first_rests lp2"
      using after mark f(1) reset_first_rests releaseAll_first_rests
      by (auto simp: afterTrial_def Let_def f(2) none split: option.splits prod.splits if_splits)
    have ok2: "pools_ok lp2"
      using after sel(2) by (auto simp: afterTrial_def Let_def releaseAll_ok split: option.splits prod.splits if_splits)
    show ?thesis
    proof (cases nxt)
      case (TrialDone x)
      with sel(1) Some cloud after "1.prems"(4) lp2 show ?thesis by (simp add: tryAllocateLoop.simps [of E])
    next
      case (TrialAgain c left)
      then have "tryAllocateLoop E psts lifecycle act c left lp2 w1 = Some (r, lp', w')"
        using sel(1) Some cloud after "1.prems"(4)
        by (simp add: tryAllocateLoop.simps [of E psts lifecycle act conflicts])
      with "1.IH" [OF sel(1) [unfolded Some] refl refl refl refl cloud [symmetric] after [symmetric] TrialAgain
          ok2 lp2 "1.prems"(3)] show ?thesis .
    qed
  qed
qed

section \<open>Rounds\<close>

lemma tryAllocateLoop_rounds:
  assumes "pools_ok lp" "conflicts < maxVPCConflictRetries" "\<And>a w. n (snd (ps_AllocateIP E a w)) \<le> n w + 1"
    "tryAllocateLoop E psts lifecycle act conflicts sbns lp w = Some (r, lp', w')"
  shows "n w' \<le> n w + (maxVPCConflictRetries - conflicts + length sbns)"
  using assms
proof (induction E psts lifecycle act conflicts sbns lp w rule: tryAllocateLoop.induct)
  case (1 E psts lifecycle act conflicts sbns lp w)
  obtain lp1 a4_opt a6 rel where sel:
    "local_allocateNext E (ps_clock E w) psts sbns lp = Some (lp1, a4_opt, a6, rel)" "pools_ok lp1"
    using local_allocateNext_held [OF "1.prems"(1)] by metis
  show ?case
  proof (cases a4_opt)
    case None
    with sel "1.prems"(4) show ?thesis by (simp add: tryAllocateLoop.simps [of E])
  next
    case (Some a4)
    obtain answer w1 where cloud: "ps_AllocateIP E (trialAction E psts lifecycle act a4 a6) w = (answer, w1)"
      by fastforce
    then have one: "n w1 \<le> n w + 1" using "1.prems"(3) [of "trialAction E psts lifecycle act a4 a6" w] by simp
    obtain nxt lp2 where after: "afterTrial (ps_clock E w1) psts conflicts sbns a4 a6 rel answer lp1 = (nxt, lp2)"
      by fastforce
    have ok2: "pools_ok lp2"
      using after sel(2) by (auto simp: afterTrial_def Let_def releaseAll_ok split: option.splits prod.splits if_splits)
    show ?thesis
    proof (cases nxt)
      case (TrialDone x)
      then have "w' = w1" using sel(1) Some cloud after "1.prems"(4) by (simp add: tryAllocateLoop.simps [of E])
      with one "1.prems"(2) show ?thesis by simp
    next
      case (TrialAgain c left)
      then have step: "tryAllocateLoop E psts lifecycle act c left lp2 w1 = Some (r, lp', w')"
        using sel(1) Some cloud after "1.prems"(4)
        by (simp add: tryAllocateLoop.simps [of E psts lifecycle act conflicts])
      have c: "c < maxVPCConflictRetries"
        using after TrialAgain "1.prems"(2) by (auto simp: afterTrial_def Let_def split: option.splits prod.splits if_splits)
      have "maxVPCConflictRetries - c + length left < maxVPCConflictRetries - conflicts + length sbns"
        using afterTrial_progress [OF after [unfolded TrialAgain]] local_allocateNext_subnet sel(1) Some by blast
      moreover have "n w' \<le> n w1 + (maxVPCConflictRetries - c + length left)"
        using "1.IH" [OF sel(1) [unfolded Some] refl refl refl refl cloud [symmetric] after [symmetric] TrialAgain
            ok2 c "1.prems"(3) step] .
      ultimately show ?thesis using one by linarith
    qed
  qed
qed

section \<open>Names of pools\<close>

lemma lengthPrefixed_append:
  "lengthPrefixed s @ r = lengthPrefixed t @ q \<Longrightarrow> s = t \<and> r = q"
proof -
  assume eq: "lengthPrefixed s @ r = lengthPrefixed t @ q"
  have no: "CHR '':'' \<notin> set (dec_string n)" for n
    using dec_string_chars [of n] by (auto simp: v4_chars_def)
  have "takeWhile (\<lambda>c. c \<noteq> CHR '':'') (lengthPrefixed s @ r) = dec_string (length s)" for s r
    using no [of "length s"] by (auto simp: lengthPrefixed_def takeWhile_append)
  then have "dec_string (length s) = dec_string (length t)" using eq by metis
  then have len: "length s = length t" using dec_value_string by (metis option.inject)
  with eq have "s @ r = t @ q" by (simp add: lengthPrefixed_def)
  with len show ?thesis by simp
qed

lemma getPSTSPoolID_inj:
  assumes eq: "getPSTSPoolID ns nm sbn fam = getPSTSPoolID ns' nm' sbn' fam'"
  shows "ns = ns' \<and> nm = nm' \<and> sbn = sbn' \<and> fam = fam'"
proof -
  note a = lengthPrefixed_append [of ns "''|name:'' @ lengthPrefixed nm @ ''|subnet:'' @ lengthPrefixed sbn @
      ''|family:'' @ lengthPrefixed fam" ns' "''|name:'' @ lengthPrefixed nm' @ ''|subnet:'' @ lengthPrefixed sbn' @
      ''|family:'' @ lengthPrefixed fam'"]
  with eq have 1: "ns = ns'" "lengthPrefixed nm @ (''|subnet:'' @ lengthPrefixed sbn @ ''|family:'' @ lengthPrefixed fam) =
      lengthPrefixed nm' @ (''|subnet:'' @ lengthPrefixed sbn' @ ''|family:'' @ lengthPrefixed fam')"
    by (simp_all add: getPSTSPoolID_def)
  from lengthPrefixed_append [OF 1(2)] have 2: "nm = nm'"
    "lengthPrefixed sbn @ (''|family:'' @ lengthPrefixed fam) = lengthPrefixed sbn' @ (''|family:'' @ lengthPrefixed fam')"
    by simp_all
  from lengthPrefixed_append [OF 2(2)] have 3: "sbn = sbn'" "lengthPrefixed fam @ [] = lengthPrefixed fam' @ []" by simp_all
  from lengthPrefixed_append [OF 3(2)] 1 2 3 show ?thesis by simp
qed

section \<open>Changes of the annotation\<close>

text \<open>Every pool is found under the name of the topology spread it belongs to.\<close>

definition spread_pool :: "string \<Rightarrow> string \<Rightarrow> string \<Rightarrow> bool" where
  "spread_pool ns nm pid \<longleftrightarrow> (\<exists>sbn fam. pid = getPSTSPoolID ns nm sbn fam)"

definition well_named :: "localPool \<Rightarrow> bool" where
  "well_named lp \<longleftrightarrow> (\<forall>pid p. lp pid = Some p \<longrightarrow> spread_pool (pstsNamespace p) (pstsName p) pid)"

definition annotation_cidrs :: "'w psts_env \<Rightarrow> PSTS \<Rightarrow> string set" where
  "annotation_cidrs E psts = {c. \<exists>info sbn res. ps_unmarshal E (pstsReserveAnnotation psts) = Inr info \<and>
     info sbn = Some res \<and> c \<in> set (ps_cidrOrder E res)}"

definition reserves_ok :: "'w psts_env \<Rightarrow> PSTS \<Rightarrow> bool" where
  "reserves_ok E psts \<longleftrightarrow> (\<forall>c\<in>annotation_cidrs E psts. parseCIDRToIPRange c \<noteq> None \<and>
     (\<forall>fam r. parseCIDRToIPRange c = Some (Inr (fam, r)) \<longrightarrow> psts_range_ok r))"

definition expected_ok :: "PSTS \<Rightarrow> expectedPoolMap \<Rightarrow> bool" where
  "expected_ok psts exp \<longleftrightarrow> (\<forall>(pid, p)\<in>set exp. spread_pool (pstsNS psts) (pstsN psts) pid \<and>
     (\<forall>r\<in>set (ranges p). psts_range_ok r) \<and> currentRangeIndex p = 0 \<and> currentIndex p = 0)"

lemma rangesByFamily_ok:
  assumes "\<forall>c\<in>set cs. parseCIDRToIPRange c \<noteq> None \<and> (\<forall>fam r. parseCIDRToIPRange c = Some (Inr (fam, r)) \<longrightarrow> psts_range_ok r)"
    "\<forall>fam rs. acc fam = Some rs \<longrightarrow> (\<forall>r\<in>set rs. psts_range_ok r)"
  shows "\<exists>x. rangesByFamily cs acc = Some x \<and>
    (\<forall>byFam. x = Inr byFam \<longrightarrow> (\<forall>fam rs. byFam fam = Some rs \<longrightarrow> (\<forall>r\<in>set rs. psts_range_ok r)))"
  using assms
proof (induction cs arbitrary: acc)
  case (Cons c cs)
  obtain x where x: "parseCIDRToIPRange c = Some x" using Cons.prems(1) by auto
  show ?case
  proof (cases x)
    case (Inr y)
    obtain fam r where y: "y = (fam, r)" by fastforce
    then have r: "psts_range_ok r" using Cons.prems(1) x Inr by auto
    define acc2 where "acc2 = acc(fam \<mapsto> (case acc fam of None \<Rightarrow> [] | Some rs \<Rightarrow> rs) @ [r])"
    have acc2: "\<forall>f rs. acc2 f = Some rs \<longrightarrow> (\<forall>r\<in>set rs. psts_range_ok r)"
      using Cons.prems(2) r by (cases "acc fam") (auto simp: acc2_def)
    have "rangesByFamily (c # cs) acc = rangesByFamily cs acc2" using x Inr y by (simp add: acc2_def)
    with Cons.IH [OF _ acc2] Cons.prems(1) show ?thesis by simp
  qed (use x in simp)
qed simp

lemma expected_ok_update:
  assumes "expected_ok psts exp" "spread_pool (pstsNS psts) (pstsN psts) pid" "\<forall>r\<in>set rs. psts_range_ok r"
  shows "expected_ok psts (AList.update pid (newExpectedPool sbn fam rs) exp)"
  using assms
  by (induction exp) (auto simp: expected_ok_def newExpectedPool_def)

lemma addExpected_ok:
  assumes "expected_ok psts exp" "\<forall>fam rs. byFam fam = Some rs \<longrightarrow> (\<forall>r\<in>set rs. psts_range_ok r)"
  shows "expected_ok psts (addExpected (pstsNS psts) (pstsN psts) sbn byFam fam exp)"
proof (cases "byFam fam")
  case (Some rs)
  moreover have "spread_pool (pstsNS psts) (pstsN psts) (getPSTSPoolID (pstsNS psts) (pstsN psts) sbn fam)"
    unfolding spread_pool_def by blast
  ultimately show ?thesis using assms by (simp add: addExpected_def expected_ok_update)
qed (use assms in \<open>simp add: addExpected_def\<close>)

lemma expectedLoop_ok:
  assumes "\<forall>sbn res c. info sbn = Some res \<longrightarrow> c \<in> set (ps_cidrOrder E res) \<longrightarrow> parseCIDRToIPRange c \<noteq> None \<and>
      (\<forall>fam r. parseCIDRToIPRange c = Some (Inr (fam, r)) \<longrightarrow> psts_range_ok r)" "expected_ok psts exp"
  shows "\<exists>x. expectedLoop E psts info sbns exp = Some x \<and> (\<forall>exp'. x = Inr exp' \<longrightarrow> expected_ok psts exp')"
  using assms(2)
proof (induction sbns arbitrary: exp)
  case (Cons sbn sbns)
  show ?case
  proof (cases "info sbn")
    case (Some res)
    obtain x where x: "rangesByFamily (ps_cidrOrder E res) Map.empty = Some x"
      "\<forall>byFam. x = Inr byFam \<longrightarrow> (\<forall>fam rs. byFam fam = Some rs \<longrightarrow> (\<forall>r\<in>set rs. psts_range_ok r))"
      using rangesByFamily_ok [of "ps_cidrOrder E res" Map.empty] assms(1) Some by fastforce
    show ?thesis
    proof (cases x)
      case (Inr byFam)
      define exp2 where "exp2 = fold (addExpected (pstsNS psts) (pstsN psts) sbn byFam) [IPv4Family, IPv6Family] exp"
      have "expected_ok psts exp2" using Cons.prems x(2) Inr by (simp add: exp2_def addExpected_ok)
      from Cons.IH [OF this] Some x(1) Inr show ?thesis
        by (simp add: buildExpectedPoolsForSubnet_def exp2_def)
    qed (use Some x in \<open>simp add: buildExpectedPoolsForSubnet_def\<close>)
  qed (use Cons in simp)
qed simp

text \<open>What a synchronised pool keeps.\<close>

lemma syncPool_ok:
  assumes "\<forall>p. have_opt = Some p \<longrightarrow> pool_ok p" "\<forall>r\<in>set (ranges want). psts_range_ok r"
    "currentRangeIndex want = 0" "currentIndex want = 0"
  shows "\<exists>p'. syncPool psts pid want have_opt = Some p' \<and> pool_ok p' \<and>
    (case have_opt of
       None \<Rightarrow> pstsNamespace p' = pstsNS psts \<and> pstsName p' = pstsN psts \<and> realOccupied p' = {}
     | Some p \<Rightarrow> pstsNamespace p' = pstsNamespace p \<and> pstsName p' = pstsName p \<and> realOccupied p' = realOccupied p)"
proof (cases have_opt)
  case None
  define p where "p = initPoolRuntime pid (pstsNS psts) (pstsN psts) (want\<lparr>ranges := sortRanges (ranges want)\<rparr>)"
  have r: "\<forall>r\<in>set (ranges p). psts_range_ok r" using assms(2) by (simp add: p_def initPoolRuntime_def sortRanges_def)
  then have "\<forall>r\<in>set (ranges p). 0 < rangeCount r" by (auto simp: psts_range_ok_def)
  then have "pool_ok (setCursor 0 0 p)" using r by (intro pool_ok_cursor) auto
  moreover have "setCursor 0 0 p = p" using assms(3,4) by (simp add: setCursor_def p_def initPoolRuntime_def)
  ultimately show ?thesis using None by (simp add: syncPool_def p_def initPoolRuntime_def)
next
  case (Some p)
  then have "pool_ok p" using assms(1) by simp
  from updateRanges_ok [OF this assms(2)] show ?thesis
    using Some \<open>pool_ok p\<close> by (auto simp: syncPool_def setCursor_def pruneCooldown_def)
qed

definition keeps_pools :: "PSTS \<Rightarrow> localPool \<Rightarrow> localPool \<Rightarrow> bool" where
  "keeps_pools psts lp lp' \<longleftrightarrow> pools_ok lp' \<and> well_named lp' \<and>
     (\<forall>pid p. lp pid = Some p \<and> \<not> ownedBy psts p \<longrightarrow> lp' pid = Some p) \<and>
     (\<forall>pid p p'. lp pid = Some p \<and> lp' pid = Some p' \<longrightarrow> realOccupied p' = realOccupied p)"

lemma spread_pool_owner: "spread_pool ns nm pid \<Longrightarrow> spread_pool ns' nm' pid \<Longrightarrow> ns = ns' \<and> nm = nm'"
proof -
  assume "spread_pool ns nm pid" "spread_pool ns' nm' pid"
  then obtain sbn fam sbn' fam' where "getPSTSPoolID ns nm sbn fam = getPSTSPoolID ns' nm' sbn' fam'"
    by (auto simp: spread_pool_def)
  from getPSTSPoolID_inj [OF this] show ?thesis by simp
qed

lemma syncExpected_keeps:
  assumes "pools_ok lp" "well_named lp" "expected_ok psts exp"
  shows "\<exists>lp'. syncExpected psts exp lp = Some lp' \<and> keeps_pools psts lp lp' \<and>
    (\<forall>pid. map_of exp pid = None \<longrightarrow> lp' pid = lp pid)"
  using assms
proof (induction psts exp lp rule: syncExpected.induct)
  case (1 psts lp)
  then show ?case by (auto simp: keeps_pools_def)
next
  case (2 psts pid want exp lp)
  have sp: "spread_pool (pstsNS psts) (pstsN psts) pid" using "2.prems"(3) by (simp add: expected_ok_def)
  obtain p' where p': "syncPool psts pid want (lp pid) = Some p'" "pool_ok p'"
    "case lp pid of
       None \<Rightarrow> pstsNamespace p' = pstsNS psts \<and> pstsName p' = pstsN psts \<and> realOccupied p' = {}
     | Some p \<Rightarrow> pstsNamespace p' = pstsNamespace p \<and> pstsName p' = pstsName p \<and> realOccupied p' = realOccupied p"
    using syncPool_ok [of "lp pid" want psts pid] "2.prems" by (auto simp: pools_ok_def expected_ok_def)
  have owner: "pstsNamespace p = pstsNS psts \<and> pstsName p = pstsN psts" if "lp pid = Some p" for p
    using "2.prems"(2) that spread_pool_owner [OF _ sp] by (auto simp: well_named_def)
  have "pools_ok (lp(pid \<mapsto> p'))" using "2.prems"(1) p'(2) by (simp add: pools_ok_def)
  moreover have "well_named (lp(pid \<mapsto> p'))"
    using "2.prems"(2) p'(3) sp owner by (auto simp: well_named_def split: option.splits)
  moreover have "expected_ok psts exp" using "2.prems"(3) by (simp add: expected_ok_def)
  ultimately obtain lp' where lp': "syncExpected psts exp (lp(pid \<mapsto> p')) = Some lp'"
    "keeps_pools psts (lp(pid \<mapsto> p')) lp'" "\<forall>q. map_of exp q = None \<longrightarrow> lp' q = (lp(pid \<mapsto> p')) q"
    using "2.IH" [OF p'(1)] by blast
  have "lp' q = Some p" if "lp q = Some p" "\<not> ownedBy psts p" for q p
  proof -
    have "q \<noteq> pid" using owner that by (auto simp: ownedBy_def)
    then show ?thesis using lp'(2) that unfolding keeps_pools_def by (metis fun_upd_other)
  qed
  moreover have "realOccupied x = realOccupied p" if "lp q = Some p" "lp' q = Some x" for q p x
  proof (cases "q = pid")
    case True
    then have "realOccupied x = realOccupied p'" using lp'(2) that(2) unfolding keeps_pools_def by (metis fun_upd_same)
    then show ?thesis using p'(3) that(1) True by simp
  next
    case False
    then show ?thesis using lp'(2) that unfolding keeps_pools_def by (metis fun_upd_other)
  qed
  moreover have "lp' q = lp q" if "map_of ((pid, want) # exp) q = None" for q
    using lp'(3) that by (auto split: if_splits)
  moreover have "pools_ok lp'" "well_named lp'" using lp'(2) by (simp_all add: keeps_pools_def)
  ultimately have "keeps_pools psts lp lp'" "\<forall>q. map_of ((pid, want) # exp) q = None \<longrightarrow> lp' q = lp q"
    unfolding keeps_pools_def by blast+
  with lp'(1) p'(1) show ?case by simp
qed

lemma dropStale_keeps:
  assumes "pools_ok lp" "well_named lp"
  shows "pools_ok (dropStale psts exp lp)" "well_named (dropStale psts exp lp)"
  using assms by (auto simp: pools_ok_def well_named_def dropStale_def split: option.splits if_splits)

section \<open>Properties\<close>

text \<open>
  C29: Trying to give a pod an address from the reserved ranges leaves no trace unless it succeeds. The
  loop always ends. When the cloud has accepted a candidate, the pools hold exactly the addresses of
  the accepted action more than before, and they were free; when every candidate was refused, the
  subnets ran out, or the cloud failed, every pool has the same addresses in use as before.
\<close>

theorem tryAllocate_no_leak:
  assumes "pools_ok lp"
  shows "case tryAllocateFromRangeSubnets E psts sbns act lifecycle lp w of
      None \<Rightarrow> False
    | Some (Inr (Some (act', rel)), lp', w') \<Rightarrow> pools_ok lp' \<and>
        (\<forall>pid. occ lp' pid = occ lp pid \<union> {s. (pid, s) \<in> set rel}) \<and>
        (\<forall>pid s. (pid, s) \<in> set rel \<longrightarrow> s \<notin> occ lp pid) \<and>
        (\<exists>a4 a6 w1 w2. apSubnet a4 \<in> set sbns \<and> rel = pairFuncs psts (Some a4) @ pairFuncs psts a6 \<and>
           ps_AllocateIP E (trialAction E psts lifecycle act a4 a6) w1 = ((None, act'), w2))
    | Some (_, lp', w') \<Rightarrow> pools_ok lp' \<and> (\<forall>pid. occ lp' pid = occ lp pid)"
proof -
  obtain r lp' w' where out: "tryAllocateLoop E psts lifecycle act 0 sbns lp w = Some (r, lp', w')"
    "pools_ok lp'" "trial_outcome E psts lifecycle act sbns lp r lp'"
    using tryAllocateLoop_outcome [OF assms] by metis
  show ?thesis
  proof (cases r)
    case (Inl e)
    with out show ?thesis by (simp add: tryAllocateFromRangeSubnets_def trial_outcome_def held_Nil)
  next
    case (Inr res)
    show ?thesis
    proof (cases res)
      case None
      with Inr out show ?thesis by (simp add: tryAllocateFromRangeSubnets_def trial_outcome_def held_Nil)
    next
      case (Some x)
      obtain act' rel where "x = (act', rel)" by fastforce
      with Inr Some out show ?thesis
        by (simp add: tryAllocateFromRangeSubnets_def trial_outcome_def heldBy_def)
    qed
  qed
qed

text \<open>A cloud that refuses the first candidate and accepts the next, in a subnet with two addresses.\<close>

definition demo_psts :: PSTS where
  "demo_psts = \<lparr>pstsNS = ''ns'', pstsN = ''p'', pstsReserveAnnotation = [], pstsSubnets = Map.empty,
     pstsStrategy = None, pstsAvailable = [''sbn'']\<rparr>"

definition demo_psts_env :: "nat psts_env" where
  "demo_psts_env = \<lparr>ps_unmarshal = \<lambda>_. Inl [], ps_subnetOrder = \<lambda>_. [], ps_cidrOrder = \<lambda>_. [],
     ps_EnableIPv6 = False, ps_ClusterID = ''c'', ps_md5 = id, ps_clock = int,
     ps_AllocateIP = \<lambda>a n. ((if n = 0 then Some ''PrivateIpInUseException'' else None, a), Suc n),
     ps_FilterAvailableSubnetIds = \<lambda>ids _ _. ids\<rparr>"

definition demo_pools :: localPool where
  "demo_pools = [getPSTSPoolID ''ns'' ''p'' ''sbn'' ''4'' \<mapsto> demo_psts_pool\<lparr>realOccupied := {}\<rparr>]"

definition demo_psts_action :: DirectIPAction where
  "demo_psts_action = \<lparr>daNodeName = ''n'', daOwner = ''ns/pod'', daClientToken = [], daSubnetID = [],
     daAddressing = [], daInterface = [], daSelector = []\<rparr>"

lemma demo_pools_ok: "pools_ok demo_pools"
proof -
  have "pool_ok (demo_psts_pool\<lparr>realOccupied := {}\<rparr>)" using demo_pool_ok by (simp add: pool_ok_def)
  then show ?thesis by (simp add: pools_ok_def demo_pools_def)
qed

theorem tryAllocate_no_leak_witness:
  "case tryAllocateFromRangeSubnets demo_psts_env demo_psts [''sbn''] demo_psts_action ''c1'' demo_pools 0 of
      None \<Rightarrow> False
    | Some (Inr (Some (act', rel)), lp', w') \<Rightarrow> pools_ok lp' \<and>
        (\<forall>pid. occ lp' pid = occ demo_pools pid \<union> {s. (pid, s) \<in> set rel}) \<and>
        (\<forall>pid s. (pid, s) \<in> set rel \<longrightarrow> s \<notin> occ demo_pools pid) \<and>
        (\<exists>a4 a6 w1 w2. apSubnet a4 \<in> set [''sbn''] \<and> rel = pairFuncs demo_psts (Some a4) @ pairFuncs demo_psts a6 \<and>
           ps_AllocateIP demo_psts_env (trialAction demo_psts_env demo_psts ''c1'' demo_psts_action a4 a6) w1 =
             ((None, act'), w2))
    | Some (_, lp', w') \<Rightarrow> pools_ok lp' \<and> (\<forall>pid. occ lp' pid = occ demo_pools pid)"
  by (rule tryAllocate_no_leak [OF demo_pools_ok])

text \<open>
  C36: The rest of a refused address never grows. Every allocation first forgets the rest of the
  candidate it picks, so a refusal always finds the counter of failures at zero: in a pool of IPv4
  addresses no allocation, however often the cloud refuses the same addresses, leaves a counter other
  than one, and the rest is two seconds every time. The doubling up to two minutes is never reached.
\<close>

theorem conflict_backoff_never_grows:
  assumes "pools_ok lp" "\<not> ps_EnableIPv6 E"
    "\<forall>pid p. lp pid = Some p \<longrightarrow> (\<forall>r\<in>set (ranges p). to4 (startIP r) \<noteq> None)"
    "\<forall>pid p s c. lp pid = Some p \<longrightarrow> candidateCooldown p s = Some c \<longrightarrow> failureCount c = 1"
    "tryAllocateFromRangeSubnets E psts sbns act lifecycle lp w = Some (r, lp', w')"
  shows "(\<forall>pid p s c. lp' pid = Some p \<longrightarrow> candidateCooldown p s = Some c \<longrightarrow> failureCount c = 1) \<and>
    computeCandidateCooldown 1 = candidateCooldownBase"
proof -
  have "first_rests lp" using assms(3,4) by (auto simp: first_rests_def first_rest_def)
  from tryAllocateLoop_first_rests [OF assms(1) this assms(2)] assms(5)
  have "first_rests lp'" by (simp add: tryAllocateFromRangeSubnets_def)
  then show ?thesis by (auto simp: first_rests_def first_rest_def computeCandidateCooldown_def)
qed

text \<open>The first address is refused and rests; the second is accepted.\<close>

lemma demo_run:
  "case tryAllocateFromRangeSubnets demo_psts_env demo_psts [''sbn''] demo_psts_action ''c1'' demo_pools 0 of
      Some (Inr (Some (act, rel)), lp', w') \<Rightarrow> w' = 2 \<and> map apIP (daAddressing act) = [''10.0.0.2''] \<and>
        (case lp' (getPSTSPoolID ''ns'' ''p'' ''sbn'' ''4'') of
           Some p \<Rightarrow> candidateCooldown p ''10.0.0.1'' = Some \<lparr>failureCount = 1, unavailableUntil = 2000000001\<rparr>
         | None \<Rightarrow> False)
    | _ \<Rightarrow> False"
  by code_simp

lemma demo_result:
  obtains act rel lp' p where
    "tryAllocateFromRangeSubnets demo_psts_env demo_psts [''sbn''] demo_psts_action ''c1'' demo_pools 0 =
       Some (Inr (Some (act, rel)), lp', 2)" "lp' (getPSTSPoolID ''ns'' ''p'' ''sbn'' ''4'') = Some p"
    "candidateCooldown p ''10.0.0.1'' = Some \<lparr>failureCount = 1, unavailableUntil = 2000000001\<rparr>"
proof -
  define t where "t = tryAllocateFromRangeSubnets demo_psts_env demo_psts [''sbn''] demo_psts_action ''c1'' demo_pools 0"
  note run = demo_run [folded t_def]
  obtain r lp' w' where t: "t = Some (r, lp', w')" using run by (cases t) auto
  obtain opt where r: "r = Inr opt" using run t by (cases r) auto
  obtain act rel where opt: "opt = Some (act, rel)" using run t r by (cases opt) auto
  obtain p where p: "lp' (getPSTSPoolID ''ns'' ''p'' ''sbn'' ''4'') = Some p"
    using run t r opt by (cases "lp' (getPSTSPoolID ''ns'' ''p'' ''sbn'' ''4'')") auto
  show thesis
    by (rule that [of act rel lp' p]) (use run t r opt p in \<open>simp_all add: t_def\<close>)
qed

theorem conflict_backoff_never_grows_witness:
  "\<exists>r lp' p. tryAllocateFromRangeSubnets demo_psts_env demo_psts [''sbn''] demo_psts_action ''c1'' demo_pools 0 =
       Some (r, lp', 2) \<and>
     lp' (getPSTSPoolID ''ns'' ''p'' ''sbn'' ''4'') = Some p \<and>
     candidateCooldown p ''10.0.0.1'' = Some \<lparr>failureCount = 1, unavailableUntil = 2000000001\<rparr> \<and>
     (\<forall>pid p s c. lp' pid = Some p \<longrightarrow> candidateCooldown p s = Some c \<longrightarrow> failureCount c = 1)"
proof -
  obtain act rel lp' p where run:
    "tryAllocateFromRangeSubnets demo_psts_env demo_psts [''sbn''] demo_psts_action ''c1'' demo_pools 0 =
       Some (Inr (Some (act, rel)), lp', 2)" "lp' (getPSTSPoolID ''ns'' ''p'' ''sbn'' ''4'') = Some p"
    "candidateCooldown p ''10.0.0.1'' = Some \<lparr>failureCount = 1, unavailableUntil = 2000000001\<rparr>"
    using demo_result .
  have v4: "\<forall>pid p. demo_pools pid = Some p \<longrightarrow> (\<forall>r\<in>set (ranges p). to4 (startIP r) \<noteq> None)"
    by (simp add: demo_pools_def demo_psts_pool_def initPoolRuntime_def newExpectedPool_def demo_range_def to4_def)
  have fresh: "\<forall>pid p s c. demo_pools pid = Some p \<longrightarrow> candidateCooldown p s = Some c \<longrightarrow> failureCount c = 1"
    by (simp add: demo_pools_def demo_psts_pool_def initPoolRuntime_def newExpectedPool_def)
  have "\<not> ps_EnableIPv6 demo_psts_env" by (simp add: demo_psts_env_def)
  from conflict_backoff_never_grows [OF demo_pools_ok this v4 fresh run(1)] run show ?thesis by blast
qed

text \<open>
  C37: The number of calls of the cloud an allocation from the reserved ranges costs is bounded. Whatever the
  cloud answers, at most ten calls and one more for every subnet are made.
\<close>

theorem tryAllocate_calls_bounded:
  assumes "pools_ok lp" "\<forall>a w. calls_made (snd (ps_AllocateIP E a w)) \<le> calls_made w + 1"
    "tryAllocateFromRangeSubnets E psts sbns act lifecycle lp w = Some (r, lp', w')"
  shows "calls_made w' \<le> calls_made w + 10 + length sbns"
  using tryAllocateLoop_rounds [where n = calls_made, OF assms(1) _ _ assms(3) [unfolded tryAllocateFromRangeSubnets_def]]
    assms(2) by (simp add: maxVPCConflictRetries_def)

theorem tryAllocate_calls_bounded_witness:
  "\<exists>r lp'. tryAllocateFromRangeSubnets demo_psts_env demo_psts [''sbn''] demo_psts_action ''c1'' demo_pools 0 =
     Some (r, lp', 2) \<and> (2 :: nat) \<le> 0 + 10 + length [''sbn'']"
proof -
  have "\<forall>a w. id (snd (ps_AllocateIP demo_psts_env a w)) \<le> id w + 1" by (simp add: demo_psts_env_def)
  from tryAllocate_calls_bounded [OF demo_pools_ok this] demo_result show ?thesis by (metis id_apply)
qed

text \<open>
  Two pools never share a name. The name of a pool determines the namespace, the topology spread, the
  subnet and the family it belongs to, whatever characters these contain.
\<close>

theorem getPSTSPoolID_injective:
  "getPSTSPoolID ns nm sbn fam = getPSTSPoolID ns' nm' sbn' fam' \<longleftrightarrow>
     ns = ns' \<and> nm = nm' \<and> sbn = sbn' \<and> fam = fam'"
  using getPSTSPoolID_inj by blast

text \<open>
  C35: A change of the reserved ranges of one topology spread keeps the pools of all others, and what is in
  use. When the ranges of the annotation are blocks the pool can count, the update succeeds, every pool
  is well-formed and found under its own name afterwards, the pools of other spreads are untouched, and
  no pool that stays forgets an address in use, wherever its ranges and its cursor have moved.
\<close>

theorem updatePSTS_keeps_pools:
  assumes "pools_ok lp" "well_named lp" "reserves_ok E psts"
  shows "\<exists>lp'. updatePSTS E psts lp = Some lp' \<and> pools_ok lp' \<and> well_named lp' \<and>
    (\<forall>pid p. lp pid = Some p \<and> \<not> ownedBy psts p \<longrightarrow> lp' pid = Some p) \<and>
    (\<forall>pid p p'. lp pid = Some p \<and> lp' pid = Some p' \<longrightarrow> realOccupied p' = realOccupied p)"
proof -
  have nil: "expected_ok psts []" by (simp add: expected_ok_def)
  obtain x where x: "buildExpectedPoolsFromAnnotation E psts = Some x" "\<forall>exp. x = Inr exp \<longrightarrow> expected_ok psts exp"
  proof (cases "pstsReserveAnnotation psts = []")
    case True
    then show thesis using that [of "Inr []"] nil by (simp add: buildExpectedPoolsFromAnnotation_def)
  next
    case False
    show thesis
    proof (cases "ps_unmarshal E (pstsReserveAnnotation psts)")
      case (Inl e)
      then show thesis using that [of "Inl e"] False by (simp add: buildExpectedPoolsFromAnnotation_def)
    next
      case info: (Inr info)
      have "\<forall>sbn res c. info sbn = Some res \<longrightarrow> c \<in> set (ps_cidrOrder E res) \<longrightarrow> parseCIDRToIPRange c \<noteq> None \<and>
          (\<forall>fam r. parseCIDRToIPRange c = Some (Inr (fam, r)) \<longrightarrow> psts_range_ok r)"
        using assms(3) info unfolding reserves_ok_def annotation_cidrs_def by blast
      from expectedLoop_ok [OF this nil, of "ps_subnetOrder E info"] show thesis
        using that False info by (auto simp: buildExpectedPoolsFromAnnotation_def)
    qed
  qed
  show ?thesis
  proof (cases x)
    case (Inl e)
    with x assms show ?thesis by (auto simp: updatePSTS_def)
  next
    case (Inr exp)
    obtain lp' where lp': "syncExpected psts exp (dropStale psts exp lp) = Some lp'"
      "keeps_pools psts (dropStale psts exp lp) lp'"
      "\<forall>pid. map_of exp pid = None \<longrightarrow> lp' pid = dropStale psts exp lp pid"
      using syncExpected_keeps [OF dropStale_keeps [OF assms(1,2)]] x Inr by blast
    have "lp' pid = Some p" if "lp pid = Some p" "\<not> ownedBy psts p" for pid p
      using lp'(2) that by (auto simp: keeps_pools_def dropStale_def)
    moreover have "realOccupied p' = realOccupied p" if "lp pid = Some p" "lp' pid = Some p'" for pid p p'
    proof (cases "dropStale psts exp lp pid")
      case None
      then have "map_of exp pid = None" using that(1) by (auto simp: dropStale_def split: if_splits)
      with lp'(3) None that(2) show ?thesis by simp
    next
      case (Some q)
      then have "q = p" using that(1) by (auto simp: dropStale_def split: if_splits)
      with Some lp'(2) that(2) show ?thesis by (auto simp: keeps_pools_def)
    qed
    ultimately show ?thesis using lp'(1,2) x Inr
      unfolding updatePSTS_def keeps_pools_def by simp blast
  qed
qed

text \<open>An annotation that reserves one block of four addresses in the subnet of the pool above.\<close>

definition demo_annotated :: PSTS where
  "demo_annotated = demo_psts\<lparr>pstsReserveAnnotation := ''a''\<rparr>"

definition demo_annotation_env :: "nat psts_env" where
  "demo_annotation_env = demo_psts_env
     \<lparr>ps_unmarshal := \<lambda>_. Inr [''sbn'' \<mapsto> [''10.0.0.0/30'' \<mapsto> ''r1'']],
      ps_subnetOrder := \<lambda>_. [''sbn''], ps_cidrOrder := \<lambda>_. [''10.0.0.0/30'']\<rparr>"

lemma demo_psts_parse:
  "parseCIDRToIPRange ''10.0.0.0/30'' =
     Some (Inr (''4'', \<lparr>startIP = [10, 0, 0, 0], endIP = [10, 0, 0, 3], rangeCount = 4\<rparr>))"
  by code_simp

lemma demo_reserves_ok: "reserves_ok demo_annotation_env demo_annotated"
  by (auto simp: reserves_ok_def annotation_cidrs_def demo_annotation_env_def demo_psts_parse psts_range_ok_def
      to16_def to4_def calculateIPCount_def ipv4ToInt_def ipv6ToBigInt_def to16_nil_def v4InV6Prefix_def
      bytes_int_append bytes_int_Cons split: if_splits)

theorem updatePSTS_keeps_pools_witness:
  "\<exists>lp'. updatePSTS demo_annotation_env demo_annotated demo_pools = Some lp' \<and> pools_ok lp' \<and> well_named lp' \<and>
    (\<forall>pid p. demo_pools pid = Some p \<and> \<not> ownedBy demo_annotated p \<longrightarrow> lp' pid = Some p) \<and>
    (\<forall>pid p p'. demo_pools pid = Some p \<and> lp' pid = Some p' \<longrightarrow> realOccupied p' = realOccupied p)"
proof -
  have "well_named demo_pools"
    by (auto simp: well_named_def demo_pools_def demo_psts_pool_def initPoolRuntime_def spread_pool_def)
  then show ?thesis by (rule updatePSTS_keeps_pools [OF demo_pools_ok _ demo_reserves_ok])
qed

end
