(* ===== verification/EndpointManager.thy ===== *)
theory EndpointManager
  imports PSTSAllocator
begin

text \<open>
  The operator's handlers of endpoint objects (\<open>pkg/endpoint/operator_endpoint_manager.go\<close>, and the entry point
  \<open>AllocateIP\<close> of \<open>operator_psts_manager_provider.go\<close>): allocating the addresses of a pod with a topology
  spread, releasing them when the pod is gone, and removing the finalizer. Kubernetes and the cloud are
  functions on a state \<open>'w\<close>; the calls that change it are recorded in \<open>mcalls\<close>. A poll that ends with its
  context makes at most \<open>mg_attempts\<close> attempts. Events, metrics and logs are left out.
\<close>

section \<open>State\<close>

datatype op_error = OpNotFound string | OpError string

text \<open>What \<open>NodeEndpoint\<close> returns: an error, a nil operation, or an operation with its cloud calls.\<close>

datatype 'w nodeOps = OpsError op_error | OpsNil | Ops "'w psts_env"

datatype write_error = WriteConflict | WriteExpired | WriteError string

datatype nodeFound = NodeThere | NodeGone | NodeLookupError string

datatype mgrCall =
    DeleteIPCall DirectIPAction "op_error option"
  | UpdateCall CCEEndpoint "err option"
  | UpdateStatusCall CCEEndpoint "write_error option"

record 'w mgr_env =
  mg_NodeEndpoint :: "CCEEndpoint \<Rightarrow> 'w \<Rightarrow> 'w nodeOps"
  mg_DeleteIP :: "DirectIPAction \<Rightarrow> 'w \<Rightarrow> op_error option \<times> 'w"
  mg_pstsGet :: "string \<Rightarrow> string \<Rightarrow> 'w \<Rightarrow> err + PSTS"
  mg_cepGet :: "string \<Rightarrow> string \<Rightarrow> 'w \<Rightarrow> op_error + CCEEndpoint"
  mg_nrsGet :: "string \<Rightarrow> 'w \<Rightarrow> nodeFound"
  mg_Update :: "CCEEndpoint \<Rightarrow> 'w \<Rightarrow> err option \<times> 'w"
  mg_UpdateStatus :: "CCEEndpoint \<Rightarrow> 'w \<Rightarrow> (write_error + CCEEndpoint option) \<times> 'w"
  mg_parseRV :: "string \<Rightarrow> int option"
  mg_stamp :: "'w \<Rightarrow> string"
  mg_attempts :: nat

record 'w manager =
  mpools :: localPool
  syncedPool :: "string \<rightharpoonup> string"
  mworld :: 'w
  mcalls :: "mgrCall list"

section \<open>Allocation for an endpoint\<close>

text \<open>The error, the new status; \<open>None\<close> is a nil dereference (a nil operation, or no networking status).\<close>

definition provider_AllocateIP ::
    "'w mgr_env \<Rightarrow> CCEEndpoint \<Rightarrow> 'w manager \<Rightarrow> ((err option \<times> EndpointStatus) \<times> 'w manager) option" where
  "provider_AllocateIP M ep st =
     (case (specIPAllocation (epSpec ep), Networking (epStatus ep)) of
        (Some al, Some net) \<Rightarrow>
          (case pstsAllocationLifecycleID ep of
             Inl e \<Rightarrow> Some ((Some e, epStatus ep), st)
           | Inr lifecycle \<Rightarrow>
               (case mg_pstsGet M (epNamespace ep) (PSTSName al) (mworld st) of
                  Inl e \<Rightarrow> Some ((Some e, epStatus ep), st)
                | Inr psts \<Rightarrow>
                    (case mg_NodeEndpoint M ep (mworld st) of
                       OpsError (OpNotFound e) \<Rightarrow> Some ((Some e, epStatus ep), st)
                     | OpsError (OpError e) \<Rightarrow> Some ((Some e, epStatus ep), st)
                     | OpsNil \<Rightarrow> None
                     | Ops E \<Rightarrow>
                         (let act = \<lparr>daNodeName = NodeName al, daOwner = epNamespace ep @ ''/'' @ epName ep,
                                daClientToken = [], daSubnetID = [], daAddressing = [], daInterface = [],
                                daSelector = []\<rparr>
                          in if Addressing net = []
                             then map_option (\<lambda>(r, lp, w). (r, st\<lparr>mpools := lp, mworld := w\<rparr>))
                                    (allocateNewIP E psts act (epStatus ep) lifecycle (mpools st) (mworld st))
                             else (case reuseExistingIP E act (epStatus ep) (Addressing net) (pstsN psts)
                                          lifecycle (mworld st) of
                                     (r, w) \<Rightarrow> Some (r, st\<lparr>mworld := w\<rparr>))))))
      | _ \<Rightarrow> None)"

section \<open>Writing the status\<close>

text \<open>The polled function: \<open>left\<close> attempts are left. A nil object without an error is tried again.\<close>

fun pollStatus ::
    "'w mgr_env \<Rightarrow> string \<Rightarrow> string \<Rightarrow> EndpointStatus \<Rightarrow> nat \<Rightarrow> 'w manager
     \<Rightarrow> (err + CCEEndpoint) \<times> 'w manager" where
  "pollStatus M ns nm s 0 st = (Inl ''timed out waiting for the condition'', st)"
| "pollStatus M ns nm s (Suc left) st =
     (case mg_cepGet M ns nm (mworld st) of
        Inl e \<Rightarrow> (Inl ''get cep failed'', st)
      | Inr ep \<Rightarrow>
          (let ep' = ep\<lparr>epStatus := s\<rparr> in
           case mg_UpdateStatus M ep' (mworld st) of
             (Inl e, w) \<Rightarrow>
               (let st' = st\<lparr>mworld := w, mcalls := mcalls st @ [UpdateStatusCall ep' (Some e)]\<rparr> in
                case e of
                  WriteConflict \<Rightarrow> pollStatus M ns nm s left st'
                | WriteExpired \<Rightarrow> pollStatus M ns nm s left st'
                | WriteError x \<Rightarrow> (Inl x, st'))
           | (Inr None, w) \<Rightarrow>
               pollStatus M ns nm s left (st\<lparr>mworld := w, mcalls := mcalls st @ [UpdateStatusCall ep' None]\<rparr>)
           | (Inr (Some new), w) \<Rightarrow>
               (Inr new, st\<lparr>mworld := w, mcalls := mcalls st @ [UpdateStatusCall ep' None]\<rparr>)))"

definition cepKey :: "CCEEndpoint \<Rightarrow> string" where
  "cepKey ep = epNamespace ep @ ''/'' @ epName ep"

text \<open>From the label \<open>update\<close> on: the return value is the error of the API alone.\<close>

definition writeStatus :: "'w mgr_env \<Rightarrow> CCEEndpoint \<Rightarrow> EndpointStatus \<Rightarrow> 'w manager \<Rightarrow> err option \<times> 'w manager" where
  "writeStatus M ep s st =
     (case pollStatus M (epNamespace ep) (epName ep) s (mg_attempts M) st of
        (Inl e, st') \<Rightarrow> (Some e, st')
      | (Inr new, st') \<Rightarrow> (None, st'\<lparr>syncedPool := (syncedPool st')(cepKey ep \<mapsto> epResourceVersion new)\<rparr>))"

section \<open>Releasing addresses\<close>

definition IsIPAlreadyDeleted :: "err \<Rightarrow> bool" where
  "IsIPAlreadyDeleted e \<longleftrightarrow>
     ReasonForError e \<in> {NoSuchObject, ENINotFound, ENIPrivateIPNotFound, BBCENIPrivateIPNotFound} \<or>
     contains_substring (map lower_char e) ''eni not found'' \<or>
     contains_substring (map lower_char e) ''privateipinvalid''"

definition ip_gone :: "op_error \<Rightarrow> bool" where
  "ip_gone e = (case e of OpNotFound _ \<Rightarrow> True | OpError x \<Rightarrow> IsIPAlreadyDeleted x)"

definition deleteAction :: "CCEEndpoint \<Rightarrow> IPAllocation \<Rightarrow> DirectIPAction" where
  "deleteAction ep al =
     \<lparr>daNodeName = NodeName al, daOwner = cepKey ep, daClientToken = [], daSubnetID = [],
      daAddressing = epAddressing ep, daInterface = [], daSelector = []\<rparr>"

definition callDeleteIP ::
    "'w mgr_env \<Rightarrow> DirectIPAction \<Rightarrow> 'w manager \<Rightarrow> op_error option \<times> 'w manager" where
  "callDeleteIP M act st =
     (case mg_DeleteIP M act (mworld st) of
        (r, w) \<Rightarrow> (r, st\<lparr>mworld := w, mcalls := mcalls st @ [DeleteIPCall act r]\<rparr>))"

definition handlePodDeletedIPRelease ::
    "'w mgr_env \<Rightarrow> CCEEndpoint \<Rightarrow> IPAllocation \<Rightarrow> 'w manager \<Rightarrow> err option \<times> 'w manager" where
  "handlePodDeletedIPRelease M ep al st =
     (if epAddressing ep = [] then (None, st)
      else case mg_NodeEndpoint M ep (mworld st) of
        OpsError (OpNotFound _) \<Rightarrow> (None, st)
      | OpsError (OpError _) \<Rightarrow> (Some ''failed to get direct IP operation'', st)
      | OpsNil \<Rightarrow> (Some ''direct IP operation is nil'', st)
      | Ops _ \<Rightarrow>
          (case callDeleteIP M (deleteAction ep al) st of
             (None, st') \<Rightarrow> (None, st')
           | (Some e, st') \<Rightarrow> if ip_gone e then (None, st') else (Some ''failed to release IP from ENI'', st')))"

section \<open>The handler of updates\<close>

definition compareResourceVersions :: "'w mgr_env \<Rightarrow> string \<Rightarrow> string \<Rightarrow> err + bool" where
  "compareResourceVersions M current stored =
     (case (mg_parseRV M current, mg_parseRV M stored) of
        (Some c, Some s) \<Rightarrow> Inr (c \<ge> s)
      | _ \<Rightarrow> Inl ''invalid resource version format'')"

definition shouldSkipReuseUpdate :: "CCEEndpoint \<Rightarrow> string \<Rightarrow> bool" where
  "shouldSkipReuseUpdate ep newNode \<longleftrightarrow>
     State (epStatus ep) \<noteq> EndpointStateRestoring \<and>
     (case Networking (epStatus ep) of None \<Rightarrow> False | Some n \<Rightarrow> NodeIP n = newNode \<and> Addressing n \<noteq> []) \<and>
     (case (statusIdentifiers (epStatus ep), specIdentifiers (epSpec ep)) of
        (Some a, Some b) \<Rightarrow> K8sObjectID a = K8sObjectID b
      | _ \<Rightarrow> False)"

text \<open>The status after a successful allocation.\<close>

definition allocatedStatus :: "string \<Rightarrow> CCEEndpoint \<Rightarrow> string \<Rightarrow> EndpointNetworking \<Rightarrow> EndpointStatus \<Rightarrow> EndpointStatus" where
  "allocatedStatus stamp ep newNode net s =
     (let s1 = (if State s \<noteq> EndpointStatePodDeleted
                then fst (AppendEndpointStatus stamp EndpointStateIPAllocated CodeOk s) else s)
      in s1\<lparr>Networking := Some (net\<lparr>IPs := join '','' (map apIP (Addressing net)), NodeIP := newNode\<rparr>),
            statusIdentifiers := specIdentifiers (epSpec ep)\<rparr>)"

definition update_allocate ::
    "'w mgr_env \<Rightarrow> CCEEndpoint \<Rightarrow> IPAllocation \<Rightarrow> 'w manager \<Rightarrow> (err option \<times> 'w manager) option" where
  "update_allocate M ep al st =
     (let s0 = epStatus ep;
          s1 = (if Networking s0 = None
                then s0\<lparr>Networking := Some \<lparr>Addressing = [], NodeIP = NodeName al, IPs = []\<rparr>\<rparr> else s0)
      in case provider_AllocateIP M (ep\<lparr>epStatus := s1\<rparr>) st of
           None \<Rightarrow> None
         | Some ((e, s2), st') \<Rightarrow>
             (let stamp = mg_stamp M (mworld st') in
              case (e, Networking s2) of
                (None, Some net) \<Rightarrow>
                  if Addressing net = []
                  then Some (writeStatus M ep (fst (AppendEndpointStatusWithMessage stamp EndpointStateInvalid
                         CodeFailed ''IP allocation failed'' s2)) st')
                  else Some (writeStatus M ep (allocatedStatus stamp ep (NodeName al) net s2) st')
              | _ \<Rightarrow> Some (writeStatus M ep (fst (AppendEndpointStatusWithMessage stamp EndpointStateInvalid CodeFailed
                      (case e of None \<Rightarrow> ''IP allocation failed'' | Some x \<Rightarrow> x) s2)) st')))"

definition update_body ::
    "'w mgr_env \<Rightarrow> CCEEndpoint \<Rightarrow> IPAllocation \<Rightarrow> 'w manager \<Rightarrow> (err option \<times> 'w manager) option" where
  "update_body M ep al st =
     (if State (epStatus ep) = EndpointStatePodDeleted
      then (case handlePodDeletedIPRelease M ep al st of
              (Some e, st') \<Rightarrow> Some (Some e, st')
            | (None, st') \<Rightarrow> Some (writeStatus M ep (epStatus ep) st'))
      else if shouldSkipReuseUpdate ep (NodeName al) then Some (None, st)
      else update_allocate M ep al st)"

definition manager_Update :: "'w mgr_env \<Rightarrow> CCEEndpoint \<Rightarrow> 'w manager \<Rightarrow> (err option \<times> 'w manager) option" where
  "manager_Update M ep st =
     (case specIPAllocation (epSpec ep) of
        None \<Rightarrow> Some (None, st)
      | Some al \<Rightarrow>
          if PSTSName al = [] then Some (None, st)
          else case syncedPool st (cepKey ep) of
            None \<Rightarrow> update_body M ep al st
          | Some stored \<Rightarrow>
              (if stored = [] then update_body M ep al st
               else case compareResourceVersions M (epResourceVersion ep) stored of
                 Inl e \<Rightarrow> Some (Some e, st)
               | Inr newer \<Rightarrow>
                   if newer then update_body M ep al (st\<lparr>syncedPool := (syncedPool st)(cepKey ep := None)\<rparr>)
                   else Some (None, st)))"

section \<open>The handler of deletions\<close>

text \<open>From the label \<open>removeFinalizer\<close> on. The deferred function looks at the variable \<open>err\<close>, whose value
  before is the argument; it is overwritten only when there is a finalizer to remove.\<close>

definition releasePools :: "CCEEndpoint \<Rightarrow> 'w manager \<Rightarrow> 'w manager" where
  "releasePools ep st = st\<lparr>mpools := deleteEndpointAddress ep (mpools st)\<rparr>"

definition removeFinalizer ::
    "'w mgr_env \<Rightarrow> CCEEndpoint \<Rightarrow> op_error option \<Rightarrow> 'w manager \<Rightarrow> err option \<times> 'w manager" where
  "removeFinalizer M ep e st =
     (case FinalizerRemoveRemoteIP ep of
        (ep', True) \<Rightarrow>
          (case mg_Update M ep' (mworld st) of
             (r, w) \<Rightarrow>
               (let st' = st\<lparr>mworld := w, mcalls := mcalls st @ [UpdateCall ep' r]\<rparr> in
                case r of
                  Some x \<Rightarrow> (Some ''failed to remove cep finallizer'', st')
                | None \<Rightarrow> (None, releasePools ep' st')))
      | (ep', False) \<Rightarrow> (None, if e = None then releasePools ep' st else st))"

definition manager_Delete :: "'w mgr_env \<Rightarrow> string \<Rightarrow> string \<Rightarrow> 'w manager \<Rightarrow> err option \<times> 'w manager" where
  "manager_Delete M ns nm st =
     (case mg_cepGet M ns nm (mworld st) of
        Inl (OpNotFound _) \<Rightarrow> (None, st)
      | Inl (OpError e) \<Rightarrow> (Some e, st)
      | Inr ep \<Rightarrow>
          (case specIPAllocation (epSpec ep) of
             None \<Rightarrow> removeFinalizer M ep None st
           | Some al \<Rightarrow>
               if PSTSName al = []
               then (case mg_nrsGet M (NodeName al) (mworld st) of
                       NodeGone \<Rightarrow> removeFinalizer M ep (Some (OpNotFound [])) st
                     | NodeThere \<Rightarrow> (None, releasePools ep st)
                     | NodeLookupError e \<Rightarrow> (None, st))
               else if epAddressing ep = [] then removeFinalizer M ep None st
               else (case mg_NodeEndpoint M ep (mworld st) of
                       OpsError (OpNotFound e) \<Rightarrow> removeFinalizer M ep (Some (OpNotFound e)) st
                     | OpsError (OpError e) \<Rightarrow> (Some e, st)
                     | OpsNil \<Rightarrow> removeFinalizer M ep None st
                     | Ops _ \<Rightarrow>
                         (case callDeleteIP M ((deleteAction ep al)\<lparr>daOwner := ns @ ''/'' @ nm\<rparr>) st of
                            (None, st') \<Rightarrow> removeFinalizer M ep None st'
                          | (Some e, st') \<Rightarrow>
                              if ip_gone e then removeFinalizer M ep (Some e) st'
                              else (Some (case e of OpNotFound x \<Rightarrow> x | OpError x \<Rightarrow> x), st')))))"

section \<open>Start\<close>

text \<open>\<open>Start\<close> after the pools of the listed topology spreads are built.\<close>

definition restorePools :: "CCEEndpoint list \<Rightarrow> 'w manager \<Rightarrow> 'w manager" where
  "restorePools ceps st = st\<lparr>mpools := restoreOccupiedFromCEPs ceps (mpools st)\<rparr>"

section \<open>Calls\<close>

text \<open>The polls of the status only write statuses.\<close>

definition status_writes :: "EndpointStatus \<Rightarrow> mgrCall list \<Rightarrow> bool" where
  "status_writes s cs \<longleftrightarrow> (\<forall>c\<in>set cs. \<exists>ep r. c = UpdateStatusCall ep r \<and> epStatus ep = s)"

lemma pollStatus_calls:
  "pollStatus M ns nm s left st = (r, st') \<Longrightarrow>
   \<exists>cs. mcalls st' = mcalls st @ cs \<and> status_writes s cs \<and> mpools st' = mpools st \<and> syncedPool st' = syncedPool st"
proof (induction left arbitrary: st)
  case (Suc left)
  show ?case
  proof (cases "mg_cepGet M ns nm (mworld st)")
    case (Inr ep)
    define ep' where "ep' = ep\<lparr>epStatus := s\<rparr>"
    obtain x w where x: "mg_UpdateStatus M ep' (mworld st) = (x, w)" by fastforce
    define st2 where "st2 = (\<lambda>e. st\<lparr>mworld := w, mcalls := mcalls st @ [UpdateStatusCall ep' e]\<rparr>)"
    have again: "\<exists>cs. mcalls st' = mcalls st @ cs \<and> status_writes s cs \<and> mpools st' = mpools st \<and> syncedPool st' = syncedPool st"
      if poll: "pollStatus M ns nm s left (st2 e) = (r, st')" for e
    proof -
      from Suc.IH [OF poll] obtain cs where "mcalls st' = mcalls (st2 e) @ cs" "status_writes s cs"
        "mpools st' = mpools (st2 e)" "syncedPool st' = syncedPool (st2 e)" by blast
      then show ?thesis
        by (intro exI [of _ "UpdateStatusCall ep' e # cs"]) (auto simp: st2_def status_writes_def ep'_def)
    qed
    have stop: "\<exists>cs. mcalls (st2 e) = mcalls st @ cs \<and> status_writes s cs \<and> mpools (st2 e) = mpools st \<and>
        syncedPool (st2 e) = syncedPool st" for e
      by (intro exI [of _ "[UpdateStatusCall ep' e]"]) (auto simp: st2_def status_writes_def ep'_def)
    have "(\<exists>e. pollStatus M ns nm s left (st2 e) = (r, st')) \<or> (\<exists>e. st' = st2 e)"
      using Suc.prems Inr x
      by (auto simp: ep'_def [symmetric] st2_def [THEN fun_cong, symmetric] Let_def
          split: sum.splits option.splits write_error.splits)
    with again stop show ?thesis by blast
  qed (use Suc.prems in \<open>simp add: status_writes_def\<close>)
qed (simp add: status_writes_def)

lemma writeStatus_calls:
  assumes "writeStatus M ep s st = (r, st')"
  shows "\<exists>cs. mcalls st' = mcalls st @ cs \<and> status_writes s cs \<and> mpools st' = mpools st"
proof -
  obtain x st2 where "pollStatus M (epNamespace ep) (epName ep) s (mg_attempts M) st = (x, st2)" by fastforce
  from pollStatus_calls [OF this] this assms show ?thesis
    by (auto simp: writeStatus_def split: sum.splits)
qed

text \<open>
  C30: The finalizer of an endpoint goes only after its addresses. When the operator handles the deletion of
  an endpoint with addresses on a node it knows, it first asks the cloud to delete exactly these
  addresses; it removes the finalizer only when the cloud has done so or no longer has them, and it gives
  the addresses back to its own pool only after that. If the cloud fails, the finalizer, the pool and the
  endpoint stay as they are, and the error makes the handler run again.
\<close>

theorem Delete_releases_before_finalizer:
  assumes "mg_cepGet M ns nm (mworld st) = Inr ep" "IsPSTSEndpoint ep" "epAddressing ep \<noteq> []"
    "mg_NodeEndpoint M ep (mworld st) = Ops E" "manager_Delete M ns nm st = (r, st')"
  shows "\<exists>act res. daAddressing act = epAddressing ep \<and> daOwner act = ns @ ''/'' @ nm \<and>
    (if res = None \<or> ip_gone (the res)
     then mcalls st' = mcalls st @ [DeleteIPCall act res] \<and> r = None \<or>
       (\<exists>x. mcalls st' = mcalls st @ [DeleteIPCall act res, UpdateCall (fst (FinalizerRemoveRemoteIP ep)) x] \<and>
          (r = None \<longleftrightarrow> x = None) \<and>
          mpools st' = (if x = None then deleteEndpointAddress ep (mpools st) else mpools st))
     else mcalls st' = mcalls st @ [DeleteIPCall act res] \<and> r \<noteq> None \<and> mpools st' = mpools st)"
proof -
  obtain al where al: "specIPAllocation (epSpec ep) = Some al" "PSTSName al \<noteq> []"
    using assms(2) by (auto simp: IsPSTSEndpoint_def split: option.splits)
  define act where "act = (deleteAction ep al)\<lparr>daOwner := ns @ ''/'' @ nm\<rparr>"
  obtain res st1 where d: "callDeleteIP M act st = (res, st1)" by fastforce
  then have st1: "mcalls st1 = mcalls st @ [DeleteIPCall act res]" "mpools st1 = mpools st"
    by (auto simp: callDeleteIP_def split: prod.splits)
  have act: "daAddressing act = epAddressing ep" "daOwner act = ns @ ''/'' @ nm"
    by (simp_all add: act_def deleteAction_def)
  have go: "manager_Delete M ns nm st =
      (if res = None \<or> ip_gone (the res) then removeFinalizer M ep res st1
       else (Some (case the res of OpNotFound x \<Rightarrow> x | OpError x \<Rightarrow> x), st1))"
    using assms(1,3,4) al d [unfolded act_def] by (cases res) (simp_all add: manager_Delete_def)
  have same: "deleteEndpointAddress (fst (FinalizerRemoveRemoteIP ep)) lp = deleteEndpointAddress ep lp" for lp
    by (simp add: FinalizerRemoveRemoteIP_def deleteEndpointAddress_def cong: if_cong split: option.split)
  show ?thesis
  proof (cases "res = None \<or> ip_gone (the res)")
    case True
    then have rf: "removeFinalizer M ep res st1 = (r, st')" using go assms(5) by simp
    show ?thesis
    proof (cases "RemoteIPFinalizer \<in> set (epFinalizers ep)")
      case fin: True
      obtain x w where "mg_Update M (fst (FinalizerRemoveRemoteIP ep)) (mworld st1) = (x, w)" by fastforce
      then have "mcalls st' = mcalls st @ [DeleteIPCall act res, UpdateCall (fst (FinalizerRemoveRemoteIP ep)) x]"
        "r = None \<longleftrightarrow> x = None"
        "mpools st' = (if x = None then deleteEndpointAddress ep (mpools st) else mpools st)"
        using rf fin st1 same by (auto simp: removeFinalizer_def FinalizerRemoveRemoteIP_def releasePools_def Let_def split: option.splits)
      with act True show ?thesis by auto
    next
      case False
      then have "r = None" "mcalls st' = mcalls st1"
        using rf by (auto simp: removeFinalizer_def FinalizerRemoveRemoteIP_def releasePools_def split: if_splits)
      with act True st1 show ?thesis by auto
    qed
  next
    case False
    with go assms(5) st1 act show ?thesis by auto
  qed
qed

text \<open>An endpoint with one address whose interface the cloud no longer knows.\<close>

definition demo_pair :: AddressPair where
  "demo_pair = \<lparr>apFamily = ''4'', apIP = ''10.0.0.1'', apInterface = [], apSubnet = ''sbn'', apCIDRs = [],
     apGateway = []\<rparr>"

definition demo_endpoint :: CCEEndpoint where
  "demo_endpoint = \<lparr>epNamespace = ''ns'', epName = ''pod'', epResourceVersion = ''7'',
     epFinalizers = [RemoteIPFinalizer], epOwnerUID = [], epDeleting = True,
     epSpec = \<lparr>specIdentifiers = Some \<lparr>K8sNamespace = ''ns'', K8sPodName = ''pod'', ContainerID = ''c1'',
          K8sObjectID = ''u1'', PodName = ''pod'', Netns = ''/n''\<rparr>,
        specIPAllocation = Some \<lparr>AllocType = IPAllocTypeFixed, AllocReleaseStrategy = ReleaseStrategyTTL,
          TTLSecondsAfterDeleted = None, PSTSName = ''p'', NodeName = ''n''\<rparr>\<rparr>,
     epStatus = \<lparr>statusIdentifiers = None, statusLog = [],
        Networking = Some \<lparr>Addressing = [demo_pair], NodeIP = ''n'', IPs = ''10.0.0.1''\<rparr>,
        statusSelector = [], State = EndpointStateIPAllocated\<rparr>\<rparr>"

definition demo_mgr_env :: "nat mgr_env" where
  "demo_mgr_env = \<lparr>mg_NodeEndpoint = \<lambda>_ _. Ops demo_psts_env,
     mg_DeleteIP = \<lambda>_ n. (Some (OpNotFound ''eni''), Suc n),
     mg_pstsGet = \<lambda>_ _ _. Inr demo_psts, mg_cepGet = \<lambda>_ _ _. Inr demo_endpoint, mg_nrsGet = \<lambda>_ _. NodeThere,
     mg_Update = \<lambda>_ n. (None, Suc n), mg_UpdateStatus = \<lambda>ep n. (Inr (Some ep), Suc n),
     mg_parseRV = \<lambda>_. Some 0, mg_stamp = \<lambda>_. [], mg_attempts = 3\<rparr>"

definition demo_manager :: "nat manager" where
  "demo_manager = \<lparr>mpools = [getPSTSPoolID ''ns'' ''p'' ''sbn'' ''4'' \<mapsto> demo_psts_pool], syncedPool = Map.empty,
     mworld = 0, mcalls = []\<rparr>"

theorem Delete_releases_before_finalizer_witness:
  "\<exists>act res. daAddressing act = epAddressing demo_endpoint \<and> daOwner act = ''ns'' @ ''/'' @ ''pod'' \<and>
    (if res = None \<or> ip_gone (the res)
     then mcalls (snd (manager_Delete demo_mgr_env ''ns'' ''pod'' demo_manager)) = mcalls demo_manager @ [DeleteIPCall act res] \<and>
         fst (manager_Delete demo_mgr_env ''ns'' ''pod'' demo_manager) = None \<or>
       (\<exists>x. mcalls (snd (manager_Delete demo_mgr_env ''ns'' ''pod'' demo_manager)) =
            mcalls demo_manager @ [DeleteIPCall act res, UpdateCall (fst (FinalizerRemoveRemoteIP demo_endpoint)) x] \<and>
          (fst (manager_Delete demo_mgr_env ''ns'' ''pod'' demo_manager) = None \<longleftrightarrow> x = None) \<and>
          mpools (snd (manager_Delete demo_mgr_env ''ns'' ''pod'' demo_manager)) =
            (if x = None then deleteEndpointAddress demo_endpoint (mpools demo_manager) else mpools demo_manager))
     else mcalls (snd (manager_Delete demo_mgr_env ''ns'' ''pod'' demo_manager)) = mcalls demo_manager @ [DeleteIPCall act res] \<and>
       fst (manager_Delete demo_mgr_env ''ns'' ''pod'' demo_manager) \<noteq> None \<and>
       mpools (snd (manager_Delete demo_mgr_env ''ns'' ''pod'' demo_manager)) = mpools demo_manager)"
proof (rule Delete_releases_before_finalizer)
  show "mg_cepGet demo_mgr_env ''ns'' ''pod'' (mworld demo_manager) = Inr demo_endpoint" "IsPSTSEndpoint demo_endpoint"
    "epAddressing demo_endpoint \<noteq> []" "mg_NodeEndpoint demo_mgr_env demo_endpoint (mworld demo_manager) = Ops demo_psts_env"
    by (simp_all add: demo_mgr_env_def demo_endpoint_def IsPSTSEndpoint_def epAddressing_def)
qed simp

end
