(* ===== verification/EndpointAgent.thy ===== *)
theory EndpointAgent
  imports Allocators EndpointManager
begin

text \<open>
  The endpoints on the agent (\<open>pkg/endpoint/agent_endpoint_allocator.go\<close>): the CNI requests ADD and DEL, which
  take addresses from the node's IPAM object, or wait for the operator's answer for a pod with a topology
  spread. The IPAM object is the interface \<open>IPAMAllocator\<close>, here the record \<open>IPAMServer\<close> of operations on a
  state \<open>'s\<close>; its contract is the locale \<open>ipam_server\<close>. Kubernetes, with its cache, is a set of functions on
  a state \<open>'w\<close>. The calls that change something are recorded in \<open>agCalls\<close>. \<open>None\<close> is a panic.
\<close>

section \<open>The interfaces and the state\<close>

record 's IPAMServer =
  ipAllocateNext :: "string \<Rightarrow> string \<Rightarrow> 's
    \<Rightarrow> ((AllocationResult option \<times> AllocationResult option \<times> go_error option) \<times> 's) option"
  ipReleaseIPString :: "string \<Rightarrow> 's \<Rightarrow> (go_error option \<times> 's) option"
  ipReleaseIPWithOwner :: "string \<Rightarrow> string \<Rightarrow> 's \<Rightarrow> (go_error option \<times> 's) option"
  ipAllocateIP :: "ip \<Rightarrow> string \<Rightarrow> 's \<Rightarrow> (go_error option \<times> 's) option"
  ipDump :: "'s \<Rightarrow> (string \<times> string) list \<times> (string \<times> string) list"

text \<open>A pod, as far as it is read: \<open>podResources\<close> has the names of the limits and of the requests of every
  container.\<close>

record PodInfo =
  podNS :: string
  podNm :: string
  podUID :: string
  podPhase :: string
  podFixedLabel :: bool
  podTTL :: int
  podIPs :: "string list"
  podResources :: "(string list \<times> string list) list"

text \<open>A topology spread of the pod's namespace with its priority; \<open>pstsMatches\<close> is whether it has no selector,
  or a valid one that matches the labels of the pod.\<close>

record PSTSEntry =
  pstsObject :: PSTS
  pstsPriority :: int
  pstsMatches :: "PodInfo \<Rightarrow> bool"

datatype create_error = AlreadyExists | CreateError string
datatype cep_error = CepConflict | CepNotFound | CepError string

record 'w agent_env =
  ag_isRDMA :: bool
  ag_mac :: string
  ag_ipamType :: string
  ag_typeHPC :: string
  ag_typeERI :: string
  ag_mode :: ipam_mode
  ag_node :: string
  ag_cacheGet :: "string \<Rightarrow> string \<Rightarrow> 'w \<Rightarrow> op_error + CCEEndpoint"
  ag_apiGet :: "string \<Rightarrow> string \<Rightarrow> 'w \<Rightarrow> op_error + CCEEndpoint"
  ag_podGet :: "string \<Rightarrow> string \<Rightarrow> 'w \<Rightarrow> op_error + PodInfo"
  ag_pstsGet :: "string \<Rightarrow> string \<Rightarrow> 'w \<Rightarrow> op_error + PSTS"
  ag_pstsList :: "string \<Rightarrow> 'w \<Rightarrow> err + PSTSEntry list"
  ag_Create :: "CCEEndpoint \<Rightarrow> 'w \<Rightarrow> (create_error + CCEEndpoint) \<times> 'w"
  ag_Update :: "CCEEndpoint \<Rightarrow> 'w \<Rightarrow> (cep_error + CCEEndpoint) \<times> 'w"
  ag_Delete :: "string \<Rightarrow> string \<Rightarrow> 'w \<Rightarrow> op_error option \<times> 'w"
  ag_stamp :: "'w \<Rightarrow> string"
  ag_tick :: "'w \<Rightarrow> 'w"
  ag_attempts :: nat

datatype agentCall =
    CreateCall CCEEndpoint "create_error option"
  | CEPUpdateCall CCEEndpoint "cep_error option"
  | DeleteCall string string "op_error option"
  | ReleaseCall string "go_error option"

record ('s, 'w) agent =
  agIPAM :: 's
  agWorld :: 'w
  agCalls :: "agentCall list"

definition op_text :: "op_error \<Rightarrow> string" where
  "op_text e = (case e of OpNotFound s \<Rightarrow> s | OpError s \<Rightarrow> s)"

definition call_Create :: "'w agent_env \<Rightarrow> CCEEndpoint \<Rightarrow> ('s, 'w) agent
    \<Rightarrow> (create_error + CCEEndpoint) \<times> ('s, 'w) agent" where
  "call_Create E ep st =
     (case ag_Create E ep (agWorld st) of (r, w) \<Rightarrow>
        (r, st\<lparr>agWorld := w, agCalls := agCalls st @
           [CreateCall ep (case r of Inl e \<Rightarrow> Some e | Inr _ \<Rightarrow> None)]\<rparr>))"

definition call_Update :: "'w agent_env \<Rightarrow> CCEEndpoint \<Rightarrow> ('s, 'w) agent
    \<Rightarrow> (cep_error + CCEEndpoint) \<times> ('s, 'w) agent" where
  "call_Update E ep st =
     (case ag_Update E ep (agWorld st) of (r, w) \<Rightarrow>
        (r, st\<lparr>agWorld := w, agCalls := agCalls st @
           [CEPUpdateCall ep (case r of Inl e \<Rightarrow> Some e | Inr _ \<Rightarrow> None)]\<rparr>))"

definition call_Delete :: "'w agent_env \<Rightarrow> string \<Rightarrow> string \<Rightarrow> ('s, 'w) agent
    \<Rightarrow> op_error option \<times> ('s, 'w) agent" where
  "call_Delete E ns nm st =
     (case ag_Delete E ns nm (agWorld st) of (r, w) \<Rightarrow>
        (r, st\<lparr>agWorld := w, agCalls := agCalls st @ [DeleteCall ns nm r]\<rparr>))"

section \<open>Names\<close>

text \<open>\<open>SplitMetaNamespaceKey\<close> of client-go.\<close>

definition splitKey :: "string \<Rightarrow> (string \<times> string) option" where
  "splitKey s = (case split_on (CHR ''/'') s of
     [n] \<Rightarrow> Some ([], n) | [ns, n] \<Rightarrow> Some (ns, n) | _ \<Rightarrow> None)"

definition rdmaSeparator :: string where "rdmaSeparator = ''-rdma-''"

definition plainMac :: "string \<Rightarrow> string" where
  "plainMac mac = filter (\<lambda>c. c \<noteq> CHR '':'' \<and> c \<noteq> CHR ''-'') mac"

definition generateCCERdmaEndpointName :: "string \<Rightarrow> string \<Rightarrow> string" where
  "generateCCERdmaEndpointName pod mac = pod @ rdmaSeparator @ plainMac mac"

definition GetCEPNameFromPodName :: "bool \<Rightarrow> string \<Rightarrow> string \<Rightarrow> string" where
  "GetCEPNameFromPodName rdma pod mac = (if rdma then generateCCERdmaEndpointName pod mac else pod)"

definition IsCCERdmaEndpointName :: "string \<Rightarrow> bool" where
  "IsCCERdmaEndpointName s \<longleftrightarrow> contains_substring s rdmaSeparator"

section \<open>What a pod asks for\<close>

text \<open>The part of a resource name behind \<open>rdma/\<close>.\<close>

definition rdmaTypeOf :: "string \<Rightarrow> string option" where
  "rdmaTypeOf key = (case split_on (CHR ''/'') key of
     [a, b] \<Rightarrow> if a = ''rdma'' then Some b else None | _ \<Rightarrow> None)"

definition hasRDMAResource :: "string list \<Rightarrow> bool" where
  "hasRDMAResource keys = list_ex (\<lambda>k. rdmaTypeOf k \<noteq> None) keys"

definition getRDMAResourceTypes :: "string list \<Rightarrow> string list" where
  "getRDMAResourceTypes keys = List.map_filter rdmaTypeOf keys"

text \<open>The code goes through a map to drop repetitions; the order does not matter to the caller.\<close>

definition getPodRDMAResourceTypes :: "PodInfo \<Rightarrow> string list" where
  "getPodRDMAResourceTypes pod =
     remdups (concat (map (\<lambda>(l, r). getRDMAResourceTypes l @ getRDMAResourceTypes r) (podResources pod)))"

definition wantRoce :: "PodInfo \<Rightarrow> bool" where
  "wantRoce pod = list_ex (\<lambda>(l, r). hasRDMAResource l \<or> hasRDMAResource r) (podResources pod)"

definition isRDMAResourceMatched :: "'w agent_env \<Rightarrow> string \<Rightarrow> bool" where
  "isRDMAResourceMatched E t \<longleftrightarrow>
     (t = ag_typeHPC E \<and> ag_ipamType E = ''rdma_roce'') \<or> (t = ag_typeERI E \<and> ag_ipamType E = ''elastic_rdma'')"

definition isRDMAResourceMatchedMulti :: "'w agent_env \<Rightarrow> string list \<Rightarrow> bool" where
  "isRDMAResourceMatchedMulti E ts = list_ex (isRDMAResourceMatched E) ts"

text \<open>\<open>sort.Slice\<close> sorts up to twelve elements by insertion, so equal priorities keep their order.\<close>

definition SelectPriorityPSTS :: "PSTSEntry list \<Rightarrow> PodInfo \<Rightarrow> PSTS option" where
  "SelectPriorityPSTS es pod =
     (let matched = filter (\<lambda>e. pstsMatches e pod) es
      in if matched = [] then None else Some (pstsObject (last (sort_key pstsPriority matched))))"

definition SelectPSTS :: "'w agent_env \<Rightarrow> PodInfo \<Rightarrow> 'w \<Rightarrow> err + PSTS option" where
  "SelectPSTS E pod w =
     (case ag_pstsList E (podNS pod) w of Inl e \<Rightarrow> Inl e | Inr es \<Rightarrow> Inr (SelectPriorityPSTS es pod))"

section \<open>Giving addresses back\<close>

definition deleteEndpointSafely :: "'w agent_env \<Rightarrow> CCEEndpoint \<Rightarrow> ('s, 'w) agent
    \<Rightarrow> go_error option \<times> ('s, 'w) agent" where
  "deleteEndpointSafely E ep st =
     (case call_Delete E (epNamespace ep) (epName ep) st of
        (None, st') \<Rightarrow> (None, st')
      | (Some (OpNotFound _), st') \<Rightarrow> (None, st')
      | (Some (OpError e), st') \<Rightarrow> (Some (PlainError e), st'))"

text \<open>The loop over the addresses; the errors are only logged.\<close>

fun releaseIPs :: "(string \<Rightarrow> 's \<Rightarrow> (go_error option \<times> 's) option) \<Rightarrow> string list \<Rightarrow> ('s, 'w) agent
    \<Rightarrow> ('s, 'w) agent option" where
  "releaseIPs f [] st = Some st"
| "releaseIPs f (ip # ips) st =
     (if ip = [] then releaseIPs f ips st
      else case f ip (agIPAM st) of
        None \<Rightarrow> None
      | Some (e, s) \<Rightarrow> releaseIPs f ips (st\<lparr>agIPAM := s, agCalls := agCalls st @ [ReleaseCall ip e]\<rparr>))"

text \<open>\<open>RetryOnConflict\<close> with the default back-off: four attempts.\<close>

fun markLoop :: "'w agent_env \<Rightarrow> CCEEndpoint \<Rightarrow> string \<Rightarrow> nat \<Rightarrow> ('s, 'w) agent
    \<Rightarrow> (go_error + bool) \<times> ('s, 'w) agent" where
  "markLoop E ep container 0 st = (Inl (PlainError ''conflict''), st)"
| "markLoop E ep container (Suc left) st =
     (case ag_apiGet E (epNamespace ep) (epName ep) (agWorld st) of
        Inl e \<Rightarrow> (Inl (PlainError (op_text e)), st)
      | Inr latest \<Rightarrow>
          if container \<noteq> [] \<and> \<not> IsSameContainerID (Some latest) container then (Inr False, st)
          else (let marked = latest\<lparr>epStatus := fst (AppendEndpointStatusWithMessage (ag_stamp E (agWorld st))
                      EndpointStatePodDeleted CodeOk ''Pod deleted, IP will be released by Operator''
                      (epStatus latest))\<rparr>
                in case call_Update E marked st of
                     (Inr _, st') \<Rightarrow> (Inr True, st')
                   | (Inl CepConflict, st') \<Rightarrow> markLoop E ep container left st'
                   | (Inl e, st') \<Rightarrow> (Inl (PlainError ''failed to update CEP status to PodDeleted''), st')))"

definition markEndpointAsPodDeleted :: "'w agent_env \<Rightarrow> CCEEndpoint \<Rightarrow> string \<Rightarrow> ('s, 'w) agent
    \<Rightarrow> (go_error + bool) \<times> ('s, 'w) agent" where
  "markEndpointAsPodDeleted E ep container st = markLoop E ep container 4 st"

definition specContainerID :: "CCEEndpoint \<Rightarrow> string" where
  "specContainerID ep = (case specIdentifiers (epSpec ep) of None \<Rightarrow> [] | Some i \<Rightarrow> ContainerID i)"

definition tryDeletePSTS :: "'w agent_env \<Rightarrow> CCEEndpoint \<Rightarrow> IPAllocation \<Rightarrow> ('s, 'w) agent
    \<Rightarrow> go_error option \<times> ('s, 'w) agent" where
  "tryDeletePSTS E ep al st =
     (case ag_pstsGet E (epNamespace ep) (PSTSName al) (agWorld st) of
        Inl (OpNotFound _) \<Rightarrow> deleteEndpointSafely E ep st
      | Inl (OpError e) \<Rightarrow> (Some (PlainError e), st)
      | Inr psts \<Rightarrow>
          (case pstsStrategy psts of
             None \<Rightarrow> deleteEndpointSafely E ep st
           | Some strategy \<Rightarrow>
               if StrategyType strategy = IPAllocTypeFixed
               then (case markEndpointAsPodDeleted E ep (specContainerID ep) st of
                       (Inl e, st') \<Rightarrow> (Some e, st')
                     | (Inr _, st') \<Rightarrow> (None, st'))
               else deleteEndpointSafely E ep st))"

definition podKey :: "string \<times> string \<Rightarrow> string" where
  "podKey p = fst p @ ''/'' @ snd p"

definition tryDeleteDynamic :: "'w agent_env \<Rightarrow> 's IPAMServer \<Rightarrow> CCEEndpoint \<Rightarrow> string \<Rightarrow> bool \<Rightarrow> ('s, 'w) agent
    \<Rightarrow> (go_error option \<times> ('s, 'w) agent) option" where
  "tryDeleteDynamic E S ep own byOwner st =
     map_option (\<lambda>st1. deleteEndpointSafely E ep (snd (call_Update E (ep\<lparr>epFinalizers := []\<rparr>) st1)))
       (releaseIPs (if byOwner then (\<lambda>ip. ipReleaseIPWithOwner S ip own) else ipReleaseIPString S)
          (map apIP (epAddressing ep)) st)"

definition tryDeleteEndpointAfterPodDeleted ::
    "'w agent_env \<Rightarrow> 's IPAMServer \<Rightarrow> CCEEndpoint \<Rightarrow> bool \<Rightarrow> ('s, 'w) agent
     \<Rightarrow> (go_error option \<times> ('s, 'w) agent) option" where
  "tryDeleteEndpointAfterPodDeleted E S ep byOwner st =
     (case GetPodNameFromCEP ep of
        None \<Rightarrow> None
      | Some pod \<Rightarrow>
          (case specIPAllocation (epSpec ep) of
             Some al \<Rightarrow> if PSTSName al \<noteq> [] then Some (tryDeletePSTS E ep al st)
                        else tryDeleteDynamic E S ep (podKey pod) byOwner st
           | None \<Rightarrow> tryDeleteDynamic E S ep (podKey pod) byOwner st))"

text \<open>The endpoint of a name, from the cache, else from the API server: \<open>Inr None\<close> if there is none.\<close>

definition lookupEndpoint :: "'w agent_env \<Rightarrow> string \<Rightarrow> string \<Rightarrow> 'w \<Rightarrow> go_error + CCEEndpoint option" where
  "lookupEndpoint E ns nm w =
     (case ag_cacheGet E ns nm w of
        Inr ep \<Rightarrow> Inr (Some ep)
      | Inl (OpError e) \<Rightarrow> Inl (PlainError e)
      | Inl (OpNotFound _) \<Rightarrow>
          (case ag_apiGet E ns nm w of
             Inr ep \<Rightarrow> Inr (Some ep)
           | Inl (OpNotFound _) \<Rightarrow> Inr None
           | Inl (OpError e) \<Rightarrow> Inl (PlainError e)))"

definition agent_DEL :: "'w agent_env \<Rightarrow> 's IPAMServer \<Rightarrow> string \<Rightarrow> string \<Rightarrow> ('s, 'w) agent
    \<Rightarrow> (go_error option \<times> ('s, 'w) agent) option" where
  "agent_DEL E S own container st =
     (case splitKey own of
        None \<Rightarrow> Some (Some (PlainError ''unexpected key format''), st)
      | Some (ns, pod) \<Rightarrow>
          (case lookupEndpoint E ns (GetCEPNameFromPodName (ag_isRDMA E) pod (ag_mac E)) (agWorld st) of
             Inl e \<Rightarrow> Some (Some e, st)
           | Inr None \<Rightarrow> Some (None, st)
           | Inr (Some ep) \<Rightarrow>
               if IsSameContainerID (Some ep) container
               then tryDeleteEndpointAfterPodDeleted E S ep True st
               else Some (None, st)))"

section \<open>Creating endpoints\<close>

definition NewEndpointTemplate :: "'w agent_env \<Rightarrow> string \<Rightarrow> string \<Rightarrow> PodInfo \<Rightarrow> CCEEndpoint" where
  "NewEndpointTemplate E container netns pod =
     \<lparr>epNamespace = podNS pod, epName = podNm pod, epResourceVersion = [], epFinalizers = [], epOwnerUID = [],
      epDeleting = False,
      epSpec = \<lparr>specIdentifiers = Some \<lparr>K8sNamespace = podNS pod, K8sPodName = podNm pod, ContainerID = container,
            K8sObjectID = podUID pod, PodName = podNm pod, Netns = netns\<rparr>,
          specIPAllocation = Some \<lparr>AllocType = IPAllocTypeElastic, AllocReleaseStrategy = ReleaseStrategyTTL,
            TTLSecondsAfterDeleted = None, PSTSName = [], NodeName = ag_node E\<rparr>\<rparr>,
      epStatus = \<lparr>statusIdentifiers = None, statusLog = [], Networking = None, statusSelector = [],
          State = EndpointStateNone\<rparr>\<rparr>"

text \<open>The polls end with the context: at most \<open>ag_attempts\<close> looks, half a second apart.\<close>

fun waitGone :: "'w agent_env \<Rightarrow> string \<Rightarrow> string \<Rightarrow> nat \<Rightarrow> ('s, 'w) agent \<Rightarrow> go_error option \<times> ('s, 'w) agent" where
  "waitGone E ns nm 0 st = (Some (PlainError ''timed out waiting for the condition''), st)"
| "waitGone E ns nm (Suc left) st =
     (case ag_cacheGet E ns nm (agWorld st) of
        Inl (OpNotFound _) \<Rightarrow> (None, st)
      | _ \<Rightarrow> waitGone E ns nm left (st\<lparr>agWorld := ag_tick E (agWorld st)\<rparr>))"

definition DeleteEndpointAndWait :: "'w agent_env \<Rightarrow> CCEEndpoint option \<Rightarrow> ('s, 'w) agent
    \<Rightarrow> go_error option \<times> ('s, 'w) agent" where
  "DeleteEndpointAndWait E ep_opt st =
     (case ep_opt of
        None \<Rightarrow> (None, st)
      | Some ep \<Rightarrow>
          (case call_Delete E (epNamespace ep) (epName ep) st of
             (Some (OpError e), st') \<Rightarrow> (Some (PlainError ''delete endpoint error''), st')
           | (_, st') \<Rightarrow> waitGone E (epNamespace ep) (epName ep) (ag_attempts E) st'))"

definition recreateCEP :: "'w agent_env \<Rightarrow> CCEEndpoint \<Rightarrow> ('s, 'w) agent
    \<Rightarrow> (go_error + CCEEndpoint) \<times> ('s, 'w) agent" where
  "recreateCEP E ep st =
     (case call_Create E ep st of
        (Inr new, st') \<Rightarrow> (Inr new, st')
      | (Inl (CreateError e), st') \<Rightarrow> (Inl (PlainError ''create endpoint error''), st')
      | (Inl AlreadyExists, st') \<Rightarrow>
          (case DeleteEndpointAndWait E (Some ep) st' of
             (Some e, st2) \<Rightarrow> (Inl (PlainError ''wait endpoint delete error''), st2)
           | (None, st2) \<Rightarrow>
               (case call_Create E ep st2 of
                  (Inr new, st3) \<Rightarrow> (Inr new, st3)
                | (Inl _, st3) \<Rightarrow> (Inl (PlainError ''create endpoint error''), st3))))"

definition ConverteIPAllocation2EndpointAddress :: "ipFamily \<Rightarrow> AllocationResult option \<Rightarrow> AddressPair option" where
  "ConverteIPAllocation2EndpointAddress fam r_opt =
     map_option (\<lambda>r. \<lparr>apFamily = fam, apIP = ip_string (ResultIP r), apInterface = InterfaceNumber r,
       apSubnet = [], apCIDRs = CIDRs r, apGateway = GatewayIP r\<rparr>) r_opt"

text \<open>The status of a dynamic endpoint: the IPv4 address is appended even if it is nil, which \<open>ToIPsString\<close>
  dereferences.\<close>

definition dynamicStatus :: "'w agent_env \<Rightarrow> CCEEndpoint \<Rightarrow> AllocationResult option \<Rightarrow> AllocationResult option
    \<Rightarrow> string \<Rightarrow> EndpointStatus option" where
  "dynamicStatus E ep v4 v6 stamp =
     (let pairs = ConverteIPAllocation2EndpointAddress IPv4Family v4 #
            (if v6 = None then [] else [ConverteIPAllocation2EndpointAddress IPv6Family v6])
      in map_option (\<lambda>t. fst (AppendEndpointStatus stamp EndpointStateIPAllocated CodeOk
             \<lparr>statusIdentifiers = specIdentifiers (epSpec ep), statusLog = [],
              Networking = Some \<lparr>Addressing = map the pairs, NodeIP = ag_node E, IPs = t\<rparr>,
              statusSelector = [], State = EndpointStateNone\<rparr>)) (ToIPsString pairs))"

definition releaseResult :: "'s IPAMServer \<Rightarrow> AllocationResult option \<Rightarrow> ('s, 'w) agent \<Rightarrow> ('s, 'w) agent option" where
  "releaseResult S r_opt st =
     (case r_opt of
        None \<Rightarrow> Some st
      | Some r \<Rightarrow> map_option (\<lambda>(e, s). st\<lparr>agIPAM := s, agCalls := agCalls st @ [ReleaseCall (ip_string (ResultIP r)) e]\<rparr>)
          (ipReleaseIPString S (ip_string (ResultIP r)) (agIPAM st)))"

definition createDynamicEndpoint ::
    "'w agent_env \<Rightarrow> 's IPAMServer \<Rightarrow> CCEEndpoint \<Rightarrow> AllocationResult option \<Rightarrow> AllocationResult option
     \<Rightarrow> ('s, 'w) agent \<Rightarrow> (go_error option \<times> ('s, 'w) agent) option" where
  "createDynamicEndpoint E S ep v4 v6 st =
     (case dynamicStatus E ep v4 v6 (ag_stamp E (agWorld st)) of
        None \<Rightarrow> None
      | Some s \<Rightarrow>
          (case recreateCEP E (ep\<lparr>epStatus := s\<rparr>) st of
             (Inr _, st1) \<Rightarrow> Some (None, st1)
           | (Inl e, st1) \<Rightarrow>
               (case releaseResult S v4 st1 of
                  None \<Rightarrow> None
                | Some st2 \<Rightarrow> map_option (\<lambda>st3. (Some e, st3)) (releaseResult S v6 st2))))"

section \<open>Pods with a topology spread\<close>

text \<open>The time to live is a number of nanoseconds, in the endpoint of seconds.\<close>

definition delegateAllocation :: "PSTS \<Rightarrow> IPAllocation \<Rightarrow> IPAllocation" where
  "delegateAllocation psts al =
     (let al1 = al\<lparr>PSTSName := pstsN psts\<rparr> in
      case pstsStrategy psts of
        None \<Rightarrow> al1
      | Some s \<Rightarrow> al1\<lparr>AllocType := StrategyType s,
          TTLSecondsAfterDeleted :=
            (if StrategyType s = IPAllocTypeFixed
             then (case StrategyTTL s of Some t \<Rightarrow> if t > 0 then Some (t div 10 ^ 9) else None | None \<Rightarrow> None)
             else None)\<rparr>)"

definition createReuseIPEndpoint :: "'w agent_env \<Rightarrow> CCEEndpoint \<Rightarrow> CCEEndpoint \<Rightarrow> ('s, 'w) agent
    \<Rightarrow> (go_error + CCEEndpoint) \<times> ('s, 'w) agent" where
  "createReuseIPEndpoint E newEP oldEP st =
     (let ep1 = (if epSpec newEP \<noteq> epSpec oldEP
                 then oldEP\<lparr>epSpec := epSpec newEP, epFinalizers := epFinalizers newEP\<rparr> else oldEP);
          ep2 = ep1\<lparr>epStatus := fst (AppendEndpointStatus (ag_stamp E (agWorld st)) EndpointStateRestoring CodeOk
                   (epStatus ep1))\<rparr>
      in case call_Update E ep2 st of
           (Inr new, st') \<Rightarrow> (Inr new, st')
         | (Inl _, st') \<Rightarrow> (Inl (PlainError ''update endpoint error''), st'))"

text \<open>The error for another spread reads the allocation of the old endpoint, which may be nil.\<close>

definition createDelegateEndpoint ::
    "'w agent_env \<Rightarrow> PSTS option \<Rightarrow> CCEEndpoint \<Rightarrow> CCEEndpoint option \<Rightarrow> ('s, 'w) agent
     \<Rightarrow> ((go_error + CCEEndpoint) \<times> ('s, 'w) agent) option" where
  "createDelegateEndpoint E psts_opt newEP oldEP st =
     (case psts_opt of
        None \<Rightarrow> Some (Inl (PlainError ''endpoint must use PSTS''), st)
      | Some psts \<Rightarrow>
          (let ep = newEP\<lparr>epSpec := (epSpec newEP)\<lparr>specIPAllocation :=
                 map_option (delegateAllocation psts) (specIPAllocation (epSpec newEP))\<rparr>\<rparr>;
               fixed = (case pstsStrategy psts of None \<Rightarrow> False | Some s \<Rightarrow> StrategyType s = IPAllocTypeFixed)
           in case oldEP of
                Some old \<Rightarrow>
                  if fixed
                  then (case specIPAllocation (epSpec old) of
                          None \<Rightarrow> None
                        | Some al \<Rightarrow>
                            if PSTSName al \<noteq> pstsN psts
                            then Some (Inl (PlainError ''psts name is not equal for reuse ip mode''), st)
                            else Some (createReuseIPEndpoint E ep old st))
                  else (case DeleteEndpointAndWait E (Some old) st of
                          (Some e, st') \<Rightarrow> Some (Inl (PlainError ''wait endpoint delete error''), st')
                        | (None, st') \<Rightarrow> Some (recreateCEP E ep st'))
              | None \<Rightarrow> Some (recreateCEP E ep st)))"

text \<open>The operator's answer for this container.\<close>

definition endpointStatusMatchesSpec :: "CCEEndpoint \<Rightarrow> CCEEndpoint \<Rightarrow> bool" where
  "endpointStatusMatchesSpec ep expected \<longleftrightarrow>
     State (epStatus ep) = EndpointStateIPAllocated \<and> epAddressing ep \<noteq> [] \<and>
     (case (statusIdentifiers (epStatus ep), specIdentifiers (epSpec expected)) of
        (Some a, Some b) \<Rightarrow> K8sObjectID a = K8sObjectID b \<and> ContainerID a = ContainerID b \<and> Netns a = Netns b
      | _ \<Rightarrow> False)"

definition pairResult :: "AddressPair \<Rightarrow> AllocationResult" where
  "pairResult p = (new_result (parse_nil (apIP p)))\<lparr>GatewayIP := apGateway p, InterfaceNumber := apInterface p,
     CIDRs := apCIDRs p\<rparr>"

text \<open>The last address of a family is the result.\<close>

definition familyResult :: "ipFamily \<Rightarrow> AddressPair list \<Rightarrow> AllocationResult option" where
  "familyResult fam ps =
     (case filter (\<lambda>p. apFamily p = fam) ps of [] \<Rightarrow> None | x # xs \<Rightarrow> Some (pairResult (last (x # xs))))"

definition reportedFailure :: "EndpointStatus \<Rightarrow> string option" where
  "reportedFailure s =
     (if State s = EndpointStateInvalid \<and> statusLog s \<noteq> [] \<and> ChangeCode (last (statusLog s)) = CodeFailed
      then Some (if ChangeMessage (last (statusLog s)) = [] then ''operator failed to allocate IP''
                 else ChangeMessage (last (statusLog s)))
      else None)"

fun waitAllocated :: "'w agent_env \<Rightarrow> CCEEndpoint \<Rightarrow> nat \<Rightarrow> ('s, 'w) agent
    \<Rightarrow> (AllocationResult option \<times> AllocationResult option \<times> go_error option) \<times> ('s, 'w) agent" where
  "waitAllocated E newEP 0 st = ((None, None, Some (PlainError ''timed out waiting for the condition'')), st)"
| "waitAllocated E newEP (Suc left) st =
     (case ag_cacheGet E (epNamespace newEP) (epName newEP) (agWorld st) of
        Inl _ \<Rightarrow> waitAllocated E newEP left (st\<lparr>agWorld := ag_tick E (agWorld st)\<rparr>)
      | Inr ep \<Rightarrow>
          (case reportedFailure (epStatus ep) of
             Some msg \<Rightarrow> ((None, None, Some (PlainError msg)), st)
           | None \<Rightarrow>
               if endpointStatusMatchesSpec ep newEP
               then ((familyResult IPv4Family (epAddressing ep), familyResult IPv6Family (epAddressing ep), None), st)
               else waitAllocated E newEP left (st\<lparr>agWorld := ag_tick E (agWorld st)\<rparr>)))"

definition waitEndpointIPAllocated :: "'w agent_env \<Rightarrow> CCEEndpoint \<Rightarrow> ('s, 'w) agent
    \<Rightarrow> (AllocationResult option \<times> AllocationResult option \<times> go_error option) \<times> ('s, 'w) agent" where
  "waitEndpointIPAllocated E newEP st = waitAllocated E newEP (ag_attempts E) st"

section \<open>The request ADD\<close>

definition setAllocation :: "(IPAllocation \<Rightarrow> IPAllocation) \<Rightarrow> CCEEndpoint \<Rightarrow> CCEEndpoint" where
  "setAllocation f ep =
     ep\<lparr>epSpec := (epSpec ep)\<lparr>specIPAllocation := map_option f (specIPAllocation (epSpec ep))\<rparr>\<rparr>"

definition newEndpoint :: "'w agent_env \<Rightarrow> string \<Rightarrow> string \<Rightarrow> PodInfo \<Rightarrow> CCEEndpoint" where
  "newEndpoint E container netns pod =
     (let ep0 = NewEndpointTemplate E container netns pod;
          ep1 = (if podTTL pod \<noteq> 0 then setAllocation (\<lambda>al. al\<lparr>TTLSecondsAfterDeleted := Some (podTTL pod)\<rparr>) ep0 else ep0);
          ep2 = ep1\<lparr>epName := GetCEPNameFromPodName (ag_isRDMA E) (podNm pod) (ag_mac E)\<rparr>;
          ep3 = (if ag_isRDMA E then setAllocation (\<lambda>al. al\<lparr>AllocType := IPAllocTypeRDMA\<rparr>) ep2 else ep2)
      in FinalizerAddRemoteIP ep3)"

text \<open>The dynamic branch: the old endpoint goes first; its error ends the request.\<close>

definition cleanOld :: "'w agent_env \<Rightarrow> 's IPAMServer \<Rightarrow> CCEEndpoint option \<Rightarrow> ('s, 'w) agent
    \<Rightarrow> (go_error option \<times> ('s, 'w) agent) option" where
  "cleanOld E S oldEP st =
     (case oldEP of None \<Rightarrow> Some (None, st) | Some old \<Rightarrow> tryDeleteEndpointAfterPodDeleted E S old True st)"

type_synonym add_result = "AllocationResult option \<times> AllocationResult option \<times> go_error option"

definition addDynamic ::
    "'w agent_env \<Rightarrow> 's IPAMServer \<Rightarrow> string \<Rightarrow> string \<Rightarrow> string \<Rightarrow> CCEEndpoint \<Rightarrow> CCEEndpoint option \<Rightarrow> ('s, 'w) agent
     \<Rightarrow> (add_result \<times> ('s, 'w) agent) option" where
  "addDynamic E S fam own uid newEP oldEP st =
     (case cleanOld E S oldEP st of
        None \<Rightarrow> None
      | Some (Some e, st1) \<Rightarrow> Some ((None, None, Some e), st1)
      | Some (None, st1) \<Rightarrow>
          (case ipAllocateNext S fam own (agIPAM st1) of
             None \<Rightarrow> None
           | Some ((v4, v6, Some e), s) \<Rightarrow> Some ((v4, v6, Some e), st1\<lparr>agIPAM := s\<rparr>)
           | Some ((v4, v6, None), s) \<Rightarrow>
               map_option (\<lambda>(r, st2). ((v4, v6, r), st2))
                 (createDynamicEndpoint E S (newEP\<lparr>epOwnerUID := epOwnerUID newEP @ [uid]\<rparr>) v4 v6 (st1\<lparr>agIPAM := s\<rparr>))))"

definition agent_allocateIP ::
    "'w agent_env \<Rightarrow> 's IPAMServer \<Rightarrow> string \<Rightarrow> string \<Rightarrow> string \<Rightarrow> string \<Rightarrow> PSTS option \<Rightarrow> PodInfo \<Rightarrow> bool
     \<Rightarrow> ('s, 'w) agent \<Rightarrow> (add_result \<times> ('s, 'w) agent) option" where
  "agent_allocateIP E S container fam own netns psts pod fixed st =
     (case lookupEndpoint E (podNS pod) (GetCEPNameFromPodName (ag_isRDMA E) (podNm pod) (ag_mac E)) (agWorld st) of
        Inl e \<Rightarrow> Some ((None, None, Some e), st)
      | Inr oldEP \<Rightarrow>
          (let newEP = newEndpoint E container netns pod in
           if psts = None \<and> \<not> fixed then addDynamic E S fam own (podUID pod) newEP oldEP st
           else (case createDelegateEndpoint E psts newEP oldEP st of
                   None \<Rightarrow> None
                 | Some (Inl e, st1) \<Rightarrow> Some ((None, None, Some e), st1)
                 | Some (Inr ep, st1) \<Rightarrow> Some (waitEndpointIPAllocated E ep st1))))"

definition agent_ADD ::
    "'w agent_env \<Rightarrow> 's IPAMServer \<Rightarrow> string \<Rightarrow> string \<Rightarrow> string \<Rightarrow> string \<Rightarrow> ('s, 'w) agent
     \<Rightarrow> (add_result \<times> ('s, 'w) agent) option" where
  "agent_ADD E S fam own container netns st =
     (case splitKey own of
        None \<Rightarrow> Some ((None, None, Some (PlainError ''unexpected key format'')), st)
      | Some (ns, nm) \<Rightarrow>
          (case ag_podGet E ns nm (agWorld st) of
             Inl e \<Rightarrow> Some ((None, None, Some (PlainError ''get pod error'')), st)
           | Inr pod \<Rightarrow>
               if ag_isRDMA E \<and> \<not> wantRoce pod then Some ((None, None, None), st)
               else if wantRoce pod \<and> ag_ipamType E \<noteq> [] \<and>
                       \<not> isRDMAResourceMatchedMulti E (getPodRDMAResourceTypes pod)
               then Some ((None, None, None), st)
               else if \<not> ag_isRDMA E \<and> ag_mode E = IPAMVpcEni
               then (case SelectPSTS E pod (agWorld st) of
                       Inl e \<Rightarrow> Some ((None, None, Some (PlainError e)), st)
                     | Inr psts \<Rightarrow> agent_allocateIP E S container fam own netns psts pod (podFixedLabel pod) st)
               else agent_allocateIP E S container fam own netns None pod False st))"

section \<open>The contract of the IPAM object\<close>

text \<open>Who owns which address: what an allocation and a release for an owner do to the map of owners.\<close>

definition allocated_to ::
    "string \<Rightarrow> AllocationResult option \<Rightarrow> AllocationResult option \<Rightarrow> go_error option
     \<Rightarrow> (string \<rightharpoonup> string) \<Rightarrow> (string \<rightharpoonup> string) \<Rightarrow> bool" where
  "allocated_to own v4 v6 e m m' \<longleftrightarrow>
     (\<forall>t. m' t = Some own \<longrightarrow> m t = Some own \<or>
        (e = None \<and> (\<exists>r. (v4 = Some r \<or> v6 = Some r) \<and> t = ip_string (ResultIP r)))) \<and>
     (\<forall>r. e = None \<and> (v4 = Some r \<or> v6 = Some r) \<longrightarrow>
        m (ip_string (ResultIP r)) = None \<and> m' (ip_string (ResultIP r)) = Some own) \<and>
     (\<forall>r. e = None \<and> v4 = Some r \<longrightarrow> to4 (ResultIP r) \<noteq> None)"

definition released_by :: "string \<Rightarrow> string \<Rightarrow> (string \<rightharpoonup> string) \<Rightarrow> (string \<rightharpoonup> string)" where
  "released_by own t m =
     (case ParseIP t of None \<Rightarrow> m | Some a \<Rightarrow> if m (ip_string a) = Some own then m(ip_string a := None) else m)"

text \<open>The text of an address reads back as an address with this text.\<close>

definition readable :: "AllocationResult \<Rightarrow> bool" where
  "readable r \<longleftrightarrow>
     (\<exists>a. ParseIP (ip_string (ResultIP r)) = Some a \<and> ip_string a = ip_string (ResultIP r))"

lemma readable_v4: "to4 (ResultIP r) \<noteq> None \<Longrightarrow> readable r"
  using ParseIP_candidate [of "ResultIP r"] by (auto simp: readable_def)

lemma released_by_only: "released_by own t m x = m x \<or> (m x = Some own \<and> released_by own t m x = None)"
  by (auto simp: released_by_def split: option.split)

locale ipam_server =
  fixes S :: "'s IPAMServer"
    and inv :: "'s \<Rightarrow> bool"
    and owners :: "'s \<Rightarrow> (string \<rightharpoonup> string)"
  assumes next_law: "inv s \<Longrightarrow>
        \<exists>v4 v6 e s'. ipAllocateNext S f own s = Some ((v4, v6, e), s') \<and> inv s' \<and>
          allocated_to own v4 v6 e (owners s) (owners s')"
    and release_law: "inv s \<Longrightarrow> ParseIP t = Some a \<Longrightarrow>
        \<exists>e s'. ipReleaseIPString S t s = Some (e, s') \<and> inv s' \<and> owners s' = (owners s)(ip_string a := None)"
    and owned_law: "inv s \<Longrightarrow>
        \<exists>e s'. ipReleaseIPWithOwner S t own s = Some (e, s') \<and> inv s' \<and> owners s' = released_by own t (owners s)"
begin

abbreviation "agOwners st \<equiv> owners (agIPAM st)"
abbreviation "agInv st \<equiv> inv (agIPAM st)"

text \<open>The loop over the addresses of an endpoint, for an owner.\<close>

lemma releaseIPs_owned:
  assumes "agInv st"
  shows "\<exists>st' es. releaseIPs (\<lambda>ip. ipReleaseIPWithOwner S ip own) ips st = Some st' \<and> agInv st' \<and>
    agOwners st' = fold (\<lambda>ip m. if ip = [] then m else released_by own ip m) ips (agOwners st) \<and>
    agWorld st' = agWorld st \<and> agCalls st' = agCalls st @ map2 ReleaseCall (filter (\<lambda>ip. ip \<noteq> []) ips) es \<and>
    length es = length (filter (\<lambda>ip. ip \<noteq> []) ips)"
  using assms
proof (induction ips arbitrary: st)
  case (Cons ip ips)
  show ?case
  proof (cases "ip = []")
    case False
    obtain e s where r: "ipReleaseIPWithOwner S ip own (agIPAM st) = Some (e, s)" "inv s"
      "owners s = released_by own ip (agOwners st)"
      using owned_law [OF Cons.prems] by blast
    let ?st = "st\<lparr>agIPAM := s, agCalls := agCalls st @ [ReleaseCall ip e]\<rparr>"
    obtain st' es where "releaseIPs (\<lambda>ip. ipReleaseIPWithOwner S ip own) ips ?st = Some st'" "agInv st'"
      "agOwners st' = fold (\<lambda>ip m. if ip = [] then m else released_by own ip m) ips (owners s)"
      "agWorld st' = agWorld st"
      "agCalls st' = agCalls ?st @ map2 ReleaseCall (filter (\<lambda>ip. ip \<noteq> []) ips) es"
      "length es = length (filter (\<lambda>ip. ip \<noteq> []) ips)"
      using Cons.IH [of ?st] r(2) by auto
    then show ?thesis using False r by (intro exI [of _ st'] exI [of _ "e # es"]) simp
  qed (use Cons in simp)
qed simp

lemma releaseResult_readable:
  assumes "agInv st" "\<And>r. r_opt = Some r \<Longrightarrow> readable r"
  shows "\<exists>st'. releaseResult S r_opt st = Some st' \<and> agInv st' \<and>
    agOwners st' = (\<lambda>t. if \<exists>r. r_opt = Some r \<and> t = ip_string (ResultIP r) then None else agOwners st t)"
proof (cases r_opt)
  case (Some r)
  obtain a where a: "ParseIP (ip_string (ResultIP r)) = Some a" "ip_string a = ip_string (ResultIP r)"
    using assms(2) [OF Some] by (auto simp: readable_def)
  obtain e s where "ipReleaseIPString S (ip_string (ResultIP r)) (agIPAM st) = Some (e, s)" "inv s"
    "owners s = (agOwners st)(ip_string a := None)"
    using release_law [OF assms(1) a(1)] by blast
  with Some a(2) show ?thesis by (auto simp: releaseResult_def)
qed (use assms(1) in \<open>simp add: releaseResult_def\<close>)

end

text \<open>The calls of the API server leave the IPAM object alone.\<close>

lemma calls_keep:
  "call_Create E ep st = (r, st') \<Longrightarrow> agIPAM st' = agIPAM st"
  "call_Update E ep st = (u, st') \<Longrightarrow> agIPAM st' = agIPAM st"
  "call_Delete E ns nm st = (d, st') \<Longrightarrow> agIPAM st' = agIPAM st"
  by (auto simp: call_Create_def call_Update_def call_Delete_def split: prod.splits)

lemma deleteSafely_keeps: "deleteEndpointSafely E ep st = (r, st') \<Longrightarrow> agIPAM st' = agIPAM st"
  by (auto simp: deleteEndpointSafely_def dest: calls_keep split: prod.splits option.splits op_error.splits)

lemma markLoop_keeps: "markLoop E ep c left st = (r, st') \<Longrightarrow> agIPAM st' = agIPAM st"
proof (induction left arbitrary: st)
  case (Suc left)
  then show ?case
    by (auto simp: Let_def dest!: calls_keep split: sum.splits prod.splits cep_error.splits if_splits)
qed simp

lemma tryDeletePSTS_keeps: "tryDeletePSTS E ep al st = (r, st') \<Longrightarrow> agIPAM st' = agIPAM st"
  by (auto simp: tryDeletePSTS_def markEndpointAsPodDeleted_def
      dest: deleteSafely_keeps markLoop_keeps split: sum.splits prod.splits option.splits op_error.splits if_splits)

lemma waitGone_keeps: "waitGone E ns nm left st = (r, st') \<Longrightarrow> agIPAM st' = agIPAM st"
  by (induction left arbitrary: st) (force split: sum.splits op_error.splits)+

lemma deleteAndWait_keeps: "DeleteEndpointAndWait E ep_opt st = (r, st') \<Longrightarrow> agIPAM st' = agIPAM st"
  by (auto simp: DeleteEndpointAndWait_def dest!: calls_keep waitGone_keeps
      split: option.splits prod.splits op_error.splits)

lemma recreateCEP_keeps: "recreateCEP E ep st = (r, st') \<Longrightarrow> agIPAM st' = agIPAM st"
  by (auto simp: recreateCEP_def dest!: calls_keep deleteAndWait_keeps
      split: sum.splits prod.splits create_error.splits option.splits)

lemma delegate_keeps: "createDelegateEndpoint E psts newEP oldEP st = Some (r, st') \<Longrightarrow> agIPAM st' = agIPAM st"
  by (auto simp: createDelegateEndpoint_def createReuseIPEndpoint_def Let_def
      dest!: calls_keep deleteAndWait_keeps recreateCEP_keeps
      split: option.splits prod.splits sum.splits if_splits)

lemma waitAllocated_keeps: "waitAllocated E ep left st = (r, st') \<Longrightarrow> agIPAM st' = agIPAM st \<and> agCalls st' = agCalls st"
  by (induction left arbitrary: st) (force split: sum.splits option.splits if_splits)+

lemma fold_released:
  "fold (\<lambda>ip m. if ip = [] then m else released_by own ip m) ips m t =
   (if m t = Some own \<and> (\<exists>ip\<in>set ips. ip \<noteq> [] \<and> (\<exists>a. ParseIP ip = Some a \<and> ip_string a = t)) then None else m t)"
proof (induction ips arbitrary: m)
  case (Cons ip ips)
  show ?case
  proof (cases "ip \<noteq> [] \<and> (\<exists>a. ParseIP ip = Some a \<and> m (ip_string a) = Some own)")
    case True
    then obtain a where a: "ip \<noteq> []" "ParseIP ip = Some a" "m (ip_string a) = Some own" by blast
    then have "released_by own ip m = m(ip_string a := None)" by (simp add: released_by_def)
    then show ?thesis using a by (auto simp: Cons.IH)
  next
    case False
    then have "(if ip = [] then m else released_by own ip m) = m" by (auto simp: released_by_def split: option.split)
    then show ?thesis using False by (auto simp: Cons.IH)
  qed
qed simp

context ipam_server
begin

text \<open>Deleting an endpoint releases exactly the addresses of its pod.\<close>

lemma tryDelete_owned:
  assumes "agInv st" "GetPodNameFromCEP ep = Some pod"
  shows "\<exists>r st'. tryDeleteEndpointAfterPodDeleted E S ep True st = Some (r, st') \<and> agInv st' \<and>
    (if IsPSTSEndpoint ep then agIPAM st' = agIPAM st
     else agOwners st' = fold (\<lambda>ip m. if ip = [] then m else released_by (podKey pod) ip m)
              (map apIP (epAddressing ep)) (agOwners st) \<and>
       (\<exists>es u d. length es = length (filter (\<lambda>ip. ip \<noteq> []) (map apIP (epAddressing ep))) \<and>
          agCalls st' = agCalls st @ map2 ReleaseCall (filter (\<lambda>ip. ip \<noteq> []) (map apIP (epAddressing ep))) es @
            [CEPUpdateCall (ep\<lparr>epFinalizers := []\<rparr>) u, DeleteCall (epNamespace ep) (epName ep) d]))"
proof (cases "IsPSTSEndpoint ep")
  case True
  then obtain al where al: "specIPAllocation (epSpec ep) = Some al" "PSTSName al \<noteq> []"
    by (auto simp: IsPSTSEndpoint_def split: option.splits)
  obtain r st' where "tryDeletePSTS E ep al st = (r, st')" by fastforce
  then show ?thesis using tryDeletePSTS_keeps [of E ep al st r st'] assms al True
    by (simp add: tryDeleteEndpointAfterPodDeleted_def)
next
  case False
  let ?ips = "map apIP (epAddressing ep)"
  from releaseIPs_owned [OF assms(1), of "podKey pod" ?ips]
  obtain st1 es where r: "releaseIPs (\<lambda>ip. ipReleaseIPWithOwner S ip (podKey pod)) ?ips st = Some st1" "agInv st1"
    "agOwners st1 = fold (\<lambda>ip m. if ip = [] then m else released_by (podKey pod) ip m) ?ips (agOwners st)"
    "agCalls st1 = agCalls st @ map2 ReleaseCall (filter (\<lambda>ip. ip \<noteq> []) ?ips) es"
    "length es = length (filter (\<lambda>ip. ip \<noteq> []) ?ips)" by blast
  obtain x st2 where u: "call_Update E (ep\<lparr>epFinalizers := []\<rparr>) st1 = (x, st2)" by fastforce
  obtain y st3 where d: "deleteEndpointSafely E ep st2 = (y, st3)" by fastforce
  have "tryDeleteEndpointAfterPodDeleted E S ep True st = Some (y, st3)"
    using False assms(2) r(1) u d
    by (auto simp: tryDeleteEndpointAfterPodDeleted_def tryDeleteDynamic_def IsPSTSEndpoint_def split: option.split)
  moreover have "agIPAM st3 = agIPAM st1" using calls_keep(2) [OF u] deleteSafely_keeps [OF d] by simp
  moreover obtain ux where "agCalls st2 = agCalls st1 @ [CEPUpdateCall (ep\<lparr>epFinalizers := []\<rparr>) ux]"
    using u by (auto simp: call_Update_def split: prod.splits)
  moreover obtain dx where "agCalls st3 = agCalls st2 @ [DeleteCall (epNamespace ep) (epName ep) dx]"
    using d by (auto simp: deleteEndpointSafely_def call_Delete_def split: prod.splits option.splits op_error.splits)
  ultimately show ?thesis using False r by (auto intro!: exI [of _ es])
qed

lemma fold_released_only:
  "fold (\<lambda>ip m. if ip = [] then m else released_by own ip m) ips m x \<in> {m x, None}"
proof (induction ips arbitrary: m)
  case (Cons ip ips)
  show ?case using Cons.IH [of m] Cons.IH [of "released_by own ip m"] released_by_only [of own ip m x] by auto
qed simp

lemma cleanOld_owned:
  assumes "agInv st" "cleanOld E S old st = Some (r, st')"
  shows "agInv st'" "agOwners st' t = Some x \<Longrightarrow> agOwners st t = Some x"
proof -
  have "agInv st' \<and> (agOwners st' t = agOwners st t \<or> agOwners st' t = None)"
  proof (cases old)
    case (Some ep)
    then have run: "tryDeleteEndpointAfterPodDeleted E S ep True st = Some (r, st')"
      using assms(2) by (simp add: cleanOld_def)
    then obtain pod where pod: "GetPodNameFromCEP ep = Some pod"
      by (auto simp: tryDeleteEndpointAfterPodDeleted_def split: option.splits)
    from tryDelete_owned [OF assms(1) pod, of E] run fold_released_only [of "podKey pod" "map apIP (epAddressing ep)" "agOwners st" t]
    show ?thesis by (auto split: if_splits)
  qed (use assms in \<open>simp add: cleanOld_def\<close>)
  then show "agInv st'" "agOwners st' t = Some x \<Longrightarrow> agOwners st t = Some x" by auto
qed

text \<open>What is left of an allocation when the endpoint cannot be created: nothing.\<close>

lemma createDynamic_gives_back:
  assumes "agInv st" "createDynamicEndpoint E S ep v4 v6 st = Some (Some e, st')"
    "\<And>r. v4 = Some r \<or> v6 = Some r \<Longrightarrow> readable r"
  shows "agInv st'" "agOwners st' t = Some x \<Longrightarrow>
    agOwners st t = Some x \<and> (\<forall>r. v4 = Some r \<or> v6 = Some r \<longrightarrow> t \<noteq> ip_string (ResultIP r))"
proof -
  obtain st1 st2 where c: "agIPAM st1 = agIPAM st" "releaseResult S v4 st1 = Some st2" "releaseResult S v6 st2 = Some st'"
    using assms(2) by (auto simp: createDynamicEndpoint_def dest: recreateCEP_keeps
        split: option.splits prod.splits sum.splits)
  have eq: "agOwners st1 = agOwners st" "agInv st1" using c(1) assms(1) by simp_all
  from releaseResult_readable [OF eq(2), of v4, unfolded eq(1)] c(2) assms(3)
  have two: "agInv st2" "agOwners st2 = (\<lambda>t. if \<exists>r. v4 = Some r \<and> t = ip_string (ResultIP r) then None else agOwners st t)"
    by auto
  from releaseResult_readable [of st2 v6] c(3) two(1) assms(3)
  have three: "agInv st'" "agOwners st' = (\<lambda>t. if \<exists>r. v6 = Some r \<and> t = ip_string (ResultIP r) then None else agOwners st2 t)"
    by auto
  show "agInv st'" by (rule three)
  show "agOwners st t = Some x \<and> (\<forall>r. v4 = Some r \<or> v6 = Some r \<longrightarrow> t \<noteq> ip_string (ResultIP r))"
    if "agOwners st' t = Some x" using that unfolding three(2) two(2) by (auto split: if_splits)
qed

lemma addDynamic_owned:
  assumes "agInv st" "addDynamic E S fam own uid newEP old st = Some ((v4, v6, e), st')"
    "\<And>r. v6 = Some r \<Longrightarrow> readable r" "e \<noteq> None" "agOwners st' t = Some own"
  shows "agOwners st t = Some own"
proof -
  obtain r st1 where c: "cleanOld E S old st = Some (r, st1)"
    using assms(2) by (auto simp: addDynamic_def split: option.splits)
  note clean = cleanOld_owned [OF assms(1) c]
  show ?thesis
  proof (cases r)
    case (Some x)
    then have "st' = st1" using c assms(2) by (simp add: addDynamic_def)
    with clean(2) assms(5) show ?thesis by blast
  next
    case None
    obtain w4 w6 f s where n: "ipAllocateNext S fam own (agIPAM st1) = Some ((w4, w6, f), s)" "inv s"
      "allocated_to own w4 w6 f (agOwners st1) (owners s)"
      using next_law [OF clean(1)] by blast
    have only: "\<And>t. owners s t = Some own \<Longrightarrow> agOwners st1 t = Some own \<or>
        (f = None \<and> (\<exists>r. (w4 = Some r \<or> w6 = Some r) \<and> t = ip_string (ResultIP r)))"
      and v4: "\<And>r. f = None \<Longrightarrow> w4 = Some r \<Longrightarrow> to4 (ResultIP r) \<noteq> None"
      using n(3) by (auto simp: allocated_to_def)
    have go: "addDynamic E S fam own uid newEP old st = (case f of
        Some e \<Rightarrow> Some ((w4, w6, Some e), st1\<lparr>agIPAM := s\<rparr>)
      | None \<Rightarrow> map_option (\<lambda>(r, st2). ((w4, w6, r), st2))
          (createDynamicEndpoint E S (newEP\<lparr>epOwnerUID := epOwnerUID newEP @ [uid]\<rparr>) w4 w6 (st1\<lparr>agIPAM := s\<rparr>)))"
      using c None n(1) by (simp add: addDynamic_def split: option.split)
    show ?thesis
    proof (cases f)
      case (Some x)
      then have "st' = st1\<lparr>agIPAM := s\<rparr>" using go assms(2) by simp
      with only [of t] Some assms(5) clean(2) show ?thesis by auto
    next
      case f: None
      have w: "w4 = v4" "w6 = v6" and run: "createDynamicEndpoint E S (newEP\<lparr>epOwnerUID := epOwnerUID newEP @ [uid]\<rparr>)
          v4 v6 (st1\<lparr>agIPAM := s\<rparr>) = Some (e, st')"
      proof -
        have "map_option (\<lambda>(r, st2). ((w4, w6, r), st2))
          (createDynamicEndpoint E S (newEP\<lparr>epOwnerUID := epOwnerUID newEP @ [uid]\<rparr>) w4 w6 (st1\<lparr>agIPAM := s\<rparr>)) =
          Some ((v4, v6, e), st')" using go f assms(2) by simp
        then show "w4 = v4" "w6 = v6" "createDynamicEndpoint E S (newEP\<lparr>epOwnerUID := epOwnerUID newEP @ [uid]\<rparr>)
          v4 v6 (st1\<lparr>agIPAM := s\<rparr>) = Some (e, st')" by auto
      qed
      obtain x where "e = Some x" using assms(4) by auto
      note given = createDynamic_gives_back(2) [OF _ run [unfolded this], of t own]
      have "owners s t = Some own \<and> (\<forall>r. v4 = Some r \<or> v6 = Some r \<longrightarrow> t \<noteq> ip_string (ResultIP r))"
        using given n(2) assms(3,5) readable_v4 v4 f w by auto
      with only [of t] w clean(2) show ?thesis by blast
    qed
  qed
qed

lemma ADD_owned:
  assumes "agInv st" "agent_ADD E S fam own c netns st = Some ((v4, v6, e), st')"
    "\<And>r. v6 = Some r \<Longrightarrow> readable r" "e \<noteq> None" "agOwners st' t = Some own"
  shows "agOwners st t = Some own"
proof -
  have alloc: "agOwners st t = Some own"
    if "agent_allocateIP E S c fam own netns psts pod fixed st = Some ((v4, v6, e), st')" for psts pod fixed
  proof (cases "lookupEndpoint E (podNS pod) (GetCEPNameFromPodName (ag_isRDMA E) (podNm pod) (ag_mac E)) (agWorld st)")
    case (Inr old)
    show ?thesis
    proof (cases "psts = None \<and> \<not> fixed")
      case True
      then show ?thesis using that Inr addDynamic_owned [OF assms(1) _ assms(3-5)]
        by (auto simp: agent_allocateIP_def)
    next
      case False
      then have "agIPAM st' = agIPAM st"
        using that Inr
        by (auto simp: agent_allocateIP_def waitEndpointIPAllocated_def Let_def
            dest!: delegate_keeps waitAllocated_keeps split: option.splits sum.splits if_splits)
      with assms(5) show ?thesis by simp
    qed
  qed (use that assms(5) in \<open>simp add: agent_allocateIP_def\<close>)
  show ?thesis using assms(2,5) alloc
    by (auto simp: agent_ADD_def split: option.splits sum.splits if_splits)
qed

end

text \<open>A created endpoint shows the addresses of the allocation.\<close>

definition result_texts :: "AllocationResult option \<Rightarrow> AllocationResult option \<Rightarrow> string list" where
  "result_texts v4 v6 = map (\<lambda>r. ip_string (ResultIP r)) (List.map_filter id [v4, v6])"

lemma recreateCEP_created:
  "recreateCEP E ep st = (Inr new, st') \<Longrightarrow> \<exists>cs. agCalls st' = cs @ [CreateCall ep None]"
  by (auto simp: recreateCEP_def call_Create_def split: sum.splits prod.splits create_error.splits option.splits)

lemma createDynamic_created:
  assumes "createDynamicEndpoint E S ep v4 v6 st = Some (None, st')"
  shows "agIPAM st' = agIPAM st" "\<exists>ep' cs. agCalls st' = cs @ [CreateCall ep' None] \<and> epSpec ep' = epSpec ep \<and>
    map apIP (epAddressing ep') = result_texts v4 v6"
proof -
  obtain s where s: "dynamicStatus E ep v4 v6 (ag_stamp E (agWorld st)) = Some s"
    using assms by (auto simp: createDynamicEndpoint_def split: option.splits)
  obtain new where run: "recreateCEP E (ep\<lparr>epStatus := s\<rparr>) st = (Inr new, st')"
    using assms s by (auto simp: createDynamicEndpoint_def split: prod.splits sum.splits option.splits)
  from recreateCEP_keeps [OF run] show "agIPAM st' = agIPAM st" .
  obtain r4 where "v4 = Some r4"
    using s by (cases v4) (auto simp: dynamicStatus_def ToIPsString_def ConverteIPAllocation2EndpointAddress_def)
  then have "map apIP (epAddressing (ep\<lparr>epStatus := s\<rparr>)) = result_texts v4 v6"
    using s by (cases v6) (auto simp: dynamicStatus_def epAddressing_def result_texts_def map_filter_simps
        ConverteIPAllocation2EndpointAddress_def AppendEndpointStatus_def AppendEndpointStatusWithMessage_def)
  with recreateCEP_created [OF run] show "\<exists>ep' cs. agCalls st' = cs @ [CreateCall ep' None] \<and> epSpec ep' = epSpec ep \<and>
    map apIP (epAddressing ep') = result_texts v4 v6" by fastforce
qed

lemma newEndpoint_container: "specContainerID (newEndpoint E c netns pod\<lparr>epOwnerUID := us\<rparr>) = c"
  by (simp add: newEndpoint_def NewEndpointTemplate_def setAllocation_def specContainerID_def FinalizerAddRemoteIP_def Let_def)

context ipam_server
begin

lemma addDynamic_created:
  assumes "agInv st" "addDynamic E S fam own uid newEP old st = Some ((v4, v6, None), st')"
  shows "\<exists>ep cs. agCalls st' = cs @ [CreateCall ep None] \<and> epSpec ep = epSpec newEP \<and>
    map apIP (epAddressing ep) = result_texts v4 v6 \<and> (\<forall>t\<in>set (result_texts v4 v6). agOwners st' t = Some own)"
proof -
  obtain st1 where c: "cleanOld E S old st = Some (None, st1)"
    using assms(2) by (auto simp: addDynamic_def split: option.splits)
  obtain w4 w6 f s where n: "ipAllocateNext S fam own (agIPAM st1) = Some ((w4, w6, f), s)" "inv s"
    "allocated_to own w4 w6 f (agOwners st1) (owners s)"
    using next_law [OF cleanOld_owned(1) [OF assms(1) c]] by blast
  have f: "f = None" using c n(1) assms(2) by (cases f) (auto simp: addDynamic_def)
  have "map_option (\<lambda>(r, st2). ((w4, w6, r), st2))
      (createDynamicEndpoint E S (newEP\<lparr>epOwnerUID := epOwnerUID newEP @ [uid]\<rparr>) w4 w6 (st1\<lparr>agIPAM := s\<rparr>)) =
      Some ((v4, v6, None), st')" using assms(2)
    by (simp only: addDynamic_def c n(1) [unfolded f] option.case prod.case)
  then have w: "w4 = v4" "w6 = v6" and run: "createDynamicEndpoint E S (newEP\<lparr>epOwnerUID := epOwnerUID newEP @ [uid]\<rparr>)
      v4 v6 (st1\<lparr>agIPAM := s\<rparr>) = Some (None, st')" by auto
  have "owners s t = Some own" if "t \<in> set (result_texts v4 v6)" for t
    using n(3) that f w by (auto simp: allocated_to_def result_texts_def map_filter_simps split: option.splits)
  then show ?thesis using createDynamic_created [OF run] by auto
qed

lemma ADD_created:
  assumes "agInv st" "agent_ADD E S fam own c netns st = Some ((v4, v6, None), st')" "v4 \<noteq> None \<or> v6 \<noteq> None"
    "ag_isRDMA E \<or> ag_mode E \<noteq> IPAMVpcEni"
  shows "\<exists>ep cs. agCalls st' = cs @ [CreateCall ep None] \<and> specContainerID ep = c \<and>
    map apIP (epAddressing ep) = result_texts v4 v6 \<and> (\<forall>t\<in>set (result_texts v4 v6). agOwners st' t = Some own)"
proof -
  obtain pod where run: "agent_allocateIP E S c fam own netns None pod False st = Some ((v4, v6, None), st')"
    using assms(2-4) by (auto simp: agent_ADD_def split: option.splits sum.splits if_splits)
  then obtain old where "addDynamic E S fam own (podUID pod) (newEndpoint E c netns pod) old st = Some ((v4, v6, None), st')"
    by (auto simp: agent_allocateIP_def split: sum.splits)
  from addDynamic_created [OF assms(1) this] newEndpoint_container [where c = c and E = E and netns = netns and pod = pod]
  show ?thesis by (auto simp: specContainerID_def)
qed

end

section \<open>The IPAM object behind the interface\<close>

text \<open>\<open>ord\<close> is the order in which the runtime visits a map of strings.\<close>

definition facade_server :: "('a, 'h) Allocator \<Rightarrow> ((string \<rightharpoonup> string) \<Rightarrow> string list) \<Rightarrow> ('a, 'h) IPAM IPAMServer" where
  "facade_server A ord =
     \<lparr>ipAllocateNext = AllocateNext A,
      ipReleaseIPString = (\<lambda>s st. ReleaseIPString A (ord (owner st)) s st),
      ipReleaseIPWithOwner = ReleaseIPWithOwner A,
      ipAllocateIP = (\<lambda>a own st. map_option (\<lambda>(r, st'). (case r of Inl e \<Rightarrow> Some e | Inr _ \<Rightarrow> None, st'))
          (allocateIP A a own False st)),
      ipDump = (\<lambda>st. case ipam_Dump A st of (m4, m6, _) \<Rightarrow>
          (map (\<lambda>k. (k, the (m4 k))) (ord m4), map (\<lambda>k. (k, the (m6 k))) (ord m6)))\<rparr>"

context allocator
begin

lemma AllocateNext4_v4:
  assumes "inv st" "AllocateNext4 ops f own v6 st = Some ((Some r, w6, None), st')"
  shows "DeriveFamily (ResultIP r) = IPv4"
proof -
  obtain x st2 where "allocateNextFamily ops IPv4 own True st = Some (Inr x, st2)" "x = r"
    using assms(2) by (auto simp: AllocateNext4_def split: if_splits option.splits sum.splits)
  with allocateNextFamily_correct [OF assms(1), of IPv4 own True] show ?thesis by auto
qed

lemma AllocateNext_v4:
  assumes "inv st" "AllocateNext ops f own st = Some ((Some r, v6, None), st')"
  shows "DeriveFamily (ResultIP r) = IPv4"
proof (cases "(f = IPv6 \<or> f = []) \<and> IPv6Allocator st \<noteq> None")
  case True
  then obtain x st1 where six: "allocateNextFamily ops IPv6 own True st = Some (Inr x, st1)"
    "AllocateNext4 ops f own (Some x) st1 = Some ((Some r, v6, None), st')"
    using assms(2) by (auto simp: AllocateNext_def split: option.splits sum.splits)
  have "inv st1" using allocateNextFamily_correct [OF assms(1), of IPv6 own True] six(1) by auto
  with six(2) show ?thesis by (rule AllocateNext4_v4 [rotated])
next
  case False
  then have "AllocateNext4 ops f own None st = Some ((Some r, v6, None), st')"
    using assms(2) unfolding AllocateNext_def by (simp only: if_False)
  with assms(1) show ?thesis by (rule AllocateNext4_v4)
qed

end

lemma pair_ok_allocated:
  assumes "pair_ok own st v4 v6 e st'" "\<And>r. e = None \<Longrightarrow> v4 = Some r \<Longrightarrow> to4 (ResultIP r) \<noteq> None"
  shows "allocated_to own v4 v6 e (owner st) (owner st')"
  unfolding allocated_to_def
proof (intro conjI allI impI)
  fix t assume t: "owner st' t = Some own"
  show "owner st t = Some own \<or> e = None \<and> (\<exists>r. (v4 = Some r \<or> v6 = Some r) \<and> t = ip_string (ResultIP r))"
  proof (cases "owner st t")
    case None
    from pair_okD(2) [OF assms(1) this] t show ?thesis by (auto simp: blacklisted_owner_def)
  next
    case (Some x)
    from pair_okD(1) [OF assms(1) this] t Some show ?thesis by simp
  qed
qed (use pair_okD(3) [OF assms(1)] assms(2) in blast)+

interpretation sv: ipam_server "facade_server (world_ops env R) ord" "world_inv env R" owner
proof (unfold_locales)
  fix s :: "(handle, 'a world) IPAM" and own f
  assume inv: "world_inv env R s"
  from al.AllocateNext_correct [OF inv [unfolded world_inv_def]]
  obtain v4 v6 e s' where n: "AllocateNext (world_ops env R) f own s = Some ((v4, v6, e), s')"
    "world_inv env R s'" "pair_ok own s v4 v6 e s'" unfolding world_inv_def by blast
  have "to4 (ResultIP r) \<noteq> None" if "e = None" "v4 = Some r" for r
    using al.AllocateNext_v4 [OF inv [unfolded world_inv_def] n(1) [unfolded that]]
    by (auto simp: DeriveFamily_def IPv4_def IPv6_def split: if_splits)
  with n pair_ok_allocated [OF n(3)]
  show "\<exists>v4 v6 e s'. ipAllocateNext (facade_server (world_ops env R) ord) f own s = Some ((v4, v6, e), s') \<and>
      world_inv env R s' \<and> allocated_to own v4 v6 e (owner s) (owner s')"
    by (auto simp: facade_server_def)
next
  fix s :: "(handle, 'a world) IPAM" and t a
  assume inv: "world_inv env R s" and t: "ParseIP t = Some a"
  from al.releaseIPLocked_correct [OF inv [unfolded world_inv_def], of a]
  obtain e s' where "releaseIPLocked (world_ops env R) a s = Some (e, s')" "world_inv env R s'"
    "owner s' = (owner s)(ip_string a := None)"
    unfolding world_inv_def by (auto split: option.splits simp: fun_upd_idem)
  with t show "\<exists>e s'. ipReleaseIPString (facade_server (world_ops env R) ord) t s = Some (e, s') \<and>
      world_inv env R s' \<and> owner s' = (owner s)(ip_string a := None)"
    by (auto simp: facade_server_def ReleaseIPString_def split: option.split)
next
  fix s :: "(handle, 'a world) IPAM" and t own
  assume inv: "world_inv env R s"
  show "\<exists>e s'. ipReleaseIPWithOwner (facade_server (world_ops env R) ord) t own s = Some (e, s') \<and>
      world_inv env R s' \<and> owner s' = released_by own t (owner s)"
  proof (cases "\<exists>a. ParseIP t = Some a \<and> owner s (ip_string a) = Some own")
    case True
    then obtain a where a: "ParseIP t = Some a" "owner s (ip_string a) = Some own" by blast
    from al.releaseIPLocked_correct [OF inv [unfolded world_inv_def], of a] a
    show ?thesis unfolding world_inv_def
      by (auto simp: facade_server_def ReleaseIPWithOwner_def released_by_def split: option.splits)
  next
    case False
    then show ?thesis using inv
      by (auto simp: facade_server_def ReleaseIPWithOwner_def released_by_def split: option.splits)
  qed
qed

section \<open>The operator's answers\<close>

text \<open>A status the operator writes is an answer for the container of the endpoint it handles, or none.\<close>

definition answers :: "CCEEndpoint \<Rightarrow> EndpointStatus \<Rightarrow> bool" where
  "answers ep s \<longleftrightarrow> (State s = EndpointStateIPAllocated \<longrightarrow> statusIdentifiers s = specIdentifiers (epSpec ep))"

definition answer_calls :: "CCEEndpoint \<Rightarrow> mgrCall list \<Rightarrow> bool" where
  "answer_calls ep cs \<longleftrightarrow> (\<forall>ep' r. UpdateStatusCall ep' r \<in> set cs \<longrightarrow> answers ep (epStatus ep'))"

lemma writeStatus_answers:
  assumes "writeStatus M ep' s st = (r, st')" "answers ep s"
  shows "\<exists>cs. mcalls st' = mcalls st @ cs \<and> answer_calls ep cs"
  using writeStatus_calls [OF assms(1)] assms(2)
  by (fastforce simp: answer_calls_def status_writes_def)

lemma provider_calls: "provider_AllocateIP M ep st = Some (r, st') \<Longrightarrow> mcalls st' = mcalls st"
  by (auto simp: provider_AllocateIP_def Let_def split: option.splits sum.splits nodeOps.splits op_error.splits
      if_splits prod.splits)

lemma failed_answers: "answers ep (fst (AppendEndpointStatusWithMessage t EndpointStateInvalid CodeFailed m s))"
proof -
  obtain s' b where "AppendEndpointStatusWithMessage t EndpointStateInvalid CodeFailed m s = (s', b)" by fastforce
  with AppendEndpointStatus_log(1) [OF this] show ?thesis by (simp add: answers_def)
qed

lemma update_allocate_answers:
  assumes "update_allocate M ep al st = Some (r, st')"
  shows "\<exists>cs. mcalls st' = mcalls st @ cs \<and> answer_calls ep cs"
proof -
  define ep1 where "ep1 = ep\<lparr>epStatus := (if Networking (epStatus ep) = None
      then (epStatus ep)\<lparr>Networking := Some \<lparr>Addressing = [], NodeIP = NodeName al, IPs = []\<rparr>\<rparr> else epStatus ep)\<rparr>"
  obtain e s2 st1 where p: "provider_AllocateIP M ep1 st = Some ((e, s2), st1)"
    using assms by (auto simp: update_allocate_def Let_def ep1_def split: option.splits)
  have allocated: "answers ep (allocatedStatus t ep n net s2)" for t n net
    by (simp add: answers_def allocatedStatus_def Let_def)
  have "\<exists>s. writeStatus M ep s st1 = (r, st') \<and> answers ep s"
  proof (cases e)
    case (Some x)
    then show ?thesis using assms p failed_answers
      by (auto simp: update_allocate_def Let_def ep1_def)
  next
    case None
    then show ?thesis using assms p failed_answers allocated
      by (cases "Networking s2") (auto simp: update_allocate_def Let_def ep1_def simp del: split_paired_Ex split: if_splits)
  qed
  then obtain s where "writeStatus M ep s st1 = (r, st')" "answers ep s" by blast
  from writeStatus_answers [OF this] provider_calls [OF p] show ?thesis by simp
qed

lemma callDeleteIP_calls: "callDeleteIP M act st = (r, st') \<Longrightarrow> mcalls st' = mcalls st @ [DeleteIPCall act r]"
  by (auto simp: callDeleteIP_def split: prod.splits)

lemma podDeleted_answers:
  "handlePodDeletedIPRelease M ep al st = (r, st') \<Longrightarrow> \<exists>cs. mcalls st' = mcalls st @ cs \<and> answer_calls ep cs"
  by (auto simp: handlePodDeletedIPRelease_def answer_calls_def dest!: callDeleteIP_calls
      split: if_splits nodeOps.splits op_error.splits prod.splits option.splits)

lemma answer_calls_append [simp]: "answer_calls ep (cs @ ds) \<longleftrightarrow> answer_calls ep cs \<and> answer_calls ep ds"
  by (auto simp: answer_calls_def)

lemma update_body_answers:
  assumes "update_body M ep al st = Some (r, st')"
  shows "\<exists>cs. mcalls st' = mcalls st @ cs \<and> answer_calls ep cs"
proof (cases "State (epStatus ep) = EndpointStatePodDeleted")
  case True
  obtain e st1 where p: "handlePodDeletedIPRelease M ep al st = (e, st1)" by fastforce
  obtain cs where cs: "mcalls st1 = mcalls st @ cs" "answer_calls ep cs" using podDeleted_answers [OF p] by blast
  show ?thesis
  proof (cases e)
    case (Some x)
    then show ?thesis using assms True p cs by (auto simp: update_body_def)
  next
    case None
    then have "writeStatus M ep (epStatus ep) st1 = (r, st')" using assms True p by (simp add: update_body_def)
    from writeStatus_answers [OF this, of ep] True cs show ?thesis by (auto simp: answers_def)
  qed
next
  case False
  then show ?thesis using assms update_allocate_answers [of M ep al st r st']
    by (auto simp: update_body_def answer_calls_def split: if_splits)
qed

lemma manager_Update_answers:
  assumes "manager_Update M ep st = Some (r, st')"
  shows "\<exists>cs. mcalls st' = mcalls st @ cs \<and> answer_calls ep cs"
proof -
  have same: ?thesis if "st' = st" using that by (simp add: answer_calls_def)
  have body: ?thesis if "update_body M ep al st1 = Some (r, st')" "mcalls st1 = mcalls st" for al st1
    using update_body_answers [OF that(1)] that(2) by simp
  show ?thesis using assms same body
    by (auto simp: manager_Update_def split: option.splits sum.splits if_splits)
qed

section \<open>Properties\<close>



text \<open>
  C33: The agent never takes the operator's answer for another container as its own. Whatever the operator
  writes while it handles an endpoint, the waiting agent accepts it only if the endpoint named the agent's
  own container, network namespace and pod when the operator read it; an endpoint that still holds the
  addresses of the previous container of the pod is not accepted.
\<close>

theorem agent_accepts_own_answer:
  assumes "manager_Update M ep st = Some (r, st')" "mcalls st' = mcalls st @ cs"
    "mgrCall.UpdateStatusCall ep' w \<in> set cs" "endpointStatusMatchesSpec ep' expected"
  shows "\<exists>i j. specIdentifiers (epSpec ep) = Some i \<and> specIdentifiers (epSpec expected) = Some j \<and>
    K8sObjectID i = K8sObjectID j \<and> ContainerID i = ContainerID j \<and> Netns i = Netns j"
proof -
  have "answers ep (epStatus ep')"
    using manager_Update_answers [OF assms(1)] assms(2,3) by (auto simp: answer_calls_def)
  then show ?thesis using assms(4)
    by (auto simp: answers_def endpointStatusMatchesSpec_def split: option.splits)
qed

section \<open>Concrete runs\<close>

definition demo_pod :: PodInfo where
  "demo_pod = \<lparr>podNS = ''ns'', podNm = ''pod'', podUID = ''u1'', podPhase = ''Running'', podFixedLabel = False,
     podTTL = 0, podIPs = [], podResources = []\<rparr>"

text \<open>An API server that creates nothing, an endpoint of the pod in the cache or none.\<close>

definition demo_agent_env :: "CCEEndpoint option \<Rightarrow> nat agent_env" where
  "demo_agent_env ep = \<lparr>ag_isRDMA = False, ag_mac = [], ag_ipamType = [], ag_typeHPC = ''hca'', ag_typeERI = ''ehca'',
     ag_mode = IPAMKubernetes, ag_node = ''n'',
     ag_cacheGet = (\<lambda>_ _ _. case ep of None \<Rightarrow> Inl (OpNotFound []) | Some x \<Rightarrow> Inr x),
     ag_apiGet = (\<lambda>_ _ _. case ep of None \<Rightarrow> Inl (OpNotFound []) | Some x \<Rightarrow> Inr x),
     ag_podGet = (\<lambda>_ _ _. Inr demo_pod), ag_pstsGet = (\<lambda>_ _ _. Inr demo_psts), ag_pstsList = (\<lambda>_ _. Inr []),
     ag_Create = (\<lambda>_ n. (Inl (CreateError []), Suc n)), ag_Update = (\<lambda>x n. (Inr x, Suc n)),
     ag_Delete = (\<lambda>_ _ n. (None, Suc n)), ag_stamp = (\<lambda>_. []), ag_tick = Suc, ag_attempts = 3\<rparr>"

text \<open>A node with one address, in host scope.\<close>

definition demo_host_world :: "listRange world" where
  "demo_host_world = demo_world\<lparr>wHost := (\<lambda>_. \<lparr>lrNet = demo_net, lrCandidates = [[10, 0, 0, 1]], lrUsed = []\<rparr>)\<rparr>"

definition demo_host :: "(handle, listRange world) IPAM" where
  "demo_host = newIPAM_state None (Some (HostScope IPv4)) demo_host_world"

definition demo_agent :: "((handle, listRange world) IPAM, nat) agent" where
  "demo_agent = \<lparr>agIPAM = demo_host, agWorld = 0, agCalls = []\<rparr>"

abbreviation demo_server :: "(handle, listRange world) IPAM IPAMServer" where
  "demo_server \<equiv> facade_server (world_ops (hs_env IPAMCRD) (list_range_ops [])) (\<lambda>_. [])"

lemma demo_net_v4: "net_family IPv4 demo_net"
proof -
  have "networkNumberAndMask demo_net = Some ([10, 0, 0, 0], [255, 255, 255, 0])" by code_simp
  then show ?thesis
    by (auto simp: net_family_def net_contains_def DeriveFamily_def to4_def split: option.splits if_splits)
qed

lemma demo_host_inv: "world_inv (hs_env IPAMCRD) (list_range_ops []) demo_host"
  using hs_store_ok(1) demo_net_v4 list_range_laws
  by (simp add: world_inv_def ipam_inv_def demo_host_def newIPAM_state_def demo_host_world_def demo_world_def
      world_good_def handle_live_def agent_ok_def range_ok_def list_range_ops_def)

lemma demo_allocate:
  "AllocateNext (world_ops (hs_env IPAMCRD) (list_range_ops [])) [] own demo_host =
     Some ((Some (new_result [10, 0, 0, 1]), None, None),
       demo_host\<lparr>owner := [''10.0.0.1'' \<mapsto> own],
         heap := demo_host_world\<lparr>wHost := (wHost demo_host_world)
           (IPv4 := \<lparr>lrNet = demo_net, lrCandidates = [[10, 0, 0, 1]], lrUsed = [''10.0.0.1'']\<rparr>)\<rparr>\<rparr>)"
proof -
  have "lr_free \<lparr>lrNet = demo_net, lrCandidates = [[10, 0, 0, 1]], lrUsed = []\<rparr> = [[10, 0, 0, 1]]" by code_simp
  moreover have "ip_string [10, 0, 0, 1] = ''10.0.0.1''" by code_simp
  ultimately show ?thesis
    by (subst AllocateNext_def, subst AllocateNext4_def)
      (simp add: demo_host_def newIPAM_state_def allocateNextFamily_def allocateNextLoop.simps world_ops_def
        do_allocateNext_def host_AllocateNext_def list_range_ops_def demo_host_world_def blacklist_Contains_def
        new_result_def IPv4_def IPv6_def)
qed

lemma demo_ADD:
  "\<exists>st'. agent_ADD (demo_agent_env None) demo_server [] ''ns/pod'' ''c1'' ''/n'' demo_agent =
     Some ((Some (new_result [10, 0, 0, 1]), None, Some (PlainError ''create endpoint error'')), st')"
proof -
  have split: "splitKey ''ns/pod'' = Some (''ns'', ''pod'')" by code_simp
  have parse: "ParseIP ''10.0.0.1'' = Some [0, 0, 0, 0, 0, 0, 0, 0, 0, 0, 255, 255, 10, 0, 0, 1]" by code_simp
  have shown: "ip_string [10, 0, 0, 1] = ''10.0.0.1''" by code_simp
  have dualText: "ip_string [0, 0, 0, 0, 0, 0, 0, 0, 0, 0, 255, 255, 10, 0, 0, 1] = ''10.0.0.1''" by code_simp
  have nxt: "ipAllocateNext demo_server [] own demo_host = AllocateNext (world_ops (hs_env IPAMCRD) (list_range_ops [])) [] own demo_host" for own
    by (simp add: facade_server_def)
  have dual: "to4 [0, 0, 0, 0, 0, 0, 0, 0, 0, 0, 255, 255, 10, 0, 0, 1] = Some [10, 0, 0, 1]" by code_simp
  show ?thesis
    by (simp add: agent_ADD_def split demo_agent_env_def demo_agent_def wantRoce_def demo_pod_def agent_allocateIP_def
        lookupEndpoint_def addDynamic_def cleanOld_def nxt demo_allocate createDynamicEndpoint_def dynamicStatus_def
        ToIPsString_def ConverteIPAllocation2EndpointAddress_def recreateCEP_def call_Create_def releaseResult_def
        new_result_def shown Let_def)
      (simp add: facade_server_def releaseResult_def shown dualText ReleaseIPString_def parse releaseIPLocked_def family_allocator_def dual
        demo_host_def newIPAM_state_def world_ops_def do_release_def host_Release_def list_range_ops_def)
qed


definition demo_dynamic :: CCEEndpoint where
  "demo_dynamic = demo_endpoint\<lparr>epSpec := (epSpec demo_endpoint)\<lparr>specIPAllocation := None\<rparr>\<rparr>"


text \<open>The operator moves the address of a restarted pod; the agent waits for its container.\<close>

definition demo_answered :: "mgrCall list" where
  "demo_answered = (case manager_Update demo_mgr_env demo_endpoint (demo_manager\<lparr>mworld := 1\<rparr>) of
     None \<Rightarrow> [] | Some (r, st') \<Rightarrow> mcalls st')"

theorem agent_accepts_own_answer_witness:
  "\<exists>ep' w. mgrCall.UpdateStatusCall ep' w \<in> set demo_answered \<and> endpointStatusMatchesSpec ep' demo_endpoint \<and>
     (\<exists>i j. specIdentifiers (epSpec demo_endpoint) = Some i \<and> specIdentifiers (epSpec demo_endpoint) = Some j \<and>
        K8sObjectID i = K8sObjectID j \<and> ContainerID i = ContainerID j \<and> Netns i = Netns j)"
proof -
  have "case manager_Update demo_mgr_env demo_endpoint (demo_manager\<lparr>mworld := 1\<rparr>) of
      Some (r, st') \<Rightarrow> list_ex (\<lambda>c. case c of mgrCall.UpdateStatusCall ep' w \<Rightarrow> endpointStatusMatchesSpec ep' demo_endpoint
        | _ \<Rightarrow> False) (mcalls st')
    | None \<Rightarrow> False" by code_simp
  then obtain r st' c where run: "manager_Update demo_mgr_env demo_endpoint (demo_manager\<lparr>mworld := 1\<rparr>) = Some (r, st')"
    "c \<in> set (mcalls st')"
    "case c of mgrCall.UpdateStatusCall ep' w \<Rightarrow> endpointStatusMatchesSpec ep' demo_endpoint | _ \<Rightarrow> False"
    by (auto simp: list_ex_iff split: option.splits)
  obtain ep' w where c: "c = mgrCall.UpdateStatusCall ep' w" "endpointStatusMatchesSpec ep' demo_endpoint"
    using run(3) by (cases c) auto
  have "mcalls st' = mcalls (demo_manager\<lparr>mworld := 1\<rparr>) @ mcalls st'"
    by (simp add: demo_manager_def)
  from agent_accepts_own_answer [OF run(1) this run(2) [unfolded c(1)] c(2)] run c show ?thesis
    by (auto simp: demo_answered_def)
qed

end
