(* ===== verification/Spec2Isabelle.thy ===== *)
theory Spec2Isabelle
  imports IPRange IPText CIDRMath IPAMTypes PodCIDRPool CRDAllocator AgentHandshake IPAMFacade Allocators
    CIDRLists NodesPodCIDR ClusterPool PoolStats NetResource NodeMaintenance NodeProps HandshakeSystem
    Subnets EniNode EniOverlay EniProps EniMachine EniMachineProps EniSync ClientTokens
    PSTSPool EndpointTypes PSTSAllocator EndpointManager EndpointAgent
begin

text \<open>
  The address management of the CCE network driver (\<open>cce-network-v2\<close>). All paths below are under
  \<open>src/cce-network-v2\<close>.

  \<^bold>\<open>The program.\<close> An agent on every node hands out addresses to pods; an operator, one for the cluster,
  keeps the pool of every node filled. They exchange their states through the NetResourceSet object
  of the node: the operator writes the pool and the addresses it wants back, the agent writes the
  addresses in use and its answers. In one mode the pool is a list of pod CIDRs the operator assigns
  to the node; in the other it is the list of secondary addresses of network interfaces (ENI) that
  the operator creates, attaches, fills and empties through the cloud's API. Every interface has an
  object of its own, which the operator's state machine keeps in step with the cloud.

  \<^bold>\<open>The agent.\<close>
  \<^item> \<open>IPAMFacade\<close>: the IPAM object (\<open>pkg/ipam/allocator.go\<close>, \<open>types.go\<close>, \<open>blacklist.go\<close>), that is
    owners, blacklist, expiration timers, dual-stack allocation, over the Go interface \<open>Allocator\<close>.
    The interface is the record \<open>Allocator\<close> of operations on a heap, its contract the locale
    \<open>allocator\<close>, in which the client's lemmas are proved once.
  \<^item> \<open>Allocators\<close>: the implementations of the interface (\<open>hostscope.go\<close>, \<open>clusterpool.go\<close>, \<open>crd.go\<close>,
    \<open>noop_allocator.go\<close>), \<open>NewIPAM\<close> (\<open>ipam.go\<close>), the interpretation of the locale on them, and the
    properties of the IPAM object that follow: exclusiveness, all-or-nothing dual-stack allocation,
    release only for the owner, the timer that fires late.
  \<^item> \<open>PodCIDRPool\<close>: the pool of pod CIDRs (\<open>clusterpool.go\<close>): allocation, the status report to the
    operator, updates of the list of CIDRs. The vendored \<open>ipallocator.Range\<close> is the record of
    parameters \<open>range_ops\<close>, what is relied on is the predicate \<open>range_laws\<close>.
  \<^item> \<open>CRDAllocator\<close>, \<open>AgentHandshake\<close>: the agent's copy of its NetResourceSet and the allocators on it
    (\<open>crd.go\<close>), with the agent's half of the release handshake; a step relation over all operations.

  \<^bold>\<open>The operator, pod CIDRs.\<close>
  \<^item> \<open>NodesPodCIDR\<close>: \<open>pkg/ipam/allocator/podcidr/podcidr.go\<close> and the undo stack \<open>pkg/revert\<close>, with the loop
    variable that the undo closures share under the \<open>go 1.20\<close> directive. The vendored \<open>cidrset\<close> is
    the record of parameters \<open>cidr_ops\<close>.
  \<^item> \<open>ClusterPool\<close>: construction (\<open>clusterpool/clusterpool.go\<close>), \<open>syncToK8s\<close>, and the properties: no pod
    CIDR has two owners in a reachable state, and the undo defect.
  \<^item> \<open>CIDRLists\<close>: \<open>pkg/cidr\<close>; \<open>CIDRMath\<close>, \<open>IPRange\<close>, \<open>IPText\<close>: \<open>pkg/ip\<close>, over \<open>GoNet\<close>, the part of Go's
    package \<open>net\<close> that is used.

  \<^bold>\<open>The operator, interfaces.\<close>
  \<^item> \<open>PoolStats\<close>, \<open>NetResource\<close>: the pool of a node (\<open>pkg/ipam/net_resource.go\<close>): statistics, the
    maintenance that allocates, marks, releases and creates interfaces, and the synchronisation with
    the API server. The cloud side is the interface \<open>NetResourceOperations\<close>, here the parameters
    \<open>net_ops\<close>. \<open>NodeMaintenance\<close>, \<open>NodeProps\<close>: what they guarantee over every history of a node.
  \<^item> \<open>HandshakeSystem\<close>: agent, operator and the object between them, in every interleaving, with writes
    refused when they are based on an old version.
  \<^item> \<open>EniNode\<close>: the cloud side of a node (\<open>pkg/bce/vpceni/node_super.go\<close> with parts of \<open>node_bcc_eni.go\<close>
    and \<open>node_bcc.go\<close>); \<open>EniOverlay\<close>: the correction of the pool by changes the informer does not show
    yet; \<open>EniProps\<close>: releasing with retries, allocating in batches.
  \<^item> \<open>Subnets\<close>: addresses of a subnet lent to interfaces (\<open>pkg/bce/bcesync/borrowed_subnet.go\<close> and parts of
    \<open>subnet.go\<close>), with a ledger as the specification it refines.
  \<^item> \<open>EniMachine\<close>, \<open>EniMachineProps\<close>: the state machine of an interface object, its finalizers and its
    removal (\<open>pkg/bce/bcesync/eni.go\<close>, status logs of \<open>cce_eni_utils.go\<close>); \<open>EniSync\<close>: the synchronisation
    with the cloud at start-up (\<open>remote_eni_syncer.go\<close>, \<open>remote_eri_syncer.go\<close>, \<open>sync.go\<close>).
  \<^item> \<open>ClientTokens\<close>: the tokens that make calls of the cloud idempotent (\<open>pkg/bce/utils/client_token.go\<close>).

  \<^bold>\<open>Endpoints, on both sides.\<close> A pod has an endpoint object, through which agent and operator agree on its
  addresses. A pod with a topology spread gets an address from the reserved ranges of its spread.
  \<^item> \<open>EndpointTypes\<close>: the object and what both sides do with it (\<open>endpoint_utils.go\<close>, all under \<open>pkg/endpoint\<close>).
  \<^item> \<open>PSTSPool\<close>: the ring of addresses of one range pool with its cursor and the rest after a refusal
    (\<open>psts_local_pool.go\<close>): a free address is found whenever there is one, and a change of the ranges keeps
    the cursor and what is in use.
  \<^item> \<open>PSTSAllocator\<close>: the pools of a spread (\<open>endpoint_indexer.go\<close>) and the search of an address the cloud
    accepts (\<open>operator_psts_manager_provider.go\<close>): it ends, its calls are bounded, and it leaves nothing
    behind unless it succeeds; the back-off that never grows.
  \<^item> \<open>EndpointManager\<close>: the handlers of updates and deletions (\<open>operator_endpoint_manager.go\<close>): the finalizer
    of an endpoint goes only after its addresses.
  \<^item> \<open>EndpointAgent\<close>: the CNI requests ADD and DEL on the agent (\<open>agent_endpoint_allocator.go\<close>), with the
    choice of a spread (\<open>psts_selector.go\<close>) and the wait for the operator. What they use of the IPAM object is
    the locale \<open>ipam_server\<close>, interpreted on the model of \<open>IPAMFacade\<close>: ADD is all or nothing, DEL touches
    only its own container, and the agent takes only an answer of the operator that names its container.

  \<^bold>\<open>How the code is represented.\<close> A struct is a record, an operation a function that returns the new
  state; a method of a pointer takes and returns the record. An error is \<open>Inl\<close> or \<open>Some err\<close>; a nil
  dereference, an index out of range or a loop that does not end is the value \<open>None\<close> of an option
  where the code can reach it. A Go map is a partial function, and where the runtime's iteration
  order matters the order is an argument that \<open>iter_order\<close> restricts. Go's \<open>int\<close> is \<open>int\<close>, with the
  64-bit wrap-around written out (\<open>go_int\<close>) in \<open>PoolStats\<close>, where a user sets the operands; \<open>uint32\<close>
  and bytes are words. The state behind an API, a cache or the cloud is a type variable with the calls
  as functions on it, so a property about them holds for every behaviour of these services that its
  hypotheses allow; \<open>trace\<close> (\<open>NetResource\<close>) and \<open>calls\<close> (\<open>EniMachine\<close>) record the calls in their order.
  An operation that holds its lock throughout is one step; handlers that drop the lock in between are
  composed of the steps under the lock, and the step relations \<open>agent_step\<close>, \<open>nr_step\<close>, \<open>sys_step\<close>,
  \<open>pc_reachable\<close>, \<open>resyncs\<close> interleave the operations in any order.

  \<^bold>\<open>Bounds.\<close> \<open>ipv4Loop\<close>, \<open>ipv6Loop\<close>, \<open>ipsFrom\<close>, \<open>allocateNextLoop\<close> and \<open>releaseLoop\<close> may run for ever in the
  code and are \<^theory_text>\<open>partial_function (option)\<close>; that they return is proved separately where they do, and
  that they do not where they do not. \<open>updateAttempts\<close> is 31: a poll that starts at once and repeats for
  thirty periods. The eight rounds of \<open>parse_v6_groups\<close> read all groups of an address. \<open>removeFuel\<close> gives
  every CIDR of the list 130 rounds: a CIDR is split at most once, into at most 128 parts, and every part is
  visited once. Batches have ten addresses
  (\<open>BatchAddOrDeleteIPLimit\<close>) or a hundred subnets; an update is tried three times, an elastic RDMA
  object five times. A pod's address is refused by the cloud at most ten times (\<open>maxVPCConflictRetries\<close>);
  \<open>mg_attempts\<close>, how often a status is written before the deadline, and \<open>ag_attempts\<close>, how often the agent
  looks for an answer, are any numbers; an update of an endpoint by the agent is tried four times.

  \<^bold>\<open>Not modelled.\<close> Metrics, events, logging, node conditions and the wiring of informers, controllers and
  triggers. Of \<open>pkg/ip\<close>: \<open>CoalesceCIDRs\<close>. Of \<open>vpceni\<close>: the refresh of quotas, the creation of interface
  objects, direct allocation for pods with fixed addresses, bare-metal and HPAS nodes. Of \<open>bcesync\<close>: the
  synchronisers of subnets and security groups. Of \<open>pkg/endpoint\<close>: the restore at start-up
  and the garbage collection of the agent, the tracker of pods, the webhook. RDMA, the datapath (netlink, tc,
  routes), CNI plugins, webhooks, commands, clients of the cloud's and of Kubernetes' API, generated and
  vendored code, and the separate controllers of the repository: they are input and output, glue, or
  have no logic that can be stated apart from the services they call.
\<close>

end
